(* ===== verification/Prelude.thy ===== *)
theory Prelude
  imports Main "HOL-Library.Word"
begin

unbundle bit_operations_syntax

text \<open>
  What every theory of the development shares: the machine integer types of the Go code, the result
  of a Go call that may panic, the waiting loop over clock readings, and the arithmetic of packed
  identifiers (a number of bit fields joined by shifts and \<open>|\<close>).
\<close>

section \<open>Types of the code\<close>

type_synonym int64 = "64 word"
type_synonym int32 = "32 word"
type_synonym byte = "8 word"

text \<open>A call that either returns or panics (with the message of the panic).\<close>

datatype 'a outcome = Ret 'a | Panic string

fun bind_outcome :: "'a outcome \<Rightarrow> ('a \<Rightarrow> 'b outcome) \<Rightarrow> 'b outcome" where
  "bind_outcome (Ret x) f = f x"
| "bind_outcome (Panic m) f = Panic m"

fun is_ret :: "'a outcome \<Rightarrow> bool" where
  "is_ret (Ret _) = True"
| "is_ret (Panic _) = False"

lemma bind_outcome_Ret_iff:
  "bind_outcome m f = Ret y \<longleftrightarrow> (\<exists>x. m = Ret x \<and> f x = Ret y)"
  by (cases m) auto

named_theorems packed_simps \<open>arithmetic of packed identifiers\<close>

section \<open>Waiting loops\<close>

text \<open>
  A loop \<open>for now <= last { time.Sleep(d); now = clock() }\<close> entered with its guard true reads
  the clock until the guard fails. The clock is the list of the readings the call will see:
  \<open>None\<close> is a call that is still waiting when the readings end.
\<close>

fun wait_while :: "('r \<Rightarrow> bool) \<Rightarrow> 'r list \<Rightarrow> ('r \<times> 'r list) option" where
  "wait_while P [] = None"
| "wait_while P (r # rs) = (if P r then wait_while P rs else Some (r, rs))"

lemma wait_while_Some:
  "wait_while P rs = Some (r, rest) \<Longrightarrow> \<not> P r \<and> r \<in> set rs"
  by (induction rs) (auto split: if_splits)

lemma wait_while_returns:
  "wait_while P rs \<noteq> None \<longleftrightarrow> (\<exists>r\<in>set rs. \<not> P r)"
  by (induction rs) auto

lemma wait_while_rest:
  "wait_while P rs = Some (r, rest) \<Longrightarrow> \<exists>pre. rs = pre @ r # rest \<and> (\<forall>x\<in>set pre. P x)"
proof (induction rs)
  case (Cons a rs)
  show ?case
  proof (cases "P a")
    case True
    with Cons obtain pre where "rs = pre @ r # rest" "\<forall>x\<in>set pre. P x" by auto
    with True show ?thesis by (intro exI [of _ "a # pre"]) auto
  qed (use Cons.prems in auto)
qed simp

section \<open>Packed identifiers\<close>

lemma int_or_disjoint:
  fixes k l :: int
  assumes "0 \<le> l" "l < 2 ^ n"
  shows "push_bit n k OR l = k * 2 ^ n + l"
proof -
  have l: "take_bit n l = l"
    using assms by (simp add: take_bit_int_eq_self)
  have "push_bit n k AND take_bit n l = 0"
    by (rule bit_eqI) (auto simp: bit_and_iff bit_push_bit_iff bit_take_bit_iff)
  then have "push_bit n k OR l = push_bit n k + l"
    using l by (simp add: disjunctive_add_eq_or [symmetric])
  then show ?thesis by (simp add: push_bit_eq_mult)
qed

lemma uint_push_bit_small:
  fixes a :: "'a::len word"
  assumes "uint a * 2 ^ n < 2 ^ LENGTH('a)"
  shows "uint (push_bit n a) = uint a * 2 ^ n"
  unfolding unsigned_push_bit_eq using assms by (simp add: push_bit_eq_mult take_bit_int_eq_self)

lemma uint_or_disjoint:
  fixes a b :: "'a::len word"
  assumes "uint a * 2 ^ n < 2 ^ LENGTH('a)" and "uint b < 2 ^ n"
  shows "uint (push_bit n a OR b) = uint a * 2 ^ n + uint b"
proof -
  have "uint (push_bit n a OR b) = (uint a * 2 ^ n) OR uint b"
    using assms(1) by (simp add: unsigned_or_eq uint_push_bit_small)
  also have "\<dots> = push_bit n (uint a) OR uint b"
    by (simp add: push_bit_eq_mult)
  also have "\<dots> = uint a * 2 ^ n + uint b"
    using assms(2) by (simp add: int_or_disjoint)
  finally show ?thesis .
qed

lemma sint_eq_uint_small:
  fixes a :: "64 word"
  assumes "uint a < 2 ^ 63"
  shows "sint a = uint a"
proof -
  have "- (2 ^ 63) \<le> uint a" by (rule order_trans [of _ 0]) simp_all
  then show ?thesis
    using assms by (simp add: sint_uint signed_take_bit_int_eq_self_iff)
qed

lemma uint_and_mask:
  fixes x :: "'a::len word"
  shows "uint (x AND mask n) = uint x mod 2 ^ n"
proof -
  have "uint (x AND mask n) = uint (take_bit n x)" by (simp add: take_bit_eq_mask)
  also have "\<dots> = take_bit n (uint x)" by (simp add: unsigned_take_bit_eq)
  finally show ?thesis by (simp add: take_bit_eq_mod)
qed

lemma sint_uint_64:
  fixes x :: int64
  shows "sint x = (if uint x < 2 ^ 63 then uint x else uint x - 2 ^ 64)"
proof (cases "uint x < 2 ^ 63")
  case True
  then show ?thesis by (simp add: sint_eq_uint_small)
next
  case False
  have l: "uint x < 2 ^ 64" using uint_lt2p [of x] by simp
  have "uint x div 2 ^ 63 = 1" using False l by (intro int_div_pos_eq [where r = "uint x - 2 ^ 63"]) simp_all
  then have "bit (uint x) 63" by (simp only: bit_iff_odd) simp
  moreover have "take_bit 64 (uint x) = uint x" using l by (simp add: take_bit_int_eq_self)
  ultimately show ?thesis
    using False by (simp add: sint_uint signed_take_bit_eq_take_bit_minus)
qed

lemma sint_nonneg_64:
  fixes x :: int64
  assumes "0 \<le> sint x"
  shows "sint x = uint x" and "uint x < 2 ^ 63"
proof -
  have "uint x < 2 ^ 64" using uint_lt2p [of x] by simp
  with assms have *: "uint x < 2 ^ 63" by (simp add: sint_uint_64 split: if_splits)
  then show "sint x = uint x" by (rule sint_eq_uint_small)
  from * show "uint x < 2 ^ 63" .
qed

lemma field_split [packed_simps]:
  fixes k l :: int
  assumes "0 \<le> l" "l < 2 ^ n"
  shows "(k * 2 ^ n + l) div 2 ^ n = k" and "(k * 2 ^ n + l) mod 2 ^ n = l"
  using assms by simp_all

lemma sint_add_small:
  fixes i b :: int64
  assumes "- (2 ^ 63) \<le> sint i + sint b" "sint i + sint b < 2 ^ 63"
  shows "sint (i + b) = sint i + sint b"
  using assms by (simp add: sint_word_add signed_take_bit_int_eq_self_iff)

lemma sint_diff_small:
  fixes i b :: int64
  assumes "- (2 ^ 63) \<le> sint i - sint b" "sint i - sint b < 2 ^ 63"
  shows "sint (i - b) = sint i - sint b"
  using assms by (simp add: sint_word_diff signed_take_bit_int_eq_self_iff)

lemma sint_word_of_int_64:
  assumes "- (2 ^ 63) \<le> v" "v < 2 ^ 63"
  shows "sint (word_of_int v :: int64) = v"
  using assms by (simp add: signed_of_int signed_take_bit_int_eq_self_iff)

end
