(* ===== verification/IdGenerator.thy ===== *)
theory IdGenerator
  imports Prelude
begin

text \<open>
  The interface of an identifier generator (the Go interface \<open>Snowflake\<close> of
  \<open>pkg/distribute/snowflake.go\<close> and the package function \<open>ids.NewID\<close>): a call reads the clock,
  moves the generator's state and returns an \<open>int64\<close>. The clock is the list of the readings the
  calls will see, threaded through them. The contract is that every call moves the state's key (the
  last identifier handed out, read as an integer) strictly up and returns it.
\<close>

fun gen_run ::
  "('s \<Rightarrow> 'c \<Rightarrow> (int64 \<times> 's \<times> 'c) option) \<Rightarrow> nat \<Rightarrow> 's \<Rightarrow> 'c \<Rightarrow> (int64 list \<times> 's \<times> 'c) option"
where
  "gen_run f 0 s c = Some ([], s, c)"
| "gen_run f (Suc n) s c =
     (case f s c of
        None \<Rightarrow> None
      | Some (i, s', c') \<Rightarrow>
          (case gen_run f n s' c' of
             None \<Rightarrow> None
           | Some (is, s'', c'') \<Rightarrow> Some (i # is, s'', c'')))"

locale id_generator =
  fixes step :: "'s \<Rightarrow> 'c \<Rightarrow> (int64 \<times> 's \<times> 'c) option"
    and inv :: "'s \<Rightarrow> 'c \<Rightarrow> bool"
    and key :: "'s \<Rightarrow> int"
  assumes step_inv: "inv s c \<Longrightarrow> step s c = Some (i, s', c') \<Longrightarrow> inv s' c'"
    and step_key: "inv s c \<Longrightarrow> step s c = Some (i, s', c') \<Longrightarrow> key s < key s' \<and> sint i = key s'"
begin

lemma run_inv: "inv s c \<Longrightarrow> gen_run step n s c = Some (is, s', c') \<Longrightarrow> inv s' c'"
proof (induction n arbitrary: s c "is")
  case (Suc n)
  from Suc.prems(2) obtain j t d js where
    j: "step s c = Some (j, t, d)" "gen_run step n t d = Some (js, s', c')"
    by (auto split: option.splits)
  from Suc.IH [OF step_inv [OF Suc.prems(1) j(1)] j(2)] show ?case .
qed simp

lemma run_above:
  "inv s c \<Longrightarrow> gen_run step n s c = Some (is, s', c') \<Longrightarrow> i \<in> set is \<Longrightarrow> key s < sint i"
proof (induction n arbitrary: s c "is")
  case (Suc n)
  from Suc.prems(2) obtain j t d js where
    j: "step s c = Some (j, t, d)" "gen_run step n t d = Some (js, s', c')" "is = j # js"
    by (auto split: option.splits)
  from step_key [OF Suc.prems(1) j(1)] have k: "key s < key t" "sint j = key t" by auto
  show ?case
  proof (cases "i = j")
    case False
    with Suc.prems(3) j(3) have "i \<in> set js" by simp
    from Suc.IH [OF step_inv [OF Suc.prems(1) j(1)] j(2) this] k show ?thesis by simp
  qed (use k in simp)
qed simp

lemma run_increasing:
  "inv s c \<Longrightarrow> gen_run step n s c = Some (is, s', c') \<Longrightarrow> sorted_wrt (<) (map sint is)"
proof (induction n arbitrary: s c "is")
  case (Suc n)
  from Suc.prems(2) obtain j t d js where
    j: "step s c = Some (j, t, d)" "gen_run step n t d = Some (js, s', c')" "is = j # js"
    by (auto split: option.splits)
  have t: "inv t d" by (rule step_inv [OF Suc.prems(1) j(1)])
  have "sint j = key t" using step_key [OF Suc.prems(1) j(1)] by simp
  with run_above [OF t j(2)] Suc.IH [OF t j(2)] j(3) show ?case by auto
qed simp

lemma run_distinct:
  assumes "inv s c" "gen_run step n s c = Some (is, s', c')"
  shows "distinct is"
proof -
  have "distinct (map sint is)"
    using run_increasing [OF assms] strict_sorted_iff by blast
  then show ?thesis by (simp add: distinct_map)
qed

end

end
