(* ===== verification/Snowflake.thy ===== *)
theory Snowflake
  imports IdGenerator
begin

text \<open>
  \<open>pkg/distribute/snowflake.go\<close>: the generators \<open>SnowflakeSecond\<close> and \<open>SnowflakeMillis\<close>. The two
  structs have the same fields, so one record is their state; the operations are translated once per
  type. \<open>time.Now().Unix()\<close> resp. \<open>UnixMilli()\<close> is the next reading of the clock list. The mutex makes
  a call atomic: a call is one function of the state. A shift by a negative amount panics in Go;
  the constructors check it, so the widths are kept as \<open>nat\<close>.
\<close>

record snowflake =
  sf_epoch :: int64
  sf_workeridBits :: nat
  sf_sequenceBits :: nat
  sf_sequenceMask :: int64
  sf_timestampShift :: nat
  sf_relativeTimestamp :: int64
  sf_workerid :: int64
  sf_sequence :: int64

definition secondStartEpoch :: int64 where
  "secondStartEpoch = 1735660800"

definition millisecondStartEpoch :: int64 where
  "millisecondStartEpoch = 1735660800000"

text \<open>\<open>int64(-1 ^ (-1 << n))\<close>\<close>

definition low_mask :: "nat \<Rightarrow> int64" where
  "low_mask n = (- 1) XOR push_bit n (- 1)"

definition NewSnowflakeSecond :: "int64 \<Rightarrow> int64 \<Rightarrow> int64 \<Rightarrow> snowflake outcome" where
  "NewSnowflakeSecond workerId workerIdBits sequenceBits =
     (if workerIdBits <s 0 then Panic ''negative shift amount''
      else if workerId <s 0 \<or> low_mask (unat workerIdBits) <s workerId
        then Panic ''workerid out of range''
      else if sequenceBits <s 0 then Panic ''negative shift amount''
      else Ret \<lparr>sf_epoch = secondStartEpoch,
                sf_workeridBits = unat workerIdBits,
                sf_sequenceBits = unat sequenceBits,
                sf_sequenceMask = low_mask (unat sequenceBits),
                sf_timestampShift = unat workerIdBits + unat sequenceBits,
                sf_relativeTimestamp = 0,
                sf_workerid = workerId,
                sf_sequence = 0\<rparr>)"

definition NewSnowflakeMillis :: "int64 \<Rightarrow> int64 \<Rightarrow> int64 \<Rightarrow> snowflake outcome" where
  "NewSnowflakeMillis workerId workerIdBits sequenceBits =
     (if workerIdBits <s 0 then Panic ''negative shift amount''
      else if workerId <s 0 \<or> low_mask (unat workerIdBits) <s workerId
        then Panic ''workerid out of range''
      else if sequenceBits <s 0 then Panic ''negative shift amount''
      else Ret \<lparr>sf_epoch = millisecondStartEpoch,
                sf_workeridBits = unat workerIdBits,
                sf_sequenceBits = unat sequenceBits,
                sf_sequenceMask = low_mask (unat sequenceBits),
                sf_timestampShift = unat workerIdBits + unat sequenceBits,
                sf_relativeTimestamp = 0,
                sf_workerid = workerId,
                sf_sequence = 0\<rparr>)"

definition NewSnowflakeMillisDefault :: "int64 \<Rightarrow> snowflake outcome" where
  "NewSnowflakeMillisDefault workerId = NewSnowflakeMillis workerId 9 12"

definition getRelativeTimestamp :: "snowflake \<Rightarrow> int64 \<Rightarrow> int64" where
  "getRelativeTimestamp s reading = reading - sf_epoch s"

definition SnowflakeSecond_Next ::
  "snowflake \<Rightarrow> int64 list \<Rightarrow> (int64 \<times> snowflake \<times> int64 list) option"
where
  "SnowflakeSecond_Next s clk =
     (case clk of [] \<Rightarrow> None | r # rs \<Rightarrow>
       (let now = getRelativeTimestamp s r; last = sf_relativeTimestamp s in
        case (if now = last then
                (let sq = (sf_sequence s + 1) AND sf_sequenceMask s in
                 if sq = 0 then
                   map_option (\<lambda>(r', rs'). (getRelativeTimestamp s r', sq, rs'))
                     (wait_while (\<lambda>r'. getRelativeTimestamp s r' \<le>s last) rs)
                 else Some (now, sq, rs))
              else if now <s last then
                map_option (\<lambda>(r', rs'). (getRelativeTimestamp s r', 0, rs'))
                  (wait_while (\<lambda>r'. getRelativeTimestamp s r' <s last) rs)
              else Some (now, 0, rs)) of
          None \<Rightarrow> None
        | Some (now', sq', rs') \<Rightarrow>
            Some ((push_bit (sf_timestampShift s) now' OR
                     push_bit (sf_sequenceBits s) (sf_workerid s)) OR sq',
                  s\<lparr>sf_relativeTimestamp := now', sf_sequence := sq'\<rparr>, rs')))"

definition SnowflakeMillis_Next ::
  "snowflake \<Rightarrow> int64 list \<Rightarrow> (int64 \<times> snowflake \<times> int64 list) option"
where
  "SnowflakeMillis_Next s clk =
     (case clk of [] \<Rightarrow> None | r # rs \<Rightarrow>
       (let now = getRelativeTimestamp s r; last = sf_relativeTimestamp s in
        case (if now = last then
                (let sq = (sf_sequence s + 1) AND sf_sequenceMask s in
                 if sq = 0 then
                   map_option (\<lambda>(r', rs'). (getRelativeTimestamp s r', sq, rs'))
                     (wait_while (\<lambda>r'. getRelativeTimestamp s r' \<le>s last) rs)
                 else Some (now, sq, rs))
              else if now <s last then
                map_option (\<lambda>(r', rs'). (getRelativeTimestamp s r', 0, rs'))
                  (wait_while (\<lambda>r'. getRelativeTimestamp s r' <s last) rs)
              else Some (now, 0, rs)) of
          None \<Rightarrow> None
        | Some (now', sq', rs') \<Rightarrow>
            Some ((push_bit (sf_timestampShift s) now' OR
                     push_bit (sf_sequenceBits s) (sf_workerid s)) OR sq',
                  s\<lparr>sf_relativeTimestamp := now', sf_sequence := sq'\<rparr>, rs')))"

definition SnowflakeSecond_GetWorkerId :: "snowflake \<Rightarrow> int64 \<Rightarrow> int64" where
  "SnowflakeSecond_GetWorkerId s sid =
     signed_drop_bit (sf_sequenceBits s) sid AND low_mask (sf_workeridBits s)"

definition SnowflakeMillis_GetWorkerId :: "snowflake \<Rightarrow> int64 \<Rightarrow> int64" where
  "SnowflakeMillis_GetWorkerId s sid =
     signed_drop_bit (sf_sequenceBits s) sid AND low_mask (sf_workeridBits s)"

text \<open>\<open>&\<close> binds tighter than \<open>+\<close> in Go. The width \<open>timestampBits\<close> may be negative: a panic.\<close>

definition SnowflakeSecond_GetTimestamp :: "snowflake \<Rightarrow> int64 \<Rightarrow> int64 outcome" where
  "SnowflakeSecond_GetTimestamp s sid =
     (if 63 < sf_workeridBits s + sf_sequenceBits s then Panic ''negative shift amount''
      else Ret ((signed_drop_bit (sf_sequenceBits s + sf_workeridBits s) sid
                   AND low_mask (63 - sf_workeridBits s - sf_sequenceBits s)) + sf_epoch s))"

definition SnowflakeMillis_GetTimestamp :: "snowflake \<Rightarrow> int64 \<Rightarrow> int64 outcome" where
  "SnowflakeMillis_GetTimestamp s sid =
     (if 63 < sf_workeridBits s + sf_sequenceBits s then Panic ''negative shift amount''
      else Ret ((signed_drop_bit (sf_sequenceBits s + sf_workeridBits s) sid
                   AND low_mask (63 - sf_workeridBits s - sf_sequenceBits s)) + sf_epoch s))"

section \<open>Packing and unpacking\<close>

lemma low_mask_eq: "low_mask n = mask n"
  unfolding low_mask_def by (rule bit_word_eqI) (simp add: bit_simps)

lemma uint_pack3:
  fixes t w q :: int64
  assumes "(uint t + 1) * 2 ^ (m + n) \<le> 2 ^ 63" "uint w < 2 ^ m" "uint q < 2 ^ n"
  shows "uint ((push_bit (m + n) t OR push_bit n w) OR q)
       = uint t * 2 ^ (m + n) + (uint w * 2 ^ n + uint q)"
    and "uint t * 2 ^ (m + n) + (uint w * 2 ^ n + uint q) < 2 ^ 63"
proof -
  have "(uint w + 1) * 2 ^ n \<le> 2 ^ m * 2 ^ n"
    using assms(2) by (intro mult_right_mono) simp_all
  then have lo: "uint w * 2 ^ n + uint q < 2 ^ (m + n)"
    using assms(3) by (simp add: power_add algebra_simps)
  have top: "uint t * 2 ^ (m + n) + 2 ^ (m + n) \<le> 2 ^ 63"
    using assms(1) by (simp add: algebra_simps)
  have t0: "0 \<le> uint t * 2 ^ (m + n)" and w0: "0 \<le> uint w * 2 ^ n" by simp_all
  have small: "uint w * 2 ^ n < 2 ^ 64"
  proof -
    have "uint w * 2 ^ n < 2 ^ 63" using lo top t0 uint_ge_0 [of q] by linarith
    then show ?thesis by simp
  qed
  have low: "uint (push_bit n w OR q) = uint w * 2 ^ n + uint q"
    using small assms(3) by (intro uint_or_disjoint) simp_all
  have "uint (push_bit (m + n) t OR (push_bit n w OR q))
      = uint t * 2 ^ (m + n) + uint (push_bit n w OR q)"
  proof (rule uint_or_disjoint)
    have "uint t * 2 ^ (m + n) < 2 ^ 63" using top zero_less_power [of "2::int" "m + n"] by linarith
    then show "uint t * 2 ^ (m + n) < 2 ^ LENGTH(64)" by simp
  qed (use lo low in simp)
  then show "uint ((push_bit (m + n) t OR push_bit n w) OR q)
       = uint t * 2 ^ (m + n) + (uint w * 2 ^ n + uint q)"
    by (simp add: low or.assoc)
  show "uint t * 2 ^ (m + n) + (uint w * 2 ^ n + uint q) < 2 ^ 63"
    using lo top by linarith
qed

text \<open>The shift of the decoder drops exactly the fields below it.\<close>

lemma signed_drop_bit_nonneg:
  fixes x :: int64
  assumes "uint x < 2 ^ 63"
  shows "uint (signed_drop_bit n x) = uint x div 2 ^ n"
proof -
  have "bit (uint x) 63 \<longleftrightarrow> odd (uint x div 2 ^ 63)" by (simp only: bit_iff_odd)
  also have "uint x div 2 ^ 63 = 0" using assms by simp
  finally have "\<not> bit x 63" by (simp add: bit_uint_iff)
  then have "signed_drop_bit n x = drop_bit n x"
    by (intro bit_word_eqI) (auto simp: bit_simps le_less dest: bit_imp_le_length)
  then have "uint (signed_drop_bit n x) = uint (drop_bit n x)" by simp
  also have "\<dots> = drop_bit n (take_bit 64 (uint x))" by (simp add: unsigned_drop_bit_eq)
  also have "take_bit 64 (uint x) = uint x"
    using assms by (intro take_bit_int_eq_self) simp_all
  finally show ?thesis by (simp add: drop_bit_eq_div)
qed

section \<open>The state of a generator\<close>

text \<open>
  \<open>sf_ok\<close> is the invariant of a generator whose fields fit in 63 bits; \<open>sf_key\<close> is the last
  identifier as an integer. \<open>sf_clock\<close> says that the readings never go back behind the last
  timestamp and stay in the range of the timestamp field.
\<close>

definition sf_fits :: "snowflake \<Rightarrow> int64 \<Rightarrow> bool" where
  "sf_fits s t \<longleftrightarrow> (uint t + 1) * 2 ^ (sf_workeridBits s + sf_sequenceBits s) \<le> 2 ^ 63"

definition sf_ok :: "snowflake \<Rightarrow> bool" where
  "sf_ok s \<longleftrightarrow> sf_sequenceMask s = low_mask (sf_sequenceBits s) \<and>
     sf_timestampShift s = sf_workeridBits s + sf_sequenceBits s \<and>
     uint (sf_workerid s) < 2 ^ sf_workeridBits s \<and>
     uint (sf_sequence s) < 2 ^ sf_sequenceBits s \<and>
     sf_fits s (sf_relativeTimestamp s)"

definition sf_key :: "snowflake \<Rightarrow> int" where
  "sf_key s = uint (sf_relativeTimestamp s) * 2 ^ (sf_workeridBits s + sf_sequenceBits s)
     + (uint (sf_workerid s) * 2 ^ sf_sequenceBits s + uint (sf_sequence s))"

definition sf_clock :: "snowflake \<Rightarrow> int64 list \<Rightarrow> bool" where
  "sf_clock s clk \<longleftrightarrow> sorted (map (\<lambda>r. uint (getRelativeTimestamp s r)) clk) \<and>
     (\<forall>r\<in>set clk. uint (sf_relativeTimestamp s) \<le> uint (getRelativeTimestamp s r)
        \<and> sf_fits s (getRelativeTimestamp s r))"

lemma sf_key_bounds:
  assumes "sf_ok s"
  shows "0 \<le> sf_key s" and "sf_key s < 2 ^ 63"
  using assms uint_pack3(2) [of "sf_relativeTimestamp s" "sf_workeridBits s" "sf_sequenceBits s"
      "sf_workerid s" "sf_sequence s"]
  by (simp_all add: sf_key_def sf_ok_def sf_fits_def)

lemma sf_pack:
  assumes "sf_ok s"
  shows "uint ((push_bit (sf_timestampShift s) (sf_relativeTimestamp s) OR
                push_bit (sf_sequenceBits s) (sf_workerid s)) OR sf_sequence s) = sf_key s"
  using assms uint_pack3(1) [of "sf_relativeTimestamp s" "sf_workeridBits s" "sf_sequenceBits s"
      "sf_workerid s" "sf_sequence s"]
  by (simp add: sf_key_def sf_ok_def sf_fits_def)

lemma sf_fits_bound:
  assumes "sf_fits s t"
  shows "uint t < 2 ^ 63"
proof -
  let ?n = "sf_workeridBits s + sf_sequenceBits s"
  have "(uint t + 1) * 1 \<le> (uint t + 1) * 2 ^ ?n"
    by (intro mult_left_mono) simp_all
  from order_trans [OF this assms [unfolded sf_fits_def]] show ?thesis by simp
qed

lemma sf_less:
  assumes "sf_fits s a" "sf_fits s b"
  shows "a <s b \<longleftrightarrow> uint a < uint b" and "a \<le>s b \<longleftrightarrow> uint a \<le> uint b"
  using sf_fits_bound [OF assms(1)] sf_fits_bound [OF assms(2)]
  by (simp_all add: word_sless_alt word_sle_eq sint_eq_uint_small)

text \<open>A later timestamp beats every worker and sequence field.\<close>

lemma sf_key_later:
  assumes "sf_ok s" "sf_ok s'" "uint (sf_relativeTimestamp s) < uint (sf_relativeTimestamp s')"
    and "sf_workeridBits s' = sf_workeridBits s" "sf_sequenceBits s' = sf_sequenceBits s"
    and "sf_workerid s' = sf_workerid s" "uint (sf_sequence s') = 0"
  shows "sf_key s < sf_key s'"
proof -
  let ?n = "sf_workeridBits s + sf_sequenceBits s"
  have "uint (sf_sequence s) < 2 ^ ?n"
    using assms(1) by (auto simp: sf_ok_def power_add intro: order_less_le_trans)
  moreover have "(uint (sf_relativeTimestamp s) + 1) * 2 ^ ?n
      \<le> uint (sf_relativeTimestamp s') * 2 ^ ?n"
    using assms(3) by (intro mult_right_mono) simp_all
  ultimately show ?thesis
    using assms(4-7) by (simp add: sf_key_def algebra_simps)
qed

text \<open>The sequence counter: it wraps to zero exactly after its last value.\<close>

lemma sf_sequence_step:
  assumes "sf_ok s"
  defines "sq \<equiv> (sf_sequence s + 1) AND sf_sequenceMask s"
  shows "uint sq < 2 ^ sf_sequenceBits s"
    and "sq \<noteq> 0 \<Longrightarrow> uint sq = uint (sf_sequence s) + 1"
proof -
  let ?q = "sf_sequenceBits s"
  have sq: "uint sq = (uint (sf_sequence s) + 1) mod 2 ^ 64 mod 2 ^ ?q"
    using assms(1)
    by (simp add: sq_def sf_ok_def low_mask_eq uint_and_mask uint_word_ariths)
  show lt: "uint sq < 2 ^ ?q" by (simp add: sq)
  assume "sq \<noteq> 0"
  then have nz: "uint sq \<noteq> 0" by (simp add: unsigned_eq_0_iff)
  have b: "uint (sf_sequence s) < 2 ^ ?q" using assms(1) by (simp add: sf_ok_def)
  have "uint (sf_sequence s) + 1 \<noteq> 2 ^ 64" using nz sq by auto
  with uint_lt2p [of "sf_sequence s"] have "uint (sf_sequence s) + 1 < 2 ^ 64" by simp
  then have "uint sq = (uint (sf_sequence s) + 1) mod 2 ^ ?q" using sq by simp
  moreover from this nz b have "uint (sf_sequence s) + 1 < 2 ^ ?q"
    by (cases "uint (sf_sequence s) + 1 = 2 ^ ?q") auto
  ultimately show "uint sq = uint (sf_sequence s) + 1" by simp
qed

section \<open>One call\<close>

lemma SnowflakeSecond_Next_eq: "SnowflakeSecond_Next = SnowflakeMillis_Next"
  by (intro ext) (simp add: SnowflakeSecond_Next_def SnowflakeMillis_Next_def)

lemma sf_ok_upd:
  assumes "sf_ok s" "sf_fits s t" "uint q < 2 ^ sf_sequenceBits s"
  shows "sf_ok (s\<lparr>sf_relativeTimestamp := t, sf_sequence := q\<rparr>)"
  using assms by (simp add: sf_ok_def sf_fits_def)

lemma sf_pack_upd:
  assumes "sf_ok s" "sf_fits s t" "uint q < 2 ^ sf_sequenceBits s"
  defines "s' \<equiv> s\<lparr>sf_relativeTimestamp := t, sf_sequence := q\<rparr>"
  shows "sint ((push_bit (sf_timestampShift s) t OR
                push_bit (sf_sequenceBits s) (sf_workerid s)) OR q) = sf_key s'"
proof -
  have ok: "sf_ok s'" unfolding s'_def by (rule sf_ok_upd [OF assms(1-3)])
  from sf_pack [OF ok]
  have "uint ((push_bit (sf_timestampShift s) t OR
                push_bit (sf_sequenceBits s) (sf_workerid s)) OR q) = sf_key s'"
    by (simp add: s'_def)
  with sf_key_bounds [OF ok] show ?thesis by (simp add: sint_eq_uint_small)
qed

lemma sf_clock_rest:
  assumes "sf_clock s clk" "clk = pre @ r # rest"
  shows "sf_clock (s\<lparr>sf_relativeTimestamp := getRelativeTimestamp s r, sf_sequence := q\<rparr>) rest"
  using assms by (auto simp: sf_clock_def getRelativeTimestamp_def sf_fits_def sorted_append)

text \<open>
  What a call does when the clock does not go back: the timestamp grows and the sequence starts at
  zero, or the timestamp stays and the sequence grows by one.
\<close>

lemma SnowflakeMillis_Next_cases:
  assumes ok: "sf_ok s" and clk: "sf_clock s clk"
    and nx: "SnowflakeMillis_Next s clk = Some (i, s', clk')"
  obtains (same) r where "clk = r # clk'"
      "getRelativeTimestamp s r = sf_relativeTimestamp s"
      "(sf_sequence s + 1) AND sf_sequenceMask s \<noteq> 0"
      "s' = s\<lparr>sf_relativeTimestamp := getRelativeTimestamp s r,
              sf_sequence := (sf_sequence s + 1) AND sf_sequenceMask s\<rparr>"
      "i = (push_bit (sf_timestampShift s) (getRelativeTimestamp s r) OR
              push_bit (sf_sequenceBits s) (sf_workerid s)) OR ((sf_sequence s + 1) AND sf_sequenceMask s)"
    | (later) pre r where "clk = pre @ r # clk'"
      "uint (sf_relativeTimestamp s) < uint (getRelativeTimestamp s r)"
      "s' = s\<lparr>sf_relativeTimestamp := getRelativeTimestamp s r, sf_sequence := 0\<rparr>"
      "i = (push_bit (sf_timestampShift s) (getRelativeTimestamp s r) OR
              push_bit (sf_sequenceBits s) (sf_workerid s)) OR 0"
proof -
  from nx obtain r rs where c: "clk = r # rs"
    by (auto simp: SnowflakeMillis_Next_def split: list.splits)
  let ?last = "sf_relativeTimestamp s" and ?now = "getRelativeTimestamp s r"
  let ?sq = "(sf_sequence s + 1) AND sf_sequenceMask s"
  have fl: "sf_fits s ?last" using ok by (simp add: sf_ok_def)
  have all: "\<And>x. x \<in> set clk \<Longrightarrow> sf_fits s (getRelativeTimestamp s x)
      \<and> uint ?last \<le> uint (getRelativeTimestamp s x)"
    using clk by (simp add: sf_clock_def)
  have nb: "\<not> ?now <s ?last"
    using all [of r] c sf_less(1) [OF _ fl, of ?now] by simp
  show thesis
  proof (cases "?now = ?last")
    case now: True
    show thesis
    proof (cases "?sq = 0")
      case True
      with nx now c obtain r' where
        w: "wait_while (\<lambda>r'. getRelativeTimestamp s r' \<le>s ?last) rs = Some (r', clk')"
        and s': "s' = s\<lparr>sf_relativeTimestamp := getRelativeTimestamp s r', sf_sequence := 0\<rparr>"
        and i: "i = (push_bit (sf_timestampShift s) (getRelativeTimestamp s r') OR
              push_bit (sf_sequenceBits s) (sf_workerid s)) OR 0"
        by (auto simp: SnowflakeMillis_Next_def Let_def split: option.splits)
      obtain pre where "rs = pre @ r' # clk'" using wait_while_rest [OF w] by blast
      moreover have "r' \<in> set clk" and "\<not> getRelativeTimestamp s r' \<le>s ?last"
        using wait_while_Some [OF w] c by auto
      then have "uint ?last < uint (getRelativeTimestamp s r')"
        using all [of r'] sf_less(2) [OF _ fl, of "getRelativeTimestamp s r'"] by simp
      ultimately show thesis using later [of "r # pre" r'] s' i c by simp
    next
      case False
      with nx now c show thesis
        by (intro same [of r]) (auto simp: SnowflakeMillis_Next_def Let_def)
    qed
  next
    case False
    then have "uint ?last \<noteq> uint ?now" by (metis word_uint_eq_iff)
    then have "uint ?last < uint ?now"
      using all [of r] c by (auto simp: order_less_le)
    with nx nb False c show thesis
      by (intro later [of "[]" r]) (auto simp: SnowflakeMillis_Next_def Let_def)
  qed
qed

lemma SnowflakeMillis_Next_step:
  assumes ok: "sf_ok s" and clk: "sf_clock s clk"
    and nx: "SnowflakeMillis_Next s clk = Some (i, s', clk')"
  shows "sf_ok s' \<and> sf_clock s' clk' \<and> sf_key s < sf_key s' \<and> sint i = sf_key s'"
  using ok clk nx
proof (cases rule: SnowflakeMillis_Next_cases)
  case (same r)
  have f: "sf_fits s (getRelativeTimestamp s r)" using clk same(1) by (simp add: sf_clock_def)
  note q = sf_sequence_step [OF ok]
  have ok': "sf_ok s'" unfolding same(4) by (rule sf_ok_upd [OF ok f q(1)])
  have "sf_key s < sf_key s'"
    unfolding same(4) sf_key_def using q(2) [OF same(3)] same(2) by simp
  moreover have "sf_clock s' clk'"
    unfolding same(4) by (rule sf_clock_rest [OF clk, of "[]"]) (simp add: same(1))
  moreover have "sint i = sf_key s'"
    unfolding same(4,5) by (rule sf_pack_upd [OF ok f q(1)])
  ultimately show ?thesis using ok' by simp
next
  case (later pre r)
  have f: "sf_fits s (getRelativeTimestamp s r)" using clk later(1) by (simp add: sf_clock_def)
  have z: "uint (0::int64) < 2 ^ sf_sequenceBits s" by simp
  have ok': "sf_ok s'" unfolding later(3) by (rule sf_ok_upd [OF ok f z])
  have "sf_key s < sf_key s'"
    by (rule sf_key_later [OF ok ok']) (use later in simp_all)
  moreover have "sf_clock s' clk'"
    unfolding later(3) by (rule sf_clock_rest [OF clk]) (simp add: later(1))
  moreover have "sint i = sf_key s'"
    unfolding later(3,4) by (rule sf_pack_upd [OF ok f z])
  ultimately show ?thesis using ok' by simp
qed

interpretation sf_millis: id_generator SnowflakeMillis_Next
  "\<lambda>s clk. sf_ok s \<and> sf_clock s clk" sf_key
  by unfold_locales (use SnowflakeMillis_Next_step in blast)+

interpretation sf_second: id_generator SnowflakeSecond_Next
  "\<lambda>s clk. sf_ok s \<and> sf_clock s clk" sf_key
  unfolding SnowflakeSecond_Next_eq by unfold_locales (use SnowflakeMillis_Next_step in blast)+

lemma NewSnowflakeMillis_ok:
  assumes "NewSnowflakeMillis workerId wb sb = Ret s" "sint wb + sint sb \<le> 62"
  shows "sf_ok s"
proof -
  from assms(1) have wb: "0 \<le> sint wb" and sb: "0 \<le> sint sb" and w: "0 \<le> sint workerId"
    and le: "sint workerId \<le> sint (low_mask (unat wb))"
    by (auto simp: NewSnowflakeMillis_def word_sless_alt split: if_splits)
  note W = sint_nonneg_64 [OF wb] and S = sint_nonneg_64 [OF sb] and K = sint_nonneg_64 [OF w]
  have b: "unat wb + unat sb \<le> 62"
  proof -
    have "uint wb + uint sb \<le> 62" using assms(2) by (simp only: W(1) S(1))
    then show ?thesis using uint_ge_0 [of wb] uint_ge_0 [of sb] by (simp only: unat_eq_nat_uint)
  qed
  have m: "uint (low_mask (unat wb)) = 2 ^ unat wb - 1"
    using b by (simp only: low_mask_eq uint_mask_eq) (simp add: mask_eq_exp_minus_1 min_def)
  have "2 ^ unat wb \<le> (2::int) ^ 62" using b by (intro power_increasing) simp_all
  then have "sint (low_mask (unat wb)) = uint (low_mask (unat wb))"
    by (intro sint_eq_uint_small) (simp add: m)
  then have kw: "uint workerId < 2 ^ unat wb" using le K(1) m by simp
  have "2 ^ (unat wb + unat sb) \<le> (2::int) ^ 63" using b by (intro power_increasing) simp_all
  with assms(1) kw show ?thesis
    by (auto simp: NewSnowflakeMillis_def sf_ok_def sf_fits_def split: if_splits)
qed

section \<open>Properties\<close>

text \<open>C12. A \<open>SnowflakeMillis\<close> whose clock never goes back behind its last timestamp hands out
  strictly increasing (as signed \<open>int64\<close>), hence pairwise distinct identifiers: any number of
  calls, sequence exhaustion and the waiting loop included.\<close>

theorem snowflake_millis_run_increasing:
  assumes "sf_ok s" "sf_clock s clk"
    and "gen_run SnowflakeMillis_Next n s clk = Some (ids, s', clk')"
  shows "sorted_wrt (<) (map sint ids) \<and> distinct ids"
  using sf_millis.run_increasing [OF _ assms(3)] sf_millis.run_distinct [OF _ assms(3)] assms(1,2)
  by simp

definition sf_demo :: snowflake where
  "sf_demo = \<lparr>sf_epoch = millisecondStartEpoch, sf_workeridBits = 9, sf_sequenceBits = 1,
     sf_sequenceMask = low_mask 1, sf_timestampShift = 10, sf_relativeTimestamp = 0,
     sf_workerid = 3, sf_sequence = 0\<rparr>"

lemmas sf_demo_simps = sf_demo_def low_mask_eq sf_ok_def sf_fits_def sf_clock_def
  getRelativeTimestamp_def millisecondStartEpoch_def

lemma snowflake_millis_run_increasing_witness:
  "\<exists>ids s' clk'. gen_run SnowflakeMillis_Next 3 sf_demo
      [1735660800005, 1735660800005, 1735660800005, 1735660800006] = Some (ids, s', clk')
    \<and> sorted_wrt (<) (map sint ids) \<and> distinct ids"
proof -
  let ?clk = "[1735660800005, 1735660800005, 1735660800005, 1735660800006] :: int64 list"
  have ok: "sf_ok sf_demo" "sf_clock sf_demo ?clk" by (simp_all add: sf_demo_simps mask_eq_exp_minus_1)
  obtain ids s' clk' where r: "gen_run SnowflakeMillis_Next 3 sf_demo ?clk = Some (ids, s', clk')"
    by (simp add: numeral_3_eq_3 SnowflakeMillis_Next_def sf_demo_simps Let_def
        mask_eq_exp_minus_1 word_sless_alt word_sle_eq)
  from snowflake_millis_run_increasing [OF ok r] r show ?thesis by blast
qed

lemma SnowflakeMillis_Next_result:
  assumes "sf_ok s" "\<forall>r\<in>set clk. sf_fits s (getRelativeTimestamp s r)"
    and "SnowflakeMillis_Next s clk = Some (i, s', clk')"
  shows "sf_ok s' \<and> sf_key s' = sint i \<and> sf_workerid s' = sf_workerid s
    \<and> sf_workeridBits s' = sf_workeridBits s \<and> sf_sequenceBits s' = sf_sequenceBits s
    \<and> sf_epoch s' = sf_epoch s"
proof -
  let ?id = "\<lambda>t q. (push_bit (sf_timestampShift s) t OR
      push_bit (sf_sequenceBits s) (sf_workerid s)) OR q"
  let ?sq = "(sf_sequence s + 1) AND sf_sequenceMask s"
  have keep: "s\<lparr>sf_relativeTimestamp := sf_relativeTimestamp s, sf_sequence := q\<rparr>
      = s\<lparr>sf_sequence := q\<rparr>" for q by simp
  from assms(3) have "(i = ?id (sf_relativeTimestamp s) ?sq \<and> s' = s\<lparr>sf_sequence := ?sq\<rparr>) \<or>
      (\<exists>r\<in>set clk. i = ?id (getRelativeTimestamp s r) 0 \<and>
         s' = s\<lparr>sf_relativeTimestamp := getRelativeTimestamp s r, sf_sequence := 0\<rparr>)"
    by (auto simp: SnowflakeMillis_Next_def Let_def split: list.splits option.splits if_splits
        dest!: wait_while_Some)
  then show ?thesis
  proof (elim disjE bexE conjE)
    assume i: "i = ?id (sf_relativeTimestamp s) ?sq" and s': "s' = s\<lparr>sf_sequence := ?sq\<rparr>"
    have f: "sf_fits s (sf_relativeTimestamp s)" using assms(1) by (simp add: sf_ok_def)
    note b = sf_sequence_step(1) [OF assms(1)]
    show ?thesis unfolding i s' keep [symmetric]
      using sf_ok_upd [OF assms(1) f b] sf_pack_upd [OF assms(1) f b] by simp
  next
    fix r
    assume r: "r \<in> set clk" and i: "i = ?id (getRelativeTimestamp s r) 0"
      and s': "s' = s\<lparr>sf_relativeTimestamp := getRelativeTimestamp s r, sf_sequence := 0\<rparr>"
    have f: "sf_fits s (getRelativeTimestamp s r)" and b: "uint (0::int64) < 2 ^ sf_sequenceBits s"
      using assms(2) r by simp_all
    show ?thesis unfolding i s'
      using sf_ok_upd [OF assms(1) f b] sf_pack_upd [OF assms(1) f b] by simp
  qed
qed

lemma sf_decode:
  fixes i :: int64
  assumes "sf_ok s" "sf_key s = sint i"
  shows "uint (signed_drop_bit (sf_sequenceBits s) i) mod 2 ^ sf_workeridBits s = uint (sf_workerid s)"
    and "uint (signed_drop_bit (sf_sequenceBits s + sf_workeridBits s) i) = uint (sf_relativeTimestamp s)"
proof -
  let ?m = "sf_workeridBits s" and ?n = "sf_sequenceBits s"
  let ?t = "uint (sf_relativeTimestamp s)" and ?w = "uint (sf_workerid s)" and ?q = "uint (sf_sequence s)"
  have k: "uint i = sf_key s" "uint i < 2 ^ 63"
    using sf_key_bounds [OF assms(1)] sint_nonneg_64 [of i] assms(2) by auto
  have b: "?w < 2 ^ ?m" "?q < 2 ^ ?n" using assms(1) by (simp_all add: sf_ok_def)
  have e: "uint i = (?t * 2 ^ ?m + ?w) * 2 ^ ?n + ?q"
    by (simp add: k sf_key_def power_add algebra_simps)
  have d: "uint i div 2 ^ ?n = ?t * 2 ^ ?m + ?w" using b by (simp add: e)
  show "uint (signed_drop_bit ?n i) mod 2 ^ ?m = ?w"
    using b by (simp add: signed_drop_bit_nonneg [OF k(2)] d)
  have "uint i div 2 ^ (?n + ?m) = (?t * 2 ^ ?m + ?w) div 2 ^ ?m"
    by (simp add: power_add zdiv_zmult2_eq d)
  then show "uint (signed_drop_bit (?n + ?m) i) = ?t"
    using b by (simp add: signed_drop_bit_nonneg [OF k(2)])
qed

lemma sf_fits_field:
  assumes "sf_fits s t"
  shows "sf_workeridBits s + sf_sequenceBits s \<le> 63"
    and "uint t < 2 ^ (63 - sf_workeridBits s - sf_sequenceBits s)"
proof -
  let ?k = "sf_workeridBits s + sf_sequenceBits s"
  have "1 * 2 ^ ?k \<le> (uint t + 1) * 2 ^ ?k" by (intro mult_right_mono) simp_all
  from order_trans [OF this assms [unfolded sf_fits_def]] have "(2::int) ^ ?k \<le> 2 ^ 63" by simp
  then show k: "?k \<le> 63" using power_le_imp_le_exp [of "2::int" ?k 63] by simp
  have "(2::int) ^ 63 = 2 ^ (63 - ?k) * 2 ^ ?k" using k by (simp add: power_add [symmetric])
  then have "(uint t + 1) * 2 ^ ?k \<le> 2 ^ (63 - ?k) * 2 ^ ?k"
    using assms [unfolded sf_fits_def] by simp
  then have "uint t + 1 \<le> 2 ^ (63 - ?k)" by simp
  then show "uint t < 2 ^ (63 - sf_workeridBits s - sf_sequenceBits s)" by simp
qed

text \<open>The decoders invert the packing: on the identifier a call returns, \<open>GetWorkerId\<close> gives
  the generator's worker id and \<open>GetTimestamp\<close> the absolute time of the tick the call used, for
  every branch of \<open>Next\<close> (clock rollback included) while the readings fit the timestamp field.\<close>

theorem snowflake_millis_decode:
  assumes "sf_ok s" "\<forall>r\<in>set clk. sf_fits s (getRelativeTimestamp s r)"
    and "SnowflakeMillis_Next s clk = Some (i, s', clk')"
  shows "SnowflakeMillis_GetWorkerId s' i = sf_workerid s
    \<and> SnowflakeMillis_GetTimestamp s' i = Ret (sf_relativeTimestamp s' + sf_epoch s)"
proof -
  note R = SnowflakeMillis_Next_result [OF assms]
  then have ok: "sf_ok s'" and k: "sf_key s' = sint i" by auto
  note D = sf_decode [OF ok k]
  have "sf_fits s' (sf_relativeTimestamp s')" using ok by (simp add: sf_ok_def)
  note F = sf_fits_field [OF this]
  have "SnowflakeMillis_GetWorkerId s' i = sf_workerid s'"
    using D(1) by (simp add: SnowflakeMillis_GetWorkerId_def low_mask_eq word_uint_eq_iff uint_and_mask)
  moreover have "signed_drop_bit (sf_sequenceBits s' + sf_workeridBits s') i
      AND low_mask (63 - sf_workeridBits s' - sf_sequenceBits s') = sf_relativeTimestamp s'"
    using D(2) F(2) by (simp add: low_mask_eq word_uint_eq_iff uint_and_mask)
  ultimately show ?thesis using R F(1) by (simp add: SnowflakeMillis_GetTimestamp_def)
qed

lemma snowflake_millis_decode_witness:
  "\<exists>i s' clk'. SnowflakeMillis_Next sf_demo [1735660800005] = Some (i, s', clk')
    \<and> SnowflakeMillis_GetWorkerId s' i = 3
    \<and> SnowflakeMillis_GetTimestamp s' i = Ret 1735660800005"
proof -
  have ok: "sf_ok sf_demo" "\<forall>r\<in>set [1735660800005]. sf_fits sf_demo (getRelativeTimestamp sf_demo r)"
    by (simp_all add: sf_demo_simps mask_eq_exp_minus_1)
  obtain i s' clk' where r: "SnowflakeMillis_Next sf_demo [1735660800005] = Some (i, s', clk')"
    and t: "sf_relativeTimestamp s' = 5"
    by (simp add: SnowflakeMillis_Next_def sf_demo_simps Let_def word_sless_alt)
  from snowflake_millis_decode [OF ok r] r t show ?thesis by (auto simp: sf_demo_simps)
qed

text \<open>The rollback branch waits until the clock has caught up with the last timestamp, not
  past it: when a \<open>SnowflakeSecond\<close> whose last identifier had sequence 0 sees the clock go back and
  return to the same second, the next call hands out the same identifier again and leaves the
  state as it was (the comment in the code says it waits for the next timestamp).\<close>

theorem snowflake_second_rollback_repeats:
  assumes "SnowflakeSecond_Next s clk = Some (i, s1, clk1)" "sf_sequence s1 = 0"
    and "getRelativeTimestamp s1 back <s sf_relativeTimestamp s1"
    and "getRelativeTimestamp s1 again = sf_relativeTimestamp s1"
  shows "SnowflakeSecond_Next s1 (back # again # rest) = Some (i, s1, rest)"
proof -
  from assms(1) have "i = (push_bit (sf_timestampShift s1) (sf_relativeTimestamp s1) OR
      push_bit (sf_sequenceBits s1) (sf_workerid s1)) OR sf_sequence s1"
    by (auto simp: SnowflakeSecond_Next_def Let_def split: list.splits option.splits if_splits)
  moreover have "s1\<lparr>sf_relativeTimestamp := sf_relativeTimestamp s1, sf_sequence := 0\<rparr> = s1"
    using assms(2) by simp
  ultimately show ?thesis
    using assms(2-4) by (auto simp: SnowflakeSecond_Next_def Let_def word_sless_alt)
qed

lemma snowflake_second_rollback_repeats_witness:
  "\<exists>i s1. SnowflakeSecond_Next (sf_demo\<lparr>sf_epoch := secondStartEpoch\<rparr>) [1735660805] = Some (i, s1, [])
    \<and> SnowflakeSecond_Next s1 [1735660804, 1735660805] = Some (i, s1, [])"
proof -
  let ?s = "sf_demo\<lparr>sf_epoch := secondStartEpoch\<rparr>"
  obtain i s1 where r: "SnowflakeSecond_Next ?s [1735660805] = Some (i, s1, [])"
    and s1: "sf_sequence s1 = 0" "sf_relativeTimestamp s1 = 5" "sf_epoch s1 = secondStartEpoch"
    by (simp add: SnowflakeSecond_Next_def sf_demo_simps secondStartEpoch_def Let_def word_sless_alt)
  have b: "getRelativeTimestamp s1 1735660804 <s sf_relativeTimestamp s1"
    "getRelativeTimestamp s1 1735660805 = sf_relativeTimestamp s1"
    by (simp_all add: getRelativeTimestamp_def s1 secondStartEpoch_def word_sless_alt)
  from snowflake_second_rollback_repeats [OF r s1(1) b] r show ?thesis by blast
qed

text \<open>A call returns as soon as the clock shows a later tick: the waits always end then.\<close>

lemma snowflake_millis_returns:
  assumes "\<exists>r\<in>set clk. sf_relativeTimestamp s <s getRelativeTimestamp s r"
  shows "SnowflakeMillis_Next s clk \<noteq> None"
proof (cases clk)
  case Nil
  then show ?thesis using assms by simp
next
  case (Cons r rs)
  let ?last = "sf_relativeTimestamp s"
  from assms Cons obtain x where x: "x = r \<or> x \<in> set rs" "?last <s getRelativeTimestamp s x" by auto
  have "x \<in> set rs" if "\<not> ?last <s getRelativeTimestamp s r" using that x by auto
  then have w: "wait_while (\<lambda>y. getRelativeTimestamp s y \<le>s ?last) rs \<noteq> None"
      "wait_while (\<lambda>y. getRelativeTimestamp s y <s ?last) rs \<noteq> None"
    if "\<not> ?last <s getRelativeTimestamp s r"
    unfolding wait_while_returns using that x(2)
    by (force simp: word_sless_alt word_sle_eq)+
  then show ?thesis
    using Cons by (auto simp: SnowflakeMillis_Next_def Let_def word_sless_alt split: option.splits)
qed

end
