(* ===== verification/SnowID.thy ===== *)
theory SnowID
  imports Snowflake
begin

text \<open>
  \<open>pkg/ids/int64.go\<close>: the package-level generator \<open>NewID\<close> with its clock-rollback bookkeeping, the
  decoders and \<open>IDSetNodeID\<close>. The package variables guarded by \<open>snowIDMutex\<close> are one record; a call
  is one function of it. \<open>time.Now().UnixMilli()\<close> is the next reading of the clock list: \<open>None\<close> is a
  call still waiting when the readings end. \<open>log.Fatal\<close> (which ends the process) and the \<open>panic\<close>
  after it are the result \<open>Panic\<close>.
\<close>

record snow_state =
  snowNodeId :: int64
  snowIDSeq :: int64
  snowIDTimestamp :: int64
  snowIDClockBackPoints :: "int64 list"
  snowIDClockBackTimes :: int64

definition snow_init :: snow_state where
  "snow_init = \<lparr>snowNodeId = 0, snowIDSeq = 0, snowIDTimestamp = 0,
     snowIDClockBackPoints = [0, 0, 0], snowIDClockBackTimes = 0\<rparr>"

definition snowNodeIDBits :: nat where "snowNodeIDBits = 7"
definition snowClockBackBits :: nat where "snowClockBackBits = 2"
definition snowCounterBits :: nat where "snowCounterBits = 13"
definition snowClockBackMaxTimes :: int64 where "snowClockBackMaxTimes = low_mask snowClockBackBits"
definition snowNodeIDMax :: int64 where "snowNodeIDMax = low_mask snowNodeIDBits"
definition snowMaxSequence :: int64 where "snowMaxSequence = low_mask snowCounterBits"
definition snowIDEpoch :: int64 where "snowIDEpoch = 1735660800000"
definition snowIDMin :: int64 where "snowIDMin = 40303604944347136"
definition snowIDMinLen :: nat where "snowIDMinLen = 17"

lemmas snow_consts = snowNodeIDBits_def snowClockBackBits_def snowCounterBits_def
  snowClockBackMaxTimes_def snowNodeIDMax_def snowMaxSequence_def snowIDEpoch_def
  snowIDMin_def snowIDMinLen_def

text \<open>\<open>None\<close> is the error return; the state is then unchanged.\<close>

definition IDSetNodeID :: "int64 \<Rightarrow> snow_state \<Rightarrow> snow_state option" where
  "IDSetNodeID nodeID s =
     (if nodeID <s 0 \<or> snowNodeIDMax \<le>s nodeID then None else Some (s\<lparr>snowNodeId := nodeID\<rparr>))"

text \<open>
  The loop of a call whose sequence is used up: read until a reading is later than the last
  timestamp, or earlier (a rollback while waiting: the flag is then set).
\<close>

fun wait_next_milli :: "int64 \<Rightarrow> int64 list \<Rightarrow> (int64 \<times> bool \<times> int64 list) option" where
  "wait_next_milli ts [] = None"
| "wait_next_milli ts (r # rs) =
     (if r <s ts then Some (r, True, rs)
      else if r \<le>s ts then wait_next_milli ts rs
      else Some (r, False, rs))"

text \<open>Count a rollback and remember where it started; a fourth one ends the program.\<close>

definition clock_back :: "snow_state \<Rightarrow> snow_state outcome" where
  "clock_back s =
     (let tb = snowIDClockBackTimes s + 1 in
      if 3 <s tb then Panic ''ids: unexpected time back occurred''
      else Ret (s\<lparr>snowIDClockBackTimes := tb,
                 snowIDClockBackPoints :=
                   (snowIDClockBackPoints s)[unat (tb - 1) := snowIDTimestamp s]\<rparr>))"

definition pack_id :: "int64 \<Rightarrow> int64 \<Rightarrow> int64 \<Rightarrow> int64 \<Rightarrow> int64" where
  "pack_id now node tb sq =
     (let nodeOffset = snowClockBackBits + snowCounterBits; timeOffset = snowNodeIDBits + nodeOffset
      in ((push_bit timeOffset (now - snowIDEpoch) OR push_bit nodeOffset node) OR
           push_bit snowCounterBits tb) OR sq)"

text \<open>
  The head of a call: only once the clock has passed the first rollback point is the rollback over;
  until then the call goes on with the last timestamp.
\<close>

definition NewID_head :: "snow_state \<Rightarrow> int64 \<Rightarrow> int64 \<times> snow_state" where
  "NewID_head s r =
     (let point = snowIDClockBackPoints s ! 0 in
      if point <s r then
        (r, if 0 <s point
            then s\<lparr>snowIDClockBackPoints := [0, 0, 0], snowIDClockBackTimes := 0\<rparr> else s)
      else (snowIDTimestamp s, s))"

text \<open>The tail of a call: the timestamp and sequence are stored and the identifier packed.\<close>

definition NewID_finish ::
  "int64 \<Rightarrow> int64 \<Rightarrow> snow_state \<Rightarrow> int64 list \<Rightarrow> (int64 \<times> snow_state \<times> int64 list) outcome option"
where
  "NewID_finish now sq st rest =
     Some (Ret (pack_id now (snowNodeId st) (snowIDClockBackTimes st) sq,
                st\<lparr>snowIDSeq := sq, snowIDTimestamp := now\<rparr>, rest))"

definition NewID :: "snow_state \<Rightarrow> int64 list \<Rightarrow> (int64 \<times> snow_state \<times> int64 list) outcome option" where
  "NewID s clk =
     (case clk of [] \<Rightarrow> None | r # rs \<Rightarrow>
       (let (now, s1) = NewID_head s r
        in if now = snowIDTimestamp s1 then
             (let sq = (snowIDSeq s1 + 1) AND snowMaxSequence in
              if sq = 0 then
                (case wait_next_milli (snowIDTimestamp s1) rs of
                   None \<Rightarrow> None
                 | Some (now', back, rest) \<Rightarrow>
                     if back then
                       (case clock_back s1 of
                          Panic m \<Rightarrow> Some (Panic m)
                        | Ret s2 \<Rightarrow> NewID_finish now' sq s2 rest)
                     else NewID_finish now' sq s1 rest)
              else NewID_finish now sq s1 rs)
           else if snowIDTimestamp s1 <s now then NewID_finish now 0 s1 rs
           else (case clock_back s1 of
                   Panic m \<Rightarrow> Some (Panic m)
                 | Ret s2 \<Rightarrow> NewID_finish now 0 s2 rs)))"

text \<open>The Unix milliseconds of the returned \<open>time.Time\<close>.\<close>

definition IDGetTimestamp :: "int64 \<Rightarrow> int64" where
  "IDGetTimestamp snowId =
     (let nodeOffset = snowClockBackBits + snowCounterBits; timeOffset = snowNodeIDBits + nodeOffset
      in signed_drop_bit timeOffset snowId + snowIDEpoch)"

definition IDGetNodeID :: "int64 \<Rightarrow> int64" where
  "IDGetNodeID snowId =
     signed_drop_bit (snowClockBackBits + snowCounterBits) snowId AND snowNodeIDMax"

definition IDGetClockBackwardTimes :: "int64 \<Rightarrow> int64" where
  "IDGetClockBackwardTimes snowId =
     signed_drop_bit snowCounterBits snowId AND snowClockBackMaxTimes"

section \<open>Packing\<close>

abbreviation epoch_ms :: int where "epoch_ms \<equiv> 1735660800000"

definition in_range :: "int64 \<Rightarrow> bool" where
  "in_range t \<longleftrightarrow> epoch_ms \<le> sint t \<and> sint t < epoch_ms + 2 ^ 41"

lemma in_range_uint:
  assumes "in_range t"
  shows "uint (t - snowIDEpoch) = sint t - epoch_ms"
proof -
  have t: "uint t = sint t"
    using assms sint_nonneg_64 [of t] by (simp add: in_range_def)
  have "uint (t - snowIDEpoch) = (uint t - epoch_ms) mod 2 ^ 64"
    by (simp add: snowIDEpoch_def uint_word_ariths)
  also have "\<dots> = uint t - epoch_ms"
    using assms by (intro mod_pos_pos_trivial) (simp_all add: t in_range_def)
  finally show ?thesis by (simp add: t)
qed

lemma pack_id_uint:
  assumes "in_range now" "uint node < 2 ^ 7" "uint tb < 2 ^ 2" "uint sq < 2 ^ 13"
  shows "uint (pack_id now node tb sq)
       = (sint now - epoch_ms) * 2 ^ 22 + (uint node * 2 ^ 15 + (uint tb * 2 ^ 13 + uint sq))"
    and "uint (pack_id now node tb sq) < 2 ^ 63"
proof -
  let ?t = "now - snowIDEpoch"
  have t: "uint ?t = sint now - epoch_ms" by (rule in_range_uint [OF assms(1)])
  have fits: "(uint ?t + 1) * 2 ^ (7 + 15) \<le> 2 ^ 63"
    using assms(1) by (simp add: t in_range_def)
  have low: "uint (push_bit 13 tb OR sq) = uint tb * 2 ^ 13 + uint sq"
    using assms(3,4) by (intro uint_or_disjoint) simp_all
  have "uint (push_bit 13 tb OR sq) < 2 ^ 15"
    using assms(3,4) by (simp add: low)
  note P = uint_pack3 [OF fits assms(2) this]
  have e: "pack_id now node tb sq
      = (push_bit (7 + 15) ?t OR push_bit 15 node) OR (push_bit 13 tb OR sq)"
    by (simp add: pack_id_def snow_consts Let_def or.assoc)
  show "uint (pack_id now node tb sq)
       = (sint now - epoch_ms) * 2 ^ 22 + (uint node * 2 ^ 15 + (uint tb * 2 ^ 13 + uint sq))"
    using P(1) by (simp add: e low t)
  show "uint (pack_id now node tb sq) < 2 ^ 63" using P by (simp add: e)
qed

lemma pack_id_decode:
  assumes "in_range now" "uint node < 2 ^ 7" "uint tb < 2 ^ 2" "uint sq < 2 ^ 13"
  shows "IDGetTimestamp (pack_id now node tb sq) = now"
    and "IDGetNodeID (pack_id now node tb sq) = node"
    and "IDGetClockBackwardTimes (pack_id now node tb sq) = tb"
    and "pack_id now node tb sq AND snowMaxSequence = sq"
proof -
  let ?i = "pack_id now node tb sq"
  note P = pack_id_uint [OF assms]
  note D = signed_drop_bit_nonneg [OF P(2)]
  note nn = assms(2-4) uint_ge_0 [of node] uint_ge_0 [of tb] uint_ge_0 [of sq]
  let ?T = "sint now - epoch_ms" and ?N = "uint node" and ?B = "uint tb" and ?Q = "uint sq"
  have f15: "uint ?i = (?T * 2 ^ 7 + ?N) * 2 ^ 15 + (?B * 2 ^ 13 + ?Q)"
    and f13: "uint ?i = ((?T * 2 ^ 7 + ?N) * 2 ^ 2 + ?B) * 2 ^ 13 + ?Q"
    by (simp_all add: P(1))
  have b15: "0 \<le> ?B * 2 ^ 13 + ?Q" "?B * 2 ^ 13 + ?Q < 2 ^ 15" using nn by simp_all
  have d15: "uint ?i div 2 ^ 15 = ?T * 2 ^ 7 + ?N" unfolding f15 by (rule field_split(1) [OF b15])
  have d13: "uint ?i div 2 ^ 13 = (?T * 2 ^ 7 + ?N) * 2 ^ 2 + ?B"
    unfolding f13 by (rule field_split(1)) (use nn in simp_all)
  have "uint ?i div 2 ^ 22 = uint ?i div 2 ^ 15 div 2 ^ 7"
    by (simp add: zdiv_zmult2_eq [symmetric])
  also have "\<dots> = ?T" unfolding d15 by (rule field_split(1)) (use nn in simp_all)
  finally have "uint ?i div 2 ^ 22 = ?T" .
  then have "signed_drop_bit 22 ?i = now - snowIDEpoch"
    by (simp add: word_uint_eq_iff D in_range_uint [OF assms(1)])
  then show "IDGetTimestamp ?i = now" by (simp add: IDGetTimestamp_def snow_consts)
  have "uint ?i div 2 ^ 15 mod 2 ^ 7 = uint node" unfolding d15 by (rule field_split(2)) (use nn in simp_all)
  then show "IDGetNodeID ?i = node"
    by (simp add: IDGetNodeID_def snow_consts low_mask_eq word_uint_eq_iff uint_and_mask D)
  have "uint ?i div 2 ^ 13 mod 2 ^ 2 = uint tb" unfolding d13 by (rule field_split(2)) (use nn in simp_all)
  then show "IDGetClockBackwardTimes ?i = tb"
    by (simp add: IDGetClockBackwardTimes_def snow_consts low_mask_eq word_uint_eq_iff uint_and_mask D)
  have "uint ?i mod 2 ^ 13 = uint sq" unfolding f13 by (rule field_split(2)) (use nn in simp_all)
  then show "?i AND snowMaxSequence = sq"
    by (simp add: snow_consts low_mask_eq word_uint_eq_iff uint_and_mask)
qed

section \<open>The ways a call can end\<close>

lemma wait_next_milli_Some:
  "wait_next_milli ts rs = Some (r, back, rest) \<Longrightarrow>
     (\<exists>pre. rs = pre @ r # rest) \<and> (if back then r <s ts else ts <s r)"
proof (induction ts rs rule: wait_next_milli.induct)
  case (2 ts r rs)
  then show ?case
    by (fastforce simp: word_sless_alt word_sle_eq split: if_splits intro: exI [of _ "r # _"])
qed simp

lemma NewID_head_fields [simp]:
  "snowIDTimestamp (snd (NewID_head s r)) = snowIDTimestamp s"
  "snowIDSeq (snd (NewID_head s r)) = snowIDSeq s"
  "snowNodeId (snd (NewID_head s r)) = snowNodeId s"
  "length (snowIDClockBackPoints s) = 3 \<Longrightarrow> length (snowIDClockBackPoints (snd (NewID_head s r))) = 3"
  by (simp_all add: NewID_head_def Let_def)

inductive newid_case ::
  "snow_state \<Rightarrow> int64 \<Rightarrow> int64 list \<Rightarrow> int64 \<Rightarrow> int64 \<Rightarrow> snow_state \<Rightarrow> int64 list \<Rightarrow> bool"
  \<comment> \<open>head state, its reading, the readings after it; timestamp, sequence, state and readings at the end\<close>
where
  tick: "now = snowIDTimestamp s1 \<Longrightarrow> (snowIDSeq s1 + 1) AND snowMaxSequence \<noteq> 0 \<Longrightarrow>
     newid_case s1 now rs now ((snowIDSeq s1 + 1) AND snowMaxSequence) s1 rs"
| wait_later: "now = snowIDTimestamp s1 \<Longrightarrow> rs = pre @ r' # rest \<Longrightarrow> snowIDTimestamp s1 <s r' \<Longrightarrow>
     newid_case s1 now rs r' 0 s1 rest"
| wait_back: "now = snowIDTimestamp s1 \<Longrightarrow> rs = pre @ r' # rest \<Longrightarrow> r' <s snowIDTimestamp s1 \<Longrightarrow>
     clock_back s1 = Ret s2 \<Longrightarrow> newid_case s1 now rs r' 0 s2 rest"
| later: "snowIDTimestamp s1 <s now \<Longrightarrow> newid_case s1 now rs now 0 s1 rs"
| went_back: "now <s snowIDTimestamp s1 \<Longrightarrow> clock_back s1 = Ret s2 \<Longrightarrow> newid_case s1 now rs now 0 s2 rs"

lemma NewID_Ret:
  assumes "NewID s (r # rs) = Some (Ret (i, s', clk'))"
  obtains now sq s2 where
    "newid_case (snd (NewID_head s r)) (fst (NewID_head s r)) rs now sq s2 clk'"
    "i = pack_id now (snowNodeId s2) (snowIDClockBackTimes s2) sq"
    "s' = s2\<lparr>snowIDSeq := sq, snowIDTimestamp := now\<rparr>"
proof -
  obtain now s1 where h: "NewID_head s r = (now, s1)" by (cases "NewID_head s r")
  have less: "\<not> snowIDTimestamp s1 <s now \<Longrightarrow> now \<noteq> snowIDTimestamp s1 \<Longrightarrow> now <s snowIDTimestamp s1"
    by (metis linorder_cases word_eq_iff_signed word_sless_alt)
  note found = that
  have fin: thesis
    if "newid_case s1 now rs n q s2 rest" "NewID_finish n q s2 rest = Some (Ret (i, s', clk'))"
    for n q s2 rest
    using that h by (intro found [of n q s2]) (simp_all add: NewID_finish_def)
  show thesis
  proof (cases "now = snowIDTimestamp s1")
    case t: True
    show thesis
    proof (cases "(snowIDSeq s1 + 1) AND snowMaxSequence = 0")
      case True
      with assms h t obtain n b rest where w: "wait_next_milli (snowIDTimestamp s1) rs = Some (n, b, rest)"
        and f: "if b then \<exists>s2. clock_back s1 = Ret s2 \<and> NewID_finish n 0 s2 rest = Some (Ret (i, s', clk'))
                else NewID_finish n 0 s1 rest = Some (Ret (i, s', clk'))"
        by (auto simp: NewID_def split: option.splits outcome.splits if_splits)
      from wait_next_milli_Some [OF w] obtain pre where
        "rs = pre @ n # rest" "if b then n <s snowIDTimestamp s1 else snowIDTimestamp s1 <s n" by blast
      with f t show thesis
        by (cases b) (auto intro: fin newid_case.wait_later newid_case.wait_back)
    next
      case False
      with assms h t show thesis
        by (intro fin [OF newid_case.tick [OF t False]]) (simp add: NewID_def)
    qed
  next
    case False
    show thesis
    proof (cases "snowIDTimestamp s1 <s now")
      case True
      with assms h False show thesis
        by (intro fin [OF newid_case.later [OF True]]) (simp add: NewID_def)
    next
      case nl: False
      with assms h False obtain s2 where "clock_back s1 = Ret s2"
        "NewID_finish now 0 s2 rs = Some (Ret (i, s', clk'))"
        by (auto simp: NewID_def split: outcome.splits)
      then show thesis by (intro fin [OF newid_case.went_back [OF less [OF nl False]]])
    qed
  qed
qed

section \<open>The invariant\<close>

text \<open>
  \<open>sid_ok\<close>: every field fits its place in an identifier, and the last timestamp is either unset
  (no identifier yet) or in the 41-bit range above the epoch.
\<close>

definition sid_ok :: "snow_state \<Rightarrow> bool" where
  "sid_ok s \<longleftrightarrow> uint (snowNodeId s) < 2 ^ 7 \<and> uint (snowIDClockBackTimes s) < 2 ^ 2 \<and>
     uint (snowIDSeq s) < 2 ^ 13 \<and> length (snowIDClockBackPoints s) = 3 \<and>
     (in_range (snowIDTimestamp s) \<or> snowIDTimestamp s = 0 \<and> snowIDClockBackPoints s ! 0 = 0)"

lemma sid_ok_init: "sid_ok snow_init"
  by (simp add: sid_ok_def snow_init_def)

lemma sid_ok_head: "sid_ok s \<Longrightarrow> sid_ok (snd (NewID_head s r))"
  by (auto simp: sid_ok_def NewID_head_def Let_def)

lemma snow_seq_bound: "uint ((q + 1) AND snowMaxSequence) < 2 ^ 13"
  by (simp add: snow_consts low_mask_eq uint_and_mask)

lemma clock_back_ok:
  assumes "clock_back s = Ret t" "uint (snowIDClockBackTimes s) < 2 ^ 2"
  shows "uint (snowIDClockBackTimes t) = uint (snowIDClockBackTimes s) + 1"
    and "uint (snowIDClockBackTimes t) < 2 ^ 2"
    and "snowIDTimestamp t = snowIDTimestamp s" "snowIDSeq t = snowIDSeq s"
    and "snowNodeId t = snowNodeId s"
    and "length (snowIDClockBackPoints t) = length (snowIDClockBackPoints s)"
proof -
  have u: "uint (snowIDClockBackTimes s + 1) = uint (snowIDClockBackTimes s) + 1"
    using assms(2) by (simp add: uint_word_ariths)
  then have "sint (snowIDClockBackTimes s + 1) = uint (snowIDClockBackTimes s) + 1"
    using assms(2) by (simp add: sint_eq_uint_small)
  with assms(1) have "uint (snowIDClockBackTimes s) + 1 \<le> 3"
    and t: "snowIDClockBackTimes t = snowIDClockBackTimes s + 1"
    by (auto simp: clock_back_def Let_def word_sless_alt split: if_splits)
  then show "uint (snowIDClockBackTimes t) = uint (snowIDClockBackTimes s) + 1"
    and "uint (snowIDClockBackTimes t) < 2 ^ 2" by (simp_all add: u)
  show "snowIDTimestamp t = snowIDTimestamp s" "snowIDSeq t = snowIDSeq s"
    "snowNodeId t = snowNodeId s"
    "length (snowIDClockBackPoints t) = length (snowIDClockBackPoints s)"
    using assms(1) by (auto simp: clock_back_def Let_def split: if_splits)
qed

text \<open>The fourth rollback of an episode ends the program.\<close>

lemma clock_back_fourth:
  assumes "uint (snowIDClockBackTimes s) < 2 ^ 2"
  shows "(\<exists>m. clock_back s = Panic m) \<longleftrightarrow> snowIDClockBackTimes s = 3"
proof -
  have "uint (snowIDClockBackTimes s + 1) = uint (snowIDClockBackTimes s) + 1"
    using assms by (simp add: uint_word_ariths)
  then have "sint (snowIDClockBackTimes s + 1) = uint (snowIDClockBackTimes s) + 1"
    using assms by (simp add: sint_eq_uint_small)
  then show ?thesis using assms
    by (auto simp: clock_back_def Let_def word_sless_alt word_uint_eq_iff)
qed

text \<open>One call, seen from the outside.\<close>

lemma newid_case_ok:
  assumes "newid_case s1 now0 rs now sq s2 clk'" "sid_ok s1"
    and "in_range now0" "\<forall>x\<in>set rs. in_range x"
  shows "sid_ok (s2\<lparr>snowIDSeq := sq, snowIDTimestamp := now\<rparr>) \<and> in_range now
    \<and> snowNodeId s2 = snowNodeId s1"
proof -
  have upd: "sid_ok (t\<lparr>snowIDSeq := q, snowIDTimestamp := n\<rparr>) \<and> in_range n \<and> snowNodeId t = snowNodeId s1"
    if "t = s1 \<or> clock_back s1 = Ret t" "uint q < 2 ^ 13" "in_range n" for t q n
    using that(1)
  proof
    assume "t = s1"
    then show ?thesis using assms(2) that(2,3) by (simp add: sid_ok_def)
  next
    assume b: "clock_back s1 = Ret t"
    have "uint (snowIDClockBackTimes s1) < 2 ^ 2" using assms(2) by (simp add: sid_ok_def)
    note B = clock_back_ok [OF b this]
    show ?thesis using assms(2) that(2,3) B(2,5,6) by (simp add: sid_ok_def)
  qed
  show ?thesis
  proof (rule upd)
    show "s2 = s1 \<or> clock_back s1 = Ret s2" using assms(1) by cases simp_all
    show "uint sq < 2 ^ 13" using assms(1) by cases (simp_all add: snow_seq_bound [simplified])
    show "in_range now" using assms(1,3,4) by cases simp_all
  qed
qed

lemma NewID_ok:
  assumes ok: "sid_ok s" and clk: "\<forall>x\<in>set clk. in_range x"
    and nx: "NewID s clk = Some (Ret (i, s', clk'))"
  shows "sid_ok s' \<and> in_range (snowIDTimestamp s') \<and> snowNodeId s' = snowNodeId s
    \<and> i = pack_id (snowIDTimestamp s') (snowNodeId s') (snowIDClockBackTimes s') (snowIDSeq s')"
proof -
  from nx obtain r rs where c: "clk = r # rs"
    by (auto simp: NewID_def split: list.splits)
  from nx c obtain now sq s2 where
    k: "newid_case (snd (NewID_head s r)) (fst (NewID_head s r)) rs now sq s2 clk'"
    and e: "i = pack_id now (snowNodeId s2) (snowIDClockBackTimes s2) sq"
      "s' = s2\<lparr>snowIDSeq := sq, snowIDTimestamp := now\<rparr>"
    by (auto elim: NewID_Ret)
  have r: "in_range r" using clk c by simp
  have pos: "0 <s r" using r by (simp add: in_range_def word_sless_alt)
  have "in_range (fst (NewID_head s r))"
    using ok r pos by (auto simp: NewID_head_def Let_def sid_ok_def)
  with newid_case_ok [OF k sid_ok_head [OF ok]] clk c e show ?thesis by simp
qed

lemma snow_seq_step:
  assumes "uint q < 2 ^ 13" "(q + 1) AND snowMaxSequence \<noteq> 0"
  shows "uint ((q + 1) AND snowMaxSequence) = uint q + 1"
proof -
  have e: "uint ((q + 1) AND snowMaxSequence) = (uint q + 1) mod 2 ^ 13"
    using assms(1) by (simp add: snow_consts low_mask_eq uint_and_mask uint_word_ariths)
  have "uint ((q + 1) AND snowMaxSequence) \<noteq> 0" using assms(2) by (simp add: unsigned_eq_0_iff)
  then have "uint q + 1 \<noteq> 2 ^ 13" by (auto simp: e)
  with assms(1) show ?thesis unfolding e by (intro mod_pos_pos_trivial) simp_all
qed

lemma newid_case_progress:
  assumes "newid_case s1 now0 rs now sq s2 clk'" "sid_ok s1"
  shows "uint (snowIDClockBackTimes s1) < uint (snowIDClockBackTimes s2) \<or>
    s2 = s1 \<and> (snowIDTimestamp s1 <s now \<or>
      now = snowIDTimestamp s1 \<and> uint sq = uint (snowIDSeq s1) + 1)"
proof -
  have b: "uint (snowIDClockBackTimes s1) < uint (snowIDClockBackTimes t)" if "clock_back s1 = Ret t" for t
    using clock_back_ok(1) [OF that] assms(2) by (simp add: sid_ok_def)
  from assms show ?thesis
    by cases (auto simp: sid_ok_def snow_seq_step dest: b)
qed

section \<open>Properties\<close>

text \<open>C11. Every identifier \<open>NewID\<close> returns decodes to what the generator put in it (the
  millisecond of the tick, the node id, the rollback count), whatever the clock did before; the
  node id must be one that fits its 7 bits and the readings lie in the 41-bit range.\<close>

theorem newid_decode:
  assumes "sid_ok s" "\<forall>x\<in>set clk. in_range x" "NewID s clk = Some (Ret (i, s', clk'))"
  shows "IDGetTimestamp i = snowIDTimestamp s' \<and> IDGetNodeID i = snowNodeId s
    \<and> IDGetClockBackwardTimes i = snowIDClockBackTimes s' \<and> 0 \<le> sint i \<and> sid_ok s'"
proof -
  note R = NewID_ok [OF assms]
  then have b: "in_range (snowIDTimestamp s')" "uint (snowNodeId s') < 2 ^ 7"
    "uint (snowIDClockBackTimes s') < 2 ^ 2" "uint (snowIDSeq s') < 2 ^ 13"
    unfolding sid_ok_def by blast+
  have "0 \<le> sint i" using R pack_id_uint(2) [OF b] by (simp add: sint_eq_uint_small)
  with R pack_id_decode [OF b] show ?thesis by simp
qed

lemma newid_decode_witness:
  "\<exists>i s' clk'. NewID snow_init [1735660800007] = Some (Ret (i, s', clk'))
    \<and> IDGetTimestamp i = 1735660800007 \<and> IDGetNodeID i = 0 \<and> IDGetClockBackwardTimes i = 0"
proof -
  have r: "\<forall>x\<in>set [1735660800007]. in_range x" by (simp add: in_range_def)
  obtain i s' clk' where n: "NewID snow_init [1735660800007] = Some (Ret (i, s', clk'))"
    and t: "snowIDTimestamp s' = 1735660800007" "snowIDClockBackTimes s' = 0"
    by (simp add: NewID_def NewID_head_def NewID_finish_def snow_init_def word_sless_alt)
  from newid_decode [OF sid_ok_init r n] n t show ?thesis by (auto simp: snow_init_def)
qed

text \<open>Inside one rollback episode (no reset: the clock has not passed the first rollback
  point) the triple (rollback count, timestamp, sequence) that an identifier encodes grows
  lexicographically with every call, so the identifiers of an episode never repeat, however the
  clock jumps.\<close>

theorem newid_episode_progress:
  assumes "sid_ok s" "\<forall>x\<in>set (r # rs). in_range x"
    and "NewID s (r # rs) = Some (Ret (i, s', clk'))"
    and "snowIDClockBackPoints s ! 0 = 0 \<or> r \<le>s snowIDClockBackPoints s ! 0"
  shows "uint (snowIDClockBackTimes s) < uint (snowIDClockBackTimes s') \<or>
    snowIDClockBackTimes s' = snowIDClockBackTimes s \<and>
      (snowIDTimestamp s <s snowIDTimestamp s' \<or>
       snowIDTimestamp s' = snowIDTimestamp s \<and> uint (snowIDSeq s) < uint (snowIDSeq s'))"
proof -
  from assms(3) obtain now sq s2 where
    k: "newid_case (snd (NewID_head s r)) (fst (NewID_head s r)) rs now sq s2 clk'"
    and e: "s' = s2\<lparr>snowIDSeq := sq, snowIDTimestamp := now\<rparr>"
    by (auto elim: NewID_Ret)
  have "snd (NewID_head s r) = s"
    using assms(4) by (auto simp: NewID_head_def Let_def word_sless_alt word_sle_eq)
  with newid_case_progress [OF k sid_ok_head [OF assms(1)]] e show ?thesis by auto
qed

lemma newid_episode_progress_witness:
  "\<exists>i s' clk'. NewID (snow_init\<lparr>snowIDTimestamp := 1735660800007\<rparr>) [1735660800005]
      = Some (Ret (i, s', clk'))
    \<and> 0 < uint (snowIDClockBackTimes s')"
proof -
  let ?s = "snow_init\<lparr>snowIDTimestamp := 1735660800007\<rparr>"
  have ok: "sid_ok ?s" by (simp add: sid_ok_def snow_init_def in_range_def)
  have r: "\<forall>x\<in>set [1735660800005]. in_range x" by (simp add: in_range_def)
  have p: "snowIDClockBackPoints ?s ! 0 = 0 \<or> 1735660800005 \<le>s snowIDClockBackPoints ?s ! 0"
    by (simp add: snow_init_def)
  obtain i s' clk' where n: "NewID ?s [1735660800005] = Some (Ret (i, s', clk'))"
    and t: "snowIDTimestamp s' = 1735660800005"
    by (simp add: NewID_def NewID_head_def NewID_finish_def clock_back_def snow_init_def word_sless_alt)
  from newid_episode_progress [OF ok r n p] n t show ?thesis
    by (auto simp: snow_init_def word_sless_alt)
qed

text \<open>The step of the generator interface: a call that returns an identifier.\<close>

definition newid_step :: "snow_state \<Rightarrow> int64 list \<Rightarrow> (int64 \<times> snow_state \<times> int64 list) option" where
  "newid_step s clk = (case NewID s clk of Some (Ret x) \<Rightarrow> Some x | _ \<Rightarrow> None)"

definition sid_key :: "snow_state \<Rightarrow> int" where
  "sid_key s = (sint (snowIDTimestamp s) - epoch_ms) * 2 ^ 22 + (uint (snowNodeId s) * 2 ^ 15 +
     (uint (snowIDClockBackTimes s) * 2 ^ 13 + uint (snowIDSeq s)))"

text \<open>No rollback under way, and a clock that never goes back behind the last timestamp.\<close>

definition sid_steady :: "snow_state \<Rightarrow> int64 list \<Rightarrow> bool" where
  "sid_steady s clk \<longleftrightarrow> sid_ok s \<and> snowIDClockBackPoints s ! 0 = 0 \<and>
     sorted (map sint clk) \<and>
     (\<forall>r\<in>set clk. in_range r \<and> sint (snowIDTimestamp s) \<le> sint r)"

lemma sid_steady_head:
  assumes "sid_steady s (r # rs)"
  shows "NewID_head s r = (r, s)"
  using assms by (simp add: sid_steady_def NewID_head_def word_sless_alt in_range_def)

lemma sid_steady_case:
  assumes "newid_case s r rs now sq s2 rest" "sid_steady s (r # rs)"
  shows "s2 = s \<and> sid_steady (s\<lparr>snowIDSeq := sq, snowIDTimestamp := now\<rparr>) rest"
proof -
  have ok: "sid_ok s" using assms(2) by (simp add: sid_steady_def)
  note K = newid_case_ok [OF assms(1) ok]
  have k: "sid_ok (s2\<lparr>snowIDSeq := sq, snowIDTimestamp := now\<rparr>)"
    using K assms(2) by (simp add: sid_steady_def)
  show ?thesis using assms k
    by cases (auto simp: sid_steady_def word_sless_alt sorted_append)
qed

lemma newid_step_steady:
  assumes st: "sid_steady s clk" and nx: "newid_step s clk = Some (i, s', clk')"
  shows "sid_steady s' clk' \<and> sid_key s < sid_key s' \<and> sint i = sid_key s'"
proof -
  have n: "NewID s clk = Some (Ret (i, s', clk'))"
    using nx by (auto simp: newid_step_def split: option.splits outcome.splits)
  then obtain r rs where c: "clk = r # rs" by (auto simp: NewID_def split: list.splits)
  have st': "sid_steady s (r # rs)" using st c by simp
  from n c obtain now sq s2 where
    k: "newid_case (snd (NewID_head s r)) (fst (NewID_head s r)) rs now sq s2 clk'"
    and e: "s' = s2\<lparr>snowIDSeq := sq, snowIDTimestamp := now\<rparr>"
    by (auto elim: NewID_Ret)
  then have k: "newid_case s r rs now sq s2 clk'" by (simp add: sid_steady_head [OF st'])
  note S = sid_steady_case [OF k st']
  have ok: "sid_ok s" and rng: "\<forall>x\<in>set clk. in_range x" using st by (simp_all add: sid_steady_def)
  note R = NewID_ok [OF ok rng n]
  then have b: "in_range (snowIDTimestamp s')" "uint (snowNodeId s') < 2 ^ 7"
    "uint (snowIDClockBackTimes s') < 2 ^ 2" "uint (snowIDSeq s') < 2 ^ 13"
    unfolding sid_ok_def by blast+
  have key: "sint i = sid_key s'"
    using R pack_id_uint [OF b] by (simp add: sid_key_def sint_eq_uint_small)
  have "sid_key s < sid_key s'"
  proof -
    have q: "uint (snowIDSeq s) < 2 ^ 13" using ok by (simp add: sid_ok_def)
    define D where "D = sint now - sint (snowIDTimestamp s)"
    have kd: "sid_key s' = sid_key s + 4194304 * D + (uint sq - uint (snowIDSeq s))"
      using S e by (simp add: sid_key_def D_def algebra_simps)
    have b: "uint (snowIDSeq s) < 8192" "0 \<le> uint sq" using q by simp_all
    from newid_case_progress [OF k ok] S e
    have "1 \<le> D \<or> D = 0 \<and> uint sq = uint (snowIDSeq s) + 1"
      by (auto simp: word_sless_alt D_def)
    with b show ?thesis unfolding kd by linarith
  qed
  with key S e show ?thesis by simp
qed

interpretation sid: id_generator newid_step sid_steady sid_key
  by unfold_locales (use newid_step_steady in blast)+

text \<open>C10. With a clock that never goes back, any number of calls of \<open>NewID\<close> returns strictly
  increasing, pairwise distinct identifiers.\<close>

theorem newid_run_increasing:
  assumes "sid_steady s clk" "gen_run newid_step n s clk = Some (ids, s', clk')"
  shows "sorted_wrt (<) (map sint ids) \<and> distinct ids"
  using sid.run_increasing [OF assms] sid.run_distinct [OF assms] by simp

lemma newid_run_increasing_witness:
  "\<exists>ids s' clk'. gen_run newid_step 3 snow_init [1735660800007, 1735660800007, 1735660800009]
      = Some (ids, s', clk') \<and> sorted_wrt (<) (map sint ids) \<and> distinct ids"
proof -
  let ?clk = "[1735660800007, 1735660800007, 1735660800009] :: int64 list"
  have st: "sid_steady snow_init ?clk"
    by (simp add: sid_steady_def sid_ok_init in_range_def) (simp add: snow_init_def)
  obtain ids s' clk' where r: "gen_run newid_step 3 snow_init ?clk = Some (ids, s', clk')"
    by (simp add: numeral_3_eq_3 newid_step_def NewID_def NewID_head_def NewID_finish_def snow_init_def
        snow_consts low_mask_eq mask_eq_exp_minus_1 word_sless_alt)
  from newid_run_increasing [OF st r] r show ?thesis by blast
qed

text \<open>Across episodes the rollback count restarts at 1: when the clock falls back twice to the
  same millisecond, after having caught up in between, \<open>NewID\<close> returns the same identifier twice.\<close>

theorem newid_repeats_across_episodes:
  "\<exists>i0 i1 i2 s' clk'. gen_run newid_step 4 snow_init
       [1735660800100, 1735660800090, 1735660800101, 1735660800090] = Some ([i0, i1, i2, i1], s', clk')"
proof -
  have four: "(4::nat) = Suc (Suc (Suc (Suc 0)))" by simp
  show ?thesis unfolding four
  by (simp add: newid_step_def NewID_def NewID_head_def NewID_finish_def snow_init_def
      clock_back_def snow_consts low_mask_eq mask_eq_exp_minus_1 word_sless_alt pack_id_def)
qed

text \<open>\<open>IDSetNodeID\<close> accepts exactly the 127 node ids 0 to 126: 127, which its 7 bits could
  hold, is refused (the constant's comment promises 128 nodes).\<close>

theorem IDSetNodeID_accepts:
  "(\<exists>s'. IDSetNodeID nodeID s = Some s') \<longleftrightarrow> 0 \<le> sint nodeID \<and> sint nodeID \<le> 126"
proof -
  have "sint snowNodeIDMax = 127" by (simp add: snow_consts low_mask_eq mask_eq_exp_minus_1)
  then show ?thesis by (auto simp: IDSetNodeID_def word_sless_alt word_sle_eq)
qed

end
