(* ===== verification/Collections.thy ===== *)
theory Collections
  imports Prelude
begin

text \<open>
  \<open>pkg/collection\<close>: \<open>FastQueue\<close>, \<open>FastStack\<close>, \<open>Set\<close> and the interface \<open>Collection\<close> they share. The
  queue links mutable nodes, so its nodes live in an explicit heap (address to node) with an
  allocation counter; the stack's nodes are never written after they are made, so they are values; the
  set's map may be nil. Each method holds the container's lock throughout, so it is one function of
  the container.
\<close>

section \<open>FastQueue\<close>

record 'a fastQueueNode =
  node_value :: 'a
  node_next :: "nat option"

record 'a FastQueue =
  q_heap :: "nat \<Rightarrow> 'a fastQueueNode option"
  q_free :: nat
  q_first :: "nat option"
  q_last :: "nat option"
  q_size :: int

definition FastQueue_zero :: "'a FastQueue" where
  "FastQueue_zero = \<lparr>q_heap = (\<lambda>_. None), q_free = 0, q_first = None, q_last = None, q_size = 0\<rparr>"

text \<open>The body of the loop of \<open>In\<close>.\<close>

definition FastQueue_link :: "'a \<Rightarrow> 'a FastQueue \<Rightarrow> 'a FastQueue" where
  "FastQueue_link v q =
     (let node = q_free q;
          h0 = (q_heap q)(node \<mapsto> \<lparr>node_value = v, node_next = None\<rparr>);
          h1 = (case q_last q of None \<Rightarrow> h0
                | Some l \<Rightarrow> h0(l := map_option (\<lambda>nd. nd\<lparr>node_next := Some node\<rparr>) (h0 l)))
      in q\<lparr>q_heap := h1, q_free := Suc node, q_last := Some node,
           q_first := (case q_first q of None \<Rightarrow> Some node | Some f \<Rightarrow> Some f)\<rparr>)"

definition FastQueue_In :: "'a list \<Rightarrow> 'a FastQueue \<Rightarrow> 'a FastQueue" where
  "FastQueue_In vals q =
     (if vals = [] then q
      else let q' = fold FastQueue_link vals q in q'\<lparr>q_size := q_size q' + int (length vals)\<rparr>)"

definition FastQueue_Out :: "'a FastQueue \<Rightarrow> 'a option \<times> 'a FastQueue" where
  "FastQueue_Out q =
     (case q_first q of
        None \<Rightarrow> (None, q)
      | Some a \<Rightarrow>
          (case q_heap q a of
             None \<Rightarrow> (None, q) \<comment> \<open>no dangling pointers in Go: excluded by the invariant\<close>
           | Some out \<Rightarrow>
               (Some (node_value out), q\<lparr>q_first := node_next out, q_size := q_size q - 1\<rparr>)))"

definition FastQueue_Clear :: "'a FastQueue \<Rightarrow> 'a FastQueue" where
  "FastQueue_Clear q = q\<lparr>q_first := None, q_last := None, q_size := 0\<rparr>"

definition FastQueue_Size :: "'a FastQueue \<Rightarrow> int" where
  "FastQueue_Size q = q_size q"

definition FastQueue_IsEmpty :: "'a FastQueue \<Rightarrow> bool" where
  "FastQueue_IsEmpty q \<longleftrightarrow> q_size q = 0"

section \<open>FastStack\<close>

datatype 'a fastStackNode = StackNode 'a "'a fastStackNode option"

record 'a FastStack =
  st_top :: "'a fastStackNode option"
  st_size :: int

definition FastStack_zero :: "'a FastStack" where
  "FastStack_zero = \<lparr>st_top = None, st_size = 0\<rparr>"

definition FastStack_Push :: "'a list \<Rightarrow> 'a FastStack \<Rightarrow> 'a FastStack" where
  "FastStack_Push vals s =
     (if vals = [] then s
      else \<lparr>st_top = fold (\<lambda>v t. Some (StackNode v t)) vals (st_top s),
            st_size = st_size s + int (length vals)\<rparr>)"

text \<open>\<open>zero\<close> is the zero value of the element type, which an empty stack answers with.\<close>

definition FastStack_Pop :: "'a \<Rightarrow> 'a FastStack \<Rightarrow> 'a \<times> 'a FastStack" where
  "FastStack_Pop zero s =
     (case st_top s of
        None \<Rightarrow> (zero, s)
      | Some (StackNode v n) \<Rightarrow> (v, s\<lparr>st_top := n, st_size := st_size s - 1\<rparr>))"

definition FastStack_Clear :: "'a FastStack \<Rightarrow> 'a FastStack" where
  "FastStack_Clear s = s\<lparr>st_top := None, st_size := 0\<rparr>"

definition FastStack_Peek :: "'a \<Rightarrow> 'a FastStack \<Rightarrow> 'a" where
  "FastStack_Peek zero s = (case st_top s of None \<Rightarrow> zero | Some (StackNode v n) \<Rightarrow> v)"

definition FastStack_Size :: "'a FastStack \<Rightarrow> int" where
  "FastStack_Size s = st_size s"

definition FastStack_IsEmpty :: "'a FastStack \<Rightarrow> bool" where
  "FastStack_IsEmpty s \<longleftrightarrow> st_size s = 0"

section \<open>Set\<close>

text \<open>\<open>None\<close> is the nil map, which reads as empty.\<close>

type_synonym 'a GoSet = "('a \<Rightarrow> unit option) option"

definition Set_map :: "'a GoSet \<Rightarrow> 'a \<Rightarrow> unit option" where
  "Set_map s = (case s of None \<Rightarrow> (\<lambda>_. None) | Some m \<Rightarrow> m)"

definition Set_len :: "'a GoSet \<Rightarrow> int" where
  "Set_len s = int (card (dom (Set_map s)))"

definition Set_Add :: "'a list \<Rightarrow> 'a GoSet \<Rightarrow> 'a GoSet" where
  "Set_Add items s = Some (fold (\<lambda>v m. m(v \<mapsto> ())) items (Set_map s))"

definition Set_Remove :: "'a list \<Rightarrow> 'a GoSet \<Rightarrow> 'a GoSet" where
  "Set_Remove items s =
     (if Set_len s = 0 then s
      else map_option (fold (\<lambda>v m. m(v := None)) items) s)"

definition Set_Clear :: "'a GoSet \<Rightarrow> 'a GoSet" where
  "Set_Clear s = map_option (\<lambda>_. (\<lambda>_. None)) s"

definition Set_Size :: "'a GoSet \<Rightarrow> int" where
  "Set_Size s = Set_len s"

definition Set_IsEmpty :: "'a GoSet \<Rightarrow> bool" where
  "Set_IsEmpty s \<longleftrightarrow> Set_len s = 0"

definition Set_Contains :: "'a GoSet \<Rightarrow> 'a \<Rightarrow> bool" where
  "Set_Contains s item = (if Set_len s = 0 then False else Set_map s item \<noteq> None)"

text \<open>The order of a map's iteration is not specified: the slices \<open>ToSlice\<close> may return.\<close>

definition Set_ToSlice :: "'a GoSet \<Rightarrow> 'a list \<Rightarrow> bool" where
  "Set_ToSlice s out \<longleftrightarrow> distinct out \<and> set out = dom (Set_map s)"

section \<open>The Collection interface\<close>

locale collection =
  fixes sz :: "'s \<Rightarrow> int" and emp :: "'s \<Rightarrow> bool" and clear :: "'s \<Rightarrow> 's"
    and elems :: "'s \<Rightarrow> nat" and inv :: "'s \<Rightarrow> bool"
  assumes sz_elems: "inv s \<Longrightarrow> sz s = int (elems s)"
    and emp_elems: "inv s \<Longrightarrow> emp s \<longleftrightarrow> elems s = 0"
    and clear_inv: "inv s \<Longrightarrow> inv (clear s)"
    and clear_elems: "inv s \<Longrightarrow> elems (clear s) = 0"
begin

lemma emp_iff_sz: "inv s \<Longrightarrow> emp s \<longleftrightarrow> sz s = 0"
  by (simp add: sz_elems emp_elems)

lemma sz_nonneg: "inv s \<Longrightarrow> 0 \<le> sz s"
  by (simp add: sz_elems)

lemma cleared: "inv s \<Longrightarrow> emp (clear s) \<and> sz (clear s) = 0"
  by (simp add: sz_elems emp_elems clear_inv clear_elems)

end

section \<open>Containers that keep a sequence\<close>

text \<open>
  The contract of a container that refines a sequence: \<open>put\<close> adds a list of values the way \<open>sput\<close>
  does on the sequence, \<open>get\<close> answers \<open>ans\<close> of the sequence and drops its head. A run of calls then
  gives the answers of the run on the sequence.
\<close>

datatype 'a call = Put "'a list" | Get

fun call_run :: "('a list \<Rightarrow> 's \<Rightarrow> 's) \<Rightarrow> ('s \<Rightarrow> 'r \<times> 's) \<Rightarrow> 'a call list \<Rightarrow> 's \<Rightarrow> 'r list \<times> 's" where
  "call_run put get [] s = ([], s)"
| "call_run put get (Put vs # cs) s = call_run put get cs (put vs s)"
| "call_run put get (Get # cs) s =
     (let (r, s') = get s; (rs, s'') = call_run put get cs s' in (r # rs, s''))"

locale sequence_container =
  fixes put :: "'a list \<Rightarrow> 's \<Rightarrow> 's" and get :: "'s \<Rightarrow> 'r \<times> 's"
    and rep :: "'s \<Rightarrow> 'a list \<Rightarrow> bool"
    and sput :: "'a list \<Rightarrow> 'a list \<Rightarrow> 'a list" and ans :: "'a list \<Rightarrow> 'r"
  assumes put_rep: "rep s xs \<Longrightarrow> rep (put vs s) (sput vs xs)"
    and get_ans: "rep s xs \<Longrightarrow> fst (get s) = ans xs"
    and get_rep: "rep s xs \<Longrightarrow> rep (snd (get s)) (tl xs)"
begin

lemma run_refines:
  "rep s xs \<Longrightarrow> fst (call_run put get cs s) = fst (call_run sput (\<lambda>xs. (ans xs, tl xs)) cs xs)
    \<and> rep (snd (call_run put get cs s)) (snd (call_run sput (\<lambda>xs. (ans xs, tl xs)) cs xs))"
proof (induction cs arbitrary: s xs)
  case (Cons c cs)
  show ?case
  proof (cases c)
    case (Put vs)
    with Cons.IH [OF put_rep [OF Cons.prems]] show ?thesis by simp
  next
    case Get
    with Cons.IH [OF get_rep [OF Cons.prems]] get_ans [OF Cons.prems] show ?thesis
      by (simp add: split_beta)
  qed
qed simp

end

section \<open>The queue's heap\<close>

fun chain :: "(nat \<Rightarrow> 'a fastQueueNode option) \<Rightarrow> nat option \<Rightarrow> nat list \<Rightarrow> bool" where
  "chain h p [] \<longleftrightarrow> p = None"
| "chain h p (a # as) \<longleftrightarrow> p = Some a \<and> (\<exists>nd. h a = Some nd \<and> chain h (node_next nd) as)"

definition vals_at :: "(nat \<Rightarrow> 'a fastQueueNode option) \<Rightarrow> nat list \<Rightarrow> 'a list" where
  "vals_at h as = map (\<lambda>a. node_value (the (h a))) as"

definition q_links :: "'a FastQueue \<Rightarrow> nat list \<Rightarrow> bool" where
  "q_links q as \<longleftrightarrow> chain (q_heap q) (q_first q) as \<and> distinct as \<and>
     (\<forall>a\<in>set as. a < q_free q) \<and> (as \<noteq> [] \<longrightarrow> q_last q = Some (last as)) \<and>
     (\<forall>l. q_last q = Some l \<longrightarrow> l < q_free q)"

text \<open>The queue holds the sequence \<open>xs\<close>; \<open>q_last\<close> may be stale when it is empty.\<close>

definition q_rep :: "'a FastQueue \<Rightarrow> 'a list \<Rightarrow> bool" where
  "q_rep q xs \<longleftrightarrow> (\<exists>as. q_links q as \<and> vals_at (q_heap q) as = xs) \<and> q_size q = int (length xs)"

lemma chain_upd [simp]: "a \<notin> set as \<Longrightarrow> chain (h(a := x)) p as \<longleftrightarrow> chain h p as"
  by (induction as arbitrary: p) auto

lemma vals_at_upd: "a \<notin> set as \<Longrightarrow> vals_at (h(a := x)) as = vals_at h as"
  by (auto simp: vals_at_def)

lemma chain_snoc:
  fixes h :: "nat \<Rightarrow> 'a fastQueueNode option" and v :: 'a
  assumes "chain h p as" "as \<noteq> []" "distinct as" "n \<notin> set as"
  defines "h' \<equiv> (h(n \<mapsto> \<lparr>node_value = v, node_next = None\<rparr>))
    (last as := map_option (\<lambda>nd. nd\<lparr>node_next := Some n\<rparr>) (h (last as)))"
  shows "chain h' p (as @ [n]) \<and> vals_at h' (as @ [n]) = vals_at h as @ [v]"
  using assms(1-4) unfolding h'_def
proof (induction as arbitrary: p)
  case (Cons a as)
  show ?case
  proof (cases "as = []")
    case True
    with Cons.prems show ?thesis by (auto simp: vals_at_def)
  next
    case False
    from Cons.prems(1) obtain nd where nd: "p = Some a" "h a = Some nd" "chain h (node_next nd) as"
      by auto
    have "a \<noteq> last as" "a \<noteq> n" using Cons.prems(3,4) False by auto
    with Cons.IH [OF nd(3) False] Cons.prems(3,4) nd False show ?thesis
      by (simp add: vals_at_def)
  qed
qed simp

lemma q_link:
  assumes "q_links q as" "vals_at (q_heap q) as = xs"
  shows "\<exists>as'. q_links (FastQueue_link v q) as' \<and> vals_at (q_heap (FastQueue_link v q)) as' = xs @ [v]"
proof (cases "as = []")
  case True
  have l: "q_last q = Some l \<Longrightarrow> l \<noteq> q_free q" for l
    using assms(1) by (auto simp: q_links_def)
  have "q_links (FastQueue_link v q) [q_free q] \<and>
      vals_at (q_heap (FastQueue_link v q)) [q_free q] = xs @ [v]"
    using assms True l
    by (auto simp: q_links_def FastQueue_link_def vals_at_def Let_def split: option.splits)
  then show ?thesis by blast
next
  case False
  let ?n = "q_free q"
  have n: "?n \<notin> set as" "?n \<noteq> last as" using assms(1) False by (auto simp: q_links_def)
  have "q_links (FastQueue_link v q) (as @ [?n]) \<and>
      vals_at (q_heap (FastQueue_link v q)) (as @ [?n]) = xs @ [v]"
    using assms False n chain_snoc [of "q_heap q" "q_first q" as ?n v]
    by (cases as) (auto simp: q_links_def FastQueue_link_def Let_def)
  then show ?thesis by blast
qed

lemma FastQueue_link_size [simp]: "q_size (FastQueue_link v q) = q_size q"
  by (simp add: FastQueue_link_def Let_def)

lemma q_link_fold:
  "q_links q as \<Longrightarrow> vals_at (q_heap q) as = xs \<Longrightarrow>
     (\<exists>as'. q_links (fold FastQueue_link vs q) as' \<and> vals_at (q_heap (fold FastQueue_link vs q)) as' = xs @ vs)
     \<and> q_size (fold FastQueue_link vs q) = q_size q"
proof (induction vs arbitrary: q as xs)
  case (Cons v vs)
  from q_link [OF Cons.prems] obtain as' where
    "q_links (FastQueue_link v q) as'" "vals_at (q_heap (FastQueue_link v q)) as' = xs @ [v]" by blast
  from Cons.IH [OF this] show ?case by simp
qed auto

lemma FastQueue_In_rep: "q_rep q xs \<Longrightarrow> q_rep (FastQueue_In vs q) (xs @ vs)"
  using q_link_fold [of q _ xs vs]
  by (auto simp: q_rep_def FastQueue_In_def Let_def q_links_def)

lemma FastQueue_Out_rep:
  assumes "q_rep q xs"
  shows "fst (FastQueue_Out q) = (case xs of [] \<Rightarrow> None | x # _ \<Rightarrow> Some x)"
    and "q_rep (snd (FastQueue_Out q)) (tl xs)"
proof -
  from assms obtain as where as: "q_links q as" "vals_at (q_heap q) as = xs"
    and sz: "q_size q = int (length xs)" by (auto simp: q_rep_def)
  have "fst (FastQueue_Out q) = (case xs of [] \<Rightarrow> None | x # _ \<Rightarrow> Some x) \<and>
      q_rep (snd (FastQueue_Out q)) (tl xs)"
  proof (cases as)
    case Nil
    with as assms show ?thesis by (auto simp: q_links_def vals_at_def FastQueue_Out_def)
  next
    case (Cons a bs)
    with as obtain nd where "q_first q = Some a" "q_heap q a = Some nd" by (auto simp: q_links_def)
    moreover from this as Cons
    have "q_links (snd (FastQueue_Out q)) bs" "vals_at (q_heap (snd (FastQueue_Out q))) bs = tl xs"
      by (auto simp: q_links_def FastQueue_Out_def vals_at_def)
    moreover have "xs = node_value nd # tl xs"
      using as(2) Cons \<open>q_heap q a = Some nd\<close> by (auto simp: vals_at_def)
    ultimately show ?thesis
      using sz by (cases xs) (auto simp: FastQueue_Out_def q_rep_def)
  qed
  then show "fst (FastQueue_Out q) = (case xs of [] \<Rightarrow> None | x # _ \<Rightarrow> Some x)"
    and "q_rep (snd (FastQueue_Out q)) (tl xs)" by auto
qed

lemma q_rep_zero: "q_rep FastQueue_zero []"
  by (simp add: q_rep_def q_links_def FastQueue_zero_def vals_at_def)

lemma FastQueue_Clear_rep: "q_rep (FastQueue_Clear q) []"
  by (simp add: q_rep_def q_links_def FastQueue_Clear_def vals_at_def)

interpretation fq: sequence_container FastQueue_In FastQueue_Out q_rep "\<lambda>vs xs. xs @ vs"
    "\<lambda>xs. case xs of [] \<Rightarrow> None | x # _ \<Rightarrow> Some x"
  by unfold_locales (simp_all add: FastQueue_In_rep FastQueue_Out_rep)

interpretation fq_coll: collection FastQueue_Size FastQueue_IsEmpty FastQueue_Clear
    "\<lambda>q. nat (q_size q)" "\<lambda>q. \<exists>xs. q_rep q xs"
proof unfold_locales
  fix q :: "'a FastQueue"
  show "\<exists>xs. q_rep (FastQueue_Clear q) xs" using FastQueue_Clear_rep by blast
qed (auto simp: FastQueue_Size_def FastQueue_IsEmpty_def FastQueue_Clear_def q_rep_def)

section \<open>The stack's list\<close>

fun stack_vals :: "'a fastStackNode option \<Rightarrow> 'a list" where
  "stack_vals None = []"
| "stack_vals (Some (StackNode v n)) = v # stack_vals n"

definition st_rep :: "'a FastStack \<Rightarrow> 'a list \<Rightarrow> bool" where
  "st_rep s xs \<longleftrightarrow> stack_vals (st_top s) = xs \<and> st_size s = int (length xs)"

lemma stack_vals_push: "stack_vals (fold (\<lambda>v t. Some (StackNode v t)) vs t) = rev vs @ stack_vals t"
  by (induction vs arbitrary: t) auto

lemma FastStack_Push_rep: "st_rep s xs \<Longrightarrow> st_rep (FastStack_Push vs s) (rev vs @ xs)"
  by (auto simp: st_rep_def FastStack_Push_def stack_vals_push)

lemma FastStack_Pop_rep:
  assumes "st_rep s xs"
  shows "fst (FastStack_Pop z s) = (case xs of [] \<Rightarrow> z | x # _ \<Rightarrow> x)"
    and "st_rep (snd (FastStack_Pop z s)) (tl xs)"
    and "FastStack_Peek z s = (case xs of [] \<Rightarrow> z | x # _ \<Rightarrow> x)"
  using assms
  by (auto simp: st_rep_def FastStack_Pop_def FastStack_Peek_def split: option.splits fastStackNode.splits)

interpretation fs: sequence_container FastStack_Push "FastStack_Pop z" st_rep "\<lambda>vs xs. rev vs @ xs"
    "\<lambda>xs. case xs of [] \<Rightarrow> z | x # _ \<Rightarrow> x" for z
  by unfold_locales (simp_all add: FastStack_Push_rep FastStack_Pop_rep)

interpretation fs_coll: collection FastStack_Size FastStack_IsEmpty FastStack_Clear
    "\<lambda>s. length (stack_vals (st_top s))" "\<lambda>s. \<exists>xs. st_rep s xs"
  by unfold_locales
     (auto simp: FastStack_Size_def FastStack_IsEmpty_def FastStack_Clear_def st_rep_def)

section \<open>The set's map\<close>

definition set_fin :: "'a GoSet \<Rightarrow> bool" where
  "set_fin s \<longleftrightarrow> finite (dom (Set_map s))"

lemma Set_len_0: "set_fin s \<Longrightarrow> Set_len s = 0 \<longleftrightarrow> Set_map s = (\<lambda>_. None)"
  by (auto simp: Set_len_def set_fin_def)

lemma Set_Contains_iff: "set_fin s \<Longrightarrow> Set_Contains s x \<longleftrightarrow> x \<in> dom (Set_map s)"
  by (auto simp: Set_Contains_def Set_len_0)

lemma dom_add_fold: "dom (fold (\<lambda>v m. m(v \<mapsto> ())) vs m) = set vs \<union> dom m"
  by (induction vs arbitrary: m) auto

lemma dom_del_fold: "dom (fold (\<lambda>v m. m(v := None)) vs m) = dom m - set vs"
  by (induction vs arbitrary: m) auto

lemma Set_Add_dom: "dom (Set_map (Set_Add vs s)) = set vs \<union> dom (Set_map s)"
  by (simp add: Set_Add_def Set_map_def dom_add_fold)

lemma Set_Remove_dom:
  "set_fin s \<Longrightarrow> dom (Set_map (Set_Remove vs s)) = dom (Set_map s) - set vs"
  by (cases s) (auto simp: Set_Remove_def Set_len_0 Set_map_def dom_del_fold)

lemma set_fin_ops [simp, intro]:
  "set_fin None" "set_fin s \<Longrightarrow> set_fin (Set_Add vs s)" "set_fin s \<Longrightarrow> set_fin (Set_Remove vs s)"
  by (simp add: set_fin_def Set_map_def, simp add: set_fin_def Set_Add_dom,
      simp add: set_fin_def Set_Remove_dom [unfolded set_fin_def])

interpretation gs_coll: collection Set_Size Set_IsEmpty Set_Clear
    "\<lambda>s. card (dom (Set_map s))" set_fin
  by unfold_locales
     (auto simp: Set_Size_def Set_IsEmpty_def Set_Clear_def Set_len_def set_fin_def Set_map_def
        split: option.splits)

section \<open>Properties\<close>

text \<open>\<open>FastQueue\<close> is a first-in first-out queue: any sequence of \<open>In\<close> and \<open>Out\<close> calls on a zero
  queue returns what the same calls return on a list, although \<open>Out\<close> leaves a stale \<open>last\<close> pointer
  behind when it empties the queue and a later \<open>In\<close> still writes through it.\<close>

theorem fast_queue_fifo:
  "fst (call_run FastQueue_In FastQueue_Out cs FastQueue_zero)
     = fst (call_run (\<lambda>vs xs. xs @ vs) (\<lambda>xs. (case xs of [] \<Rightarrow> None | x # _ \<Rightarrow> Some x, tl xs)) cs [])"
  by (rule fq.run_refines [OF q_rep_zero, THEN conjunct1])

text \<open>\<open>FastStack\<close> is a last-in first-out stack for any sequence of \<open>Push\<close> and \<open>Pop\<close> calls;
  \<open>Pop\<close> on an empty stack answers the zero value and changes nothing.\<close>

theorem fast_stack_lifo:
  "fst (call_run FastStack_Push (FastStack_Pop z) cs FastStack_zero)
     = fst (call_run (\<lambda>vs xs. rev vs @ xs) (\<lambda>xs. (case xs of [] \<Rightarrow> z | x # _ \<Rightarrow> x, tl xs)) cs [])"
proof -
  have "st_rep FastStack_zero []" by (simp add: st_rep_def FastStack_zero_def)
  from fs.run_refines [OF this, THEN conjunct1] show ?thesis .
qed

text \<open>\<open>Set\<close>: after adding and then removing items, membership, the size and the slices
  \<open>ToSlice\<close> may return are those of the mathematical set, nil map or not.\<close>

theorem go_set_correct:
  assumes "set_fin s" "t = Set_Remove rs (Set_Add is s)"
    and "X = (set is \<union> {x. Set_Contains s x}) - set rs"
  shows "(Set_Contains t x \<longleftrightarrow> x \<in> X) \<and> Set_Size t = int (card X)
    \<and> (Set_ToSlice t out \<longleftrightarrow> distinct out \<and> set out = X) \<and> (Set_IsEmpty t \<longleftrightarrow> X = {})"
proof -
  have t: "set_fin t" unfolding assms(2) using assms(1) by blast
  have "Collect (Set_Contains s) = dom (Set_map s)" using assms(1) by (auto simp: Set_Contains_iff)
  then have d: "dom (Set_map t) = X"
    using assms by (auto simp: Set_Remove_dom Set_Add_dom set_fin_ops)
  then show ?thesis
    using t Set_len_0 [OF t]
    by (auto simp: Set_Contains_iff Set_Size_def Set_len_def Set_ToSlice_def Set_IsEmpty_def)
qed

lemma go_set_correct_witness:
  "Set_Contains (Set_Remove [2] (Set_Add [1, 2, 2, 3] None)) (3::nat)
    \<and> Set_Size (Set_Remove [2] (Set_Add [1, 2, 2, 3] (None :: nat GoSet))) = 2"
proof -
  have f: "set_fin (None :: nat GoSet)" by simp
  have X: "{1, 3} = (set [1, 2, 2, 3] \<union> {x. Set_Contains (None :: nat GoSet) x}) - set [2]"
    using f by (auto simp: Set_Contains_iff Set_map_def)
  from go_set_correct [OF f refl X] show ?thesis by simp
qed

end
