(* ===== verification/GoStrings.thy ===== *)
theory GoStrings
  imports Prelude "HOL-Library.Sublist"
begin

text \<open>
  What the code uses of Go's \<open>strings\<close> and \<open>strconv\<close>: a Go string is the list of its bytes. Case
  folding and white space are modelled on the ASCII bytes; the Unicode tables of the Go library are
  left out, so bytes of multi-byte characters are neither folded nor trimmed.
\<close>

section \<open>strings\<close>

definition is_space :: "char \<Rightarrow> bool" where
  "is_space c \<longleftrightarrow> (of_char c :: nat) \<in> {9, 10, 11, 12, 13, 32}"

definition TrimSpace :: "string \<Rightarrow> string" where
  "TrimSpace s = rev (dropWhile is_space (rev (dropWhile is_space s)))"

definition HasPrefix :: "string \<Rightarrow> string \<Rightarrow> bool" where
  "HasPrefix s p \<longleftrightarrow> take (length p) s = p"

fun Contains :: "string \<Rightarrow> string \<Rightarrow> bool" where
  "Contains [] p \<longleftrightarrow> p = []"
| "Contains (c # s) p \<longleftrightarrow> HasPrefix (c # s) p \<or> Contains s p"

definition to_lower :: "char \<Rightarrow> char" where
  "to_lower c = (let n = (of_char c :: nat) in if 65 \<le> n \<and> n \<le> 90 then char_of (n + 32) else c)"

definition to_upper :: "char \<Rightarrow> char" where
  "to_upper c = (let n = (of_char c :: nat) in if 97 \<le> n \<and> n \<le> 122 then char_of (n - 32) else c)"

definition ToUpper :: "string \<Rightarrow> string" where
  "ToUpper s = map to_upper s"

definition EqualFold :: "string \<Rightarrow> string \<Rightarrow> bool" where
  "EqualFold s t \<longleftrightarrow> map to_lower s = map to_lower t"

text \<open>
  \<open>strings.Split\<close> with a non-empty separator: \<open>k\<close> bytes of a matched separator are still to be
  skipped, \<open>cur\<close> is the piece read so far, reversed.
\<close>

fun split_from :: "string \<Rightarrow> nat \<Rightarrow> string \<Rightarrow> string \<Rightarrow> string list" where
  "split_from sep k cur [] = [rev cur]"
| "split_from sep (Suc k) cur (c # s) = split_from sep k cur s"
| "split_from sep 0 cur (c # s) =
     (if HasPrefix (c # s) sep then rev cur # split_from sep (length sep - 1) [] s
      else split_from sep 0 (c # cur) s)"

definition Split :: "string \<Rightarrow> string \<Rightarrow> string list" where
  "Split s sep = split_from sep 0 [] s"

fun Join :: "string list \<Rightarrow> string \<Rightarrow> string" where
  "Join [] sep = []"
| "Join [x] sep = x"
| "Join (x # y # zs) sep = x @ sep @ Join (y # zs) sep"

section \<open>strconv\<close>

definition is_digit :: "char \<Rightarrow> bool" where
  "is_digit c \<longleftrightarrow> 48 \<le> (of_char c :: nat) \<and> (of_char c :: nat) \<le> 57"

definition digit_val :: "char \<Rightarrow> nat" where
  "digit_val c = of_char c - 48"

fun digits_val :: "nat \<Rightarrow> string \<Rightarrow> nat" where
  "digits_val a [] = a"
| "digits_val a (c # s) = digits_val (10 * a + digit_val c) s"

fun nat_digits :: "nat \<Rightarrow> string" where
  "nat_digits n =
     (if n < 10 then [char_of (48 + n)] else nat_digits (n div 10) @ [char_of (48 + n mod 10)])"

declare nat_digits.simps [simp del]

definition Itoa :: "int \<Rightarrow> string" where
  "Itoa n = (if n < 0 then CHR ''-'' # nat_digits (nat (- n)) else nat_digits (nat n))"

definition parse_digits :: "string \<Rightarrow> nat option" where
  "parse_digits s = (if s \<noteq> [] \<and> list_all is_digit s then Some (digits_val 0 s) else None)"

definition int64_range :: "int \<Rightarrow> bool" where
  "int64_range n \<longleftrightarrow> - (2 ^ 63) \<le> n \<and> n < 2 ^ 63"

text \<open>\<open>Atoi\<close> and \<open>ParseInt(s, 10, 64)\<close>: an optional sign, decimal digits, in the range of int64.\<close>

definition Atoi :: "string \<Rightarrow> int option" where
  "Atoi s =
     (let (neg, ds) = (case s of [] \<Rightarrow> (False, s)
                       | c # r \<Rightarrow> if c = CHR ''-'' then (True, r)
                                  else if c = CHR ''+'' then (False, r) else (False, s))
      in case parse_digits ds of
           None \<Rightarrow> None
         | Some n \<Rightarrow> (let v = (if neg then - int n else int n) in
                      if int64_range v then Some v else None))"

section \<open>Lemmas\<close>

lemma is_digit_char [simp]: "(d::nat) < 10 \<Longrightarrow> is_digit (char_of (48 + d))"
  by (simp add: is_digit_def)

lemma digit_val_char [simp]: "(d::nat) < 10 \<Longrightarrow> digit_val (char_of (48 + d)) = d"
  by (simp add: digit_val_def)

lemma digits_val_append: "digits_val a (s @ t) = digits_val (digits_val a s) t"
  by (induction s arbitrary: a) auto

lemma nat_digits_digits: "nat_digits n \<noteq> [] \<and> list_all is_digit (nat_digits n)"
proof (induction n rule: nat_digits.induct)
  case (1 n)
  then show ?case by (subst (1 2) nat_digits.simps) auto
qed

lemma digits_val_nat_digits: "digits_val 0 (nat_digits n) = n"
proof (induction n rule: nat_digits.induct)
  case (1 n)
  then show ?case by (subst nat_digits.simps) (auto simp: digits_val_append)
qed

lemma parse_nat_digits [simp]: "parse_digits (nat_digits n) = Some n"
  by (simp add: parse_digits_def nat_digits_digits digits_val_nat_digits)

lemma is_digit_sign [simp]: "\<not> is_digit CHR ''-''" "\<not> is_digit CHR ''+''"
  by (simp_all add: is_digit_def)

lemma Atoi_Itoa: "int64_range n \<Longrightarrow> Atoi (Itoa n) = Some n"
proof -
  assume r: "int64_range n"
  obtain c t where ct: "nat_digits (nat n) = c # t" "is_digit c"
    using nat_digits_digits [of "nat n"] by (cases "nat_digits (nat n)") auto
  then have s: "c \<noteq> CHR ''-''" "c \<noteq> CHR ''+''" by auto
  have p: "parse_digits (c # t) = Some (nat n)"
    using parse_nat_digits [of "nat n"] ct(1) by simp
  show ?thesis
    using r s p ct(1) by (cases "n < 0") (simp_all add: Atoi_def Itoa_def)
qed

lemma EqualFold_refl [simp]: "EqualFold s s"
  by (simp add: EqualFold_def)

lemma EqualFold_sym: "EqualFold s t \<Longrightarrow> EqualFold t s"
  by (simp add: EqualFold_def)

lemma split_from_nonempty: "split_from sep k cur s \<noteq> []"
  by (induction sep k cur s rule: split_from.induct) auto

lemma Split_nonempty [simp]: "Split s sep \<noteq> []"
  by (simp add: Split_def split_from_nonempty)

lemma HasPrefix_drop: "HasPrefix s p \<Longrightarrow> p @ drop (length p) s = s"
  by (metis HasPrefix_def append_take_drop_id)

text \<open>Splitting loses nothing: joining the pieces with the separator gives the string back.\<close>

lemma Join_Cons: "xs \<noteq> [] \<Longrightarrow> Join (x # xs) sep = x @ sep @ Join xs sep"
  by (cases xs) auto

lemma Join_split_from:
  "sep \<noteq> [] \<Longrightarrow> Join (split_from sep k cur s) sep = rev cur @ drop k s"
proof (induction sep k cur s rule: split_from.induct)
  case (3 sep cur c s)
  show ?case
  proof (cases "HasPrefix (c # s) sep")
    case True
    obtain a list where "sep = a # list" using 3(3) by (cases sep) auto
    with True 3 HasPrefix_drop [OF True] show ?thesis
      by (simp add: Join_Cons split_from_nonempty)
  qed (use 3 in simp)
qed auto

lemma Join_Split: "sep \<noteq> [] \<Longrightarrow> Join (Split s sep) sep = s"
  by (simp add: Split_def Join_split_from)

end
