(* ===== verification/Slices.thy ===== *)
theory Slices
  imports Collections GoStrings "HOL-Library.Multiset"
begin

text \<open>
  \<open>pkg/collection/slices/slice.go\<close>: the generic slice helpers. The callbacks are functions without
  effects; the results that depend on Go's map iteration order are predicates on the result.
\<close>

section \<open>Searching and filtering\<close>

fun First :: "'a \<Rightarrow> 'a list \<Rightarrow> ('a \<Rightarrow> bool) \<Rightarrow> 'a" where
  "First zero [] f = zero"
| "First zero (v # data) f = (if f v then v else First zero data f)"

fun FirstOrDefault :: "'a list \<Rightarrow> ('a \<Rightarrow> bool) \<Rightarrow> 'a \<Rightarrow> 'a" where
  "FirstOrDefault [] f defaultVal = defaultVal"
| "FirstOrDefault (v # data) f defaultVal = (if f v then v else FirstOrDefault data f defaultVal)"

definition Filter :: "'a list \<Rightarrow> ('a \<Rightarrow> bool) \<Rightarrow> 'a list" where
  "Filter data p = fold (\<lambda>item outArr. if p item then outArr @ [item] else outArr) data []"

fun ContainsIgnoreCase :: "string list \<Rightarrow> string \<Rightarrow> bool" where
  "ContainsIgnoreCase [] target = False"
| "ContainsIgnoreCase (v # data) target = (if EqualFold v target then True else ContainsIgnoreCase data target)"

definition Map :: "'a list \<Rightarrow> ('a \<Rightarrow> 'b \<times> bool) \<Rightarrow> 'b list" where
  "Map data f = fold (\<lambda>v outArr. let (out, ok) = f v in if ok then outArr @ [out] else outArr) data []"

definition Any :: "'a list \<Rightarrow> ('a \<Rightarrow> bool) \<Rightarrow> bool" where
  "Any data condition \<longleftrightarrow> list_ex condition data"

fun All :: "'a list \<Rightarrow> ('a \<Rightarrow> bool) \<Rightarrow> bool" where
  "All [] condition = True"
| "All (v # data) condition = (if \<not> condition v then False else All data condition)"

definition Count :: "'a list \<Rightarrow> ('a \<Rightarrow> bool) \<Rightarrow> int" where
  "Count arr condition = fold (\<lambda>v cnt. if condition v then cnt + 1 else cnt) arr 0"

section \<open>Grouping\<close>

text \<open>Reading a missing key of a Go map gives the nil slice.\<close>

definition slot :: "('k \<Rightarrow> 'v list option) \<Rightarrow> 'k \<Rightarrow> 'v list" where
  "slot m k = (case m k of None \<Rightarrow> [] | Some vs \<Rightarrow> vs)"

definition GroupBy :: "'a list \<Rightarrow> ('a \<Rightarrow> 'k) \<Rightarrow> 'k \<Rightarrow> 'a list option" where
  "GroupBy data fieldFilter =
     fold (\<lambda>v out. let f = fieldFilter v;
                       out' = (if slot out f = [] then out(f \<mapsto> []) else out)
                   in out'(f \<mapsto> slot out' f @ [v])) data (\<lambda>_. None)"

definition GroupByWithMap :: "'a list \<Rightarrow> ('a \<Rightarrow> 'k) \<Rightarrow> ('a \<Rightarrow> 'v) \<Rightarrow> 'k \<Rightarrow> 'v list option" where
  "GroupByWithMap data fieldFilter mapper =
     fold (\<lambda>v out. let f = fieldFilter v;
                       out' = (if slot out f = [] then out(f \<mapsto> []) else out)
                   in out'(f \<mapsto> slot out' f @ [mapper v])) data (\<lambda>_. None)"

section \<open>Batches\<close>

text \<open>
  \<open>SplitIntoBatches\<close>: the loop index is a 64-bit int, slicing out of range panics, and a loop that
  never ends has the value \<open>None\<close>.
\<close>

definition go_slice :: "'a list \<Rightarrow> int \<Rightarrow> int \<Rightarrow> 'a list outcome" where
  "go_slice arr lo hi =
     (if 0 \<le> lo \<and> lo \<le> hi \<and> hi \<le> int (length arr) then Ret (take (nat hi - nat lo) (drop (nat lo) arr))
      else Panic ''slice bounds out of range'')"

partial_function (option) split_loop ::
    "'a list \<Rightarrow> int64 \<Rightarrow> int64 \<Rightarrow> 'a list list \<Rightarrow> 'a list list outcome option" where
  "split_loop arr batchSize i batches =
     (if sint i < int (length arr) then
        (case go_slice arr (sint i) (min (sint (i + batchSize)) (int (length arr))) of
           Panic m \<Rightarrow> Some (Panic m)
         | Ret b \<Rightarrow> split_loop arr batchSize (i + batchSize) (batches @ [b]))
      else Some (Ret batches))"

definition SplitIntoBatches :: "'a list \<Rightarrow> int64 \<Rightarrow> 'a list list outcome option" where
  "SplitIntoBatches arr batchSize = split_loop arr batchSize 0 []"

section \<open>Duplicates\<close>

text \<open>The slices \<open>Deduplication\<close> may return: the set's keys in any order.\<close>

definition Deduplication :: "'a list \<Rightarrow> 'a list \<Rightarrow> bool" where
  "Deduplication arr out \<longleftrightarrow> Set_ToSlice (Set_Add arr None) out"

text \<open>
  \<open>rand.Shuffle\<close> calls the swap with pairs of indices below the length; which pairs is the random
  source's choice, a parameter here.
\<close>

definition swap_at :: "'a list \<Rightarrow> nat \<Rightarrow> nat \<Rightarrow> 'a list" where
  "swap_at xs i j = xs[i := xs ! j, j := xs ! i]"

definition Shuffle :: "(nat \<times> nat) list \<Rightarrow> 'a list \<Rightarrow> 'a list" where
  "Shuffle swaps arr = (if arr = [] then arr else fold (\<lambda>(i, j) a. swap_at a i j) swaps arr)"

text \<open>\<open>ShuffleCopy\<close> shuffles a copy: the result and the caller's slice, which keeps its elements.\<close>

definition ShuffleCopy :: "(nat \<times> nat) list \<Rightarrow> 'a list \<Rightarrow> 'a list \<times> 'a list" where
  "ShuffleCopy swaps arr =
     (if arr = [] then ([], arr)
      else (fold (\<lambda>(i, j) a. swap_at a i j) swaps arr, arr))"

section \<open>Lemmas\<close>

lemma Filter_fold: "fold (\<lambda>item out. if p item then out @ [item] else out) data acc = acc @ filter p data"
  by (induction data arbitrary: acc) auto

lemma Filter_filter: "Filter data p = filter p data"
  by (simp add: Filter_def Filter_fold)

lemma Map_fold:
  "fold (\<lambda>v out. let (x, ok) = f v in if ok then out @ [x] else out) data acc =
   acc @ map (fst \<circ> f) (filter (snd \<circ> f) data)"
  by (induction data arbitrary: acc) (auto simp: split_beta)

lemma Map_map: "Map data f = map (fst \<circ> f) (filter (snd \<circ> f) data)"
  unfolding Map_def Map_fold by simp

lemma Count_fold: "fold (\<lambda>v cnt. if c v then cnt + 1 else cnt) arr n = n + int (length (filter c arr))"
  by (induction arr arbitrary: n) auto

lemma Count_filter: "Count arr c = int (length (filter c arr))"
  by (simp add: Count_def Count_fold)

lemma All_iff: "All data c \<longleftrightarrow> (\<forall>v\<in>set data. c v)"
  by (induction data) auto

lemma First_in: "\<exists>v\<in>set data. f v \<Longrightarrow> First z data f \<in> set data \<and> f (First z data f)"
  by (induction data) auto

text \<open>Grouping: the slot of a key is the sublist of its elements, in order.\<close>

definition grouped :: "'v list \<Rightarrow> 'v list option" where
  "grouped vs = (if vs = [] then None else Some vs)"

lemma group_fold:
  "fold (\<lambda>v out. let f = key v; out' = (if slot out f = [] then out(f \<mapsto> []) else out)
                 in out'(f \<mapsto> slot out' f @ [g v])) data m k =
   (if filter (\<lambda>v. key v = k) data = [] then m k
    else Some (slot m k @ map g (filter (\<lambda>v. key v = k) data)))"
  by (induction data arbitrary: m) (auto simp: Let_def slot_def split: option.splits)

lemma swap_at_mset: "i < length xs \<Longrightarrow> j < length xs \<Longrightarrow> mset (swap_at xs i j) = mset xs"
  by (simp add: swap_at_def mset_swap)

lemma swap_at_length [simp]: "length (swap_at xs i j) = length xs"
  by (simp add: swap_at_def)

lemma swaps_mset:
  "\<forall>(i, j)\<in>set swaps. i < length arr \<and> j < length arr \<Longrightarrow>
   mset (fold (\<lambda>(i, j) a. swap_at a i j) swaps arr) = mset arr"
  by (induction swaps arbitrary: arr) (auto simp: swap_at_mset)

section \<open>Batches cover the slice\<close>

definition batches_of :: "'a list \<Rightarrow> nat \<Rightarrow> 'a list list \<Rightarrow> bool" where
  "batches_of arr b bs \<longleftrightarrow> concat bs = arr \<and> (\<forall>x\<in>set bs. 0 < length x \<and> length x \<le> b)
     \<and> (\<forall>x\<in>set (butlast bs). length x = b)"

lemma batches_of_snoc:
  "\<forall>x\<in>set bs. length x = b \<Longrightarrow> concat bs = take i arr \<Longrightarrow> 0 < b \<Longrightarrow> i < length arr \<Longrightarrow> length arr \<le> i + b \<Longrightarrow>
   batches_of arr b (bs @ [drop i arr])"
  by (auto simp: batches_of_def)

lemma split_loop_step:
  assumes "0 < sint b" "int (length arr) < 2 ^ 62"
    and "0 \<le> sint i" "sint i = 0 \<or> sint b \<le> sint i" "sint i < int (length arr)"
  shows "sint (i + b) = sint i + sint b"
    and "split_loop arr b i bs
          = split_loop arr b (i + b) (bs @ [take (nat (sint b)) (drop (nat (sint i)) arr)])"
proof -
  have "sint b < 2 ^ 63" using sint_lt [of b] by simp
  then have "sint i + sint b < 2 ^ 63" using assms by auto
  moreover have "- (2 ^ 63) \<le> sint i + sint b"
    by (rule order_trans [of _ 0]) (use assms(1,3) in simp_all)
  ultimately show s: "sint (i + b) = sint i + sint b" by (rule sint_add_small [rotated])
  have m: "take (nat (min (sint i + sint b) (int (length arr))) - nat (sint i)) (drop (nat (sint i)) arr)
    = take (nat (sint b)) (drop (nat (sint i)) arr)"
    using assms by (auto simp: min_def nat_add_distrib)
  have g: "go_slice arr (sint i) (min (sint (i + b)) (int (length arr)))
    = Ret (take (nat (sint b)) (drop (nat (sint i)) arr))"
    using assms m by (simp add: s go_slice_def)
  show "split_loop arr b i bs
          = split_loop arr b (i + b) (bs @ [take (nat (sint b)) (drop (nat (sint i)) arr)])"
    using assms(5) by (subst split_loop.simps) (simp add: g)
qed

lemma split_loop_batches:
  assumes "0 < sint b" "int (length arr) < 2 ^ 62"
    and "0 \<le> sint i" "sint i = 0 \<or> sint b \<le> sint i" "sint i < int (length arr)"
    and "\<forall>x\<in>set bs. length x = nat (sint b)" "concat bs = take (nat (sint i)) arr"
  shows "\<exists>r. split_loop arr b i bs = Some (Ret r) \<and> batches_of arr (nat (sint b)) r"
  using assms(3-)
proof (induction "length arr - nat (sint i)" arbitrary: i bs rule: less_induct)
  case less
  let ?i = "nat (sint i)" and ?B = "nat (sint b)"
  let ?bs = "bs @ [take ?B (drop ?i arr)]"
  have i: "?i < length arr" "0 < ?B" using less.prems assms(1) by auto
  note st = split_loop_step [OF assms(1,2) less.prems(1-3)]
  have n: "nat (sint (i + b)) = ?i + ?B" using st(1) less.prems(1) assms(1) by (simp add: nat_add_distrib)
  show ?case
  proof (cases "length arr \<le> ?i + ?B")
    case True
    then have "int (length arr) \<le> int ?i + int ?B" by linarith
    then have "\<not> sint (i + b) < int (length arr)" using st(1) less.prems(1) assms(1) by simp
    then have "split_loop arr b i bs = Some (Ret (bs @ [drop ?i arr]))"
      using True by (simp add: st(2)) (subst split_loop.simps, simp)
    with batches_of_snoc [OF less.prems(4,5) i(2,1) True] show ?thesis by blast
  next
    case False
    show ?thesis
      unfolding st(2)
    proof (rule less.hyps)
      show "length arr - nat (sint (i + b)) < length arr - ?i" using n i by simp
      show "sint (i + b) < int (length arr)" using False n by linarith
      show "\<forall>x\<in>set ?bs. length x = ?B" using less.prems(4) False by auto
      show "concat ?bs = take (nat (sint (i + b))) arr" using less.prems(5) by (simp add: n take_add)
    qed (use st(1) less.prems(1) assms(1) in auto)
  qed
qed

lemma split_loop_0_Some:
  assumes "split_loop a b i bs = Some r"
  shows "b = 0 \<and> i = 0 \<longrightarrow> a = []"
proof (rule split_loop.raw_induct [where P = "\<lambda>a b i bs r. b = 0 \<and> i = 0 \<longrightarrow> a = []", OF _ assms])
  fix loop :: "'a list \<Rightarrow> int64 \<Rightarrow> int64 \<Rightarrow> 'a list list \<Rightarrow> 'a list list outcome option"
    and arr :: "'a list" and b i bs r
  assume IH: "\<And>arr b i bs r. loop arr b i bs = Some r \<Longrightarrow> b = 0 \<and> i = 0 \<longrightarrow> arr = []"
    and E: "(if sint i < int (length arr) then
        (case go_slice arr (sint i) (min (sint (i + b)) (int (length arr))) of
           Panic m \<Rightarrow> Some (Panic m)
         | Ret x \<Rightarrow> loop arr b (i + b) (bs @ [x]))
      else Some (Ret bs)) = Some r"
  show "b = 0 \<and> i = 0 \<longrightarrow> arr = []"
    using E IH [of arr 0 0] by (cases arr) (auto simp: go_slice_def)
qed

lemma split_loop_0_diverges: "split_loop arr 0 0 bs = Some r \<Longrightarrow> arr = []"
  using split_loop_0_Some by blast

section \<open>Properties\<close>

text \<open>\<open>SplitIntoBatches\<close> with a positive batch size returns (the loop ends) batches that
  concatenate to the slice, none empty or longer than the batch size, all but the last full; no batch
  is made of an empty slice; a zero batch size on a non-empty slice never returns, and a negative one
  panics.\<close>

theorem split_into_batches_correct:
  assumes "int (length arr) < 2 ^ 62"
  shows "(0 < sint b \<longrightarrow> (\<exists>bs. SplitIntoBatches arr b = Some (Ret bs) \<and> batches_of arr (nat (sint b)) bs))
    \<and> (arr \<noteq> [] \<longrightarrow> SplitIntoBatches arr 0 = None)
    \<and> (arr \<noteq> [] \<and> sint b < 0 \<longrightarrow> SplitIntoBatches arr b = Some (Panic ''slice bounds out of range''))"
proof (intro conjI impI)
  assume b: "0 < sint b"
  show "\<exists>bs. SplitIntoBatches arr b = Some (Ret bs) \<and> batches_of arr (nat (sint b)) bs"
  proof (cases "arr = []")
    case True
    then show ?thesis
      by (auto simp: SplitIntoBatches_def split_loop.simps [of "[]"] batches_of_def)
  next
    case False
    then show ?thesis
      unfolding SplitIntoBatches_def by (intro split_loop_batches [OF b assms]) auto
  qed
next
  assume "arr \<noteq> []"
  then show "SplitIntoBatches arr 0 = None"
    using split_loop_0_diverges [of arr "[]"] by (cases "SplitIntoBatches arr 0") (auto simp: SplitIntoBatches_def)
next
  assume "arr \<noteq> [] \<and> sint b < 0"
  then show "SplitIntoBatches arr b = Some (Panic ''slice bounds out of range'')"
    by (auto simp: SplitIntoBatches_def split_loop.simps [of arr] go_slice_def)
qed

lemma split_into_batches_correct_witness:
  "(\<exists>bs. SplitIntoBatches [1, 2, 3, 4, 5::nat] 2 = Some (Ret bs) \<and> batches_of [1, 2, 3, 4, 5] 2 bs)
    \<and> SplitIntoBatches [1, 2, 3, 4, 5::nat] 0 = None"
  using split_into_batches_correct [of "[1, 2, 3, 4, 5::nat]" 2] by simp

text \<open>\<open>GroupByWithMap\<close> (and \<open>GroupBy\<close>, its case of the identity mapper) gives each key the mapped
  elements of that key in the order of the slice, and has no entry for any other key: no group is
  empty and no element is lost or duplicated.\<close>

theorem group_by_correct:
  "GroupByWithMap data key g k = grouped (map g (filter (\<lambda>v. key v = k) data))
    \<and> GroupBy data key k = grouped (filter (\<lambda>v. key v = k) data)"
proof -
  have g: "GroupByWithMap data key g k = grouped (map g (filter (\<lambda>v. key v = k) data))"
    unfolding GroupByWithMap_def group_fold by (simp add: grouped_def slot_def)
  have i: "GroupBy data key = GroupByWithMap data key (\<lambda>v. v)"
    by (simp add: GroupBy_def GroupByWithMap_def)
  have "GroupByWithMap data key (\<lambda>v. v) k = grouped (map (\<lambda>v. v) (filter (\<lambda>v. key v = k) data))"
    unfolding GroupByWithMap_def group_fold by (simp add: grouped_def slot_def)
  with g show ?thesis by (simp add: i)
qed

end
