(* ===== verification/Redis.thy ===== *)
theory Redis
  imports GoStrings
begin

text \<open>
  The Redis server and the client library are not part of the repository: the operations the code
  calls are the fields of a record the models take as an argument, and \<open>redis_laws\<close> states what the
  Redis documentation promises of them (\<open>GET\<close>, \<open>SET NX\<close>, \<open>DEL\<close>, \<open>PEXPIRE\<close>, \<open>INCRBY\<close> on keys
  that have not expired). A call may lose its request or its reply: \<open>net\<close> says which.
\<close>

record 's redis =
  rd_get :: "'s \<Rightarrow> string \<Rightarrow> string option"
  rd_setnx :: "string \<Rightarrow> string \<Rightarrow> int \<Rightarrow> 's \<Rightarrow> bool \<times> 's"
  rd_del :: "string \<Rightarrow> 's \<Rightarrow> int \<times> 's"
  rd_pexpire :: "string \<Rightarrow> int \<Rightarrow> 's \<Rightarrow> int \<times> 's"
  rd_incrby :: "string \<Rightarrow> int \<Rightarrow> 's \<Rightarrow> int option \<times> 's"

definition redis_laws :: "'s redis \<Rightarrow> bool" where
  "redis_laws R \<longleftrightarrow>
     (\<forall>k v t s. fst (rd_setnx R k v t s) = (rd_get R s k = None)) \<and>
     (\<forall>k v t s. rd_get R (snd (rd_setnx R k v t s)) =
        (if rd_get R s k = None then (rd_get R s)(k \<mapsto> v) else rd_get R s)) \<and>
     (\<forall>k s. fst (rd_del R k s) = (if rd_get R s k = None then 0 else 1)) \<and>
     (\<forall>k s. rd_get R (snd (rd_del R k s)) = (rd_get R s)(k := None)) \<and>
     (\<forall>k ms s. fst (rd_pexpire R k ms s) = (if rd_get R s k = None then 0 else 1)) \<and>
     (\<forall>k ms s. rd_get R (snd (rd_pexpire R k ms s)) =
        (if ms \<le> 0 then (rd_get R s)(k := None) else rd_get R s)) \<and>
     (\<forall>k d s n. Atoi (case rd_get R s k of None \<Rightarrow> ''0'' | Some v \<Rightarrow> v) = Some n \<and> int64_range (n + d) \<longrightarrow>
        fst (rd_incrby R k d s) = Some (n + d) \<and>
        rd_get R (snd (rd_incrby R k d s)) = (rd_get R s)(k \<mapsto> Itoa (n + d)))"

datatype net = Reply | LostBefore string | LostAfter string

definition call_redis :: "net \<Rightarrow> ('s \<Rightarrow> 'r \<times> 's) \<Rightarrow> 's \<Rightarrow> (string + 'r) \<times> 's" where
  "call_redis n f s =
     (case n of
        Reply \<Rightarrow> (Inr (fst (f s)), snd (f s))
      | LostBefore e \<Rightarrow> (Inl e, s)
      | LostAfter e \<Rightarrow> (Inl e, snd (f s)))"

text \<open>A server without expiry, on which the hypotheses can be discharged.\<close>

definition map_redis :: "(string \<Rightarrow> string option) redis" where
  "map_redis = \<lparr>
     rd_get = (\<lambda>s k. s k),
     rd_setnx = (\<lambda>k v t s. if s k = None then (True, s(k \<mapsto> v)) else (False, s)),
     rd_del = (\<lambda>k s. (if s k = None then 0 else 1, s(k := None))),
     rd_pexpire = (\<lambda>k ms s. (if s k = None then 0 else 1, if ms \<le> 0 then s(k := None) else s)),
     rd_incrby = (\<lambda>k d s. case Atoi (case s k of None \<Rightarrow> ''0'' | Some v \<Rightarrow> v) of
                    None \<Rightarrow> (None, s)
                  | Some n \<Rightarrow> if int64_range (n + d) then (Some (n + d), s(k \<mapsto> Itoa (n + d))) else (None, s))\<rparr>"

lemma map_redis_laws: "redis_laws map_redis"
  by (simp add: redis_laws_def map_redis_def)

lemma redis_laws_simps:
  assumes "redis_laws R"
  shows "fst (rd_setnx R k v t s) = (rd_get R s k = None)"
    and "rd_get R (snd (rd_setnx R k v t s)) =
        (if rd_get R s k = None then (rd_get R s)(k \<mapsto> v) else rd_get R s)"
    and "fst (rd_del R k s) = (if rd_get R s k = None then 0 else 1)"
    and "rd_get R (snd (rd_del R k s)) = (rd_get R s)(k := None)"
    and "fst (rd_pexpire R k ms s) = (if rd_get R s k = None then 0 else 1)"
    and "rd_get R (snd (rd_pexpire R k ms s)) = (if ms \<le> 0 then (rd_get R s)(k := None) else rd_get R s)"
  using assms by (simp_all add: redis_laws_def)

lemma redis_laws_incrby:
  assumes "redis_laws R" "rd_get R s k = Some (Itoa n)" "int64_range n" "int64_range (n + d)"
  shows "fst (rd_incrby R k d s) = Some (n + d)"
    and "rd_get R (snd (rd_incrby R k d s)) = (rd_get R s)(k \<mapsto> Itoa (n + d))"
  using assms by (simp_all add: redis_laws_def Atoi_Itoa)

end
