(* ===== verification/Locker.thy ===== *)
theory Locker
  imports Redis
begin

text \<open>
  \<open>pkg/distribute/locker.go\<close>, \<open>retry-strategy.go\<close> and \<open>id.go\<close>: locks and counters kept in Redis. The
  two Lua scripts are part of the code and are translated over the server's operations. Durations are
  nanoseconds; none of the code's arithmetic on them can leave the int64 range. The goroutine of
  \<open>autoExtend\<close> is \<open>auto_extend_tick\<close>, one iteration of its loop.
\<close>

section \<open>Options\<close>

text \<open>A retry strategy gives the wait before each further attempt, by the number of the attempt.\<close>

type_synonym retry = "nat \<Rightarrow> int"

definition millisecond :: int where "millisecond = 1000000"
definition second_dur :: int where "second_dur = 1000000000"

definition LinearRetryStrategy :: "int \<Rightarrow> retry" where
  "LinearRetryStrategy backoff = (\<lambda>_. backoff)"

definition NoRetry :: retry where
  "NoRetry = LinearRetryStrategy 0"

datatype lock_error = ErrLockFailed | ErrClientIsNil | ErrLockNotHeld | CtxErr | RedisErr string

record Locker =
  lk_client :: bool \<comment> \<open>\<open>redisClient\<close> is not nil\<close>
  defaultTtl :: int
  defaultRetryStrategy :: "retry option"
  defaultLockTimeout :: int

definition WithDefaultTtl :: "int \<Rightarrow> Locker \<Rightarrow> Locker" where
  "WithDefaultTtl ttl l = l\<lparr>defaultTtl := ttl\<rparr>"
definition WithDefaultRetryStrategy :: "retry option \<Rightarrow> Locker \<Rightarrow> Locker" where
  "WithDefaultRetryStrategy r l = l\<lparr>defaultRetryStrategy := r\<rparr>"
definition WithDefaultLockTimeout :: "int \<Rightarrow> Locker \<Rightarrow> Locker" where
  "WithDefaultLockTimeout t l = l\<lparr>defaultLockTimeout := t\<rparr>"

text \<open>\<open>ping\<close> is the error of the initial \<open>Ping\<close>, if any.\<close>

definition NewLocker :: "string option \<Rightarrow> (Locker \<Rightarrow> Locker) list \<Rightarrow> lock_error + Locker" where
  "NewLocker ping options =
     (case ping of
        Some err \<Rightarrow> Inl (RedisErr err)
      | None \<Rightarrow>
          (let l = fold (\<lambda>v. v) options
                 \<lparr>lk_client = True, defaultTtl = 0, defaultRetryStrategy = None, defaultLockTimeout = 0\<rparr>;
               l = (if defaultTtl l \<le> 0 then l\<lparr>defaultTtl := 8 * second_dur\<rparr> else l);
               l = (if defaultLockTimeout l \<le> 0 then l\<lparr>defaultLockTimeout := 60 * second_dur\<rparr> else l);
               l = (if defaultRetryStrategy l = None
                    then l\<lparr>defaultRetryStrategy := Some (LinearRetryStrategy (100 * millisecond))\<rparr> else l)
           in Inr l))"

definition Locker_Close :: "Locker \<Rightarrow> Locker" where
  "Locker_Close l = (if \<not> lk_client l then l else l\<lparr>lk_client := False\<rparr>)"

record LockOptions =
  Resource :: string
  Owner :: string
  Ttl :: int
  RetryStrategy :: "retry option"
  lockTimeout :: int
  disableAutoExtend :: bool

definition LockWithTtl :: "int \<Rightarrow> LockOptions \<Rightarrow> LockOptions" where
  "LockWithTtl ttl opt = opt\<lparr>Ttl := ttl\<rparr>"
definition LockWithRetryStrategy :: "retry option \<Rightarrow> LockOptions \<Rightarrow> LockOptions" where
  "LockWithRetryStrategy r opt = opt\<lparr>RetryStrategy := r\<rparr>"
definition LockWithOwner :: "string \<Rightarrow> LockOptions \<Rightarrow> LockOptions" where
  "LockWithOwner owner opt = opt\<lparr>Owner := owner\<rparr>"
definition LockWithLockTimeout :: "int \<Rightarrow> LockOptions \<Rightarrow> LockOptions" where
  "LockWithLockTimeout t opt = opt\<lparr>lockTimeout := t\<rparr>"
definition LockWithDisableAutoExtend :: "LockOptions \<Rightarrow> LockOptions" where
  "LockWithDisableAutoExtend opt = opt\<lparr>disableAutoExtend := True\<rparr>"

text \<open>\<open>uuid\<close> is what \<open>ids.NewUUID\<close> returns.\<close>

definition mergeOptions :: "Locker \<Rightarrow> string \<Rightarrow> (LockOptions \<Rightarrow> LockOptions) list \<Rightarrow> LockOptions" where
  "mergeOptions l uuid options =
     (let opt = fold (\<lambda>v. v) options
            \<lparr>Resource = [], Owner = [], Ttl = 0, RetryStrategy = None, lockTimeout = 0, disableAutoExtend = False\<rparr>;
          opt = (if Ttl opt \<le> 0 then opt\<lparr>Ttl := defaultTtl l\<rparr> else opt);
          opt = (if RetryStrategy opt = None then opt\<lparr>RetryStrategy := defaultRetryStrategy l\<rparr> else opt);
          opt = (if lockTimeout opt \<le> 0 then opt\<lparr>lockTimeout := defaultLockTimeout l\<rparr> else opt);
          opt = opt\<lparr>Owner := TrimSpace (Owner opt)\<rparr>
      in if length (Owner opt) = 0 then opt\<lparr>Owner := uuid\<rparr> else opt)"

section \<open>Taking a lock\<close>

record Lock =
  lock_resource :: string
  lock_owner :: string
  lock_ttl :: int
  lock_released :: bool
  lock_auto :: "int option" \<comment> \<open>\<open>autoExtendCancelFunc\<close> is set, with the goroutine's interval\<close>

definition autoExtend :: "int \<Rightarrow> Lock \<Rightarrow> Lock" where
  "autoExtend extendInterval lock = lock\<lparr>lock_auto := Some extendInterval\<rparr>"

definition make_lock :: "LockOptions \<Rightarrow> Lock" where
  "make_lock opt =
     (let lock = \<lparr>lock_resource = Resource opt, lock_owner = Owner opt, lock_ttl = Ttl opt,
                  lock_released = False, lock_auto = None\<rparr>
      in if \<not> disableAutoExtend opt then autoExtend (Ttl opt div 3 * 2) lock else lock)"

definition TryLock ::
    "'s redis \<Rightarrow> net \<Rightarrow> string \<Rightarrow> Locker \<Rightarrow> string \<Rightarrow> (LockOptions \<Rightarrow> LockOptions) list \<Rightarrow> 's
       \<Rightarrow> (lock_error + Lock option) \<times> 's" where
  "TryLock R n uuid l resource options s =
     (let opt = mergeOptions l uuid options in
      if \<not> lk_client l then (Inl ErrClientIsNil, s)
      else case call_redis n (rd_setnx R (Resource opt) (Owner opt) (Ttl opt)) s of
          (Inl err, s') \<Rightarrow> (Inl (RedisErr err), s')
        | (Inr ok, s') \<Rightarrow> if ok then (Inr (Some (make_lock opt)), s') else (Inr None, s'))"

text \<open>
  What the surroundings do in one round of the loop of \<open>lockWithOptions\<close>: the locker may have been
  closed, the caller's context cancelled before the attempt or during the wait, other clients have
  changed the store, the call may fail, and the round's calls took some time.
\<close>

record 's round =
  rnd_client :: bool
  rnd_cancelled :: bool
  rnd_others :: "'s \<Rightarrow> 's"
  rnd_net :: net
  rnd_took :: int
  rnd_cancel_wait :: bool

definition min_backoff :: int where
  "min_backoff = 10 * millisecond"

text \<open>
  The loop, with the time \<open>left\<close> before the timeout's deadline and the number \<open>k\<close> of the round; the
  result carries the number of \<open>SetNX\<close> calls made. A nil strategy would panic: \<open>NewLocker\<close> and
  \<open>mergeOptions\<close> leave none. When the deadline falls together with the end of the wait, Go's
  \<open>select\<close> may take either branch: \<open>rnd_cancel_wait\<close> decides.
\<close>

function lock_loop ::
    "'s redis \<Rightarrow> (nat \<Rightarrow> 's round) \<Rightarrow> LockOptions \<Rightarrow> nat \<Rightarrow> int \<Rightarrow> 's \<Rightarrow> (lock_error + Lock) \<times> nat \<times> 's" where
  "lock_loop R env opt k left s =
     (let r = env k in
      if \<not> rnd_client r then (Inl ErrClientIsNil, k, s)
      else if rnd_cancelled r \<or> left \<le> 0 then (Inl CtxErr, k, s)
      else case call_redis (rnd_net r) (rd_setnx R (Resource opt) (Owner opt) (Ttl opt)) (rnd_others r s) of
          (Inl err, s') \<Rightarrow> (Inl (RedisErr err), Suc k, s')
        | (Inr ok, s') \<Rightarrow>
            if ok then (Inr (make_lock opt), Suc k, s')
            else
              (let backoff = max ((case RetryStrategy opt of None \<Rightarrow> (\<lambda>_. 0) | Some f \<Rightarrow> f) k) min_backoff;
                   left' = left - max 0 (rnd_took r)
               in if rnd_cancel_wait r \<or> left' < backoff then (Inl ErrLockFailed, Suc k, s')
                  else lock_loop R env opt (Suc k) (left' - backoff) s'))"
  by pat_completeness auto
termination
  by (relation "measure (\<lambda>(R, env, opt, k, left, s). nat left)") (auto simp: min_backoff_def millisecond_def)

declare lock_loop.simps [simp del]

definition lockWithOptions ::
    "'s redis \<Rightarrow> (nat \<Rightarrow> 's round) \<Rightarrow> LockOptions \<Rightarrow> 's \<Rightarrow> (lock_error + Lock) \<times> nat \<times> 's" where
  "lockWithOptions R env opt s = lock_loop R env opt 0 (lockTimeout opt) s"

definition Locker_Lock ::
    "'s redis \<Rightarrow> (nat \<Rightarrow> 's round) \<Rightarrow> string \<Rightarrow> Locker \<Rightarrow> string \<Rightarrow> (LockOptions \<Rightarrow> LockOptions) list \<Rightarrow> 's
       \<Rightarrow> (lock_error + Lock) \<times> nat \<times> 's" where
  "Locker_Lock R env uuid l resource options s =
     (let opt = mergeOptions l uuid options in lockWithOptions R env opt s)"

section \<open>Holding and releasing\<close>

definition luaRefresh :: "'s redis \<Rightarrow> string \<Rightarrow> string \<Rightarrow> int \<Rightarrow> 's \<Rightarrow> int \<times> 's" where
  "luaRefresh R key owner ms s =
     (if rd_get R s key = Some owner then rd_pexpire R key ms s else (0, s))"

definition luaRelease :: "'s redis \<Rightarrow> string \<Rightarrow> string \<Rightarrow> 's \<Rightarrow> int \<times> 's" where
  "luaRelease R key owner s = (if rd_get R s key = Some owner then rd_del R key s else (0, s))"

definition Extend :: "'s redis \<Rightarrow> net \<Rightarrow> Lock \<Rightarrow> 's \<Rightarrow> lock_error option \<times> 's" where
  "Extend R n l s =
     (if lock_released l then (Some ErrLockNotHeld, s)
      else let ttlVal = lock_ttl l div millisecond in
        case call_redis n (luaRefresh R (lock_resource l) (lock_owner l) ttlVal) s of
          (Inl err, s') \<Rightarrow> (Some (RedisErr err), s')
        | (Inr status, s') \<Rightarrow> if status = 1 then (None, s') else (Some ErrLockNotHeld, s'))"

text \<open>
  One iteration of the goroutine's loop: whether it goes on, and the store. \<open>cancelled\<close> is the
  \<open>select\<close> taking the \<open>ctx.Done()\<close> branch, \<open>released_after\<close> the flag as it is after the extension.
\<close>

definition auto_extend_tick :: "'s redis \<Rightarrow> net \<Rightarrow> bool \<Rightarrow> bool \<Rightarrow> Lock \<Rightarrow> 's \<Rightarrow> bool \<times> 's" where
  "auto_extend_tick R n cancelled released_after l s =
     (if lock_released l then (False, s)
      else if cancelled then (False, s)
      else case Extend R n l s of
          (Some err, s') \<Rightarrow> (False, s')
        | (None, s') \<Rightarrow> (\<not> released_after, s'))"

definition Unlock :: "'s redis \<Rightarrow> net \<Rightarrow> Lock \<Rightarrow> 's \<Rightarrow> lock_error option \<times> Lock \<times> 's" where
  "Unlock R n l s =
     (if lock_released l then (None, l\<lparr>lock_auto := None\<rparr>, s)
      else
        (let l' = l\<lparr>lock_released := True, lock_auto := None\<rparr> in
         case call_redis n (luaRelease R (lock_resource l) (lock_owner l)) s of
           (Inl err, s') \<Rightarrow>
             (if err = ''redis: nil'' then (Some ErrLockNotHeld, l', s') else (Some (RedisErr err), l', s'))
         | (Inr res, s') \<Rightarrow> if res \<noteq> 1 then (Some ErrLockNotHeld, l', s') else (None, l', s')))"

section \<open>Counters\<close>

record id_gen =
  ig_key :: string
  ig_start :: int

record Id_state =
  id_generators :: "string \<Rightarrow> id_gen option"

definition IdGenerator_init :: "'s redis \<Rightarrow> net \<Rightarrow> id_gen \<Rightarrow> 's \<Rightarrow> string option \<times> 's" where
  "IdGenerator_init R n d s =
     (case call_redis n (rd_setnx R (ig_key d) (Itoa (ig_start d)) 0) s of
        (Inl err, s') \<Rightarrow> (Some err, s') | (Inr _, s') \<Rightarrow> (None, s'))"

definition NewGenerator ::
    "'s redis \<Rightarrow> net \<Rightarrow> string \<Rightarrow> int \<Rightarrow> Id_state \<Rightarrow> 's \<Rightarrow> (string + id_gen) \<times> Id_state \<times> 's" where
  "NewGenerator R n key start d s =
     (case id_generators d key of
        Some idGen \<Rightarrow> (Inr idGen, d, s)
      | None \<Rightarrow>
          (let idGen = \<lparr>ig_key = key, ig_start = start\<rparr> in
           case IdGenerator_init R n idGen s of
             (Some err, s') \<Rightarrow> (Inl err, d, s')
           | (None, s') \<Rightarrow> (Inr idGen, d\<lparr>id_generators := (id_generators d)(key \<mapsto> idGen)\<rparr>, s')))"

definition Id_Close :: "Id_state \<Rightarrow> Id_state" where
  "Id_Close d = d\<lparr>id_generators := (\<lambda>_. None)\<rparr>"

definition IdGenerator_Next :: "'s redis \<Rightarrow> net \<Rightarrow> id_gen \<Rightarrow> 's \<Rightarrow> (string + int) \<times> 's" where
  "IdGenerator_Next R n c s =
     (case call_redis n (rd_incrby R (ig_key c) 1) s of
        (Inl err, s') \<Rightarrow> (Inl err, s')
      | (Inr None, s') \<Rightarrow> (Inl ''ERR value is not an integer or out of range'', s')
      | (Inr (Some res), s') \<Rightarrow> (Inr res, s'))"

section \<open>Lemmas\<close>

lemma call_redis_Inr:
  "call_redis n f s = (Inr r, s') \<longleftrightarrow> n = Reply \<and> f s = (r, s')"
  by (cases n) (auto simp: call_redis_def prod_eq_iff)

lemma luaRelease_laws:
  assumes "redis_laws R"
  shows "fst (luaRelease R key owner s) = (if rd_get R s key = Some owner then 1 else 0)"
    and "rd_get R (snd (luaRelease R key owner s))
          = (if rd_get R s key = Some owner then (rd_get R s)(key := None) else rd_get R s)"
  by (simp_all add: luaRelease_def redis_laws_simps [OF assms])

lemma luaRefresh_laws:
  assumes "redis_laws R"
  shows "fst (luaRefresh R key owner ms s) = (if rd_get R s key = Some owner then 1 else 0)"
    and "0 < ms \<Longrightarrow> rd_get R (snd (luaRefresh R key owner ms s)) = rd_get R s"
  by (simp_all add: luaRefresh_def redis_laws_simps [OF assms])

text \<open>The options of the package touch every field but \<open>Resource\<close>.\<close>

definition package_option :: "(LockOptions \<Rightarrow> LockOptions) \<Rightarrow> bool" where
  "package_option f \<longleftrightarrow> (\<exists>x. f = LockWithTtl x) \<or> (\<exists>x. f = LockWithRetryStrategy x)
     \<or> (\<exists>x. f = LockWithOwner x) \<or> (\<exists>x. f = LockWithLockTimeout x) \<or> f = LockWithDisableAutoExtend"

lemma package_options_Resource:
  "\<forall>f\<in>set fs. package_option f \<Longrightarrow> Resource (fold (\<lambda>v. v) fs opt) = Resource opt"
  by (induction fs arbitrary: opt)
    (auto simp: package_option_def LockWithTtl_def LockWithRetryStrategy_def LockWithOwner_def
      LockWithLockTimeout_def LockWithDisableAutoExtend_def)

lemma mergeOptions_Resource:
  "\<forall>f\<in>set fs. package_option f \<Longrightarrow> Resource (mergeOptions l uuid fs) = []"
  using package_options_Resource [of fs] by (simp add: mergeOptions_def Let_def)

lemma make_lock_sel [simp]:
  "lock_resource (make_lock opt) = Resource opt" "lock_owner (make_lock opt) = Owner opt"
  "\<not> lock_released (make_lock opt)"
  by (simp_all add: make_lock_def Let_def autoExtend_def)

text \<open>A round either ends the loop or leaves at least 10 ms less.\<close>

lemma round_div:
  fixes x left b :: int
  assumes "0 < b" "0 \<le> x" "x \<le> left - b"
  shows "x div b + 1 \<le> max 0 left div b"
proof -
  have "x div b \<le> (left - b) div b" using assms by (intro zdiv_mono1) auto
  also have "(left - b) div b = left div b - 1"
    using div_add_self2 [of b "left - b"] assms(1) by simp
  finally show ?thesis using assms by (simp add: max_def)
qed

lemma lock_loop_cases:
  assumes "lock_loop R env opt k left s = (res, n, s')"
  obtains (stop) e where "res = Inl e" "n = k"
  | (failed) e where "res = Inl e" "n = Suc k" "0 < left"
  | (taken) "res = Inr (make_lock opt)" "n = Suc k" "0 < left"
      "rd_setnx R (Resource opt) (Owner opt) (Ttl opt) (rnd_others (env k) s) = (True, s')"
  | (again) x s1 where "0 \<le> x" "x \<le> left - min_backoff"
      "rd_setnx R (Resource opt) (Owner opt) (Ttl opt) (rnd_others (env k) s) = (False, s1)"
      "lock_loop R env opt (Suc k) x s1 = (res, n, s')"
proof -
  let ?r = "env k"
  let ?b = "max ((case RetryStrategy opt of None \<Rightarrow> (\<lambda>_. 0) | Some f \<Rightarrow> f) k) min_backoff"
  let ?x = "left - max 0 (rnd_took ?r)"
  obtain c s1 where c: "call_redis (rnd_net ?r) (rd_setnx R (Resource opt) (Owner opt) (Ttl opt)) (rnd_others ?r s) = (c, s1)"
    by fastforce
  consider "\<not> rnd_client ?r \<or> rnd_cancelled ?r \<or> left \<le> 0"
    | e where "rnd_client ?r" "\<not> rnd_cancelled ?r" "0 < left" "c = Inl e"
    | "rnd_client ?r" "\<not> rnd_cancelled ?r" "0 < left" "c = Inr True"
    | "rnd_client ?r" "\<not> rnd_cancelled ?r" "0 < left" "c = Inr False" "rnd_cancel_wait ?r \<or> ?x < ?b"
    | "rnd_client ?r" "\<not> rnd_cancelled ?r" "0 < left" "c = Inr False" "\<not> (rnd_cancel_wait ?r \<or> ?x < ?b)"
    by (cases c) fastforce+
  then show thesis
  proof cases
    case 5
    have "lock_loop R env opt (Suc k) (?x - ?b) s1 = (res, n, s')"
      using assms 5 c by (subst (asm) lock_loop.simps) (simp add: Let_def)
    moreover have "rd_setnx R (Resource opt) (Owner opt) (Ttl opt) (rnd_others ?r s) = (False, s1)"
      using c 5 by (simp add: call_redis_Inr)
    ultimately show thesis using 5 by (intro again [of "?x - ?b" s1]) auto
  next
    case 3
    then show thesis using assms c
      by (intro taken) (auto simp: call_redis_Inr lock_loop.simps [of R env opt k])
  qed (use assms c in \<open>auto simp: lock_loop.simps [of R env opt k] Let_def split: if_splits intro: stop failed\<close>)
qed

lemma lock_loop_bound:
  assumes "redis_laws R" "lock_loop R env opt k left s = (res, n, s')"
  shows "k \<le> n \<and> int n - int k \<le> max 0 left div min_backoff + 1
    \<and> (\<forall>lock. res = Inr lock \<longrightarrow> lock = make_lock opt \<and> rd_get R s' (Resource opt) = Some (Owner opt))"
  using assms(2)
proof (induction "nat left" arbitrary: k left s rule: less_induct)
  case less
  have b: "0 < min_backoff" by (simp add: min_backoff_def millisecond_def)
  from less.prems show ?case
  proof (cases rule: lock_loop_cases)
    case taken
    then show ?thesis
      using redis_laws_simps(1,2) [OF assms(1), of "Resource opt" "Owner opt" "Ttl opt" "rnd_others (env k) s"]
        pos_imp_zdiv_nonneg_iff [OF b] by simp
  next
    case (again x s1)
    have "nat x < nat left" using again(1,2) b by linarith
    from less.hyps [OF this again(4)] round_div [OF b again(1,2)] again(1) show ?thesis by auto
  qed (auto simp: pos_imp_zdiv_nonneg_iff [OF b])
qed

section \<open>Properties\<close>

text \<open>\<open>TryLock\<close> locks one key whatever resource it is asked for: no option of the package sets
  \<open>LockOptions.Resource\<close>, so the key is the empty string, and while one resource is locked
  \<open>TryLock\<close> of every other resource is refused.\<close>

theorem trylock_ignores_resource:
  assumes "redis_laws R" "\<forall>f\<in>set fs. package_option f" "\<forall>f\<in>set gs. package_option f"
    and "TryLock R Reply u l resource1 fs s = (Inr (Some lock), s')"
  shows "rd_get R s' [] = Some (lock_owner lock) \<and> lock_resource lock = []
    \<and> TryLock R Reply v l resource2 gs s' = (Inr None, snd (TryLock R Reply v l resource2 gs s'))
    \<and> rd_get R (snd (TryLock R Reply v l resource2 gs s')) = rd_get R s'"
proof -
  note r = mergeOptions_Resource [OF assms(2), of l u] mergeOptions_Resource [OF assms(3), of l v]
  let ?o = "mergeOptions l u fs" and ?p = "mergeOptions l v gs"
  have c: "lk_client l" using assms(4) by (auto simp: TryLock_def Let_def split: if_splits)
  have t: "rd_setnx R [] (Owner ?o) (Ttl ?o) s = (True, s')" "lock = make_lock ?o"
    using assms(4) c r by (auto simp: TryLock_def Let_def call_redis_def prod_eq_iff split: if_splits)
  have s': "rd_get R s' [] = Some (Owner ?o)"
    using redis_laws_simps(1,2) [OF assms(1), of "[]" "Owner ?o" "Ttl ?o" s] t by simp
  have "\<not> fst (rd_setnx R [] (Owner ?p) (Ttl ?p) s')"
    and "rd_get R (snd (rd_setnx R [] (Owner ?p) (Ttl ?p) s')) = rd_get R s'"
    using redis_laws_simps(1,2) [OF assms(1), of "[]" "Owner ?p" "Ttl ?p" s'] s' by auto
  then show ?thesis using s' t(2) r c by (simp add: TryLock_def call_redis_def Let_def)
qed

definition demo_locker :: Locker where
  "demo_locker = \<lparr>lk_client = True, defaultTtl = 8 * second_dur, defaultRetryStrategy = None,
     defaultLockTimeout = 60 * second_dur\<rparr>"

lemma trylock_ignores_resource_witness:
  "fst (TryLock map_redis Reply ''v'' demo_locker ''invoices'' [] [[] \<mapsto> ''u'']) = Inr None"
proof -
  have t: "TryLock map_redis Reply ''u'' demo_locker ''orders'' [] (\<lambda>_. None)
      = (Inr (Some (make_lock (mergeOptions demo_locker ''u'' []))), [[] \<mapsto> ''u''])"
    by (simp add: TryLock_def demo_locker_def mergeOptions_def TrimSpace_def map_redis_def call_redis_def)
  have n: "\<forall>f\<in>set []. package_option f" by simp
  note T = trylock_ignores_resource [where v = "''v''" and ?resource2.0 = "''invoices''",
      OF map_redis_laws n n t]
  show ?thesis
    by (rule trans [OF arg_cong [OF T [THEN conjunct2, THEN conjunct2, THEN conjunct1], of fst] fst_conv])
qed


definition demo_round :: "(string \<Rightarrow> string option) round" where
  "demo_round = \<lparr>rnd_client = True, rnd_cancelled = False, rnd_others = (\<lambda>s. s), rnd_net = Reply,
     rnd_took = 0, rnd_cancel_wait = False\<rparr>"


text \<open>C8. Only the owner's lock is released: \<open>Unlock\<close> removes the key exactly when it holds the
  lock's owner (and then reports success), reports \<open>ErrLockNotHeld\<close> and changes nothing when another
  owner or nobody holds it, and never touches another key.\<close>

theorem unlock_releases_own_lock:
  assumes "redis_laws R" "\<not> lock_released l"
  shows "fst (Unlock R Reply l s)
      = (if rd_get R s (lock_resource l) = Some (lock_owner l) then None else Some ErrLockNotHeld)
    \<and> rd_get R (snd (snd (Unlock R Reply l s)))
      = (if rd_get R s (lock_resource l) = Some (lock_owner l)
         then (rd_get R s)(lock_resource l := None) else rd_get R s)
    \<and> lock_released (fst (snd (Unlock R Reply l s)))"
  using luaRelease_laws [OF assms(1), of "lock_resource l" "lock_owner l" s] assms(2)
  by (simp add: Unlock_def call_redis_def)

definition demo_lock :: Lock where
  "demo_lock = \<lparr>lock_resource = ''r'', lock_owner = ''me'', lock_ttl = 8 * second_dur,
     lock_released = False, lock_auto = None\<rparr>"

lemma unlock_releases_own_lock_witness:
  "fst (Unlock map_redis Reply demo_lock [''r'' \<mapsto> ''other'']) = Some ErrLockNotHeld
    \<and> fst (Unlock map_redis Reply demo_lock [''r'' \<mapsto> ''me'']) = None"
  using unlock_releases_own_lock [OF map_redis_laws, of demo_lock "[''r'' \<mapsto> ''other'']"]
    unlock_releases_own_lock [OF map_redis_laws, of demo_lock "[''r'' \<mapsto> ''me'']"]
  by (simp add: demo_lock_def map_redis_def)

text \<open>A release whose request was lost cannot be repeated: \<open>Unlock\<close> marks the lock released
  before it calls Redis, so the next \<open>Unlock\<close> reports success without a call while the key still
  holds the owner.\<close>

theorem unlock_retry_leaves_key:
  assumes "\<not> lock_released l" "rd_get R s (lock_resource l) = Some (lock_owner l)" "e \<noteq> ''redis: nil''"
  shows "\<exists>l'. Unlock R (LostBefore e) l s = (Some (RedisErr e), l', s)
    \<and> fst (Unlock R Reply l' s) = None
    \<and> rd_get R (snd (snd (Unlock R Reply l' s))) (lock_resource l) = Some (lock_owner l)"
  using assms by (simp add: Unlock_def call_redis_def)

lemma unlock_retry_leaves_key_witness:
  "\<exists>l'. Unlock map_redis (LostBefore ''timeout'') demo_lock [''r'' \<mapsto> ''me'']
      = (Some (RedisErr ''timeout''), l', [''r'' \<mapsto> ''me''])
    \<and> fst (Unlock map_redis Reply l' [''r'' \<mapsto> ''me'']) = None"
  using unlock_retry_leaves_key [of demo_lock map_redis "[''r'' \<mapsto> ''me'']" "''timeout''"]
  by (auto simp: demo_lock_def map_redis_def)

end
