(* ===== verification/RedLock.thy ===== *)
theory RedLock
  imports Locker
begin

text \<open>
  \<open>pkg/distribute/redlock.go\<close> and \<open>etcdlock.go\<close>: locks over the redsync and etcd libraries, whose
  calls are parameters (their results are inputs of the definitions). The extension goroutine and
  \<open>Unlock\<close> run concurrently and talk over two channels and shared fields: a step relation.
\<close>

section \<open>Configuration\<close>

record RedLockerConfig =
  rc_TTL :: int
  rc_AcquireTries :: int
  rc_RetryDelay :: int
  rc_AutoExtendLock :: bool
  rc_AutoExtendInterval :: int

text \<open>\<open>rnd\<close> is \<open>rand.Intn(200)\<close>; \<open>scale\<close> is the truncated float product with 0.67.\<close>

definition RedLock_useDefault :: "int \<Rightarrow> (int \<Rightarrow> int) \<Rightarrow> RedLockerConfig \<Rightarrow> RedLockerConfig" where
  "RedLock_useDefault rnd scale c =
     (let c = (if rc_AcquireTries c \<le> 0 then c\<lparr>rc_AcquireTries := 32\<rparr> else c);
          c = (if rc_TTL c \<le> 0 then c\<lparr>rc_TTL := 8 * second_dur\<rparr> else c);
          c = (if rc_RetryDelay c \<le> 0 then c\<lparr>rc_RetryDelay := (50 + rnd) * millisecond\<rparr> else c)
      in if rc_AutoExtendLock c \<and> rc_AutoExtendInterval c \<le> 0
         then c\<lparr>rc_AutoExtendInterval := scale (rc_TTL c div millisecond) * millisecond\<rparr> else c)"

definition RedLockWithTTL :: "int \<Rightarrow> RedLockerConfig \<Rightarrow> RedLockerConfig" where
  "RedLockWithTTL ttl c = c\<lparr>rc_TTL := ttl\<rparr>"
definition RedLockWithAcquireTries :: "int \<Rightarrow> RedLockerConfig \<Rightarrow> RedLockerConfig" where
  "RedLockWithAcquireTries tries c = c\<lparr>rc_AcquireTries := tries\<rparr>"
definition RedLockWithRetryDelay :: "int \<Rightarrow> RedLockerConfig \<Rightarrow> RedLockerConfig" where
  "RedLockWithRetryDelay d c = c\<lparr>rc_RetryDelay := d\<rparr>"
definition RedLockWithAutoExtend :: "int \<Rightarrow> RedLockerConfig \<Rightarrow> RedLockerConfig" where
  "RedLockWithAutoExtend i c = c\<lparr>rc_AutoExtendLock := True, rc_AutoExtendInterval := i\<rparr>"

section \<open>The lock, its goroutine and its channels\<close>

text \<open>A channel of capacity 1: the elements buffered, and whether it is closed.\<close>

record chan1 =
  ch_buf :: nat
  ch_closed :: bool

definition new_chan1 :: chan1 where
  "new_chan1 = \<lparr>ch_buf = 0, ch_closed = False\<rparr>"

datatype ext_pc = NoGoroutine | Waiting | Extending | Exited | Stuck | SendPanic

datatype unlock_pc = Idle | WaitExit | Closing | Unlocking

record RedLock =
  rl_mutex :: bool \<comment> \<open>\<open>mutex\<close> is not nil\<close>
  rl_cancel :: bool \<comment> \<open>\<open>cancelExtend\<close> is not nil\<close>
  rl_cancelled :: bool
  rl_err :: "chan1 option"
  rl_done :: "chan1 option"
  rl_ext :: ext_pc
  rl_unlock :: unlock_pc
  rl_timed_out :: bool \<comment> \<open>an \<open>Unlock\<close> gave up waiting for the goroutine\<close>

definition new_RedLock :: RedLock where
  "new_RedLock = \<lparr>rl_mutex = True, rl_cancel = False, rl_cancelled = False, rl_err = None, rl_done = None,
     rl_ext = NoGoroutine, rl_unlock = Idle, rl_timed_out = False\<rparr>"

definition RedLock_autoExtend :: "RedLock \<Rightarrow> RedLock" where
  "RedLock_autoExtend r = r\<lparr>rl_cancel := True, rl_err := Some new_chan1, rl_done := Some new_chan1,
     rl_ext := Waiting\<rparr>"

text \<open>\<open>locked\<close> is the error of the library's \<open>LockContext\<close>, if any.\<close>

definition RedLocker_Lock ::
    "int \<Rightarrow> (int \<Rightarrow> int) \<Rightarrow> string option \<Rightarrow> (RedLockerConfig \<Rightarrow> RedLockerConfig) list \<Rightarrow> string + RedLock" where
  "RedLocker_Lock rnd scale locked options =
     (let config = fold (\<lambda>v. v) options
            \<lparr>rc_TTL = 0, rc_AcquireTries = 0, rc_RetryDelay = 0, rc_AutoExtendLock = False, rc_AutoExtendInterval = 0\<rparr>;
          config = RedLock_useDefault rnd scale config
      in case locked of
           Some err \<Rightarrow> Inl err
         | None \<Rightarrow> Inr (if rc_AutoExtendLock config then RedLock_autoExtend new_RedLock else new_RedLock))"

text \<open>A send: on a nil channel or a full buffer the goroutine stays blocked, on a closed one it panics.\<close>

definition chan_send :: "chan1 option \<Rightarrow> chan1 option \<times> ext_pc" where
  "chan_send c =
     (case c of
        None \<Rightarrow> (None, Stuck)
      | Some ch \<Rightarrow>
          if ch_closed ch then (c, SendPanic)
          else if ch_buf ch = 0 then (Some (ch\<lparr>ch_buf := 1\<rparr>), Exited) else (c, Stuck))"

definition chan_close :: "chan1 option \<Rightarrow> chan1 option" where
  "chan_close c = map_option (\<lambda>ch. ch\<lparr>ch_closed := True\<rparr>) c"

definition send_done :: "RedLock \<Rightarrow> RedLock" where
  "send_done r = (let (c, pc) = chan_send (rl_done r) in r\<lparr>rl_done := c, rl_ext := pc\<rparr>)"

definition send_err :: "RedLock \<Rightarrow> RedLock" where
  "send_err r = (let (c, pc) = chan_send (rl_err r) in r\<lparr>rl_err := c, rl_ext := pc\<rparr>)"

text \<open>
  The goroutine: woken by the cancellation or by its timer, the extension succeeding or not.
  \<open>Unlock\<close>: entered while the lock still has its mutex, waiting for the goroutine or for one second,
  closing the channels, and returning from the library's unlock, which clears the fields.
\<close>

inductive redlock_step :: "RedLock \<Rightarrow> RedLock \<Rightarrow> bool" where
  ext_cancelled: "rl_ext r = Waiting \<Longrightarrow> rl_cancelled r \<Longrightarrow> redlock_step r (send_done r)"
| ext_timer: "rl_ext r = Waiting \<Longrightarrow> redlock_step r (r\<lparr>rl_ext := Extending\<rparr>)"
| ext_ok: "rl_ext r = Extending \<Longrightarrow> redlock_step r (r\<lparr>rl_ext := Waiting\<rparr>)"
| ext_failed: "rl_ext r = Extending \<Longrightarrow> redlock_step r (send_err r)"
| unlock_enter: "rl_unlock r = Idle \<Longrightarrow> rl_mutex r \<Longrightarrow>
    redlock_step r (if rl_cancel r then r\<lparr>rl_cancelled := True, rl_unlock := WaitExit\<rparr>
                    else r\<lparr>rl_unlock := Closing\<rparr>)"
| unlock_signal: "rl_unlock r = WaitExit \<Longrightarrow> rl_done r = Some ch \<Longrightarrow> 0 < ch_buf ch \<Longrightarrow>
    redlock_step r (r\<lparr>rl_done := Some (ch\<lparr>ch_buf := 0\<rparr>), rl_unlock := Closing\<rparr>)"
| unlock_timeout: "rl_unlock r = WaitExit \<Longrightarrow>
    redlock_step r (r\<lparr>rl_unlock := Closing, rl_timed_out := True\<rparr>)"
| unlock_close: "rl_unlock r = Closing \<Longrightarrow>
    redlock_step r (r\<lparr>rl_done := chan_close (rl_done r), rl_err := chan_close (rl_err r), rl_unlock := Unlocking\<rparr>)"
| unlock_return: "rl_unlock r = Unlocking \<Longrightarrow>
    redlock_step r (r\<lparr>rl_mutex := False, rl_cancel := False, rl_done := None, rl_err := None, rl_unlock := Idle\<rparr>)"
| consumer: "rl_err r = Some ch \<Longrightarrow> 0 < ch_buf ch \<Longrightarrow>
    redlock_step r (r\<lparr>rl_err := Some (ch\<lparr>ch_buf := 0\<rparr>)\<rparr>)"

inductive_cases redlock_stepE: "redlock_step r r'"

text \<open>What the library's unlock says becomes the result: \<open>ErrFailed\<close> unless it released the lock.\<close>

definition RedLock_Unlock_result :: "bool \<Rightarrow> bool \<Rightarrow> string option \<Rightarrow> string option" where
  "RedLock_Unlock_result mutex_nil val err =
     (if mutex_nil then None else if \<not> val then Some ''failed'' else err)"

section \<open>The etcd locker\<close>

record EtcdLocker =
  ec_client :: bool \<comment> \<open>\<open>client\<close> is not nil\<close>
  ec_closed :: bool \<comment> \<open>the client has been closed\<close>

definition EtcdLocker_Close :: "string option \<Rightarrow> EtcdLocker \<Rightarrow> string option \<times> EtcdLocker" where
  "EtcdLocker_Close err l =
     (if ec_client l then (err, l\<lparr>ec_closed := True\<rparr>) else (None, l\<lparr>ec_client := False\<rparr>))"

record EtcdLockConfig =
  et_TTL :: int
  et_LockTimeout :: int

definition Etcd_useDefault :: "EtcdLockConfig \<Rightarrow> EtcdLockConfig" where
  "Etcd_useDefault e =
     (let e = (if et_TTL e \<le> 0 then e\<lparr>et_TTL := 60\<rparr> else e)
      in if et_LockTimeout e \<le> 0 then e\<lparr>et_LockTimeout := 8 * second_dur\<rparr> else e)"

definition EtcdWithTTL :: "int \<Rightarrow> EtcdLockConfig \<Rightarrow> EtcdLockConfig" where
  "EtcdWithTTL ttl c = c\<lparr>et_TTL := ttl\<rparr>"
definition EtcdWithLockTimeout :: "int \<Rightarrow> EtcdLockConfig \<Rightarrow> EtcdLockConfig" where
  "EtcdWithLockTimeout t c = c\<lparr>et_LockTimeout := t\<rparr>"

record EtcdLock =
  el_key :: string
  el_mutex :: bool
  el_session :: bool

text \<open>
  The library's answers: the session made with the lease time, and the mutex taken within the
  timeout. The result carries the sessions the call closed.
\<close>

definition EtcdLocker_Lock ::
    "(int \<Rightarrow> string option) \<Rightarrow> (int \<Rightarrow> string option) \<Rightarrow> EtcdLocker \<Rightarrow> string
       \<Rightarrow> (EtcdLockConfig \<Rightarrow> EtcdLockConfig) list \<Rightarrow> (string + EtcdLock) \<times> nat" where
  "EtcdLocker_Lock newSession lockMutex l key options =
     (if \<not> ec_client l then (Inl ''client not inited'', 0)
      else
        (let config = Etcd_useDefault (fold (\<lambda>v. v) options \<lparr>et_TTL = 0, et_LockTimeout = 0\<rparr>) in
         case newSession (et_TTL config) of
           Some err \<Rightarrow> (Inl err, 0)
         | None \<Rightarrow>
             (case lockMutex (et_LockTimeout config) of
                Some err \<Rightarrow> (Inl err, 1)
              | None \<Rightarrow> (Inr \<lparr>el_key = key, el_mutex = True, el_session = True\<rparr>, 0))))"

text \<open>The result, the lock after the deferred clearing, and whether the session was closed.\<close>

definition EtcdLock_Unlock :: "string option \<Rightarrow> EtcdLock \<Rightarrow> string option \<times> EtcdLock \<times> bool" where
  "EtcdLock_Unlock unlockErr l =
     (let l' = l\<lparr>el_mutex := False, el_session := False\<rparr> in
      if el_mutex l \<and> unlockErr \<noteq> None then (unlockErr, l', False)
      else (None, l', el_session l))"

section \<open>Reachable states\<close>

inductive redlock_reach :: "RedLock \<Rightarrow> bool" where
  start: "redlock_reach (RedLock_autoExtend new_RedLock)"
| step: "redlock_reach r \<Longrightarrow> redlock_step r r' \<Longrightarrow> redlock_reach r'"

definition redlock_inv :: "RedLock \<Rightarrow> bool" where
  "redlock_inv r \<longleftrightarrow>
     (rl_timed_out r \<or>
        rl_ext r \<noteq> SendPanic \<and> rl_ext r \<noteq> Stuck \<and>
        (rl_ext r \<in> {Waiting, Extending} \<longrightarrow>
           rl_unlock r \<in> {Idle, WaitExit} \<and> rl_mutex r \<and> rl_cancel r \<and>
           rl_done r = Some new_chan1 \<and> rl_err r = Some new_chan1))
     \<and> (rl_mutex r \<longrightarrow> rl_cancel r)"

lemma redlock_inv_start: "redlock_inv (RedLock_autoExtend new_RedLock)"
  by (simp add: redlock_inv_def RedLock_autoExtend_def new_RedLock_def new_chan1_def)

lemma send_sel [simp]:
  "rl_timed_out (send_done r) = rl_timed_out r" "rl_timed_out (send_err r) = rl_timed_out r"
  "rl_mutex (send_done r) = rl_mutex r" "rl_mutex (send_err r) = rl_mutex r"
  "rl_cancel (send_done r) = rl_cancel r" "rl_cancel (send_err r) = rl_cancel r"
  by (simp_all add: send_done_def send_err_def split_beta)

lemma send_pc:
  "rl_ext (send_done r) \<notin> {Waiting, Extending}" "rl_ext (send_err r) \<notin> {Waiting, Extending}"
  "rl_done r = Some new_chan1 \<Longrightarrow> rl_ext (send_done r) = Exited"
  "rl_err r = Some new_chan1 \<Longrightarrow> rl_ext (send_err r) = Exited"
  by (auto simp: send_done_def send_err_def chan_send_def new_chan1_def split_beta split: option.splits)

lemma redlock_inv_step:
  assumes "redlock_step r r'" "redlock_inv r"
  shows "redlock_inv r'"
  using assms
proof (cases rule: redlock_step.cases)
  case unlock_signal
  then show ?thesis using assms(2) by (cases "rl_ext r"; cases "rl_timed_out r") (auto simp: redlock_inv_def new_chan1_def)
next
  case ext_cancelled
  then show ?thesis using assms(2) using send_pc(1,3) [of r] by (cases "rl_timed_out r") (simp_all add: redlock_inv_def)
next
  case ext_failed
  then show ?thesis using assms(2) using send_pc(2,4) [of r] by (cases "rl_timed_out r") (simp_all add: redlock_inv_def)
next
  case ext_timer
  then show ?thesis using assms(2)
    by (cases "rl_ext r"; cases "rl_timed_out r")
      (simp_all add: redlock_inv_def chan_close_def split: if_splits)
next
  case ext_ok
  then show ?thesis using assms(2)
    by (cases "rl_ext r"; cases "rl_timed_out r")
      (simp_all add: redlock_inv_def chan_close_def split: if_splits)
next
  case unlock_enter
  then show ?thesis using assms(2)
    by (cases "rl_ext r"; cases "rl_timed_out r")
      (simp_all add: redlock_inv_def chan_close_def split: if_splits)
next
  case unlock_timeout
  then show ?thesis using assms(2)
    by (cases "rl_ext r"; cases "rl_timed_out r")
      (simp_all add: redlock_inv_def chan_close_def split: if_splits)
next
  case unlock_close
  then show ?thesis using assms(2)
    by (cases "rl_ext r"; cases "rl_timed_out r")
      (simp_all add: redlock_inv_def chan_close_def split: if_splits)
next
  case unlock_return
  then show ?thesis using assms(2)
    by (cases "rl_ext r"; cases "rl_timed_out r")
      (simp_all add: redlock_inv_def chan_close_def split: if_splits)
next
  case consumer
  then show ?thesis using assms(2)
    by (cases "rl_ext r"; cases "rl_timed_out r") (auto simp: redlock_inv_def new_chan1_def)
qed

lemma redlock_inv_reach: "redlock_reach r \<Longrightarrow> redlock_inv r"
  by (induction rule: redlock_reach.induct) (blast intro: redlock_inv_start redlock_inv_step)+

section \<open>Properties\<close>



text \<open>After that timeout it can panic: when an extension call outlasts the wait, \<open>Unlock\<close> closes
  the channels under the goroutine, and the goroutine's next send is on a closed channel.\<close>

theorem redlock_panic_reachable: "\<exists>r. redlock_reach r \<and> rl_ext r = SendPanic \<and> rl_unlock r = Unlocking"
proof -
  define r0 where "r0 = RedLock_autoExtend new_RedLock"
  define r1 where "r1 = r0\<lparr>rl_ext := Extending\<rparr>"
  define r2 where "r2 = r1\<lparr>rl_cancelled := True, rl_unlock := WaitExit\<rparr>"
  define r3 where "r3 = r2\<lparr>rl_unlock := Closing, rl_timed_out := True\<rparr>"
  define r4 where "r4 = r3\<lparr>rl_done := chan_close (rl_done r3), rl_err := chan_close (rl_err r3), rl_unlock := Unlocking\<rparr>"
  note ds = r0_def r1_def r2_def r3_def r4_def RedLock_autoExtend_def new_RedLock_def
  have "redlock_reach r0" unfolding r0_def by (rule redlock_reach.start)
  moreover have "redlock_step r0 r1" unfolding r1_def by (rule ext_timer) (simp add: ds)
  ultimately have "redlock_reach r1" by (rule redlock_reach.step)
  moreover have "redlock_step r1 r2" using unlock_enter [of r1] by (simp add: ds)
  ultimately have "redlock_reach r2" by (rule redlock_reach.step)
  moreover have "redlock_step r2 r3" unfolding r3_def by (rule unlock_timeout) (simp add: ds)
  ultimately have "redlock_reach r3" by (rule redlock_reach.step)
  moreover have "redlock_step r3 r4" unfolding r4_def by (rule unlock_close) (simp add: ds)
  ultimately have "redlock_reach r4" by (rule redlock_reach.step)
  moreover have "redlock_step r4 (send_err r4)" by (rule ext_failed) (simp add: ds)
  ultimately have "redlock_reach (send_err r4)" by (rule redlock_reach.step)
  moreover have "rl_ext (send_err r4) = SendPanic \<and> rl_unlock (send_err r4) = Unlocking"
    by (simp add: ds send_err_def chan_send_def chan_close_def new_chan1_def)
  ultimately show ?thesis by blast
qed

lemma etcd_close_keeps_client:
  "ec_client l \<Longrightarrow> ec_client (snd (EtcdLocker_Close err l)) \<and> ec_closed (snd (EtcdLocker_Close err l))"
  by (simp add: EtcdLocker_Close_def)

end
