(* ===== verification/MessageQueue.thy ===== *)
theory MessageQueue
  imports GoStrings
begin

text \<open>
  \<open>pkg/distribute/queue.go\<close>: a message queue over Redis streams. What the server answers
  (\<open>XGROUP CREATE\<close>, \<open>XREADGROUP\<close>, \<open>XACK\<close>), what the handler returns and which branch each \<open>select\<close>
  takes are inputs; a message is its id. The channel \<open>closeChan\<close> is never closed, so receiving from it
  gives \<open>ok = true\<close>; \<open>ctx.Done()\<close> only ever becomes ready by being closed, which gives \<open>ok = false\<close>.
\<close>

datatype select_branch = SelClose | SelDone | SelDefault

definition recv_ok :: "select_branch \<Rightarrow> bool" where
  "recv_ok b = (case b of SelClose \<Rightarrow> True | SelDone \<Rightarrow> False | SelDefault \<Rightarrow> False)"

text \<open>What surrounds the handling of one message.\<close>

record msg_env =
  me_sel :: select_branch
  me_handler :: "string option" \<comment> \<open>the handler's error\<close>
  me_ack :: "string option" \<comment> \<open>the error of \<open>XAck\<close>\<close>

text \<open>The ids handed to the handler and the ids acknowledged, in order.\<close>

record traffic =
  handled :: "string list"
  acked :: "string list"

definition no_traffic :: traffic where
  "no_traffic = \<lparr>handled = [], acked = []\<rparr>"

definition add_traffic :: "traffic \<Rightarrow> traffic \<Rightarrow> traffic" where
  "add_traffic t u = \<lparr>handled = handled t @ handled u, acked = acked t @ acked u\<rparr>"

fun consume_msgs :: "(nat \<Rightarrow> msg_env) \<Rightarrow> nat \<Rightarrow> string list \<Rightarrow> traffic \<Rightarrow> traffic" where
  "consume_msgs env k [] t = t"
| "consume_msgs env k (msg # msgs) t =
     (case me_sel (env k) of
        SelClose \<Rightarrow> if recv_ok SelClose then t else consume_msgs env (Suc k) msgs t
      | SelDone \<Rightarrow> if recv_ok SelDone then t else consume_msgs env (Suc k) msgs t
      | SelDefault \<Rightarrow>
          (let t' = t\<lparr>handled := handled t @ [msg]\<rparr> in
           if me_handler (env k) \<noteq> None then consume_msgs env (Suc k) msgs t'
           else if me_ack (env k) \<noteq> None then consume_msgs env (Suc k) msgs t'
           else consume_msgs env (Suc k) msgs (t'\<lparr>acked := acked t' @ [msg]\<rparr>)))"

text \<open>\<open>XReadGroup\<close>'s answer: an error, or the messages of each stream; the code reads the first.\<close>

type_synonym read_result = "string + string list list"

definition consume :: "read_result \<Rightarrow> (nat \<Rightarrow> msg_env) \<Rightarrow> (string option \<times> traffic) outcome" where
  "consume res env =
     (case res of
        Inl err \<Rightarrow> Ret (Some err, no_traffic)
      | Inr [] \<Rightarrow> Panic ''index out of range''
      | Inr (msgs # _) \<Rightarrow> Ret (None, consume_msgs env 0 msgs no_traffic))"

text \<open>One round of the goroutine of \<open>Subscribe\<close>: the two polls, for new and for pending messages.\<close>

record sub_round =
  sr_sel :: select_branch
  sr_new :: read_result
  sr_new_env :: "nat \<Rightarrow> msg_env"
  sr_pending :: read_result
  sr_pending_env :: "nat \<Rightarrow> msg_env"

datatype loop_end = Running | Returned | Crashed string

definition sub_step :: "sub_round \<Rightarrow> loop_end \<times> traffic" where
  "sub_step r =
     (case sr_sel r of
        SelClose \<Rightarrow> (if recv_ok SelClose then Returned else Running, no_traffic)
      | SelDone \<Rightarrow> (if recv_ok SelDone then Returned else Running, no_traffic)
      | SelDefault \<Rightarrow>
          (case consume (sr_new r) (sr_new_env r) of
             Panic m \<Rightarrow> (Crashed m, no_traffic)
           | Ret (Some err, t) \<Rightarrow> (Running, t)
           | Ret (None, t) \<Rightarrow>
               (case consume (sr_pending r) (sr_pending_env r) of
                  Panic m \<Rightarrow> (Crashed m, t)
                | Ret (_, u) \<Rightarrow> (Running, add_traffic t u))))"

fun sub_loop :: "sub_round list \<Rightarrow> loop_end \<times> traffic" where
  "sub_loop [] = (Running, no_traffic)"
| "sub_loop (r # rs) =
     (case sub_step r of
        (Running, t) \<Rightarrow> (let (e, u) = sub_loop rs in (e, add_traffic t u))
      | (e, t) \<Rightarrow> (e, t))"

text \<open>
  \<open>Subscribe\<close>: the error of creating the group unless the group exists, the error of the pool's
  \<open>Submit\<close>, or the goroutine running the loop.
\<close>

definition Subscribe :: "string option \<Rightarrow> string option \<Rightarrow> sub_round list \<Rightarrow> string option \<times> (loop_end \<times> traffic) option" where
  "Subscribe groupErr submitErr rounds =
     (case groupErr of
        Some err \<Rightarrow> if \<not> HasPrefix err ''BUSYGROUP'' then (Some err, None)
                   else if submitErr \<noteq> None then (submitErr, None) else (None, Some (sub_loop rounds))
      | None \<Rightarrow> if submitErr \<noteq> None then (submitErr, None) else (None, Some (sub_loop rounds)))"

record mq_state =
  mq_client :: bool \<comment> \<open>\<open>client\<close> is not nil\<close>
  mq_waiting :: nat \<comment> \<open>goroutines that will still receive from \<open>closeChan\<close>\<close>

text \<open>\<open>Close\<close> sends on the unbuffered channel, which waits for a receiver: \<open>None\<close> is a call that
  never returns.\<close>

definition MQ_Close :: "mq_state \<Rightarrow> mq_state option" where
  "MQ_Close m =
     (if \<not> mq_client m then Some m
      else if mq_waiting m = 0 then None
      else Some (m\<lparr>mq_client := False, mq_waiting := mq_waiting m - 1\<rparr>))"

section \<open>Lemmas\<close>

text \<open>The messages whose handler succeeded.\<close>

lemma consume_msgs_acked:
  "\<exists>h a. consume_msgs env k msgs t = \<lparr>handled = handled t @ h, acked = acked t @ a\<rparr>
     \<and> h = map snd (filter (\<lambda>(i, _). me_sel (env i) = SelDefault)
             (takeWhile (\<lambda>(i, _). me_sel (env i) \<noteq> SelClose) (enumerate k msgs)))
     \<and> a = map snd (filter (\<lambda>(i, _). me_sel (env i) = SelDefault \<and> me_handler (env i) = None \<and> me_ack (env i) = None)
             (takeWhile (\<lambda>(i, _). me_sel (env i) \<noteq> SelClose) (enumerate k msgs)))"
proof (induction msgs arbitrary: k t)
  case Nil
  then show ?case by simp
next
  case (Cons msg msgs)
  show ?case
    by (cases "me_sel (env k)")
      (use Cons [of "Suc k" t] Cons [of "Suc k" "t\<lparr>handled := handled t @ [msg]\<rparr>"]
        Cons [of "Suc k" "t\<lparr>handled := handled t @ [msg], acked := acked t @ [msg]\<rparr>"]
       in \<open>auto simp: recv_ok_def Let_def\<close>)
qed

lemma sub_step_running: "sr_sel r \<noteq> SelClose \<Longrightarrow> fst (sub_step r) \<noteq> Returned"
  by (auto simp: sub_step_def recv_ok_def split: select_branch.splits outcome.splits option.splits prod.splits)

lemma sub_step_done: "sr_sel r = SelDone \<Longrightarrow> sub_step r = (Running, no_traffic)"
  by (simp add: sub_step_def recv_ok_def)

lemma sub_loop_not_returned:
  "\<forall>r\<in>set rs. sr_sel r \<noteq> SelClose \<Longrightarrow> fst (sub_loop rs) \<noteq> Returned"
proof (induction rs)
  case (Cons r rs)
  then show ?case using sub_step_running [of r]
    by (cases "sub_step r"; cases "fst (sub_step r)") (auto split: prod.splits)
qed simp

section \<open>Properties\<close>

text \<open>C20. Messages are acknowledged only after they were processed: in a batch that \<open>consume\<close> reads,
  the handler gets the messages before the first close signal, less those at which the context was
  already done, in order, and exactly those of them are acknowledged whose handler returned nil and
  whose \<open>XAck\<close> call worked.\<close>

theorem consume_acks_only_handled:
  "\<exists>t. consume (Inr (msgs # ss)) env = Ret (None, t)
    \<and> handled t = map snd (filter (\<lambda>(i, _). me_sel (env i) = SelDefault)
        (takeWhile (\<lambda>(i, _). me_sel (env i) \<noteq> SelClose) (enumerate 0 msgs)))
    \<and> acked t = map snd (filter (\<lambda>(i, _). me_sel (env i) = SelDefault \<and> me_handler (env i) = None
        \<and> me_ack (env i) = None)
        (takeWhile (\<lambda>(i, _). me_sel (env i) \<noteq> SelClose) (enumerate 0 msgs)))"
  using consume_msgs_acked [of env 0 msgs no_traffic] by (auto simp: consume_def no_traffic_def)

text \<open>Cancelling the context does not end a subscription: a closed \<open>Done\<close> channel gives
  \<open>ok = false\<close>, so however many rounds follow, the goroutine does not return unless a round itself
  receives the close signal, and once the context is done every round is an idle turn of the loop.\<close>

theorem subscribe_ignores_cancel:
  "(\<forall>r\<in>set rs. sr_sel r \<noteq> SelClose) \<longrightarrow>
     fst (sub_loop rs) \<noteq> Returned
     \<and> ((\<forall>r\<in>set rs. sr_sel r = SelDone) \<longrightarrow> sub_loop rs = (Running, no_traffic))"
proof (intro impI conjI)
  assume "\<forall>r\<in>set rs. sr_sel r \<noteq> SelClose"
  then show "fst (sub_loop rs) \<noteq> Returned" by (rule sub_loop_not_returned)
next
  assume "\<forall>r\<in>set rs. sr_sel r = SelDone"
  then show "sub_loop rs = (Running, no_traffic)"
    by (induction rs) (auto simp: sub_step_done no_traffic_def add_traffic_def)
qed

definition done_round :: sub_round where
  "done_round = \<lparr>sr_sel = SelDone, sr_new = Inr [[]], sr_new_env = (\<lambda>_. \<lparr>me_sel = SelDefault, me_handler = None, me_ack = None\<rparr>),
     sr_pending = Inr [[]], sr_pending_env = (\<lambda>_. \<lparr>me_sel = SelDefault, me_handler = None, me_ack = None\<rparr>)\<rparr>"

lemma subscribe_ignores_cancel_witness:
  "sub_loop (replicate 1000 done_round) = (Running, no_traffic)"
  using subscribe_ignores_cancel [of "replicate 1000 done_round"] by (simp add: done_round_def)

text \<open>A close signal received while a batch is processed is lost: the batch stops, the pending
  messages are polled as if nothing had happened, and the goroutine goes on running.\<close>

theorem close_signal_lost_in_batch:
  assumes "sr_sel r = SelDefault" "sr_new r = Inr ((m # msgs) # ss)" "me_sel (sr_new_env r 0) = SelClose"
    and "sr_pending r = Inr (pend # ss')"
  shows "sub_step r = (Running, consume_msgs (sr_pending_env r) 0 pend no_traffic)"
proof -
  have n: "consume (sr_new r) (sr_new_env r) = Ret (None, no_traffic)"
    using assms by (simp add: consume_def recv_ok_def)
  have p: "consume (sr_pending r) (sr_pending_env r)
      = Ret (None, consume_msgs (sr_pending_env r) 0 pend no_traffic)"
    using assms by (simp add: consume_def)
  have "add_traffic no_traffic u = u" for u by (simp add: add_traffic_def no_traffic_def)
  then show ?thesis using n p assms(1) by (simp add: sub_step_def)
qed

definition close_round :: sub_round where
  "close_round = \<lparr>sr_sel = SelDefault, sr_new = Inr [[''1-0'']],
     sr_new_env = (\<lambda>_. \<lparr>me_sel = SelClose, me_handler = None, me_ack = None\<rparr>),
     sr_pending = Inr [[''0-9'']], sr_pending_env = (\<lambda>_. \<lparr>me_sel = SelDefault, me_handler = None, me_ack = None\<rparr>)\<rparr>"

lemma close_signal_lost_in_batch_witness:
  "sub_step close_round = (Running, \<lparr>handled = [''0-9''], acked = [''0-9'']\<rparr>)"
  using close_signal_lost_in_batch [of close_round "''1-0''" "[]" "[]" "[''0-9'']" "[]"]
  by (simp add: close_round_def no_traffic_def)

end
