(* ===== verification/MapX.thy ===== *)
theory MapX
  imports GoStrings "HOL-Library.AList"
begin

text \<open>
  \<open>pkg/core/mapx.go\<close>, the JSON-like map addressed by dotted paths, and \<open>pkg/core/platform.go\<close>. A
  value of type \<open>any\<close> is a tree: Go's maps and slices are references, and a tree is what they reach
  when no container is shared by two places of the map (as after decoding JSON). A Go map is an
  association list with distinct keys, updated by \<open>AList.update\<close>. Values the code never looks into
  (floats, structs, other map types) are \<open>JOther\<close>.
\<close>

section \<open>Values\<close>

datatype ikind = KInt | KInt64 | KInt32 | KInt16 | KInt8

datatype jval =
    JNil
  | JBool bool
  | JInt ikind int64
  | JStr string
  | JOther string
  | JArr "jval list"
  | JMap "(string \<times> jval) list"

text \<open>\<open>None\<close> is the nil \<open>MapX\<close>.\<close>

type_synonym MapX = "(string \<times> jval) list option"

datatype map_error = MapxIsNil | AtoiError | OutOfRange | OutOfIndex

definition MapX_elems :: "MapX \<Rightarrow> (string \<times> jval) list" where
  "MapX_elems e = (case e of None \<Rightarrow> [] | Some m \<Rightarrow> m)"

definition MapX_Len :: "MapX \<Rightarrow> int" where
  "MapX_Len e = int (length (MapX_elems e))"

definition MapX_IsEmpty :: "MapX \<Rightarrow> bool" where
  "MapX_IsEmpty e \<longleftrightarrow> MapX_Len e = 0"

definition MapX_Clear :: "MapX \<Rightarrow> MapX" where
  "MapX_Clear e = map_option (\<lambda>_. []) e"

definition MapX_Delete :: "string \<Rightarrow> MapX \<Rightarrow> MapX" where
  "MapX_Delete key e = map_option (AList.delete key) e"

section \<open>Reading a path\<close>

definition get_step :: "string \<Rightarrow> jval \<Rightarrow> jval option" where
  "get_step key current =
     (case Atoi key of
        Some idx \<Rightarrow>
          (case current of
             JArr arr \<Rightarrow> if idx < 0 \<or> idx \<ge> int (length arr) then None else Some (arr ! nat idx)
           | _ \<Rightarrow> None)
      | None \<Rightarrow>
          (case current of
             JMap currentMap \<Rightarrow> map_of currentMap key
           | _ \<Rightarrow> None))"

fun get_path :: "string list \<Rightarrow> jval \<Rightarrow> jval option" where
  "get_path [] current = Some current"
| "get_path (key # keys) current =
     (case get_step key current of None \<Rightarrow> None | Some val \<Rightarrow> get_path keys val)"

definition GetValue :: "MapX \<Rightarrow> string \<Rightarrow> jval option" where
  "GetValue e path =
     (if MapX_IsEmpty e then None else get_path (Split path ''.'') (JMap (MapX_elems e)))"

section \<open>Writing a path\<close>

text \<open>
  The containers the loop creates on the way: a slice when the next key is a number. The loop's
  \<open>parent\<close> is a reference, so what it writes stays written when a later step fails; a \<open>parent\<close> that
  is neither a map nor a slice is kept to the end and nothing is stored.
\<close>

definition fresh_container :: "string \<Rightarrow> jval" where
  "fresh_container nextKey = (if Atoi nextKey \<noteq> None then JArr [] else JMap [])"

definition set_leaf :: "string \<Rightarrow> jval \<Rightarrow> jval \<Rightarrow> map_error option \<times> jval" where
  "set_leaf leafKey value parent =
     (case parent of
        JArr arr \<Rightarrow>
          (case Atoi leafKey of
             None \<Rightarrow> (Some AtoiError, parent)
           | Some arrIdx \<Rightarrow>
               if arrIdx < 0 \<or> arrIdx > int (length arr) - 1 then (Some OutOfIndex, parent)
               else (None, JArr (arr[nat arrIdx := value])))
      | JMap m \<Rightarrow> (None, JMap (AList.update leafKey value m))
      | _ \<Rightarrow> (None, parent))"

fun set_path :: "string list \<Rightarrow> jval \<Rightarrow> jval \<Rightarrow> map_error option \<times> jval" where
  "set_path [] value parent = (None, parent)" \<comment> \<open>\<open>Split\<close> never gives an empty list\<close>
| "set_path [leafKey] value parent = set_leaf leafKey value parent"
| "set_path (curKey # nextKey # keys) value parent =
     (case parent of
        JMap pmap \<Rightarrow>
          (let child = (case map_of pmap curKey of None \<Rightarrow> fresh_container nextKey | Some c \<Rightarrow> c);
               (err, child') = set_path (nextKey # keys) value child
           in (err, JMap (AList.update curKey child' pmap)))
      | JArr parr \<Rightarrow>
          (case Atoi curKey of
             None \<Rightarrow> (Some AtoiError, parent)
           | Some parrIdx \<Rightarrow>
               if parrIdx < 0 \<or> parrIdx \<ge> int (length parr) then (Some OutOfRange, parent)
               else
                 (let child = (if parr ! nat parrIdx = JNil then fresh_container nextKey
                               else parr ! nat parrIdx);
                      (err, child') = set_path (nextKey # keys) value child
                  in (err, JArr (parr[nat parrIdx := child']))))
      | _ \<Rightarrow> set_path (nextKey # keys) value parent)"

definition SetValue :: "MapX \<Rightarrow> string \<Rightarrow> jval \<Rightarrow> map_error option \<times> MapX" where
  "SetValue e path value =
     (case e of
        None \<Rightarrow> (Some MapxIsNil, None)
      | Some m \<Rightarrow>
          (case set_path (Split path ''.'') value (JMap m) of
             (err, JMap m') \<Rightarrow> (err, Some m')
           | (err, _) \<Rightarrow> (err, Some m)))"

section \<open>Typed readers\<close>

definition GetString :: "MapX \<Rightarrow> string \<Rightarrow> string \<Rightarrow> string" where
  "GetString e path d =
     (case GetValue e path of None \<Rightarrow> d | Some (JStr s) \<Rightarrow> s | Some _ \<Rightarrow> d)"

definition GetInt :: "MapX \<Rightarrow> string \<Rightarrow> int64 \<Rightarrow> int64" where
  "GetInt e path d =
     (case GetValue e path of None \<Rightarrow> d | Some (JInt k i) \<Rightarrow> i | Some _ \<Rightarrow> 0)"

definition GetBool :: "MapX \<Rightarrow> string \<Rightarrow> bool \<Rightarrow> bool" where
  "GetBool e path d =
     (case GetValue e path of
        None \<Rightarrow> d
      | Some (JBool b) \<Rightarrow> b
      | Some _ \<Rightarrow> let defVal = (if d then 1 else 0) in 0 <s GetInt e path defVal)"

definition GetInt64 :: "MapX \<Rightarrow> string \<Rightarrow> int64 \<Rightarrow> int64" where
  "GetInt64 e path d = GetInt e path d"

definition GetInt32 :: "MapX \<Rightarrow> string \<Rightarrow> int32 \<Rightarrow> int32" where
  "GetInt32 e path d = scast (GetInt e path (scast d))"

section \<open>Platform\<close>

type_synonym Platform = "8 word"

definition platforms :: "Platform list" where
  "platforms = [1, 2, 3, 5, 4, 5, 6, 7, 8, 9]"

definition Platform_IsValid :: "Platform \<Rightarrow> bool" where
  "Platform_IsValid p \<longleftrightarrow> p \<in> set platforms"

definition Platform_String :: "Platform \<Rightarrow> string" where
  "Platform_String p =
     (if p = 1 then ''android'' else if p = 2 then ''androidpad'' else if p = 3 then ''iphone''
      else if p = 5 then ''ipad'' else if p = 4 then ''mac'' else if p = 6 then ''windows''
      else if p = 7 then ''linux'' else if p = 8 then ''web'' else if p = 9 then ''harmony''
      else ''unspecify'')"

text \<open>\<open>Platform(p)\<close> keeps the low 8 bits of the parsed int.\<close>

definition PlatformFromString :: "string \<Rightarrow> Platform" where
  "PlatformFromString pstr =
     (if length pstr = 0 then 0
      else case Atoi pstr of
        None \<Rightarrow> 0
      | Some p \<Rightarrow> let pla = word_of_int p in if Platform_IsValid pla then pla else 0)"

section \<open>Paths that can be written\<close>

text \<open>
  The paths along which every key fits its container: names on maps, numbers in range on slices, a
  missing entry standing for the container \<open>SetValue\<close> would create.
\<close>

fun path_fits :: "string list \<Rightarrow> jval \<Rightarrow> bool" where
  "path_fits [] v = False"
| "path_fits [key] (JMap m) \<longleftrightarrow> Atoi key = None"
| "path_fits [key] (JArr xs) \<longleftrightarrow> (case Atoi key of None \<Rightarrow> False | Some i \<Rightarrow> 0 \<le> i \<and> i < int (length xs))"
| "path_fits (key # nk # keys) (JMap m) \<longleftrightarrow>
     Atoi key = None \<and>
     path_fits (nk # keys) (case map_of m key of None \<Rightarrow> fresh_container nk | Some c \<Rightarrow> c)"
| "path_fits (key # nk # keys) (JArr xs) \<longleftrightarrow>
     (case Atoi key of None \<Rightarrow> False
      | Some i \<Rightarrow> 0 \<le> i \<and> i < int (length xs) \<and>
          path_fits (nk # keys) (if xs ! nat i = JNil then fresh_container nk else xs ! nat i))"
| "path_fits _ _ = False"

lemma get_path_other:
  "\<not> (\<exists>m. v = JMap m) \<Longrightarrow> \<not> (\<exists>xs. v = JArr xs) \<Longrightarrow> get_path (k # ks) v = None"
  by (cases v) (auto simp: get_step_def split: option.splits)

lemma set_path_other:
  "\<not> (\<exists>m. v = JMap m) \<Longrightarrow> \<not> (\<exists>xs. v = JArr xs) \<Longrightarrow> set_path ks x v = (None, v)"
  by (induction ks x v rule: set_path.induct) (auto simp: set_leaf_def split: jval.splits)

lemma path_fits_other:
  "\<not> (\<exists>m. v = JMap m) \<Longrightarrow> \<not> (\<exists>xs. v = JArr xs) \<Longrightarrow> \<not> path_fits ks v"
  by (induction ks v rule: path_fits.induct) auto

lemma get_path_map:
  "get_path (key # ks) (JMap (AList.update key c m)) = (if Atoi key = None then get_path ks c else None)"
  by (simp add: get_step_def update_conv split: option.splits)

lemma get_path_arr:
  "0 \<le> i \<Longrightarrow> i < int (length xs) \<Longrightarrow> Atoi key = Some i \<Longrightarrow>
   get_path (key # ks) (JArr (xs[nat i := c])) = get_path ks c"
  by (simp add: get_step_def)

lemma set_get_path:
  "ks \<noteq> [] \<Longrightarrow>
   get_path ks (snd (set_path ks x v)) = (if path_fits ks v then Some x else None)
   \<and> (path_fits ks v \<longrightarrow> fst (set_path ks x v) = None)"
proof (induction ks x v rule: set_path.induct)
  case (2 key x v)
  show ?case
    by (cases v) (auto simp: set_leaf_def get_step_def update_conv split: option.splits)
next
  case (3 key nk keys x v)
  let ?ks = "nk # keys"
  consider m where "v = JMap m" | xs where "v = JArr xs"
    | "\<not> (\<exists>m. v = JMap m)" "\<not> (\<exists>xs. v = JArr xs)" by blast
  then show ?case
  proof cases
    case m: 1
    let ?c = "case map_of m key of None \<Rightarrow> fresh_container nk | Some c \<Rightarrow> c"
    obtain err c where sp: "set_path ?ks x ?c = (err, c)" by fastforce
    have S: "set_path (key # ?ks) x v = (err, JMap (AList.update key c m))" using m sp by simp
    have P: "path_fits (key # ?ks) v \<longleftrightarrow> Atoi key = None \<and> path_fits ?ks ?c" using m by simp
    show ?thesis
      unfolding S P using 3(7) [OF m refl] sp by (simp only: fst_conv snd_conv get_path_map) auto
  next
    case m: 2
    show ?thesis
    proof (cases "Atoi key")
      case None
      then show ?thesis by (simp add: m get_step_def)
    next
      case (Some i)
      show ?thesis
      proof (cases "i < 0 \<or> i \<ge> int (length xs)")
        case True
        then show ?thesis by (auto simp: m Some get_step_def)
      next
        case False
        let ?c = "if xs ! nat i = JNil then fresh_container nk else xs ! nat i"
        obtain err c where sp: "set_path ?ks x ?c = (err, c)" by fastforce
        have S: "set_path (key # ?ks) x v = (err, JArr (xs[nat i := c]))" using m sp Some False by simp
        have P: "path_fits (key # ?ks) v \<longleftrightarrow> path_fits ?ks ?c" using m Some False by simp
        have G: "get_path (key # ?ks) (JArr (xs[nat i := c])) = get_path ?ks c"
          using False Some by (intro get_path_arr) auto
        show ?thesis
          unfolding S P using 3(6) [OF m Some False refl] sp G by (simp only: fst_conv snd_conv) auto
      qed
    qed
  next
    case n: 3
    show ?thesis
      by (simp add: set_path_other [OF n] path_fits_other [OF n] get_path_other [OF n]
            del: get_path.simps set_path.simps path_fits.simps)
  qed
qed simp

lemma set_path_map: "ks \<noteq> [] \<Longrightarrow> \<exists>m'. snd (set_path ks x (JMap m)) = JMap m' \<and> m' \<noteq> []
    \<and> (\<forall>k. k \<noteq> hd ks \<longrightarrow> map_of m' k = map_of m k)"
  by (cases "(ks, x, JMap m)" rule: set_path.cases)
    (auto simp: set_leaf_def Let_def update_conv update_nonempty split: prod.splits)

section \<open>Properties\<close>

text \<open>C17. Reading a path back after \<open>SetValue\<close>: the value just stored when every key of the path fits
  its container, and then no error is reported; otherwise nothing can be read at that path, whether
  \<open>SetValue\<close> reported an error or, as for a path that runs into a scalar, silently stored nothing.
  Paths that start at another top-level key read as before.\<close>

theorem mapx_set_get:
  fixes m path v q
  defines "r \<equiv> SetValue (Some m) path v"
  defines "fits \<equiv> path_fits (Split path ''.'') (JMap m)"
  shows "GetValue (snd r) path = (if fits then Some v else None)
    \<and> (fits \<longrightarrow> fst r = None)
    \<and> (hd (Split q ''.'') = hd (Split path ''.'') \<or> GetValue (snd r) q = GetValue (Some m) q)"
proof -
  let ?ks = "Split path ''.''"
  obtain m' where m': "snd (set_path ?ks v (JMap m)) = JMap m'" "m' \<noteq> []"
    "\<And>k. k \<noteq> hd ?ks \<Longrightarrow> map_of m' k = map_of m k"
    using set_path_map [of ?ks v m] by auto
  then have r: "r = (fst (set_path ?ks v (JMap m)), Some m')"
    by (auto simp: r_def SetValue_def split: prod.splits)
  have g: "GetValue (Some m') p = get_path (Split p ''.'') (JMap m')" for p
    using m'(2) by (simp add: GetValue_def MapX_IsEmpty_def MapX_Len_def MapX_elems_def)
  have other: "GetValue (Some m') q = GetValue (Some m) q" if "hd (Split q ''.'') \<noteq> hd ?ks"
  proof (cases "Split q ''.''")
    case (Cons k ks)
    with that have "k \<noteq> hd ?ks" by simp
    then show ?thesis
      using m'(3) [of k] Cons
      by (auto simp: g GetValue_def MapX_IsEmpty_def MapX_Len_def MapX_elems_def get_step_def
          split: option.splits)
  qed simp
  have "get_path ?ks (JMap m') = (if fits then Some v else None)
    \<and> (fits \<longrightarrow> fst (set_path ?ks v (JMap m)) = None)"
    using set_get_path [of ?ks v "JMap m"] by (simp add: m'(1) fits_def)
  with other show ?thesis by (auto simp: r g)
qed

lemma mapx_set_get_witness:
  "GetValue (snd (SetValue (Some []) ''a.b'' (JInt KInt 7))) ''a.b'' = Some (JInt KInt 7)
    \<and> fst (SetValue (Some []) ''a.b'' (JInt KInt 7)) = None"
proof -
  have "path_fits (Split ''a.b'' ''.'') (JMap [])" by code_simp
  with mapx_set_get [of "[]" "''a.b''" "JInt KInt 7" "''a.b''"] show ?thesis by simp
qed

text \<open>\<open>PlatformFromString\<close> looks at the low 8 bits of the number only: the decimal string of any
  64-bit \<open>n\<close> is accepted exactly when \<open>n\<close> modulo 256 is 1 to 9, and gives that platform.\<close>

theorem platform_from_string:
  assumes "int64_range n"
  shows "uint (PlatformFromString (Itoa n)) = (if 1 \<le> n mod 256 \<and> n mod 256 \<le> 9 then n mod 256 else 0)"
proof -
  have v: "Platform_IsValid p \<longleftrightarrow> 1 \<le> uint p \<and> uint p \<le> 9" for p
  proof -
    have "Platform_IsValid p \<longleftrightarrow> uint p \<in> uint ` set platforms"
      by (force simp: Platform_IsValid_def dest: word_uint_eq_iff [THEN iffD2])
    also have "uint ` set platforms = {1..9}" by (auto simp: platforms_def)
    finally show ?thesis by simp
  qed
  have u: "uint (word_of_int n :: 8 word) = n mod 256"
    by (simp add: unsigned_of_int take_bit_eq_mod)
  have "Itoa n \<noteq> []" using nat_digits_digits [of "nat n"] by (simp add: Itoa_def)
  then have "PlatformFromString (Itoa n)
      = (if Platform_IsValid (word_of_int n) then word_of_int n else 0)"
    by (simp add: PlatformFromString_def Atoi_Itoa [OF assms])
  then show ?thesis by (simp add: v u)
qed

lemma platform_from_string_witness:
  "uint (PlatformFromString ''257'') = 1"
proof -
  have "Itoa 257 = ''257''" by code_simp
  moreover have "int64_range 257" by (simp add: int64_range_def)
  ultimately show ?thesis using platform_from_string [of 257] by simp
qed

end
