(* ===== verification/Workflow.thy ===== *)
theory Workflow
  imports MapX
begin

text \<open>
  \<open>pkg/workflow\<close>: workflows of named tasks. A task is a function of its input; the registry maps names
  to tasks; the database is present through the errors of its calls and through the rows the code
  writes (the session and its task records); the context's cancellation is read where the code reads
  it. \<open>time.Now\<close> columns are left out.
\<close>

section \<open>Tasks\<close>

type_synonym task = "MapX \<Rightarrow> MapX \<times> string option"

text \<open>The task factory's map. \<open>NewTask\<close> panics on an unknown name.\<close>

type_synonym task_registry = "string \<Rightarrow> task option"

definition RegisterTask :: "task_registry \<Rightarrow> string \<Rightarrow> task \<Rightarrow> task_registry" where
  "RegisterTask tf taskName factory = tf(taskName \<mapsto> factory)"

definition NewTask :: "task_registry \<Rightarrow> string \<Rightarrow> task outcome" where
  "NewTask tf taskName =
     (case tf taskName of
        None \<Rightarrow> Panic (''task not found: '' @ taskName)
      | Some factory \<Rightarrow> Ret factory)"

text \<open>
  \<open>RetryableTask.Execute\<close>: \<open>run k\<close> is the outcome of the \<open>k\<close>-th execution of the wrapped task. The
  result carries the number of executions.
\<close>

fun retry_loop :: "(nat \<Rightarrow> MapX \<times> string option) \<Rightarrow> nat \<Rightarrow> nat \<Rightarrow> MapX \<times> string option \<Rightarrow> (MapX \<times> string option) \<times> nat" where
  "retry_loop run 0 k prev = (prev, k)"
| "retry_loop run (Suc n) k prev =
     (case run k of
        (output, None) \<Rightarrow> ((output, None), Suc k)
      | (output, Some err) \<Rightarrow> retry_loop run n (Suc k) (output, Some err))"

definition RetryableTask_Execute ::
    "int \<Rightarrow> (string \<Rightarrow> bool) \<Rightarrow> (nat \<Rightarrow> MapX \<times> string option) \<Rightarrow> (MapX \<times> string option) \<times> nat" where
  "RetryableTask_Execute MaxRetries Retryable run =
     (case run 0 of
        (output, Some err) \<Rightarrow>
          (if Retryable err then retry_loop run (nat MaxRetries) 1 (output, Some err)
           else ((output, Some err), 1))
      | (output, None) \<Rightarrow> ((output, None), 1))"

text \<open>
  \<open>ParallelTask.Execute\<close>: the tasks' outcomes in the order they finish. The channel is closed by a
  deferred call, after the loop that ranges over it, so the loop receives the outputs and then waits:
  \<open>None\<close> is a call that never returns.
\<close>

datatype recv = Value "string \<times> MapX" | ClosedChan | Blocks

fun chan_recv :: "(string \<times> MapX) list \<Rightarrow> bool \<Rightarrow> recv" where
  "chan_recv (x # buf) closed = Value x"
| "chan_recv [] closed = (if closed then ClosedChan else Blocks)"

definition merge_output :: "string \<times> MapX \<Rightarrow> (string \<times> jval) list \<Rightarrow> (string \<times> jval) list" where
  "merge_output t output =
     (if MapX_Len (snd t) = 0 then output
      else (let output' = fold (\<lambda>(k, v) m. AList.update k v m) (MapX_elems (snd t)) output
            in AList.update (fst t) (JMap output') output'))"

lemma chan_recv_Value: "chan_recv buf closed = Value t \<Longrightarrow> buf \<noteq> []"
  by (cases buf) (auto split: if_splits)

function range_loop :: "(string \<times> MapX) list \<Rightarrow> bool \<Rightarrow> (string \<times> jval) list \<Rightarrow> (string \<times> jval) list option" where
  "range_loop buf closed output =
     (case chan_recv buf closed of
        Blocks \<Rightarrow> None
      | ClosedChan \<Rightarrow> Some output
      | Value t \<Rightarrow> range_loop (tl buf) closed (merge_output t output))"
  by pat_completeness auto
termination
  by (relation "measure (\<lambda>(buf, _, _). length buf)") (auto dest: chan_recv_Value)

declare range_loop.simps [simp del]

definition ParallelTask_Execute ::
    "(string \<times> (MapX \<times> string option)) list \<Rightarrow> (MapX \<times> string option) option" where
  "ParallelTask_Execute finished =
     (let waitErr = find (\<lambda>(_, _, err). err \<noteq> None) finished;
          outputChan = map (\<lambda>(name, output, _). (name, output)) (filter (\<lambda>(_, _, err). err = None) finished)
      in case waitErr of
           Some (_, _, err) \<Rightarrow> Some (None, err)
         | None \<Rightarrow>
             (case range_loop outputChan False [] of
                None \<Rightarrow> None
              | Some output \<Rightarrow> Some (Some output, None)))"

section \<open>Ids carried by the context\<close>

text \<open>
  The three context keys are variables of the string type \<open>WorkflowKey\<close> that are never assigned; a
  context is the list of its key-value pairs, the innermost first.
\<close>

definition workflowIDKey :: string where "workflowIDKey = []"
definition workflowSessionIDKey :: string where "workflowSessionIDKey = []"
definition workflowSessionTaskIDKey :: string where "workflowSessionTaskIDKey = []"

type_synonym 'u ctx = "(string \<times> 'u) list"

definition WithValue :: "'u ctx \<Rightarrow> string \<Rightarrow> 'u \<Rightarrow> 'u ctx" where
  "WithValue ctx k v = (k, v) # ctx"

definition id_from_context :: "'u \<Rightarrow> string \<Rightarrow> 'u ctx \<Rightarrow> 'u" where
  "id_from_context ZeroUID key ctx = (case map_of ctx key of None \<Rightarrow> ZeroUID | Some i \<Rightarrow> i)"

definition WorkflowIDFromContext :: "'u \<Rightarrow> 'u ctx \<Rightarrow> 'u" where
  "WorkflowIDFromContext ZeroUID ctx = id_from_context ZeroUID workflowIDKey ctx"

definition WorkflowSessionIDFromContext :: "'u \<Rightarrow> 'u ctx \<Rightarrow> 'u" where
  "WorkflowSessionIDFromContext ZeroUID ctx = id_from_context ZeroUID workflowSessionIDKey ctx"

definition WorkflowSessionTaskIDFromContext :: "'u \<Rightarrow> 'u ctx \<Rightarrow> 'u" where
  "WorkflowSessionTaskIDFromContext ZeroUID ctx = id_from_context ZeroUID workflowSessionTaskIDKey ctx"

text \<open>The context a task runs in: \<open>run\<close> adds the first two ids, \<open>execute\<close> the third.\<close>

definition task_context :: "'u ctx \<Rightarrow> 'u \<Rightarrow> 'u \<Rightarrow> 'u \<Rightarrow> 'u ctx" where
  "task_context ctx flow session task =
     WithValue (WithValue (WithValue ctx workflowIDKey flow) workflowSessionIDKey session)
       workflowSessionTaskIDKey task"

section \<open>Running a workflow\<close>

datatype wf_status = WorkflowStatusRunning | WorkflowStatusSuccess | WorkflowStatusFail

record wf_task =
  wt_name :: string
  wt_input :: MapX
  wt_output :: MapX
  wt_status :: wf_status
  wt_text :: string

text \<open>\<open>Progress\<close> is the quotient of two ints; it is kept as the pair.\<close>

record wf_session =
  ws_task_names :: "string list"
  ws_current :: string
  ws_progress :: "nat \<times> nat"
  ws_input :: MapX
  ws_output :: MapX
  ws_status :: wf_status
  ws_text :: string

text \<open>The errors of the database calls and of \<open>ctx.Err()\<close> around one task.\<close>

record wf_env =
  we_cancel_before :: "string option"
  we_step :: "string option"
  we_cancel_step :: "string option"
  we_start :: "string option"
  we_cancel_start :: "string option"
  we_update :: "string option"

definition errors_join :: "string option \<Rightarrow> string option \<Rightarrow> string option" where
  "errors_join a b =
     (case a of
        None \<Rightarrow> b
      | Some x \<Rightarrow> (case b of None \<Rightarrow> a | Some y \<Rightarrow> Some (x @ [CHR 0x0A] @ y)))"

definition startSession :: "string list \<Rightarrow> MapX \<Rightarrow> string option \<Rightarrow> string + wf_session" where
  "startSession names input insertErr =
     (case insertErr of
        Some err \<Rightarrow> Inl err
      | None \<Rightarrow> Inr \<lparr>ws_task_names = names, ws_current = [], ws_progress = (0, 1), ws_input = input,
                   ws_output = None, ws_status = WorkflowStatusRunning, ws_text = ''running''\<rparr>)"

definition startTask :: "string \<Rightarrow> MapX \<Rightarrow> string option \<Rightarrow> string option \<times> wf_task option" where
  "startTask taskName input insertErr =
     (case insertErr of
        Some err \<Rightarrow> (Some err, None)
      | None \<Rightarrow> (None, Some \<lparr>wt_name = taskName, wt_input = input, wt_output = None,
                            wt_status = WorkflowStatusRunning, wt_text = ''running''\<rparr>))"

definition stepForword :: "wf_session \<Rightarrow> nat \<Rightarrow> string \<Rightarrow> wf_session" where
  "stepForword w index taskName =
     w\<lparr>ws_current := taskName, ws_progress := (index, length (ws_task_names w))\<rparr>"

text \<open>\<open>execute\<close>: the task's error goes to the record; the error returned is the update's.\<close>

definition execute :: "task_registry \<Rightarrow> string option \<Rightarrow> wf_task \<Rightarrow> (MapX \<times> string option \<times> wf_task) outcome" where
  "execute tf updateErr t =
     bind_outcome (NewTask tf (wt_name t)) (\<lambda>task.
       let (output, err) = task (wt_input t);
           t' = (case err of
                   Some e \<Rightarrow> t\<lparr>wt_status := WorkflowStatusFail, wt_text := e\<rparr>
                 | None \<Rightarrow> t\<lparr>wt_output := output, wt_status := WorkflowStatusSuccess, wt_text := ''success''\<rparr>)
       in Ret (output, updateErr, t'))"

definition finish :: "wf_session \<Rightarrow> MapX \<Rightarrow> string option \<Rightarrow> string option \<Rightarrow> string option \<times> wf_session" where
  "finish w output err updateErr =
     (let w' = (case err of
                  Some e \<Rightarrow> w\<lparr>ws_status := WorkflowStatusFail, ws_text := e\<rparr>
                | None \<Rightarrow> w\<lparr>ws_output := output, ws_status := WorkflowStatusSuccess, ws_text := ''success''\<rparr>)
      in (updateErr, w'))"

text \<open>How the loop of \<open>run\<close> ends: with an error or none, or by the panic of an unknown task.\<close>

datatype wf_stop = Stop "string option" | TaskPanic string

fun run_tasks ::
    "task_registry \<Rightarrow> (nat \<Rightarrow> wf_env) \<Rightarrow> nat \<Rightarrow> string list \<Rightarrow> MapX \<Rightarrow> wf_session \<Rightarrow> wf_task list
       \<Rightarrow> wf_stop \<times> MapX \<times> wf_session \<times> wf_task list" where
  "run_tasks tf env i [] cur w ts = (Stop None, cur, w, ts)"
| "run_tasks tf env i (name # names) cur w ts =
     (let e = env i in
      if we_cancel_before e \<noteq> None then (Stop (we_cancel_before e), cur, w, ts)
      else
        (let w1 = stepForword w i name;
             err = errors_join (we_step e) (we_cancel_step e) in
         if err \<noteq> None then (Stop err, cur, w1, ts)
         else
           (let (er, taskEntity) = startTask name cur (we_start e);
                ts1 = ts @ (case taskEntity of None \<Rightarrow> [] | Some t \<Rightarrow> [t]);
                err = errors_join er (we_cancel_start e) in
            if err \<noteq> None then (Stop err, cur, w1, ts1)
            else
              (case execute tf (we_update e) (the taskEntity) of
                 Panic m \<Rightarrow> (TaskPanic m, cur, w1, ts1)
               | Ret (cur', err, t') \<Rightarrow>
                   if err \<noteq> None then (Stop err, cur', w1, ts @ [t'])
                   else run_tasks tf env (Suc i) names cur' w1 (ts @ [t'])))))"

text \<open>The error \<open>run\<close> returns, with the session and the task records as they are left; \<open>Inl\<close> when no
  session could be made.\<close>

definition run_workflow ::
    "task_registry \<Rightarrow> string list \<Rightarrow> string option \<Rightarrow> (nat \<Rightarrow> wf_env) \<Rightarrow> string option \<Rightarrow> MapX
       \<Rightarrow> string + (string option outcome \<times> wf_session \<times> wf_task list)" where
  "run_workflow tf names insertErr env finishErr input =
     (case startSession names input insertErr of
        Inl err \<Rightarrow> Inl err
      | Inr session \<Rightarrow>
          (case run_tasks tf env 0 names input session [] of
             (TaskPanic m, cur, w, ts) \<Rightarrow> Inr (Panic m, w, ts)
           | (Stop err, cur, w, ts) \<Rightarrow>
               (let (ret, w') = finish w cur err finishErr in Inr (Ret ret, w', ts))))"

section \<open>Lemmas\<close>

lemma range_loop_blocks: "range_loop buf False outp = None"
proof (induction buf arbitrary: outp)
  case Nil
  then show ?case by (subst range_loop.simps) simp
next
  case (Cons t buf)
  then show ?case by (subst range_loop.simps) simp
qed

lemma retry_loop_result:
  "retry_loop run n k prev = (r, m) \<Longrightarrow>
     k \<le> m \<and> m \<le> k + n \<and> (m = k \<longrightarrow> r = prev \<and> n = 0) \<and> (k < m \<longrightarrow> r = run (m - 1))
     \<and> (\<forall>i. k \<le> i \<and> i < m - 1 \<longrightarrow> snd (run i) \<noteq> None) \<and> (m < k + n \<longrightarrow> snd r = None)"
proof (induction n arbitrary: k prev)
  case (Suc n)
  show ?case
  proof (cases "run k")
    case (Pair outp err)
    show ?thesis
    proof (cases err)
      case (Some e)
      have "retry_loop run n (Suc k) (outp, Some e) = (r, m)" using Suc.prems Pair Some by simp
      from Suc.IH [OF this] show ?thesis using Pair Some
        by (cases "m = Suc k") (auto simp: le_Suc_eq Suc_le_eq dest: le_neq_implies_less)
    next
      case None
      then have "r = run k" "m = Suc k" using Suc.prems Pair by simp_all
      then show ?thesis using Pair None by auto
    qed
  qed
qed auto

text \<open>The data that flows from task to task, whatever the tasks' errors.\<close>

definition flow :: "task_registry \<Rightarrow> string list \<Rightarrow> MapX \<Rightarrow> MapX" where
  "flow tf names input = fold (\<lambda>name d. fst ((the (tf name)) d)) names input"

definition no_trouble :: "(nat \<Rightarrow> wf_env) \<Rightarrow> bool" where
  "no_trouble env \<longleftrightarrow> (\<forall>i. env i = \<lparr>we_cancel_before = None, we_step = None, we_cancel_step = None,
     we_start = None, we_cancel_start = None, we_update = None\<rparr>)"

lemma run_tasks_no_trouble:
  assumes "no_trouble env" "\<forall>name\<in>set names. tf name \<noteq> None"
  shows "\<exists>w' ts'. run_tasks tf env i names cur w ts = (Stop None, flow tf names cur, w', ts @ ts')
    \<and> map wt_name ts' = names \<and> ws_status w' = ws_status w
    \<and> (\<forall>t\<in>set ts'. wt_status t \<noteq> WorkflowStatusRunning
          \<and> (wt_status t = WorkflowStatusFail \<longleftrightarrow> snd ((the (tf (wt_name t))) (wt_input t)) \<noteq> None))"
  using assms(2)
proof (induction names arbitrary: i cur w ts)
  case Nil
  then show ?case by (simp add: flow_def)
next
  case (Cons name names)
  let ?e = "env i"
  have e: "we_cancel_before ?e = None" "we_step ?e = None" "we_cancel_step ?e = None"
    "we_start ?e = None" "we_cancel_start ?e = None" "we_update ?e = None"
    using assms(1) by (simp_all add: no_trouble_def)
  obtain task where t: "tf name = Some task" using Cons.prems by auto
  obtain outp err where o: "task cur = (outp, err)" by fastforce
  let ?t = "\<lparr>wt_name = name, wt_input = cur, wt_output = None, wt_status = WorkflowStatusRunning,
    wt_text = ''running''\<rparr>"
  let ?t' = "case err of Some e \<Rightarrow> ?t\<lparr>wt_status := WorkflowStatusFail, wt_text := e\<rparr>
    | None \<Rightarrow> ?t\<lparr>wt_output := outp, wt_status := WorkflowStatusSuccess, wt_text := ''success''\<rparr>"
  have s: "run_tasks tf env i (name # names) cur w ts
      = run_tasks tf env (Suc i) names outp (stepForword w i name) (ts @ [?t'])"
    by (simp add: e errors_join_def startTask_def execute_def NewTask_def t o Let_def split: option.split)
  have "\<forall>name\<in>set names. tf name \<noteq> None" using Cons.prems by simp
  from Cons.IH [OF this, of "Suc i" outp "stepForword w i name" "ts @ [?t']"]
  obtain w' ts' where r: "run_tasks tf env (Suc i) names outp (stepForword w i name) (ts @ [?t'])
        = (Stop None, flow tf names outp, w', (ts @ [?t']) @ ts')"
      "map wt_name ts' = names" "ws_status w' = ws_status (stepForword w i name)"
      "\<forall>t\<in>set ts'. wt_status t \<noteq> WorkflowStatusRunning
          \<and> (wt_status t = WorkflowStatusFail \<longleftrightarrow> snd ((the (tf (wt_name t))) (wt_input t)) \<noteq> None)"
    by blast
  have f: "flow tf (name # names) cur = flow tf names outp" by (simp add: flow_def t o)
  have st: "ws_status (stepForword w i name) = ws_status w" by (simp add: stepForword_def)
  have t': "wt_name ?t' = name" "wt_status ?t' \<noteq> WorkflowStatusRunning"
    "wt_status ?t' = WorkflowStatusFail \<longleftrightarrow> snd ((the (tf (wt_name ?t'))) (wt_input ?t')) \<noteq> None"
    by (simp_all add: t o split: option.splits)
  show ?case
    unfolding s r(1) f
    using r(2-4) t' st by (intro exI [of _ w'] exI [of _ "?t' # ts'"]) auto
qed

section \<open>Properties\<close>

text \<open>A workflow whose tasks fail is reported as a success: when the database works, nothing is
  cancelled and every task is registered, \<open>run\<close> returns nil and the session ends as success with the
  last task's output, each task having been given the previous one's output, whatever errors the tasks
  returned; only the task records tell which failed.\<close>

theorem workflow_hides_task_errors:
  assumes "no_trouble env" "\<forall>name\<in>set names. tf name \<noteq> None"
  shows "\<exists>w ts. run_workflow tf names None env None input = Inr (Ret None, w, ts)
    \<and> ws_status w = WorkflowStatusSuccess \<and> ws_output w = flow tf names input
    \<and> map wt_name ts = names
    \<and> (\<forall>t\<in>set ts. wt_status t = (if snd ((the (tf (wt_name t))) (wt_input t)) = None
                             then WorkflowStatusSuccess else WorkflowStatusFail))"
proof -
  let ?w = "\<lparr>ws_task_names = names, ws_current = [], ws_progress = (0, 1), ws_input = input,
    ws_output = None, ws_status = WorkflowStatusRunning, ws_text = ''running''\<rparr>"
  obtain w ts where r: "run_tasks tf env 0 names input ?w [] = (Stop None, flow tf names input, w, ts)"
      "map wt_name ts = names"
      "\<forall>t\<in>set ts. wt_status t \<noteq> WorkflowStatusRunning
          \<and> (wt_status t = WorkflowStatusFail \<longleftrightarrow> snd ((the (tf (wt_name t))) (wt_input t)) \<noteq> None)"
    using run_tasks_no_trouble [OF assms, of 0 input ?w "[]"] by auto
  have st: "wt_status t = (if snd ((the (tf (wt_name t))) (wt_input t)) = None
      then WorkflowStatusSuccess else WorkflowStatusFail)" if "t \<in> set ts" for t
    using r(3) that by (cases "wt_status t") force+
  show ?thesis
    using r(1,2) st
    by (simp add: run_workflow_def startSession_def finish_def)
qed

definition failing_task :: task where
  "failing_task d = (None, Some ''boom'')"

definition quiet_env :: wf_env where
  "quiet_env = \<lparr>we_cancel_before = None, we_step = None, we_cancel_step = None, we_start = None,
     we_cancel_start = None, we_update = None\<rparr>"

lemma workflow_hides_task_errors_witness:
  "\<exists>w ts. run_workflow [''a'' \<mapsto> failing_task] [''a''] None (\<lambda>_. quiet_env) None (Some []) = Inr (Ret None, w, ts)
    \<and> ws_status w = WorkflowStatusSuccess"
  using workflow_hides_task_errors [of "\<lambda>_. quiet_env" "[''a'']" "[''a'' \<mapsto> failing_task]" "Some []"]
  by (auto simp: no_trouble_def quiet_env_def)

text \<open>C38. \<open>ParallelTask\<close> returns only when one of its tasks fails: then it returns no output and the
  error of the first task to fail; when all of them succeed it never returns, because the loop that
  collects the outputs ranges over a channel that is closed after the loop.\<close>

theorem parallel_task_returns_iff_failure:
  "ParallelTask_Execute finished
     = (case find (\<lambda>(_, _, err). err \<noteq> None) finished of
          None \<Rightarrow> None
        | Some (_, _, err) \<Rightarrow> Some (None, err))"
  by (auto simp: ParallelTask_Execute_def range_loop_blocks split: option.splits)

text \<open>\<open>RetryableTask\<close> executes its task at least once and at most \<open>MaxRetries\<close> times more, returns
  the outcome of the last execution, executes again only after an error, stops at the first success,
  and gives up early on an error only when the first error is not retryable.\<close>

theorem retryable_task_bound:
  assumes "RetryableTask_Execute MaxRetries Retryable run = (r, n)"
  shows "1 \<le> n \<and> n \<le> 1 + nat MaxRetries \<and> r = run (n - 1)
    \<and> (\<forall>i<n - 1. snd (run i) \<noteq> None)
    \<and> (n < 1 + nat MaxRetries \<longrightarrow> snd r = None \<or> \<not> Retryable (the (snd (run 0))))"
proof (cases "run 0")
  case (Pair outp err)
  show ?thesis
  proof (cases "\<exists>e. err = Some e \<and> Retryable e")
    case True
    then obtain e where e: "err = Some e" "Retryable e" by blast
    then have "retry_loop run (nat MaxRetries) 1 (outp, Some e) = (r, n)"
      using assms Pair by (simp add: RetryableTask_Execute_def)
    note R = retry_loop_result [OF this]
    have "snd (run i) \<noteq> None" if "i < n - 1" for i
      using R that Pair e by (cases "i = 0") auto
    moreover have "r = run (n - 1)" using R Pair e by (cases "n = 1") auto
    ultimately show ?thesis using R by auto
  next
    case False
    then have rn: "r = (outp, err)" "n = 1"
      using assms Pair by (cases err; simp add: RetryableTask_Execute_def)+
    show ?thesis using False Pair by (cases err) (simp_all add: rn)
  qed
qed

lemma retryable_task_bound_witness:
  "snd (RetryableTask_Execute 3 (\<lambda>_. True) (\<lambda>_. (None, Some ''boom''))) \<le> 4"
proof -
  obtain r n where "RetryableTask_Execute 3 (\<lambda>_. True) (\<lambda>_. (None, Some ''boom'')) = (r, n)" by fastforce
  from retryable_task_bound [OF this] this show ?thesis by simp
qed

text \<open>Inside a task the three id lookups all give the id of the task record: the keys they use are
  the same empty string, so the innermost value hides the workflow's and the session's ids.\<close>

theorem context_ids_collide:
  "WorkflowIDFromContext z (task_context ctx flow session task) = task
    \<and> WorkflowSessionIDFromContext z (task_context ctx flow session task) = task
    \<and> WorkflowSessionTaskIDFromContext z (task_context ctx flow session task) = task"
  by (simp add: WorkflowIDFromContext_def WorkflowSessionIDFromContext_def
      WorkflowSessionTaskIDFromContext_def id_from_context_def task_context_def WithValue_def
      workflowIDKey_def workflowSessionIDKey_def workflowSessionTaskIDKey_def)

end
