(* ===== verification/Hub.thy ===== *)
theory Hub
  imports MapX
begin

text \<open>
  \<open>pkg/hub\<close>: the registry of websocket connections (\<open>hub.go\<close>, \<open>user_lines.go\<close>) and the life of one
  connection (\<open>line.go\<close>). Lines and \<open>UserLines\<close> are shared through pointers, so both live in heaps of
  the hub's state. A write channel is the queue of the messages sent on it; the close channel is
  unbuffered, a send completes when the line's goroutine receives, and the model counts the commands
  sent. Each iteration of the two registration goroutines is one operation; the order in which the two
  take their turns is free. \<open>'d\<close> is the byte of a message.
\<close>

section \<open>State\<close>

record 'd line =
  ln_id :: string
  ln_userId :: string
  ln_platform :: Platform
  ln_lastActive :: int64
  ln_closeChan :: bool \<comment> \<open>\<open>closeChan\<close> is not nil\<close>
  ln_writeChan :: "'d list list option"
  ln_isClosed :: bool
  ln_cmds :: nat \<comment> \<open>close commands sent to the line\<close>

record user_lines =
  ul_lines :: "nat list"
  ul_count :: int

record 'd hub =
  hb_conns :: "string \<Rightarrow> nat option"
  hb_uls :: "nat \<Rightarrow> user_lines"
  hb_next :: nat
  hb_lines :: "nat \<Rightarrow> 'd line"
  hb_connCount :: int
  hb_connMaxIdleSeconds :: int64
  hb_registered :: "nat list" \<comment> \<open>sent on \<open>registeredChan\<close>\<close>
  hb_unregistered :: "nat list"
  hb_unreg_queue :: "nat list" \<comment> \<open>sent on \<open>unregisteredChanInternal\<close>\<close>
  hb_errors :: "(nat \<times> string) list"
  hb_isClosed :: bool

definition set_line :: "nat \<Rightarrow> 'd line \<Rightarrow> 'd hub \<Rightarrow> 'd hub" where
  "set_line a l h = h\<lparr>hb_lines := (hb_lines h)(a := l)\<rparr>"

definition set_ul :: "nat \<Rightarrow> user_lines \<Rightarrow> 'd hub \<Rightarrow> 'd hub" where
  "set_ul p u h = h\<lparr>hb_uls := (hb_uls h)(p := u)\<rparr>"

section \<open>UserLines\<close>

definition UserLines_Len :: "nat \<Rightarrow> 'd hub \<Rightarrow> int" where
  "UserLines_Len p h = ul_count (hb_uls h p)"

definition UserLines_add :: "nat \<Rightarrow> nat \<Rightarrow> 'd hub \<Rightarrow> 'd hub" where
  "UserLines_add p a h =
     (let u = hb_uls h p in set_ul p (u\<lparr>ul_lines := ul_lines u @ [a], ul_count := ul_count u + 1\<rparr>) h)"

definition UserLines_remove :: "nat \<Rightarrow> string \<Rightarrow> 'd hub \<Rightarrow> 'd hub" where
  "UserLines_remove p lineId h =
     (let u = hb_uls h p in
      set_ul p (u\<lparr>ul_lines := filter (\<lambda>v. ln_id (hb_lines h v) \<noteq> lineId) (ul_lines u),
                  ul_count := ul_count u - 1\<rparr>) h)"

definition UserLines_Get :: "nat \<Rightarrow> string \<Rightarrow> 'd hub \<Rightarrow> nat option" where
  "UserLines_Get p lineId h = find (\<lambda>v. ln_id (hb_lines h v) = lineId) (ul_lines (hb_uls h p))"

definition UserLines_GetPlatformLines :: "nat \<Rightarrow> Platform list \<Rightarrow> 'd hub \<Rightarrow> nat list" where
  "UserLines_GetPlatformLines p ps h =
     (if ps = [] then []
      else filter (\<lambda>v. ln_platform (hb_lines h v) \<in> set ps) (ul_lines (hb_uls h p)))"

text \<open>The loops that send the close command, and those that send a message, differ in the lines they
  select.\<close>

definition send_close :: "nat \<Rightarrow> 'd hub \<Rightarrow> 'd hub" where
  "send_close a h = set_line a ((hb_lines h a)\<lparr>ln_cmds := Suc (ln_cmds (hb_lines h a))\<rparr>) h"

fun close_loop :: "('d line \<Rightarrow> bool) \<Rightarrow> nat list \<Rightarrow> 'd hub \<Rightarrow> 'd hub" where
  "close_loop P [] h = h"
| "close_loop P (a # as) h =
     (let line = hb_lines h a in
      if ln_isClosed line \<or> \<not> ln_closeChan line then close_loop P as h
      else if P line then close_loop P as (send_close a h)
      else close_loop P as h)"

definition ClosePlatforms :: "Platform list \<Rightarrow> nat \<Rightarrow> 'd hub \<Rightarrow> 'd hub" where
  "ClosePlatforms ps p h =
     (if ps = [] then h
      else close_loop (\<lambda>l. ln_platform l \<in> set ps) (ul_lines (hb_uls h p)) h)"

definition ClosePlatformsExcept :: "Platform list \<Rightarrow> nat \<Rightarrow> 'd hub \<Rightarrow> 'd hub" where
  "ClosePlatformsExcept exceptPlatforms p h =
     (if exceptPlatforms = [] then h
      else close_loop (\<lambda>l. ln_platform l \<notin> set exceptPlatforms) (ul_lines (hb_uls h p)) h)"

definition CloseLines :: "string list \<Rightarrow> nat \<Rightarrow> 'd hub \<Rightarrow> 'd hub" where
  "CloseLines lineIds p h =
     (if lineIds = [] then h
      else close_loop (\<lambda>l. ln_id l \<in> set lineIds) (ul_lines (hb_uls h p)) h)"

definition CloseLinesExcept :: "string list \<Rightarrow> nat \<Rightarrow> 'd hub \<Rightarrow> 'd hub" where
  "CloseLinesExcept exceptLineIds p h =
     (if exceptLineIds = [] then h
      else close_loop (\<lambda>l. ln_id l \<notin> set exceptLineIds) (ul_lines (hb_uls h p)) h)"

text \<open>\<open>now\<close> is \<open>time.Now().Unix()\<close>.\<close>

definition closeInactiveLines :: "int64 \<Rightarrow> int64 \<Rightarrow> nat \<Rightarrow> 'd hub \<Rightarrow> 'd hub" where
  "closeInactiveLines now maxIdleSeconds p h =
     (if maxIdleSeconds \<le>s 0 then h
      else close_loop (\<lambda>l. maxIdleSeconds <s now - ln_lastActive l) (ul_lines (hb_uls h p)) h)"

definition CloseAll :: "nat \<Rightarrow> 'd hub \<Rightarrow> 'd hub" where
  "CloseAll p h = close_loop (\<lambda>_. True) (ul_lines (hb_uls h p)) h"

definition send_data :: "'d list \<Rightarrow> nat \<Rightarrow> 'd hub \<Rightarrow> 'd hub" where
  "send_data data a h =
     set_line a ((hb_lines h a)\<lparr>ln_writeChan := map_option (\<lambda>q. q @ [data]) (ln_writeChan (hb_lines h a))\<rparr>) h"

fun push_loop :: "('d line \<Rightarrow> bool) \<Rightarrow> 'd list \<Rightarrow> nat list \<Rightarrow> 'd hub \<Rightarrow> 'd hub" where
  "push_loop P data [] h = h"
| "push_loop P data (a # as) h =
     (let line = hb_lines h a in
      if ln_isClosed line \<or> hb_isClosed h \<or> ln_writeChan line = None then push_loop P data as h
      else if P line then push_loop P data as (send_data data a h)
      else push_loop P data as h)"

definition UserLines_PushMessage :: "'d list \<Rightarrow> nat \<Rightarrow> 'd hub \<Rightarrow> 'd hub" where
  "UserLines_PushMessage data p h =
     (if data = [] then h else push_loop (\<lambda>_. True) data (ul_lines (hb_uls h p)) h)"

definition PushMessageExceptPlatforms :: "'d list \<Rightarrow> Platform list \<Rightarrow> nat \<Rightarrow> 'd hub \<Rightarrow> 'd hub" where
  "PushMessageExceptPlatforms data exceptPlatforms p h =
     (if exceptPlatforms = [] \<or> data = [] then h
      else push_loop (\<lambda>l. \<not> ln_platform l \<in> set exceptPlatforms) data (ul_lines (hb_uls h p)) h)"

definition PushMessageExceptLines :: "'d list \<Rightarrow> string list \<Rightarrow> nat \<Rightarrow> 'd hub \<Rightarrow> 'd hub" where
  "PushMessageExceptLines data exceptLineIds p h =
     (if exceptLineIds = [] \<or> data = [] then h
      else push_loop (\<lambda>l. \<not> ln_id l \<in> set exceptLineIds) data (ul_lines (hb_uls h p)) h)"

definition PushMessageToPlatforms :: "'d list \<Rightarrow> Platform list \<Rightarrow> nat \<Rightarrow> 'd hub \<Rightarrow> 'd hub" where
  "PushMessageToPlatforms data ps p h =
     (if ps = [] \<or> data = [] then h
      else push_loop (\<lambda>l. ln_platform l \<in> set ps) data (ul_lines (hb_uls h p)) h)"

definition PushMessageToLines :: "'d list \<Rightarrow> string list \<Rightarrow> nat \<Rightarrow> 'd hub \<Rightarrow> 'd hub" where
  "PushMessageToLines data lineIds p h =
     (if lineIds = [] \<or> data = [] then h
      else push_loop (\<lambda>l. ln_id l \<in> set lineIds) data (ul_lines (hb_uls h p)) h)"

section \<open>Hub\<close>

text \<open>\<open>connMaxIdleTime\<close> is a \<open>Duration\<close>, a number of nanoseconds.\<close>

definition NewHub :: "bool \<Rightarrow> int64 \<Rightarrow> string option \<Rightarrow> string + 'd hub" where
  "NewHub pool connMaxIdleTime submitErr =
     (if \<not> pool then Inl ''pool must not nil''
      else case submitErr of
          Some err \<Rightarrow> Inl err
        | None \<Rightarrow> Inr \<lparr>hb_conns = (\<lambda>_. None), hb_uls = (\<lambda>_. \<lparr>ul_lines = [], ul_count = 0\<rparr>), hb_next = 0,
            hb_lines = (\<lambda>_. \<lparr>ln_id = [], ln_userId = [], ln_platform = 0, ln_lastActive = 0,
               ln_closeChan = False, ln_writeChan = None, ln_isClosed = False, ln_cmds = 0\<rparr>),
            hb_connCount = 0, hb_connMaxIdleSeconds = connMaxIdleTime, hb_registered = [],
            hb_unregistered = [], hb_unreg_queue = [], hb_errors = [], hb_isClosed = False\<rparr>)"

text \<open>\<open>LoadOrStore\<close> with a new empty \<open>UserLines\<close>.\<close>

definition load_or_store :: "string \<Rightarrow> 'd hub \<Rightarrow> nat \<times> 'd hub" where
  "load_or_store userId h =
     (case hb_conns h userId of
        Some p \<Rightarrow> (p, h)
      | None \<Rightarrow>
          (let p = hb_next h in
           (p, h\<lparr>hb_uls := (hb_uls h)(p := \<lparr>ul_lines = [], ul_count = 0\<rparr>), hb_next := Suc p,
                hb_conns := (hb_conns h)(userId \<mapsto> p)\<rparr>)))"

text \<open>One iteration of the goroutine that adds new connections.\<close>

definition hub_register :: "nat \<Rightarrow> 'd hub \<Rightarrow> 'd hub" where
  "hub_register a h =
     (let h = set_line a ((hb_lines h a)\<lparr>ln_closeChan := True, ln_writeChan := Some []\<rparr>) h;
          (p, h) = load_or_store (ln_userId (hb_lines h a)) h;
          h = UserLines_add p a h;
          h = h\<lparr>hb_connCount := hb_connCount h + 1\<rparr>
      in h\<lparr>hb_registered := hb_registered h @ [a]\<rparr>)"

definition closeLineChans :: "nat \<Rightarrow> 'd hub \<Rightarrow> 'd hub" where
  "closeLineChans a h = set_line a ((hb_lines h a)\<lparr>ln_closeChan := False, ln_writeChan := None\<rparr>) h"

text \<open>One iteration of the goroutine that removes connections.\<close>

definition hub_unregister :: "nat \<Rightarrow> 'd hub \<Rightarrow> 'd hub" where
  "hub_unregister a h =
     (let ln = hb_lines h a in
      case hb_conns h (ln_userId ln) of
        None \<Rightarrow> h
      | Some p \<Rightarrow>
          (let h = UserLines_remove p (ln_id ln) h;
               h = h\<lparr>hb_connCount := hb_connCount h - 1\<rparr>;
               h = closeLineChans a h;
               h = (if UserLines_Len p h = 0 then h\<lparr>hb_conns := (hb_conns h)(ln_userId ln := None)\<rparr> else h)
           in h\<lparr>hb_unregistered := hb_unregistered h @ [a]\<rparr>))"

text \<open>One tick of the liveness check; \<open>users\<close> lists the keys in the order \<open>Range\<close> visits them.\<close>

definition live_check :: "int64 \<Rightarrow> string list \<Rightarrow> 'd hub \<Rightarrow> 'd hub" where
  "live_check now users h =
     (let (delArr, h) = fold (\<lambda>key (delArr, h).
            case hb_conns h key of
              None \<Rightarrow> (delArr, h)
            | Some p \<Rightarrow>
                (let h' = closeInactiveLines now (hb_connMaxIdleSeconds h) p h
                 in (if UserLines_Len p h' = 0 then delArr @ [key] else delArr, h'))) users ([], h)
      in h\<lparr>hb_conns := fold (\<lambda>v m. m(v := None)) delArr (hb_conns h)\<rparr>)"

definition LiveCount :: "'d hub \<Rightarrow> int" where
  "LiveCount h = hb_connCount h"

definition GetUserLines :: "string \<Rightarrow> 'd hub \<Rightarrow> nat option" where
  "GetUserLines userId h = hb_conns h userId"

definition GetUserLine :: "string \<Rightarrow> string \<Rightarrow> 'd hub \<Rightarrow> nat option" where
  "GetUserLine userId lineId h =
     (case hb_conns h userId of None \<Rightarrow> None | Some p \<Rightarrow> UserLines_Get p lineId h)"

definition CloseUserLines :: "string list \<Rightarrow> 'd hub \<Rightarrow> 'd hub" where
  "CloseUserLines userIds h =
     (if userIds = [] then h
      else fold (\<lambda>userId h. if userId = [] then h
                   else case hb_conns h userId of None \<Rightarrow> h | Some p \<Rightarrow> CloseAll p h) userIds h)"

definition Hub_PushMessage :: "string list \<Rightarrow> 'd list \<Rightarrow> 'd hub \<Rightarrow> 'd hub" where
  "Hub_PushMessage userIds data h =
     (if userIds = [] \<or> data = [] then h
      else fold (\<lambda>userId h. case hb_conns h userId of None \<Rightarrow> h | Some p \<Rightarrow> UserLines_PushMessage data p h)
             userIds h)"

definition PushToUserLines :: "string \<Rightarrow> 'd list \<Rightarrow> string list \<Rightarrow> 'd hub \<Rightarrow> string option \<times> 'd hub" where
  "PushToUserLines userId data lineIds h =
     (case GetUserLines userId h of
        None \<Rightarrow> (Some ''userlines empty'', h)
      | Some p \<Rightarrow> (None, PushMessageToLines data lineIds p h))"

definition BroadcastMessage :: "'d list \<Rightarrow> string list \<Rightarrow> 'd hub \<Rightarrow> 'd hub" where
  "BroadcastMessage data users h =
     (if data = [] then h
      else fold (\<lambda>key h. case hb_conns h key of None \<Rightarrow> h | Some p \<Rightarrow> UserLines_PushMessage data p h) users h)"

text \<open>\<open>Close\<close>: \<open>v.lines = v.lines[:]\<close> keeps the lines.\<close>

definition Hub_Close :: "string list \<Rightarrow> 'd hub \<Rightarrow> 'd hub" where
  "Hub_Close users h =
     (if hb_isClosed h then h
      else
        (let h = h\<lparr>hb_isClosed := True\<rparr>;
             uls = List.map_filter (hb_conns h) users;
             h = h\<lparr>hb_conns := (\<lambda>_. None)\<rparr>
         in fold (\<lambda>p h. let h' = fold closeLineChans (ul_lines (hb_uls h p)) h
                        in set_ul p ((hb_uls h' p)\<lparr>ul_count := 0\<rparr>) h') uls h))"

section \<open>Lines\<close>

definition Line_close :: "string option \<Rightarrow> nat \<Rightarrow> 'd hub \<Rightarrow> 'd hub" where
  "Line_close err a h =
     (if ln_isClosed (hb_lines h a) then h
      else
        (let h = set_line a ((hb_lines h a)\<lparr>ln_isClosed := True\<rparr>) h;
             h = (case err of None \<Rightarrow> h
                  | Some e \<Rightarrow> if \<not> hb_isClosed h then h\<lparr>hb_errors := hb_errors h @ [(a, e)]\<rparr> else h)
         in if \<not> hb_isClosed h then h\<lparr>hb_unreg_queue := hb_unreg_queue h @ [a]\<rparr> else h))"

datatype msg_type = CloseMessage | TextMessage | BinaryMessage | OtherMessage

text \<open>What one turn of the reading goroutine meets.\<close>

record 'd read_env =
  re_close_ready :: bool \<comment> \<open>a close command is waiting\<close>
  re_deadline :: "string option"
  re_next :: "string + msg_type"
  re_closed2 :: bool \<comment> \<open>the hub was closed while the message was read\<close>
  re_copy :: "string + 'd list"
  re_closed3 :: bool
  re_now :: int64

text \<open>The turn's result: whether the goroutine goes on, a message for the hub, and the hub.\<close>

definition read_turn :: "'d read_env \<Rightarrow> nat \<Rightarrow> 'd hub \<Rightarrow> bool \<times> 'd list option \<times> 'd hub" where
  "read_turn e a h =
     (if ln_isClosed (hb_lines h a) then (False, None, h)
      else if hb_isClosed h then (False, None, h)
      else if re_close_ready e \<and> ln_closeChan (hb_lines h a) then (False, None, h)
      else case re_deadline e of
          Some err \<Rightarrow> (False, None, Line_close (Some err) a h)
        | None \<Rightarrow>
            (case re_next e of
               Inl err \<Rightarrow> (False, None, Line_close (Some err) a h)
             | Inr CloseMessage \<Rightarrow> (False, None, Line_close None a h)
             | Inr TextMessage \<Rightarrow> (False, None, Line_close None a h)
             | Inr _ \<Rightarrow>
                 if re_closed2 e then (False, None, h)
                 else case re_copy e of
                     Inl err \<Rightarrow> (False, None, Line_close (Some err) a h)
                   | Inr data \<Rightarrow>
                       (let h = set_line a ((hb_lines h a)\<lparr>ln_lastActive := re_now e\<rparr>) h in
                        if re_closed3 e then (False, None, h)
                        else (True, Some data, h))))"

text \<open>
  One turn of the writing goroutine: which channel is ready, and the errors of the connection. The
  result: whether it goes on, the message written, and the hub.
\<close>

datatype write_ready = WriteReady | CloseReady | NothingReady

definition write_turn ::
    "write_ready \<Rightarrow> string option \<Rightarrow> string option \<Rightarrow> nat \<Rightarrow> 'd hub \<Rightarrow> bool \<times> 'd list option \<times> 'd hub" where
  "write_turn ready deadlineErr writeErr a h =
     (let line = hb_lines h a in
      if ln_isClosed line then (False, None, h)
      else if hb_isClosed h then (False, None, h)
      else case ready of
          WriteReady \<Rightarrow>
            (case ln_writeChan line of
               Some (msg # q) \<Rightarrow>
                 (let h = set_line a (line\<lparr>ln_writeChan := Some q\<rparr>) h in
                  if deadlineErr \<noteq> None then (False, None, Line_close deadlineErr a h)
                  else if writeErr \<noteq> None then (False, None, Line_close writeErr a h)
                  else (True, Some msg, h))
             | _ \<Rightarrow> (True, None, h))
        | CloseReady \<Rightarrow> if ln_closeChan line then (False, None, Line_close None a h) else (True, None, h)
        | NothingReady \<Rightarrow> (True, None, h))"

text \<open>
  \<open>start\<close>: the errors of handing the two goroutines to the pool, and whether the hub was closed by the
  time the line is announced. The result: the error, and whether the line was sent on
  \<open>registeredChanInternal\<close>.
\<close>

definition Line_start :: "string option \<Rightarrow> string option \<Rightarrow> bool \<Rightarrow> 'd hub \<Rightarrow> string option \<times> bool" where
  "Line_start submitRead submitWrite closedNow h =
     (if hb_isClosed h then (Some ''hub closed'', False)
      else if submitRead \<noteq> None then (submitRead, False)
      else if submitWrite \<noteq> None then (submitWrite, False)
      else (None, \<not> closedNow))"

text \<open>\<open>UpgradeWebSocket\<close> with the line's address \<open>a\<close> and the handshake's error.\<close>

definition UpgradeWebSocket ::
    "string option \<Rightarrow> string option \<Rightarrow> string option \<Rightarrow> bool \<Rightarrow> int64 \<Rightarrow> nat \<Rightarrow> string \<Rightarrow> Platform \<Rightarrow> string
       \<Rightarrow> 'd hub \<Rightarrow> (string option \<times> bool) \<times> 'd hub" where
  "UpgradeWebSocket upgradeErr submitRead submitWrite closedNow now a userId platform lineId h =
     (case upgradeErr of
        Some err \<Rightarrow> ((Some err, False), h)
      | None \<Rightarrow>
          (let h' = set_line a \<lparr>ln_id = lineId, ln_userId = userId, ln_platform = platform, ln_lastActive = now,
                      ln_closeChan = False, ln_writeChan = None, ln_isClosed = False, ln_cmds = 0\<rparr> h
           in (Line_start submitRead submitWrite closedNow h', h')))"

end
