(* ===== verification/HubProofs.thy ===== *)
theory HubProofs
  imports Hub
begin

text \<open>
  Lemmas on the connection registry of \<open>Hub\<close>: what the close and push loops do to each line, the
  representation of the set of live lines by the hub's maps and counters, and the contract every
  registry keeps under joining and leaving lines (a locale, interpreted on the hub).
\<close>

section \<open>The loops\<close>

definition commandable :: "'d line \<Rightarrow> bool" where
  "commandable l \<longleftrightarrow> \<not> ln_isClosed l \<and> ln_closeChan l"

definition reachable_line :: "'d hub \<Rightarrow> 'd line \<Rightarrow> bool" where
  "reachable_line h l \<longleftrightarrow> \<not> ln_isClosed l \<and> \<not> hb_isClosed h \<and> ln_writeChan l \<noteq> None"

definition static_pred :: "('d line \<Rightarrow> bool) \<Rightarrow> bool" where
  "static_pred P \<longleftrightarrow> (\<forall>l c q. P (l\<lparr>ln_cmds := c\<rparr>) = P l \<and> P (l\<lparr>ln_writeChan := q\<rparr>) = P l)"

lemma close_loop_lines:
  assumes "distinct as"
  shows "close_loop P as h = h\<lparr>hb_lines := (\<lambda>a. let l = hb_lines h a in
      if a \<in> set as \<and> commandable l \<and> P l then l\<lparr>ln_cmds := Suc (ln_cmds l)\<rparr> else l)\<rparr>"
  using assms
proof (induction as arbitrary: h)
  case (Cons a as)
  then have a: "a \<notin> set as" by simp
  have IH: "close_loop P as h' = h'\<lparr>hb_lines := (\<lambda>a. let l = hb_lines h' a in
      if a \<in> set as \<and> commandable l \<and> P l then l\<lparr>ln_cmds := Suc (ln_cmds l)\<rparr> else l)\<rparr>" for h'
    using Cons by simp
  show ?case
    using a by (auto simp: IH commandable_def send_close_def set_line_def Let_def fun_eq_iff intro!: hub.equality)
qed simp

lemma push_loop_lines:
  assumes "distinct as"
  shows "push_loop P data as h = h\<lparr>hb_lines := (\<lambda>a. let l = hb_lines h a in
      if a \<in> set as \<and> reachable_line h l \<and> P l
      then l\<lparr>ln_writeChan := map_option (\<lambda>q. q @ [data]) (ln_writeChan l)\<rparr> else l)\<rparr>"
  using assms
proof (induction as arbitrary: h)
  case (Cons a as)
  then have a: "a \<notin> set as" by simp
  have IH: "push_loop P data as h' = h'\<lparr>hb_lines := (\<lambda>a. let l = hb_lines h' a in
      if a \<in> set as \<and> reachable_line h' l \<and> P l
      then l\<lparr>ln_writeChan := map_option (\<lambda>q. q @ [data]) (ln_writeChan l)\<rparr> else l)\<rparr>" for h'
    using Cons by simp
  show ?case
    using a by (auto simp: IH reachable_line_def send_data_def set_line_def Let_def fun_eq_iff intro!: hub.equality)
qed simp

section \<open>Registries\<close>

datatype 'a event = Joined 'a | Left 'a

text \<open>The members after a sequence of events; \<open>None\<close> when a member joins twice, when two members
  would share a key, or when one leaves that is not there.\<close>

fun members :: "('a \<Rightarrow> 'k) \<Rightarrow> 'a event list \<Rightarrow> 'a list \<Rightarrow> 'a list option" where
  "members key [] L = Some L"
| "members key (Joined a # es) L =
     (if a \<in> set L \<or> key a \<in> key ` set L then None else members key es (L @ [a]))"
| "members key (Left a # es) L = (if a \<in> set L then members key es (remove1 a L) else None)"

fun events_run :: "('a \<Rightarrow> 's \<Rightarrow> 's) \<Rightarrow> ('a \<Rightarrow> 's \<Rightarrow> 's) \<Rightarrow> 'a event list \<Rightarrow> 's \<Rightarrow> 's" where
  "events_run reg unreg [] s = s"
| "events_run reg unreg (Joined a # es) s = events_run reg unreg es (reg a s)"
| "events_run reg unreg (Left a # es) s = events_run reg unreg es (unreg a s)"

locale registry =
  fixes reg unreg :: "'a \<Rightarrow> 's \<Rightarrow> 's"
    and rep :: "'s \<Rightarrow> 'a list \<Rightarrow> bool"
    and key :: "'a \<Rightarrow> 'k"
  assumes reg_rep: "rep s L \<Longrightarrow> a \<notin> set L \<Longrightarrow> key a \<notin> key ` set L \<Longrightarrow> rep (reg a s) (L @ [a])"
    and unreg_rep: "rep s L \<Longrightarrow> a \<in> set L \<Longrightarrow> rep (unreg a s) (remove1 a L)"
begin

lemma run_rep: "rep s L \<Longrightarrow> members key es L = Some L' \<Longrightarrow> rep (events_run reg unreg es s) L'"
proof (induction es arbitrary: s L)
  case (Cons e es)
  then show ?case by (cases e) (auto intro: reg_rep unreg_rep split: if_splits)
qed simp

end

lemma find_SomeD: "find P xs = Some x \<Longrightarrow> x \<in> set xs \<and> P x"
  by (induction xs) (auto split: if_splits)

lemma length_remove1_int: "a \<in> set xs \<Longrightarrow> int (length (remove1 a xs)) = int (length xs) - 1"
  by (induction xs) auto

section \<open>The hub represents its live lines\<close>

definition lines_of :: "(nat \<Rightarrow> string \<times> string) \<Rightarrow> string \<Rightarrow> nat list \<Rightarrow> nat list" where
  "lines_of key u L = filter (\<lambda>a. fst (key a) = u) L"

definition hub_rep :: "(nat \<Rightarrow> string \<times> string) \<Rightarrow> 'd hub \<Rightarrow> nat list \<Rightarrow> bool" where
  "hub_rep key h L \<longleftrightarrow>
     (\<forall>a. (ln_userId (hb_lines h a), ln_id (hb_lines h a)) = key a)
     \<and> distinct L \<and> inj_on key (set L)
     \<and> (\<forall>u. hb_conns h u = None \<longrightarrow> lines_of key u L = [])
     \<and> (\<forall>u p. hb_conns h u = Some p \<longrightarrow> lines_of key u L \<noteq> [] \<and> p < hb_next h
          \<and> hb_uls h p = \<lparr>ul_lines = lines_of key u L, ul_count = int (length (lines_of key u L))\<rparr>)
     \<and> (\<forall>u v p. hb_conns h u = Some p \<longrightarrow> hb_conns h v = Some p \<longrightarrow> u = v)
     \<and> (\<forall>a\<in>set L. ln_closeChan (hb_lines h a) \<and> ln_writeChan (hb_lines h a) \<noteq> None)
     \<and> hb_connCount h = int (length L)"

lemma hub_repD:
  assumes "hub_rep key h L"
  shows "ln_userId (hb_lines h a) = fst (key a)" "ln_id (hb_lines h a) = snd (key a)"
    and "distinct L" "inj_on key (set L)"
    and "hb_conns h u = None \<Longrightarrow> lines_of key u L = []"
    and "hb_conns h u = Some p \<Longrightarrow> lines_of key u L \<noteq> []"
    and "hb_conns h u = Some p \<Longrightarrow> p < hb_next h"
    and "hb_conns h u = Some p \<Longrightarrow>
      hb_uls h p = \<lparr>ul_lines = lines_of key u L, ul_count = int (length (lines_of key u L))\<rparr>"
    and "hb_conns h u = Some p \<Longrightarrow> hb_conns h v = Some p \<Longrightarrow> u = v"
    and "b \<in> set L \<Longrightarrow> ln_closeChan (hb_lines h b)"
    and "b \<in> set L \<Longrightarrow> ln_writeChan (hb_lines h b) \<noteq> None"
    and "hb_connCount h = int (length L)"
proof -
  have "(ln_userId (hb_lines h a), ln_id (hb_lines h a)) = key a" using assms by (simp add: hub_rep_def)
  then show "ln_userId (hb_lines h a) = fst (key a)" "ln_id (hb_lines h a) = snd (key a)"
    by (metis fst_conv) (metis \<open>_ = key a\<close> snd_conv)
qed (use assms in \<open>simp_all add: hub_rep_def\<close>)

lemma hub_repI:
  assumes "\<And>b. (ln_userId (hb_lines h b), ln_id (hb_lines h b)) = key b"
    and "distinct L" "inj_on key (set L)"
    and "\<And>u. hb_conns h u = None \<Longrightarrow> lines_of key u L = []"
    and "\<And>u p. hb_conns h u = Some p \<Longrightarrow> lines_of key u L \<noteq> [] \<and> p < hb_next h
      \<and> hb_uls h p = \<lparr>ul_lines = lines_of key u L, ul_count = int (length (lines_of key u L))\<rparr>"
    and "\<And>u v p. hb_conns h u = Some p \<Longrightarrow> hb_conns h v = Some p \<Longrightarrow> u = v"
    and "\<And>b. b \<in> set L \<Longrightarrow> ln_closeChan (hb_lines h b) \<and> ln_writeChan (hb_lines h b) \<noteq> None"
    and "hb_connCount h = int (length L)"
  shows "hub_rep key h L"
  unfolding hub_rep_def using assms by blast

lemma lines_of_append [simp]: "lines_of key u (L @ [a]) = lines_of key u L @ (if fst (key a) = u then [a] else [])"
  by (simp add: lines_of_def)

lemma lines_of_remove1: "lines_of key u (remove1 a L) = (if fst (key a) = u then remove1 a (lines_of key u L) else lines_of key u L)"
  by (auto simp: lines_of_def filter_remove1 remove1_idem)

lemma lines_of_set [simp]: "a \<in> set (lines_of key u L) \<longleftrightarrow> a \<in> set L \<and> fst (key a) = u"
  by (auto simp: lines_of_def)

lemma filter_id_remove1:
  assumes "distinct L" "inj_on key (set L)" "a \<in> set L"
  shows "filter (\<lambda>v. snd (key v) \<noteq> snd (key a)) (lines_of key (fst (key a)) L)
    = remove1 a (lines_of key (fst (key a)) L)"
proof -
  let ?M = "lines_of key (fst (key a)) L"
  have d: "distinct ?M" using assms(1) by (simp add: lines_of_def)
  have "filter (\<lambda>v. snd (key v) \<noteq> snd (key a)) ?M = filter (\<lambda>v. v \<noteq> a) ?M"
  proof (rule filter_cong)
    fix v assume "v \<in> set ?M"
    then show "(snd (key v) \<noteq> snd (key a)) = (v \<noteq> a)"
      using inj_onD [OF assms(2), of v a] assms(3) by (auto simp: prod_eq_iff)
  qed simp
  also have "\<dots> = filter ((\<noteq>) a) ?M" by (rule filter_cong) auto
  also have "\<dots> = remove1 a ?M" using d by (simp add: distinct_remove1_removeAll removeAll_filter_not_eq)
  finally show ?thesis .
qed

definition slot_of :: "'d hub \<Rightarrow> string \<Rightarrow> nat" where
  "slot_of h u = (case hb_conns h u of None \<Rightarrow> hb_next h | Some p \<Rightarrow> p)"

lemma hub_register_fields:
  assumes R: "hub_rep key h L" and u: "u = fst (key a)"
  defines "p \<equiv> slot_of h u" and "h' \<equiv> hub_register a h" and "M \<equiv> lines_of key u L"
  shows "hb_conns h' = (hb_conns h)(u \<mapsto> p)"
    and "hb_uls h' = (hb_uls h)(p := \<lparr>ul_lines = M @ [a], ul_count = int (length M) + 1\<rparr>)"
    and "hb_next h' = (if hb_conns h u = None then Suc p else hb_next h)"
    and "hb_lines h' = (hb_lines h)(a := (hb_lines h a)\<lparr>ln_closeChan := True, ln_writeChan := Some []\<rparr>)"
    and "hb_connCount h' = hb_connCount h + 1"
proof -
  have "hb_conns h' = (hb_conns h)(u \<mapsto> p)
    \<and> hb_uls h' = (hb_uls h)(p := \<lparr>ul_lines = M @ [a], ul_count = int (length M) + 1\<rparr>)
    \<and> hb_next h' = (if hb_conns h u = None then Suc p else hb_next h)
    \<and> hb_lines h' = (hb_lines h)(a := (hb_lines h a)\<lparr>ln_closeChan := True, ln_writeChan := Some []\<rparr>)
    \<and> hb_connCount h' = hb_connCount h + 1"
  proof (cases "hb_conns h u")
    case None
    then show ?thesis
      using hub_repD(1) [OF R, of a] hub_repD(5) [OF R None] u
      by (simp add: h'_def p_def M_def hub_register_def load_or_store_def slot_of_def set_line_def
          UserLines_add_def set_ul_def Let_def)
  next
    case (Some q)
    then show ?thesis
      using hub_repD(1) [OF R, of a] hub_repD(8) [OF R Some] u
      by (simp add: h'_def p_def M_def hub_register_def load_or_store_def slot_of_def set_line_def
          UserLines_add_def set_ul_def Let_def map_upd_triv)
  qed
  then show "hb_conns h' = (hb_conns h)(u \<mapsto> p)"
    and "hb_uls h' = (hb_uls h)(p := \<lparr>ul_lines = M @ [a], ul_count = int (length M) + 1\<rparr>)"
    and "hb_next h' = (if hb_conns h u = None then Suc p else hb_next h)"
    and "hb_lines h' = (hb_lines h)(a := (hb_lines h a)\<lparr>ln_closeChan := True, ln_writeChan := Some []\<rparr>)"
    and "hb_connCount h' = hb_connCount h + 1" by blast+
qed

lemma slot_of_other:
  assumes "hub_rep key h L" "hb_conns h v = Some q" "v \<noteq> u"
  shows "q \<noteq> slot_of h u"
proof (cases "hb_conns h u")
  case None
  then show ?thesis using hub_repD(7) [OF assms(1,2)] by (simp add: slot_of_def)
next
  case (Some p)
  then show ?thesis using hub_repD(9) [OF assms(1,2), of u] assms(3) by (auto simp: slot_of_def)
qed

lemma hub_register_rep:
  assumes R: "hub_rep key h L" and "a \<notin> set L" "key a \<notin> key ` set L"
  shows "hub_rep key (hub_register a h) (L @ [a])"
proof -
  note D = hub_repD [OF R]
  define u where "u = fst (key a)"
  define p where "p = slot_of h u"
  note F = hub_register_fields [OF R u_def, folded p_def]
  have p: "p < hb_next (hub_register a h)"
    using D(7) [of u] by (auto simp: F(3) p_def slot_of_def split: option.splits)
  have le: "hb_next h \<le> hb_next (hub_register a h)"
    by (auto simp: F(3) p_def slot_of_def)
  have c1: "lines_of key v (L @ [a]) = []" if "hb_conns (hub_register a h) v = None" for v
    using that D(5) [of v] by (auto simp: F(1) u_def split: if_splits)
  have c2: "lines_of key v (L @ [a]) \<noteq> [] \<and> q < hb_next (hub_register a h)
      \<and> hb_uls (hub_register a h) q
          = \<lparr>ul_lines = lines_of key v (L @ [a]), ul_count = int (length (lines_of key v (L @ [a])))\<rparr>"
    if "hb_conns (hub_register a h) v = Some q" for v q
  proof (cases "v = u")
    case True
    then have "q = p" using that by (simp add: F(1))
    then show ?thesis using True p by (simp add: F(2) u_def)
  next
    case False
    then have v: "hb_conns h v = Some q" using that by (simp add: F(1))
    then have "q \<noteq> p" unfolding p_def by (rule slot_of_other [OF R _ False])
    then show ?thesis using D(6,7,8) [OF v] False le by (simp add: F(2) u_def)
  qed
  have c3: "v = w" if "hb_conns (hub_register a h) v = Some q" "hb_conns (hub_register a h) w = Some q" for v w q
  proof -
    have V: "(v = u \<and> q = p) \<or> (v \<noteq> u \<and> hb_conns h v = Some q)" using that(1) by (simp add: F(1) split: if_splits)
    have W: "(w = u \<and> q = p) \<or> (w \<noteq> u \<and> hb_conns h w = Some q)" using that(2) by (simp add: F(1) split: if_splits)
    have n: "q \<noteq> p" if "hb_conns h x = Some q" "x \<noteq> u" for x
      unfolding p_def using that by (rule slot_of_other [OF R])
    show ?thesis
    proof (cases "v = u")
      case True
      with V W n [of w] show ?thesis by auto
    next
      case False
      with V have v: "hb_conns h v = Some q" by simp
      with n [of v] False W have "hb_conns h w = Some q" by auto
      with v show ?thesis by (rule D(9))
    qed
  qed
  have i: "inj_on key (set (L @ [a]))" using D(4) assms(2,3) by simp
  have k: "(ln_userId (hb_lines (hub_register a h) b), ln_id (hb_lines (hub_register a h) b)) = key b" for b
    using D(1,2) by (simp add: F(4))
  show ?thesis
  proof (rule hub_repI)
    show "distinct (L @ [a])" using D(3) assms(2) by simp
    show "hb_connCount (hub_register a h) = int (length (L @ [a]))" using D(12) by (simp add: F(5))
    show "ln_closeChan (hb_lines (hub_register a h) b) \<and> ln_writeChan (hb_lines (hub_register a h) b) \<noteq> None"
      if "b \<in> set (L @ [a])" for b
      using that D(10,11) [of b] by (auto simp: F(4))
  qed (fact c1 c2 c3 i k)+
qed

lemma hub_unregister_fields:
  assumes R: "hub_rep key h L" and a: "a \<in> set L"
  defines "u \<equiv> fst (key a)" and "h' \<equiv> hub_unregister a h"
  defines "M \<equiv> remove1 a (lines_of key u L)"
  shows "\<exists>p. hb_conns h u = Some p
    \<and> hb_conns h' = (if M = [] then (hb_conns h)(u := None) else hb_conns h)
    \<and> hb_uls h' = (hb_uls h)(p := \<lparr>ul_lines = M, ul_count = int (length M)\<rparr>)
    \<and> hb_next h' = hb_next h
    \<and> hb_lines h' = (hb_lines h)(a := (hb_lines h a)\<lparr>ln_closeChan := False, ln_writeChan := None\<rparr>)
    \<and> hb_connCount h' = hb_connCount h - 1"
proof -
  note D = hub_repD [OF R]
  have m: "a \<in> set (lines_of key u L)" using a by (simp add: u_def)
  obtain p where p: "hb_conns h u = Some p" using D(5) [of u] m by (cases "hb_conns h u") auto
  have f: "filter (\<lambda>v. snd (key v) \<noteq> snd (key a)) (lines_of key u L) = M"
    unfolding M_def u_def by (rule filter_id_remove1 [OF D(3,4) a])
  have l: "int (length M) = int (length (lines_of key u L)) - 1"
    using length_remove1_int [OF m] by (simp add: M_def)
  have e: "length (lines_of key u L) = Suc 0 \<longleftrightarrow> M = []" using l by (cases M) auto
  show ?thesis
    using p f l e D(1) [of a] D(2) D(8) [OF p]
    by (intro exI [of _ p], cases "M = []") (simp_all add: h'_def u_def hub_unregister_def UserLines_remove_def UserLines_Len_def
        closeLineChans_def set_line_def set_ul_def Let_def)
qed

lemma hub_unregister_rep:
  assumes R: "hub_rep key h L" and a: "a \<in> set L"
  shows "hub_rep key (hub_unregister a h) (remove1 a L)"
proof -
  note D = hub_repD [OF R]
  define u where "u = fst (key a)"
  define M where "M = remove1 a (lines_of key u L)"
  let ?h = "hub_unregister a h"
  obtain p where p: "hb_conns h u = Some p"
    and F: "hb_conns ?h = (if M = [] then (hb_conns h)(u := None) else hb_conns h)"
      "hb_uls ?h = (hb_uls h)(p := \<lparr>ul_lines = M, ul_count = int (length M)\<rparr>)"
      "hb_next ?h = hb_next h"
      "hb_lines ?h = (hb_lines h)(a := (hb_lines h a)\<lparr>ln_closeChan := False, ln_writeChan := None\<rparr>)"
      "hb_connCount ?h = hb_connCount h - 1"
    using hub_unregister_fields [OF R a] unfolding u_def M_def by blast
  have lu: "lines_of key v (remove1 a L) = (if v = u then M else lines_of key v L)" for v
    by (auto simp: lines_of_remove1 u_def M_def)
  have c1: "lines_of key v (remove1 a L) = []" if "hb_conns ?h v = None" for v
    using that D(5) [of v] p by (auto simp: F(1) lu split: if_splits)
  have c2: "lines_of key v (remove1 a L) \<noteq> [] \<and> q < hb_next ?h
      \<and> hb_uls ?h q = \<lparr>ul_lines = lines_of key v (remove1 a L), ul_count = int (length (lines_of key v (remove1 a L)))\<rparr>"
    if "hb_conns ?h v = Some q" for v q
  proof (cases "v = u")
    case True
    then have "q = p" "M \<noteq> []" using that p by (auto simp: F(1) split: if_splits)
    then show ?thesis using True D(7) [OF p] by (simp add: F(2,3) lu)
  next
    case False
    then have v: "hb_conns h v = Some q" using that by (simp add: F(1) split: if_splits)
    have "q \<noteq> p" using D(9) [OF v, of u] p False by auto
    then show ?thesis using D(6,7,8) [OF v] False by (simp add: F(2,3) lu)
  qed
  have c3: "v = w" if "hb_conns ?h v = Some q" "hb_conns ?h w = Some q" for v w q
    using that D(9) [of v q w] by (auto simp: F(1) split: if_splits)
  have i: "inj_on key (set (remove1 a L))" using D(4) by (rule inj_on_subset) (rule set_remove1_subset)
  have k: "(ln_userId (hb_lines ?h b), ln_id (hb_lines ?h b)) = key b" for b
    using D(1,2) by (simp add: F(4))
  have d: "distinct (remove1 a L)" "int (length (remove1 a L)) = int (length L) - 1"
    using D(3) length_remove1_int [OF a] by simp_all
  show ?thesis
  proof (rule hub_repI)
    show "hb_connCount ?h = int (length (remove1 a L))" using D(12) d(2) by (simp add: F(5))
    show "ln_closeChan (hb_lines ?h b) \<and> ln_writeChan (hb_lines ?h b) \<noteq> None" if "b \<in> set (remove1 a L)" for b
      using that D(10,11) [of b] D(3) by (auto simp: F(4))
  qed (fact c1 c2 c3 i k d(1))+
qed

interpretation hub_registry: registry hub_register hub_unregister "hub_rep key" key for key
  by unfold_locales (auto intro: hub_register_rep hub_unregister_rep)

text \<open>A new hub over a heap of lines whose owners and ids are \<open>key\<close>.\<close>

definition hub_over :: "int64 \<Rightarrow> (nat \<Rightarrow> 'd line) \<Rightarrow> 'd hub" where
  "hub_over maxIdle heap = (case NewHub True maxIdle None of Inr h \<Rightarrow> h\<lparr>hb_lines := heap\<rparr> | Inl _ \<Rightarrow> undefined)"

definition heap_keys :: "(nat \<Rightarrow> 'd line) \<Rightarrow> nat \<Rightarrow> string \<times> string" where
  "heap_keys heap a = (ln_userId (heap a), ln_id (heap a))"

lemma hub_over_rep: "hub_rep (heap_keys heap) (hub_over m heap) []"
  by (simp add: hub_rep_def hub_over_def NewHub_def heap_keys_def lines_of_def)

lemma GetUserLine_rep:
  assumes R: "hub_rep key h L"
  shows "GetUserLine u i h = Some a \<longleftrightarrow> a \<in> set L \<and> key a = (u, i)"
proof (cases "hb_conns h u")
  case None
  have "\<not> (a \<in> set L \<and> key a = (u, i))"
    using hub_repD(5) [OF R None] lines_of_set [of a key u L] by auto
  with None show ?thesis by (simp add: GetUserLine_def)
next
  case (Some p)
  note D = hub_repD [OF R]
  have g: "GetUserLine u i h = find (\<lambda>v. snd (key v) = i) (lines_of key u L)"
    using Some D(2) D(8) [OF Some] by (simp add: GetUserLine_def UserLines_Get_def)
  have u: "x = y" if "x \<in> set (lines_of key u L)" "y \<in> set (lines_of key u L)" "snd (key x) = i" "snd (key y) = i" for x y
    using that inj_onD [OF D(4), of x y] by (auto simp: prod_eq_iff)
  show ?thesis
  proof
    assume "GetUserLine u i h = Some a"
    then have "a \<in> set (lines_of key u L)" "snd (key a) = i"
      unfolding g by (auto dest: find_SomeD)
    then show "a \<in> set L \<and> key a = (u, i)" by (auto simp: prod_eq_iff)
  next
    assume "a \<in> set L \<and> key a = (u, i)"
    then have a: "a \<in> set (lines_of key u L)" "snd (key a) = i" by auto
    then obtain b where b: "find (\<lambda>v. snd (key v) = i) (lines_of key u L) = Some b"
      by (cases "find (\<lambda>v. snd (key v) = i) (lines_of key u L)") (auto simp: find_None_iff)
    then have "b \<in> set (lines_of key u L)" "snd (key b) = i" by (auto dest: find_SomeD)
    then show "GetUserLine u i h = Some a" using u [of b a] a b g by simp
  qed
qed

lemma GetUserLines_rep:
  assumes R: "hub_rep key h L"
  shows "GetUserLines u h = None \<longleftrightarrow> (\<forall>a\<in>set L. fst (key a) \<noteq> u)"
proof (cases "hb_conns h u")
  case None
  then show ?thesis
    using hub_repD(5) [OF R None] lines_of_set [of _ key u L] by (auto simp: GetUserLines_def)
next
  case (Some p)
  then obtain a where "a \<in> set (lines_of key u L)"
    using hub_repD(6) [OF R Some] by (cases "lines_of key u L") auto
  with Some show ?thesis by (auto simp: GetUserLines_def)
qed

text \<open>Changes of the lines that leave the tables alone; \<open>key'\<close> may differ outside the live lines.\<close>

lemma hub_rep_frame:
  assumes R: "hub_rep key h L"
    and T: "hb_conns h' = hb_conns h" "hb_uls h' = hb_uls h" "hb_next h' = hb_next h" "hb_connCount h' = hb_connCount h"
    and K: "\<And>x. (ln_userId (hb_lines h' x), ln_id (hb_lines h' x)) = key' x" "\<And>x. x \<in> set L \<Longrightarrow> key' x = key x"
    and C: "\<And>x. x \<in> set L \<Longrightarrow> ln_closeChan (hb_lines h' x) = ln_closeChan (hb_lines h x)
              \<and> (ln_writeChan (hb_lines h' x) = None \<longleftrightarrow> ln_writeChan (hb_lines h x) = None)"
  shows "hub_rep key' h' L"
proof -
  note D = hub_repD [OF R]
  have l: "lines_of key' u L = lines_of key u L" for u
    unfolding lines_of_def by (rule filter_cong) (simp_all add: K(2))
  have i: "inj_on key' (set L)" using D(4) by (rule inj_on_cong [THEN iffD1, rotated]) (simp add: K(2))
  show ?thesis
  proof (rule hub_repI)
    show "(ln_userId (hb_lines h' b), ln_id (hb_lines h' b)) = key' b" for b by (rule K(1))
    show "lines_of key' u L = []" if "hb_conns h' u = None" for u using that D(5) [of u] by (simp add: T l)
    show "lines_of key' u L \<noteq> [] \<and> p < hb_next h'
        \<and> hb_uls h' p = \<lparr>ul_lines = lines_of key' u L, ul_count = int (length (lines_of key' u L))\<rparr>"
      if "hb_conns h' u = Some p" for u p using that D(6-8) [of u p] by (simp add: T l)
    show "u = v" if "hb_conns h' u = Some p" "hb_conns h' v = Some p" for u v p
      using that D(9) [of u p v] by (simp add: T)
    show "ln_closeChan (hb_lines h' b) \<and> ln_writeChan (hb_lines h' b) \<noteq> None" if "b \<in> set L" for b
      using D(10,11) [OF that] C [OF that] by simp
  qed (use D(3,12) i in \<open>simp_all add: T\<close>)
qed

text \<open>What pushing to lines of a user does to each line.\<close>

lemma PushToUserLines_lines:
  assumes R: "hub_rep key h L" and "data \<noteq> []" "ids \<noteq> []"
    and "PushToUserLines u data ids h = (err, h')"
  shows "(err = None \<longleftrightarrow> (\<exists>a\<in>set L. fst (key a) = u))
    \<and> hb_lines h' a =
        (if a \<in> set L \<and> fst (key a) = u \<and> snd (key a) \<in> set ids
            \<and> \<not> ln_isClosed (hb_lines h a) \<and> \<not> hb_isClosed h
         then (hb_lines h a)\<lparr>ln_writeChan := Some (the (ln_writeChan (hb_lines h a)) @ [data])\<rparr>
         else hb_lines h a)"
proof (cases "hb_conns h u")
  case None
  then have "\<forall>a\<in>set L. fst (key a) \<noteq> u" using GetUserLines_rep [OF R, of u] by (simp add: GetUserLines_def)
  with None assms(4) show ?thesis by (auto simp: PushToUserLines_def GetUserLines_def)
next
  case (Some p)
  note D = hub_repD [OF R]
  have x: "\<exists>a\<in>set L. fst (key a) = u" using GetUserLines_rep [OF R, of u] Some by (auto simp: GetUserLines_def)
  have d: "distinct (lines_of key u L)" using D(3) by (simp add: lines_of_def)
  have h': "err = None" "h' = push_loop (\<lambda>l. ln_id l \<in> set ids) data (lines_of key u L) h"
    using assms(2-4) Some D(8) [OF Some]
    by (auto simp: PushToUserLines_def GetUserLines_def PushMessageToLines_def)
  have w: "a \<in> set L \<Longrightarrow> ln_writeChan (hb_lines h a) = Some (the (ln_writeChan (hb_lines h a)))"
    using D(11) [of a] by auto
  have "hb_lines h' a = (let l = hb_lines h a in
      if a \<in> set (lines_of key u L) \<and> reachable_line h l \<and> ln_id l \<in> set ids
      then l\<lparr>ln_writeChan := map_option (\<lambda>q. q @ [data]) (ln_writeChan l)\<rparr> else l)"
    unfolding h'(2) push_loop_lines [OF d] by simp
  also have "\<dots> = (if a \<in> set L \<and> fst (key a) = u \<and> snd (key a) \<in> set ids
            \<and> \<not> ln_isClosed (hb_lines h a) \<and> \<not> hb_isClosed h
         then (hb_lines h a)\<lparr>ln_writeChan := Some (the (ln_writeChan (hb_lines h a)) @ [data])\<rparr>
         else hb_lines h a)"
    using w D(2) D(11) [of a] by (auto simp: Let_def reachable_line_def)
  finally show ?thesis using x h'(1) by simp
qed

lemma close_loop_tables:
  "hb_conns (close_loop P as h) = hb_conns h" "hb_uls (close_loop P as h) = hb_uls h"
  "hb_next (close_loop P as h) = hb_next h" "hb_connCount (close_loop P as h) = hb_connCount h"
  "hb_isClosed (close_loop P as h) = hb_isClosed h" "hb_unreg_queue (close_loop P as h) = hb_unreg_queue h"
  by (induction P as h rule: close_loop.induct) (simp_all add: Let_def send_close_def set_line_def)

lemma push_loop_tables:
  "hb_conns (push_loop P data as h) = hb_conns h" "hb_uls (push_loop P data as h) = hb_uls h"
  "hb_next (push_loop P data as h) = hb_next h" "hb_connCount (push_loop P data as h) = hb_connCount h"
  "hb_isClosed (push_loop P data as h) = hb_isClosed h"
  by (induction P data as h rule: push_loop.induct) (simp_all add: Let_def send_data_def set_line_def)

lemma PushToUserLines_tables:
  fixes u data ids h
  defines "h' \<equiv> snd (PushToUserLines u data ids h)"
  shows "hb_conns h' = hb_conns h" "hb_uls h' = hb_uls h" "hb_next h' = hb_next h"
    "hb_connCount h' = hb_connCount h" "hb_isClosed h' = hb_isClosed h"
  by (simp_all add: h'_def PushToUserLines_def PushMessageToLines_def push_loop_tables split: option.split)

text \<open>A push to one line of a hub that represents its live lines.\<close>

lemma push_to_one_line:
  assumes R: "hub_rep key h L" and a: "a \<in> set L" "key a = (u, i)"
    and open_line: "\<not> ln_isClosed (hb_lines h a)" "\<not> hb_isClosed h" and "data \<noteq> []"
  shows "hb_lines (snd (PushToUserLines u data [i] h)) =
    (hb_lines h)(a := (hb_lines h a)\<lparr>ln_writeChan := Some (the (ln_writeChan (hb_lines h a)) @ [data])\<rparr>)"
proof
  fix x
  obtain err h' where P: "PushToUserLines u data [i] h = (err, h')" by fastforce
  have one: "x \<in> set L \<and> fst (key x) = u \<and> snd (key x) \<in> set [i] \<longleftrightarrow> x = a"
    using inj_onD [OF hub_repD(4) [OF R], of x a] a by (cases "key x") auto
  have "hb_lines h' x = (if x \<in> set L \<and> fst (key x) = u \<and> snd (key x) \<in> set [i]
        \<and> \<not> ln_isClosed (hb_lines h x) \<and> \<not> hb_isClosed h
      then (hb_lines h x)\<lparr>ln_writeChan := Some (the (ln_writeChan (hb_lines h x)) @ [data])\<rparr> else hb_lines h x)"
    using PushToUserLines_lines [OF R assms(6) _ P, of x] by blast
  then show "hb_lines (snd (PushToUserLines u data [i] h)) x =
      ((hb_lines h)(a := (hb_lines h a)\<lparr>ln_writeChan := Some (the (ln_writeChan (hb_lines h a)) @ [data])\<rparr>)) x"
    using one open_line by (cases "x = a") (simp_all add: P, blast)
qed

section \<open>Properties\<close>

text \<open>C6. The hub knows exactly the live connections: after any sequence of connections joining and
  leaving in which no two live connections of a user share an id, \<open>LiveCount\<close> is the number of live
  connections, \<open>GetUserLine\<close> finds a connection exactly when it is live, and a user has an entry
  exactly while one of the user's connections is live.\<close>

theorem hub_tracks_members:
  assumes "members (heap_keys heap) es [] = Some L"
    and "h = events_run hub_register hub_unregister es (hub_over maxIdle heap)"
  shows "LiveCount h = int (length L)
    \<and> (GetUserLine u i h = Some a \<longleftrightarrow> a \<in> set L \<and> heap_keys heap a = (u, i))
    \<and> (GetUserLines u h = None \<longleftrightarrow> (\<forall>a\<in>set L. fst (heap_keys heap a) \<noteq> u))"
proof -
  have R: "hub_rep (heap_keys heap) h L"
    unfolding assms(2) by (rule hub_registry.run_rep [OF hub_over_rep assms(1)])
  show ?thesis
    using GetUserLine_rep [OF R] GetUserLines_rep [OF R] hub_repD(12) [OF R]
    by (simp add: LiveCount_def)
qed

definition demo_heap :: "nat \<Rightarrow> char line" where
  "demo_heap a = \<lparr>ln_id = (if a = 2 then ''c2'' else ''c1''), ln_userId = (if a = 4 then ''bob'' else ''ann''),
     ln_platform = 8, ln_lastActive = 0, ln_closeChan = False, ln_writeChan = None, ln_isClosed = False, ln_cmds = 0\<rparr>"

lemma hub_tracks_members_witness:
  "LiveCount (events_run hub_register hub_unregister [Joined 1, Joined 2, Joined 4, Left 1] (hub_over 0 demo_heap)) = 2
    \<and> GetUserLine ''ann'' ''c2''
        (events_run hub_register hub_unregister [Joined 1, Joined 2, Joined 4, Left 1] (hub_over 0 demo_heap)) = Some 2"
  using hub_tracks_members [of demo_heap "[Joined 1, Joined 2, Joined 4, Left 1]" "[2, 4]", OF _ refl,
      of 0 "''ann''" "''c2''" 2]
  by (simp add: heap_keys_def demo_heap_def)

text \<open>C7. \<open>PushToUserLines\<close> queues the message once on the write channel of each live connection of
  the user with one of the ids that is not closed, on no other channel, and reports an error exactly
  when the user has no live connection.\<close>

theorem push_to_user_lines_delivers:
  assumes R: "hub_rep key h L" and "data \<noteq> []" "ids \<noteq> []"
    and "PushToUserLines u data ids h = (err, h')"
  shows "(err = None \<longleftrightarrow> (\<exists>a\<in>set L. fst (key a) = u))
    \<and> hb_lines h' a =
        (if a \<in> set L \<and> fst (key a) = u \<and> snd (key a) \<in> set ids
            \<and> \<not> ln_isClosed (hb_lines h a) \<and> \<not> hb_isClosed h
         then (hb_lines h a)\<lparr>ln_writeChan := Some (the (ln_writeChan (hb_lines h a)) @ [data])\<rparr>
         else hb_lines h a)"
  using assms by (rule PushToUserLines_lines)

lemma push_to_user_lines_delivers_witness:
  "ln_writeChan (hb_lines (snd (PushToUserLines ''ann'' ''hi'' [''c2'']
      (events_run hub_register hub_unregister [Joined 1, Joined 2] (hub_over 0 demo_heap)))) 2) = Some [''hi'']"
proof -
  let ?h = "events_run hub_register hub_unregister [Joined 1, Joined 2] (hub_over 0 demo_heap)"
  have R: "hub_rep (heap_keys demo_heap) ?h [1, 2]"
    by (rule hub_registry.run_rep [OF hub_over_rep]) (simp add: heap_keys_def demo_heap_def)
  have l: "ln_writeChan (hb_lines ?h 2) = Some []" "\<not> ln_isClosed (hb_lines ?h 2)" "\<not> hb_isClosed ?h"
    by (simp_all add: hub_register_def load_or_store_def set_line_def UserLines_add_def set_ul_def
        hub_over_def NewHub_def demo_heap_def Let_def)
  obtain err h' where "PushToUserLines ''ann'' ''hi'' [''c2''] ?h = (err, h')" by fastforce
  from push_to_user_lines_delivers [OF R _ _ this, of 2] this l show ?thesis
    by (simp add: heap_keys_def demo_heap_def)
qed

text \<open>A reconnect under the same client id loses the new connection: when the new connection \<open>b\<close> is
  registered before the old one \<open>a\<close> with the same user and id is unregistered, removing \<open>a\<close> by its id
  drops \<open>b\<close> as well. \<open>b\<close> stays open but is never found or pushed to again, and the user's entry keeps
  counting it.\<close>

lemma reconnect_loses_new_line:
  assumes R: "hub_rep key h L" and a: "a \<in> set L" and "b \<notin> set L" "b \<noteq> a" "key b = key a"
    and "h' = hub_unregister a (hub_register b h)"
  shows "GetUserLine (fst (key a)) (snd (key a)) h' = None
    \<and> ln_writeChan (hb_lines h' b) = Some []
    \<and> (\<exists>p. GetUserLines (fst (key a)) h' = Some p
         \<and> ul_count (hb_uls h' p) = int (length (ul_lines (hb_uls h' p))) + 1)
    \<and> LiveCount h' = int (length L)"
proof -
  note D = hub_repD [OF R]
  define u where "u = fst (key a)"
  let ?M = "lines_of key u L"
  have m: "a \<in> set ?M" using a by (simp add: u_def)
  obtain p where p: "hb_conns h u = Some p" using D(5) [of u] m by (cases "hb_conns h u") auto
  have u: "u = fst (key b)" using assms(5) by (simp add: u_def)
  have s: "slot_of h u = p" using p by (simp add: slot_of_def)
  note F = hub_register_fields [OF R u, unfolded s]
  let ?h1 = "hub_register b h"
  have ids: "ln_id (hb_lines ?h1 c) = snd (key c)" "ln_userId (hb_lines ?h1 c) = fst (key c)" for c
    using D(1,2) by (auto simp: F(4))
  have f: "filter (\<lambda>v. snd (key v) \<noteq> snd (key a)) (?M @ [b]) = remove1 a ?M"
    using filter_id_remove1 [OF D(3,4) a] assms(5) by (simp add: u_def)
  have l: "int (length (remove1 a ?M)) = int (length ?M) - 1" by (rule length_remove1_int [OF m])
  have ne: "int (length ?M) \<noteq> 0" using length_pos_if_in_set [OF m] by simp
  have c: "ul_count (hb_uls ?h1 p) - 1 = int (length ?M)" by (simp add: F(2))
  have h': "hb_conns h' u = Some p" "hb_uls h' p = \<lparr>ul_lines = remove1 a ?M, ul_count = int (length ?M)\<rparr>"
    "hb_lines h' = (hb_lines ?h1)(a := (hb_lines ?h1 a)\<lparr>ln_closeChan := False, ln_writeChan := None\<rparr>)"
    "hb_connCount h' = hb_connCount h"
    using p ids f ne
    by (simp_all add: assms(6) hub_unregister_def UserLines_remove_def UserLines_Len_def closeLineChans_def
        set_line_def set_ul_def Let_def F u_def [symmetric])
  have "ln_id (hb_lines h' v) \<noteq> snd (key a)" if "v \<in> set (remove1 a ?M)" for v
  proof -
    have "v \<in> set (filter (\<lambda>v. snd (key v) \<noteq> snd (key a)) (?M @ [b]))" using that f by simp
    then have "snd (key v) \<noteq> snd (key a)" unfolding set_filter by blast
    then show ?thesis using ids(1) by (auto simp: h'(3))
  qed
  then have "UserLines_Get p (snd (key a)) h' = None"
    by (simp add: UserLines_Get_def h'(2) find_None_iff)
  then have "GetUserLine u (snd (key a)) h' = None" by (simp add: GetUserLine_def h'(1))
  moreover have "ln_writeChan (hb_lines h' b) = Some []" using assms(4) by (simp add: h'(3) F(4))
  ultimately show ?thesis using h' l D(12) by (simp add: u_def GetUserLines_def LiveCount_def)
qed

lemma reconnect_loses_new_line_witness:
  "GetUserLine ''ann'' ''c1'' (hub_unregister 1 (hub_register 3 (hub_register 1 (hub_over 0 demo_heap)))) = None"
proof -
  have R: "hub_rep (heap_keys demo_heap) (events_run hub_register hub_unregister [Joined 1] (hub_over 0 demo_heap)) [1]"
    by (rule hub_registry.run_rep [OF hub_over_rep]) simp
  show ?thesis
    using reconnect_loses_new_line [OF R, of 1 3, OF _ _ _ _ refl] by (simp add: heap_keys_def demo_heap_def)
qed

text \<open>A connection that fails before it is registered takes a live one with it: the two queues are
  served by separate goroutines, and when the failing connection \<open>b\<close> of a user whose only live
  connection is \<open>a\<close> is unregistered first, the user's entry is deleted; after \<open>b\<close> is registered
  late, \<open>b\<close> is found, though it is closed, and \<open>a\<close>, still open, is not.\<close>

theorem early_unregister_loses_live_line:
  assumes R: "hub_rep key h L" and "lines_of key u L = [a]" "b \<notin> set L"
    and "fst (key b) = u" "snd (key b) \<noteq> snd (key a)"
    and "h' = hub_register b (hub_unregister b h)"
  shows "GetUserLine u (snd (key a)) h' = None \<and> GetUserLine u (snd (key b)) h' = Some b
    \<and> ln_writeChan (hb_lines h' a) \<noteq> None \<and> LiveCount h' = int (length L)"
proof -
  note D = hub_repD [OF R]
  have aL: "a \<in> set L" "fst (key a) = u" using assms(2) lines_of_set [of a key u L] by auto
  then have ab: "a \<noteq> b" using assms(3) by auto
  obtain p where p: "hb_conns h u = Some p" using D(5) [of u] assms(2) by (cases "hb_conns h u") auto
  let ?h1 = "hub_unregister b h"
  have h1: "hb_conns ?h1 u = None" "hb_connCount ?h1 = hb_connCount h - 1"
    "hb_lines ?h1 = (hb_lines h)(b := (hb_lines h b)\<lparr>ln_closeChan := False, ln_writeChan := None\<rparr>)"
    "hb_next ?h1 = hb_next h"
    using p D(1,2) D(8) [OF p] assms(2,4,5)
    by (simp_all add: hub_unregister_def UserLines_remove_def UserLines_Len_def closeLineChans_def
        set_line_def set_ul_def Let_def)
  have k: "ln_userId (hb_lines ?h1 b) = u" "ln_id (hb_lines ?h1 c) = snd (key c)" for c
    using D(1,2) assms(4) by (auto simp: h1(3))
  have h': "hb_conns h' u = Some (hb_next h)" "ul_lines (hb_uls h' (hb_next h)) = [b]"
    "hb_connCount h' = hb_connCount h"
    "hb_lines h' = (hb_lines ?h1)(b := (hb_lines ?h1 b)\<lparr>ln_closeChan := True, ln_writeChan := Some []\<rparr>)"
    using k(1) h1(1,2,4)
    by (simp_all add: assms(6) hub_register_def load_or_store_def set_line_def UserLines_add_def set_ul_def Let_def)
  show ?thesis
    using h' ab assms(5) D(2) [of b] D(11,12) aL(1)
    by (simp add: GetUserLine_def UserLines_Get_def LiveCount_def h1(3))
qed

lemma early_unregister_loses_live_line_witness:
  "GetUserLine ''ann'' ''c1'' (hub_register 2 (hub_unregister 2 (hub_register 1 (hub_over 0 demo_heap)))) = None"
proof -
  have R: "hub_rep (heap_keys demo_heap) (events_run hub_register hub_unregister [Joined 1] (hub_over 0 demo_heap)) [1]"
    by (rule hub_registry.run_rep [OF hub_over_rep]) simp
  show ?thesis
    using early_unregister_loses_live_line [OF R, of "''ann''" 1 2, OF _ _ _ _ refl]
    by (simp add: heap_keys_def demo_heap_def lines_of_def)
qed

text \<open>The idle limit is kept in nanoseconds but compared with seconds: with a configured limit of at
  least one second (\<open>connMaxIdle\<close>, a \<open>Duration\<close>), the liveness check sends no close command to a
  line that has been idle for up to a thousand million seconds.\<close>

theorem idle_lines_never_closed:
  assumes "1000000000 \<le> sint maxIdle" "\<forall>a. sint (now - ln_lastActive (hb_lines h a)) \<le> 1000000000"
    and "hb_connMaxIdleSeconds h = maxIdle"
  shows "hb_lines (live_check now users h) = hb_lines h"
proof -
  have c: "close_loop (\<lambda>l. maxIdle <s now - ln_lastActive l) as h = h" for as
  proof (induction as)
    case (Cons a as)
    have "sint (now - ln_lastActive (hb_lines h a)) \<le> 1000000000" using assms(2) by blast
    then have "\<not> maxIdle <s now - ln_lastActive (hb_lines h a)" using assms(1) by (simp add: word_sless_alt)
    then show ?case using Cons by (simp add: Let_def)
  qed simp
  have i: "closeInactiveLines now maxIdle p h = h" for p
    by (simp add: closeInactiveLines_def c)
  have "snd (fold (\<lambda>key (delArr, h). case hb_conns h key of None \<Rightarrow> (delArr, h)
      | Some p \<Rightarrow> (let h' = closeInactiveLines now (hb_connMaxIdleSeconds h) p h
                   in (if UserLines_Len p h' = 0 then delArr @ [key] else delArr, h'))) users (d, h)) = h" for d
    by (induction users arbitrary: d) (auto simp: assms(3) i Let_def split: option.splits)
  then show ?thesis by (simp add: live_check_def split_beta)
qed

lemma idle_lines_never_closed_witness:
  "hb_lines (live_check 900000000 [''ann''] (hub_over 60000000000 demo_heap)) = demo_heap"
  using idle_lines_never_closed [of 60000000000 900000000 "hub_over 60000000000 demo_heap" "[''ann'']"]
  by (simp add: hub_over_def NewHub_def demo_heap_def)

end
