(* ===== verification/Packet.thy ===== *)
theory Packet
  imports Prelude
begin

text \<open>
  \<open>pkg/bytes/bytes_packet.go\<close>: the binary packets of the websocket protocol. The interfaces \<open>Signer\<close>,
  \<open>Cryptor\<close> and \<open>PayloadMarshaler\<close> are records of functions; a nil interface value is \<open>None\<close>. The
  clock reading of \<open>EncodeResp\<close> is an argument.
\<close>

record Signer =
  sg_Sign :: "byte list \<Rightarrow> string + byte list"
  sg_Verify :: "byte list \<Rightarrow> byte list \<Rightarrow> bool"
  sg_SignatureLen :: int

record Cryptor =
  cr_Encrypt :: "byte list \<Rightarrow> string + byte list"
  cr_Decrypt :: "byte list \<Rightarrow> string + byte list"

record 'p PayloadMarshaler =
  pm_Marshal :: "'p \<Rightarrow> string + byte list"
  pm_Unmarshal :: "byte list \<Rightarrow> string + 'p"

record 'p PacketProtocol =
  pp_signer :: "Signer option"
  pp_cryptor :: "Cryptor option"
  pp_marshaler :: "'p PayloadMarshaler"

record PacketMetaData =
  MsgType :: byte
  RequestId :: int32
  Timestamp :: int32

definition metaLength :: nat where "metaLength = 9"

definition int64_of_byte :: "byte \<Rightarrow> int64" where
  "int64_of_byte b = ucast b"

definition be32 :: "byte \<Rightarrow> byte \<Rightarrow> byte \<Rightarrow> byte \<Rightarrow> int64" where
  "be32 a b c d = push_bit 24 (int64_of_byte a) OR push_bit 16 (int64_of_byte b)
     OR push_bit 8 (int64_of_byte c) OR int64_of_byte d"

definition GetMeta :: "byte list \<Rightarrow> string + PacketMetaData" where
  "GetMeta data =
     (if length data < metaLength then Inl ''bad data format''
      else
        (let requestId = be32 (data ! 1) (data ! 2) (data ! 3) (data ! 4);
             ts = be32 (data ! 5) (data ! 6) (data ! 7) (data ! 8)
         in Inr \<lparr>MsgType = data ! 0, RequestId = ucast requestId, Timestamp = ucast ts\<rparr>))"

text \<open>\<open>byte(x >> n & 0x00FF)\<close> on a signed 32-bit \<open>x\<close>.\<close>

definition byte_at :: "nat \<Rightarrow> int32 \<Rightarrow> byte" where
  "byte_at n x = ucast (signed_drop_bit n x AND 0xFF)"

definition EncodeResp ::
    "'p PacketProtocol \<Rightarrow> int32 \<Rightarrow> int32 \<Rightarrow> int32 \<Rightarrow> byte \<Rightarrow> 'p option \<Rightarrow> string + byte list" where
  "EncodeResp m timestamp msgType requestId code payload =
     (case (case payload of None \<Rightarrow> Inr [] | Some p \<Rightarrow> pm_Marshal (pp_marshaler m) p) of
        Inl err \<Rightarrow> Inl err
      | Inr body \<Rightarrow>
          (let out = [ucast msgType];
               out = out @ [byte_at 24 requestId, byte_at 16 requestId, byte_at 8 requestId, byte_at 0 requestId];
               out = out @ [byte_at 24 timestamp, byte_at 16 timestamp, byte_at 8 timestamp, byte_at 0 timestamp];
               out = out @ [code]
           in case (if 0 < length body \<and> pp_cryptor m \<noteq> None
                    then case cr_Encrypt (the (pp_cryptor m)) body of
                           Inl err \<Rightarrow> Inl err | Inr body \<Rightarrow> Inr (out @ body)
                    else Inr out) of
                Inl err \<Rightarrow> Inl err
              | Inr out \<Rightarrow>
                  (case pp_signer m of
                     None \<Rightarrow> Inr out
                   | Some signer \<Rightarrow>
                       (case sg_Sign signer out of
                          Inl err \<Rightarrow> Inl err
                        | Inr signature \<Rightarrow> Inr (out @ signature)))))"

text \<open>The body's part of \<open>DecodeReq\<close>, after the signature was checked and cut off.\<close>

definition decode_body :: "'p PacketProtocol \<Rightarrow> PacketMetaData \<Rightarrow> byte list \<Rightarrow> string + (PacketMetaData \<times> 'p option)" where
  "decode_body m meta body =
     (if 0 < length body then
        (case (case pp_cryptor m of None \<Rightarrow> Inr body | Some c \<Rightarrow> cr_Decrypt c body) of
           Inl err \<Rightarrow> Inl err
         | Inr body \<Rightarrow>
             (case pm_Unmarshal (pp_marshaler m) body of
                Inl err \<Rightarrow> Inl err
              | Inr payload \<Rightarrow> Inr (meta, Some payload)))
      else Inr (meta, None))"

definition DecodeReq :: "'p PacketProtocol \<Rightarrow> byte list \<Rightarrow> string + (PacketMetaData \<times> 'p option)" where
  "DecodeReq m data =
     (case GetMeta data of
        Inl err \<Rightarrow> Inl err
      | Inr meta \<Rightarrow>
          (case pp_signer m of
             None \<Rightarrow> decode_body m meta (drop metaLength data)
           | Some signer \<Rightarrow>
               (let signStart = int (length data) - sg_SignatureLen signer in
                if signStart \<ge> int (length data) \<or> signStart < int metaLength then Inl ''bad data format: no sign''
                else
                  (let signature = drop (nat signStart) data;
                       body = drop metaLength (take (nat signStart) data);
                       dataToVerify = take (nat signStart) data
                   in if \<not> sg_Verify signer dataToVerify signature then Inl ''sign verify fail''
                      else decode_body m meta body))))"

section \<open>Lemmas\<close>

lemma mask8: "(0xFF :: int32) = mask 8"
  by (simp add: mask_eq_exp_minus_1)

lemma byte_at_bit:
  assumes "k + 8 \<le> 32"
  shows "bit (byte_at k x) m \<longleftrightarrow> m < 8 \<and> bit x (k + m)"
  using assms by (auto simp: byte_at_def mask8 bit_simps)

lemma be32_bytes: "ucast (be32 (byte_at 24 x) (byte_at 16 x) (byte_at 8 x) (byte_at 0 x)) = x"
proof (rule bit_word_eqI)
  fix n assume n: "n < LENGTH(32)"
  have b: "bit (ucast (be32 (byte_at 24 x) (byte_at 16 x) (byte_at 8 x) (byte_at 0 x)) :: int32) n
    \<longleftrightarrow> (24 \<le> n \<and> bit (byte_at 24 x) (n - 24)) \<or> (16 \<le> n \<and> bit (byte_at 16 x) (n - 16))
      \<or> (8 \<le> n \<and> bit (byte_at 8 x) (n - 8)) \<or> bit (byte_at 0 x) n"
    using n by (auto simp: be32_def int64_of_byte_def bit_simps)
  consider "n < 8" | "8 \<le> n" "n < 16" | "16 \<le> n" "n < 24" | "24 \<le> n" by linarith
  then show "bit (ucast (be32 (byte_at 24 x) (byte_at 16 x) (byte_at 8 x) (byte_at 0 x)) :: int32) n = bit x n"
    unfolding b using n by cases (auto simp: byte_at_bit)
qed

text \<open>Every packet starts with the ten bytes of the header.\<close>

definition header :: "int32 \<Rightarrow> int32 \<Rightarrow> int32 \<Rightarrow> byte \<Rightarrow> byte list" where
  "header timestamp msgType requestId code =
     [ucast msgType, byte_at 24 requestId, byte_at 16 requestId, byte_at 8 requestId, byte_at 0 requestId,
      byte_at 24 timestamp, byte_at 16 timestamp, byte_at 8 timestamp, byte_at 0 timestamp, code]"

lemma EncodeResp_header:
  assumes "EncodeResp m ts mt rid code payload = Inr out"
  shows "\<exists>rest. out = header ts mt rid code @ rest"
  using assms by (auto simp: EncodeResp_def header_def Let_def split: option.splits sum.splits if_splits)

lemma GetMeta_header: "GetMeta (header ts mt rid code @ rest) = Inr \<lparr>MsgType = ucast mt, RequestId = rid, Timestamp = ts\<rparr>"
  by (simp add: GetMeta_def header_def metaLength_def be32_bytes nth_append)

section \<open>Properties\<close>

text \<open>The header round trips: from every packet \<open>EncodeResp\<close> returns, whatever the protocol's
  signer, cryptor and marshaler, \<open>GetMeta\<close> reads back the low byte of the message type and exactly the
  32-bit request id and timestamp, negative ones included, and byte 9 is the code.\<close>

theorem packet_meta_roundtrip:
  assumes "EncodeResp m ts mt rid code payload = Inr out"
  shows "GetMeta out = Inr \<lparr>MsgType = ucast mt, RequestId = rid, Timestamp = ts\<rparr> \<and> out ! 9 = code"
proof -
  obtain rest where "out = header ts mt rid code @ rest" using EncodeResp_header [OF assms] by blast
  then show ?thesis using GetMeta_header [of ts mt rid code rest] by (simp add: header_def)
qed

definition plain_protocol :: "byte list PacketProtocol" where
  "plain_protocol = \<lparr>pp_signer = None, pp_cryptor = None,
     pp_marshaler = \<lparr>pm_Marshal = Inr, pm_Unmarshal = Inr\<rparr>\<rparr>"

lemma packet_meta_roundtrip_witness:
  "\<exists>out. EncodeResp plain_protocol 7 6 (- 2) 1 None = Inr out
    \<and> GetMeta out = Inr \<lparr>MsgType = 6, RequestId = - 2, Timestamp = 7\<rparr>"
proof -
  obtain out where e: "EncodeResp plain_protocol 7 6 (- 2) 1 None = Inr out"
    by (simp add: EncodeResp_def plain_protocol_def)
  from packet_meta_roundtrip [OF e] e show ?thesis by auto
qed

text \<open>Without a cryptor the payload is dropped: \<open>EncodeResp\<close> marshals it and then returns the
  packet it returns for no payload at all, signed or not.\<close>

theorem encode_drops_plain_payload:
  assumes "pp_cryptor m = None" "pm_Marshal (pp_marshaler m) p = Inr body"
  shows "EncodeResp m ts mt rid code (Some p) = EncodeResp m ts mt rid code None"
  using assms by (simp add: EncodeResp_def)

lemma encode_drops_plain_payload_witness:
  "EncodeResp plain_protocol 0 6 1 1 (Some [1, 2, 3]) = EncodeResp plain_protocol 0 6 1 1 None"
  by (rule encode_drops_plain_payload) (simp_all add: plain_protocol_def)

text \<open>C36. A signed protocol accepts only signed requests: when \<open>DecodeReq\<close> returns a packet, the data
  is a prefix of at least the header's length followed by a non-empty signature of the signer's length
  that verifies for this prefix, and the meta data is the prefix's.\<close>

theorem decode_only_verified:
  assumes "DecodeReq m data = Inr (meta, payload)" "pp_signer m = Some signer"
  shows "\<exists>signed sig. data = signed @ sig \<and> metaLength \<le> length signed \<and> sig \<noteq> []
    \<and> int (length sig) = sg_SignatureLen signer \<and> sg_Verify signer signed sig \<and> GetMeta signed = Inr meta"
proof -
  define n where "n = int (length data) - sg_SignatureLen signer"
  let ?s = "take (nat n) data"
  have g: "GetMeta data = Inr meta" "\<not> n \<ge> int (length data)" "\<not> n < int metaLength"
    "sg_Verify signer ?s (drop (nat n) data)"
    using assms by (auto simp: DecodeReq_def decode_body_def n_def Let_def split: sum.splits if_splits option.splits)
  then have l: "metaLength \<le> length ?s" "drop (nat n) data \<noteq> []"
    by (auto simp: nat_le_iff le_nat_iff)
  have "GetMeta ?s = GetMeta data" using l(1) by (simp add: GetMeta_def metaLength_def min_def split: if_splits)
  moreover have "int (length (drop (nat n) data)) = sg_SignatureLen signer"
    using g(2,3) by (simp add: n_def of_nat_diff)
  ultimately show ?thesis
    using g l by (intro exI [of _ ?s] exI [of _ "drop (nat n) data"]) simp
qed

definition sum_signer :: Signer where
  "sum_signer = \<lparr>sg_Sign = (\<lambda>d. Inr [sum_list d]), sg_Verify = (\<lambda>d s. s = [sum_list d]), sg_SignatureLen = 1\<rparr>"

lemma decode_only_verified_witness:
  "\<exists>signed sig. [5, 0, 0, 0, 1, 0, 0, 0, 2, 8] = signed @ sig \<and> sg_Verify sum_signer signed sig"
proof -
  have d: "DecodeReq (plain_protocol\<lparr>pp_signer := Some sum_signer\<rparr>) [5, 0, 0, 0, 1, 0, 0, 0, 2, 8]
      = Inr (\<lparr>MsgType = 5, RequestId = 1, Timestamp = 2\<rparr>, None)"
    by (simp add: DecodeReq_def decode_body_def GetMeta_def metaLength_def plain_protocol_def sum_signer_def
        be32_def int64_of_byte_def)
  have s: "pp_signer (plain_protocol\<lparr>pp_signer := Some sum_signer\<rparr>) = Some sum_signer" by simp
  from decode_only_verified [OF d s] show ?thesis by blast
qed

end
