(* ===== verification/Codes.thy ===== *)
theory Codes
  imports GoStrings
begin

text \<open>
  \<open>pkg/codes\<close>: integers in a custom alphabet (\<open>custom_radix.go\<close>) and byte strings in bases up to 62
  (\<open>base.go\<close>). \<open>int\<close> is 64 bits wide; \<open>math/big\<close> integers are naturals. Strings are byte strings: the
  alphabets are ASCII, and a byte of a multi-byte rune is in no alphabet, like the rune.
\<close>

section \<open>Digits of a number\<close>

fun value_of :: "nat \<Rightarrow> nat list \<Rightarrow> nat \<Rightarrow> nat" where
  "value_of b [] a = a"
| "value_of b (d # ds) a = value_of b ds (a * b + d)"

lemma value_of_append: "value_of b (xs @ ys) a = value_of b ys (value_of b xs a)"
  by (induction xs arbitrary: a) auto

section \<open>CustomRadix\<close>

type_synonym CustomRadix = string

definition customBase34Chars :: CustomRadix where
  "customBase34Chars = ''0123456789abcdefghijkmnpqrstuvwxyz''"

definition NewCustomRadix :: "string \<Rightarrow> CustomRadix" where
  "NewCustomRadix chars = chars"

definition NewCustomRadix34 :: CustomRadix where
  "NewCustomRadix34 = customBase34Chars"

text \<open>The loop of \<open>Encode\<close> on a positive number; in base 1 it does not end.\<close>

partial_function (option) encode_loop :: "CustomRadix \<Rightarrow> nat \<Rightarrow> string \<Rightarrow> string outcome option" where
  "encode_loop c num result =
     (if num = 0 then Some (Ret result)
      else if length c = 0 then Some (Panic ''integer divide by zero'')
      else encode_loop c (num div length c) ([c ! (num mod length c)] @ result))"

text \<open>\<open>-num\<close> of the least int is itself: the recursion does not end then.\<close>

partial_function (option) Encode :: "CustomRadix \<Rightarrow> int64 \<Rightarrow> string outcome option" where
  "Encode c num =
     (if num <s 0 then
        Option.bind (Encode c (- num)) (\<lambda>r. case r of
           Panic m \<Rightarrow> Some (Panic m)
         | Ret s \<Rightarrow> Some (Ret (CHR ''-'' # s)))
      else if num = 0 then
        (case c of [] \<Rightarrow> Some (Panic ''index out of range'') | ch # _ \<Rightarrow> Some (Ret [ch]))
      else encode_loop c (nat (sint num)) [])"

fun index_of :: "string \<Rightarrow> char \<Rightarrow> nat option" where
  "index_of [] ch = None"
| "index_of (c # cs) ch = (if c = ch then Some 0 else map_option Suc (index_of cs ch))"

fun decode_loop :: "CustomRadix \<Rightarrow> string \<Rightarrow> int64 \<Rightarrow> string + int64" where
  "decode_loop c [] result = Inr result"
| "decode_loop c (ch # s) result =
     (case index_of c ch of
        None \<Rightarrow> Inl (''invalid character: '' @ [ch])
      | Some index \<Rightarrow> decode_loop c s (result * of_nat (length c) + of_nat index))"

definition Decode :: "CustomRadix \<Rightarrow> string \<Rightarrow> string + int64" where
  "Decode c s =
     (if s = [] then Inl ''empty input''
      else if hd s = CHR ''-'' then
        (if length s = 1 then Inl ''invalid negative number''
         else case decode_loop c (tl s) 0 of Inl e \<Rightarrow> Inl e | Inr result \<Rightarrow> Inr (- result))
      else decode_loop c s 0)"

section \<open>Byte strings\<close>

definition base62Chars :: string where
  "base62Chars = ''0123456789abcdefghijklmnopqrstuvwxyzABCDEFGHIJKLMNOPQRSTUVWXYZ''"

text \<open>\<open>SetBytes\<close>, \<open>Text\<close>, \<open>SetString\<close> and \<open>Bytes\<close> of \<open>big.Int\<close>, for bases from 2 to 62.\<close>

definition big_SetBytes :: "byte list \<Rightarrow> nat" where
  "big_SetBytes bs = value_of 256 (map (nat \<circ> uint) bs) 0"

fun digits_loop :: "nat \<Rightarrow> nat \<Rightarrow> nat list \<Rightarrow> nat list" where
  "digits_loop b n ds = (if n = 0 \<or> b < 2 then ds else digits_loop b (n div b) (n mod b # ds))"

declare digits_loop.simps [simp del]

definition big_Text :: "nat \<Rightarrow> nat \<Rightarrow> string" where
  "big_Text n base = (if n = 0 then ''0'' else map ((!) base62Chars) (digits_loop base n []))"

definition digit_of :: "nat \<Rightarrow> char \<Rightarrow> nat option" where
  "digit_of base ch =
     (case index_of base62Chars ch of
        None \<Rightarrow> None
      | Some d \<Rightarrow>
          (let d = (if base \<le> 36 \<and> 36 \<le> d then d - 26 else d) in if d < base then Some d else None))"

definition big_SetString :: "string \<Rightarrow> nat \<Rightarrow> int option" where
  "big_SetString s base =
     (let (neg, ds) = (case s of [] \<Rightarrow> (False, s)
                       | c # r \<Rightarrow> if c = CHR ''-'' then (True, r) else if c = CHR ''+'' then (False, r) else (False, s))
      in if ds = [] \<or> (\<exists>c\<in>set ds. digit_of base c = None) then None
         else let v = int (value_of base (map (the \<circ> digit_of base) ds) 0)
              in Some (if neg then - v else v))"

definition big_Bytes :: "int \<Rightarrow> byte list" where
  "big_Bytes n = map of_nat (digits_loop 256 (nat \<bar>n\<bar>) [])"

definition ToString :: "byte list \<Rightarrow> nat \<Rightarrow> string" where
  "ToString bs base = big_Text (big_SetBytes bs) base"

definition ToBytes :: "string \<Rightarrow> nat \<Rightarrow> string + byte list" where
  "ToBytes src base =
     (case big_SetString src base of None \<Rightarrow> Inl ''invalid input'' | Some n \<Rightarrow> Inr (big_Bytes n))"

section \<open>Lemmas\<close>

lemma index_of_Some: "index_of cs ch = Some i \<Longrightarrow> i < length cs \<and> cs ! i = ch"
  by (induction cs arbitrary: i) (auto split: if_splits)

lemma index_of_nth: "distinct cs \<Longrightarrow> i < length cs \<Longrightarrow> index_of cs (cs ! i) = Some i"
proof (induction cs arbitrary: i)
  case (Cons c cs)
  then show ?case by (cases i) (auto simp: nth_mem)
qed simp

text \<open>The encoding loop gives the digits, most significant first, and ends in every base above 1.\<close>

lemma encode_loop_digits:
  assumes "2 \<le> length c"
  shows "\<exists>ds. encode_loop c n acc = Some (Ret (map ((!) c) ds @ acc)) \<and> (\<forall>d\<in>set ds. d < length c)
    \<and> value_of (length c) ds 0 = n \<and> (n \<noteq> 0 \<longrightarrow> ds \<noteq> [])"
proof (induction n arbitrary: acc rule: less_induct)
  case (less n)
  show ?case
  proof (cases "n = 0")
    case True
    then show ?thesis by (intro exI [of _ "[]"]) (subst encode_loop.simps, simp)
  next
    case False
    let ?b = "length c"
    have "n div ?b < n" using False assms by (intro div_less_dividend) auto
    from less.IH [OF this, of "[c ! (n mod ?b)] @ acc"] obtain ds where
      ds: "encode_loop c (n div ?b) ([c ! (n mod ?b)] @ acc) = Some (Ret (map ((!) c) ds @ [c ! (n mod ?b)] @ acc))"
        "\<forall>d\<in>set ds. d < ?b" "value_of ?b ds 0 = n div ?b" by blast
    have b: "0 < ?b" using assms by linarith
    have "encode_loop c n acc = encode_loop c (n div ?b) ([c ! (n mod ?b)] @ acc)"
      using False b by (subst encode_loop.simps) simp
    then show ?thesis
      using ds b by (intro exI [of _ "ds @ [n mod ?b]"]) (simp add: value_of_append)
  qed
qed

lemma decode_loop_digits:
  assumes "distinct c" "\<forall>d\<in>set ds. d < length c"
  shows "decode_loop c (map ((!) c) ds) (of_nat a) = Inr (of_nat (value_of (length c) ds a))"
  using assms(2)
proof (induction ds arbitrary: a)
  case (Cons d ds)
  then have "(of_nat a * of_nat (length c) + of_nat d :: int64) = of_nat (a * length c + d)" by simp
  with Cons assms(1) show ?case
    by (simp add: index_of_nth del: of_nat_add of_nat_mult)
qed simp

lemma encode_least_diverges: "Encode c (- (2 ^ 63)) = None"
proof (cases "Encode c (- (2 ^ 63))")
  case (Some r)
  have "n \<noteq> - (2 ^ 63)" if "Encode c n = Some r" for n r
  proof (rule Encode.raw_induct [where P = "\<lambda>c n r. n \<noteq> - (2 ^ 63)", OF _ that])
    fix enc :: "string \<Rightarrow> int64 \<Rightarrow> string outcome option" and c num r
    assume IH: "\<And>c n r. enc c n = Some r \<Longrightarrow> n \<noteq> - (2 ^ 63)"
      and E: "(if num <s 0 then
        Option.bind (enc c (- num)) (\<lambda>r. case r of
           Panic m \<Rightarrow> Some (Panic m)
         | Ret s \<Rightarrow> Some (Ret (CHR ''-'' # s)))
      else if num = 0 then
        (case c of [] \<Rightarrow> Some (Panic ''index out of range'') | ch # _ \<Rightarrow> Some (Ret [ch]))
      else encode_loop c (nat (sint num)) []) = Some r"
    show "num \<noteq> - (2 ^ 63)"
    proof
      assume n: "num = - (2 ^ 63)"
      have "num <s 0" unfolding n by (simp add: word_sless_alt)
      moreover have m: "- num = - (2 ^ 63)" unfolding n by simp
      have "enc c (- num) = None" using IH [of c "- num"] m by (cases "enc c (- num)") auto
      with \<open>num <s 0\<close> E show False by simp
    qed
  qed
  with Some show ?thesis by blast
qed simp

section \<open>Properties\<close>



end
