(* ===== verification/IdTypes.thy ===== *)
theory IdTypes
  imports GoStrings SnowID
begin

text \<open>
  \<open>pkg/ids/bigid.go\<close> and \<open>uid.go\<close>: the id types with their text, JSON, binary and database forms. The
  uuid library's parser is a parameter: \<open>uuid_laws\<close> states that it reads the 32 hexadecimal digits of
  16 bytes. The base64 form is in theory \<open>Base64\<close>.
\<close>

section \<open>BigID\<close>

type_synonym BigID = int64

definition NilBigID :: BigID where "NilBigID = 0"

definition NewBigIDFromString :: "string \<Rightarrow> BigID" where
  "NewBigIDFromString str =
     (if length str < snowIDMinLen then NilBigID
      else case Atoi str of
          None \<Rightarrow> NilBigID
        | Some v \<Rightarrow> if v < sint snowIDMin then NilBigID else word_of_int v)"

text \<open>A value a database driver hands to \<open>Scan\<close>.\<close>

datatype dbval = DNull | DString string | DBytes "byte list" | DInt64 int64 | DBigID BigID | DOther

definition BigID_Scan :: "dbval \<Rightarrow> BigID" where
  "BigID_Scan v = (case v of DBigID i \<Rightarrow> i | _ \<Rightarrow> 0)"

definition BigID_Value :: "BigID \<Rightarrow> dbval" where
  "BigID_Value i = DInt64 i"

definition BigID_IsNil :: "BigID \<Rightarrow> bool" where
  "BigID_IsNil i \<longleftrightarrow> i = NilBigID"

definition BigID_String :: "BigID \<Rightarrow> string" where
  "BigID_String i = ''BigID('' @ Itoa (sint i) @ '')''"

definition BigID_MarshalText :: "BigID \<Rightarrow> string" where
  "BigID_MarshalText i = Itoa (sint i)"

text \<open>The decoders update the receiver, so they take its old value.\<close>

definition BigID_UnmarshalText :: "string \<Rightarrow> BigID \<Rightarrow> BigID" where
  "BigID_UnmarshalText b old = (if length b = 0 then old else NewBigIDFromString b)"

definition quote :: char where "quote = CHR 0x22"

definition BigID_MarshalJSON :: "BigID \<Rightarrow> string" where
  "BigID_MarshalJSON i = [quote] @ Itoa (sint i) @ [quote]"

definition BigID_UnmarshalJSON :: "string \<Rightarrow> BigID \<Rightarrow> string option \<times> BigID" where
  "BigID_UnmarshalJSON b old =
     (if b = ''null'' then (None, old)
      else if length b \<ge> 2 \<and> hd b = quote then (None, BigID_UnmarshalText (butlast (tl b)) old)
      else (Some ''invalid id'', old))"

section \<open>UID\<close>

text \<open>A UID is the list of its 16 bytes.\<close>

type_synonym UID = "byte list"

definition ZeroUID :: UID where "ZeroUID = replicate 16 0"

definition hex_digit :: "nat \<Rightarrow> char" where
  "hex_digit d = (if d < 10 then char_of (48 + d) else char_of (87 + d))"

definition hex_byte :: "byte \<Rightarrow> string" where
  "hex_byte b = [hex_digit (unat b div 16), hex_digit (unat b mod 16)]"

definition hex_encode :: "byte list \<Rightarrow> string" where
  "hex_encode u = concat (map hex_byte u)"

definition UID_String :: "UID \<Rightarrow> string" where
  "UID_String u = hex_encode u"

definition UID_IsZero :: "UID \<Rightarrow> bool" where
  "UID_IsZero u \<longleftrightarrow> u = ZeroUID"

definition UID_Version :: "UID \<Rightarrow> nat" where
  "UID_Version u = unat (drop_bit 4 (u ! 6))"

definition UID_Variant :: "UID \<Rightarrow> string" where
  "UID_Variant u =
     (if u ! 8 AND 0xc0 = 0x80 then ''RFC4122''
      else if u ! 8 AND 0xe0 = 0xc0 then ''Microsoft''
      else if u ! 8 AND 0xe0 = 0xe0 then ''Future''
      else ''Reserved'')"

definition uuid_laws :: "(string \<Rightarrow> UID option) \<Rightarrow> bool" where
  "uuid_laws parse \<longleftrightarrow> (\<forall>u. length u = 16 \<longrightarrow> parse (hex_encode u) = Some u)
     \<and> (\<forall>s u. parse s = Some u \<longrightarrow> length u = 16)"

definition NewUIDFromHex :: "(string \<Rightarrow> UID option) \<Rightarrow> string \<Rightarrow> string + UID" where
  "NewUIDFromHex parse s =
     (case parse s of
        None \<Rightarrow> Inl ''invalid UUID format''
      | Some i \<Rightarrow> if UID_Version i \<noteq> 7 then Inl ''invalid UUID version'' else Inr i)"

definition UID_Scan :: "(string \<Rightarrow> UID option) \<Rightarrow> dbval \<Rightarrow> UID \<Rightarrow> string option \<times> UID" where
  "UID_Scan parse v u =
     (case v of
        DNull \<Rightarrow> (None, u)
      | DString src \<Rightarrow>
          if src = [] then (None, u)
          else (case parse src of None \<Rightarrow> (Some ''Scan: invalid UUID'', u) | Some uid \<Rightarrow> (None, uid))
      | DBytes src \<Rightarrow>
          if length src = 0 then (None, u)
          else if length src \<noteq> 16 then
            (let str = map (\<lambda>b. char_of (unat b)) src in
             case parse str of None \<Rightarrow> (Some ''Scan: invalid UUID'', u) | Some uid \<Rightarrow> (None, uid))
          else (None, src)
      | _ \<Rightarrow> (Some ''Scan: unable to scan type into UUID'', u))"

definition UID_Value :: "UID \<Rightarrow> dbval" where
  "UID_Value u = DString (UID_String u)"

definition UID_MarshalText :: "UID \<Rightarrow> string" where
  "UID_MarshalText u = hex_encode u"

definition UID_UnmarshalText :: "(string \<Rightarrow> UID option) \<Rightarrow> string \<Rightarrow> UID \<Rightarrow> string option \<times> UID" where
  "UID_UnmarshalText parse data u =
     (case parse data of None \<Rightarrow> (Some ''invalid UUID'', u) | Some i \<Rightarrow> (None, i))"

definition UID_MarshalBinary :: "UID \<Rightarrow> byte list" where
  "UID_MarshalBinary u = u"

definition UID_UnmarshalBinary :: "byte list \<Rightarrow> UID \<Rightarrow> string option \<times> UID" where
  "UID_UnmarshalBinary data u = (if length data \<noteq> 16 then (Some ''invalid UID'', u) else (None, data))"

definition UID_MarshalJSON :: "UID \<Rightarrow> string" where
  "UID_MarshalJSON u = [quote] @ hex_encode u @ [quote]"

definition UID_UnmarshalJSON :: "(string \<Rightarrow> UID option) \<Rightarrow> string \<Rightarrow> UID \<Rightarrow> string option \<times> UID" where
  "UID_UnmarshalJSON parse b u =
     (if b = ''null'' \<or> b = ''NULL'' then (None, u)
      else if length b \<ge> 2 \<and> hd b = quote then UID_UnmarshalText parse (butlast (tl b)) u
      else if length b = 16 then
        (let u' = map (\<lambda>c. of_nat (of_char c)) b in
         if UID_Version u' \<noteq> 7 then (Some ''invalid UUID format'', u') else (None, u'))
      else (Some ''invalid UID format'', u))"

definition UID_TimeUnixMills :: "UID \<Rightarrow> int64" where
  "UID_TimeUnixMills u =
     (if UID_Version u = 7 then
        push_bit 40 (ucast (u ! 0)) OR push_bit 32 (ucast (u ! 1)) OR push_bit 24 (ucast (u ! 2))
          OR push_bit 16 (ucast (u ! 3)) OR push_bit 8 (ucast (u ! 4)) OR ucast (u ! 5)
      else - 1)"

definition UID_TimeUnixSeconds :: "UID \<Rightarrow> int64" where
  "UID_TimeUnixSeconds u =
     (let time = UID_TimeUnixMills u in
      if time = - 1 then time else word_of_int (sint time div 1000))"

section \<open>Lemmas\<close>

lemma nat_digits_length: "10 ^ k \<le> n \<Longrightarrow> k < length (nat_digits n)"
proof (induction k arbitrary: n)
  case 0
  then show ?case using nat_digits_digits [of n] by (cases "nat_digits n") auto
next
  case (Suc k)
  have "10 ^ k \<le> n div 10" using div_le_mono [OF Suc.prems, of 10] by simp
  then have "k < length (nat_digits (n div 10))" by (rule Suc.IH)
  moreover have "(10::nat) \<le> 10 ^ Suc k" by simp
  then have "\<not> n < 10" using Suc.prems by linarith
  ultimately show ?case by (subst nat_digits.simps) simp
qed

lemma snowIDMin_sint: "sint snowIDMin = 40303604944347136"
  by (simp add: snowIDMin_def)

lemma NewBigIDFromString_Itoa:
  assumes "sint snowIDMin \<le> sint i"
  shows "NewBigIDFromString (Itoa (sint i)) = i"
proof -
  have r: "int64_range (sint i)"
    using sint_ge [of i] sint_lt [of i] by (simp add: int64_range_def)
  have p: "0 \<le> sint i" using assms by (simp add: snowIDMin_sint)
  have "10 ^ 16 \<le> nat (sint i)" using assms p by (simp add: snowIDMin_sint le_nat_iff)
  then have "16 < length (nat_digits (nat (sint i)))" by (rule nat_digits_length)
  then have "\<not> length (Itoa (sint i)) < snowIDMinLen" using p by (simp add: Itoa_def snowIDMinLen_def)
  then show ?thesis using Atoi_Itoa [OF r] assms by (simp add: NewBigIDFromString_def)
qed

lemma hex_encode_length [simp]: "length (hex_encode u) = 2 * length u"
  by (induction u) (simp_all add: hex_encode_def hex_byte_def)

section \<open>Properties\<close>

text \<open>A \<open>BigID\<close> that a generator can return (at least \<open>snowIDMin\<close>) survives its text and JSON forms,
  whatever the variable decoded into held before, and no id survives the database: \<open>Value\<close> writes an
  int64, which \<open>Scan\<close> reads as the nil id.\<close>

theorem bigid_roundtrips:
  assumes "sint snowIDMin \<le> sint i"
  shows "BigID_UnmarshalText (BigID_MarshalText i) old = i
    \<and> BigID_UnmarshalJSON (BigID_MarshalJSON i) old = (None, i)
    \<and> BigID_Scan (BigID_Value i) = NilBigID"
proof -
  have n: "Itoa (sint i) \<noteq> []"
    using nat_digits_digits [of "nat (sint i)"] by (simp add: Itoa_def)
  have t: "BigID_UnmarshalText (Itoa (sint i)) old = i"
    using n NewBigIDFromString_Itoa [OF assms] by (simp add: BigID_UnmarshalText_def)
  have "quote # Itoa (sint i) @ [quote] \<noteq> ''null''" by (simp add: quote_def)
  with t show ?thesis
    by (simp add: BigID_MarshalText_def BigID_MarshalJSON_def BigID_UnmarshalJSON_def BigID_Scan_def
        BigID_Value_def NilBigID_def quote_def)
qed

lemma bigid_roundtrips_witness:
  "BigID_UnmarshalJSON (BigID_MarshalJSON 40303604944347137) 5 = (None, 40303604944347137)"
  using bigid_roundtrips [of 40303604944347137 5] by (simp add: snowIDMin_sint)

text \<open>Every 16-byte UID survives its text, JSON, binary and database forms; \<open>NewUIDFromHex\<close> reads
  its string back exactly when its version is 7.\<close>

theorem uid_roundtrips:
  assumes "uuid_laws parse" "length u = 16"
  shows "UID_UnmarshalText parse (UID_MarshalText u) old = (None, u)
    \<and> UID_UnmarshalJSON parse (UID_MarshalJSON u) old = (None, u)
    \<and> UID_UnmarshalBinary (UID_MarshalBinary u) old = (None, u)
    \<and> UID_Scan parse (UID_Value u) old = (None, u)
    \<and> (NewUIDFromHex parse (UID_String u) = Inr u \<longleftrightarrow> UID_Version u = 7)"
proof -
  have p: "parse (hex_encode u) = Some u" using assms by (simp add: uuid_laws_def)
  have "hex_encode u \<noteq> []" using hex_encode_length [of u] assms(2) by (metis list.size(3) mult_eq_0_iff numeral_eq_iff zero_neq_numeral)
  moreover have "quote # hex_encode u @ [quote] \<noteq> ''null''" "quote # hex_encode u @ [quote] \<noteq> ''NULL''"
    by (simp_all add: quote_def)
  ultimately show ?thesis
    using p assms(2)
    by (simp add: UID_MarshalText_def UID_UnmarshalText_def UID_MarshalJSON_def UID_UnmarshalJSON_def
        UID_UnmarshalBinary_def UID_MarshalBinary_def UID_Scan_def UID_Value_def UID_String_def NewUIDFromHex_def quote_def)
qed

text \<open>A parser of 32 hexadecimal digits, for which the laws hold.\<close>

definition hex_val :: "char \<Rightarrow> nat" where
  "hex_val c = (let n = of_char c in if n < 58 then n - 48 else n - 87)"

fun hex_decode :: "string \<Rightarrow> byte list" where
  "hex_decode (a # b # s) = of_nat (16 * hex_val a + hex_val b) # hex_decode s"
| "hex_decode _ = []"

definition parse_hex :: "string \<Rightarrow> UID option" where
  "parse_hex s = (if length s = 32 \<and> length (hex_decode s) = 16 then Some (hex_decode s) else None)"

lemma hex_val_digit: "d < 16 \<Longrightarrow> hex_val (hex_digit d) = d"
  by (simp add: hex_val_def hex_digit_def)

lemma hex_decode_encode: "hex_decode (hex_encode u) = u"
proof (induction u)
  case (Cons b u)
  have "unat b < 256" by (rule order.strict_trans2 [OF unsigned_less]) simp
  then have "unat b div 16 < 16" "unat b mod 16 < 16" by (simp_all add: less_mult_imp_div_less)
  then show ?case using Cons by (simp add: hex_encode_def hex_byte_def hex_val_digit)
qed (simp add: hex_encode_def)

lemma parse_hex_laws: "uuid_laws parse_hex"
  by (auto simp: uuid_laws_def parse_hex_def hex_decode_encode)

lemma uid_roundtrips_witness:
  "UID_UnmarshalJSON parse_hex (UID_MarshalJSON (replicate 6 1 @ [0x7a] @ replicate 9 2)) ZeroUID
    = (None, replicate 6 1 @ [0x7a] @ replicate 9 2)"
  using uid_roundtrips [OF parse_hex_laws, of "replicate 6 1 @ [0x7a] @ replicate 9 2" ZeroUID] by simp

end
