(* ===== verification/Base64.thy ===== *)
theory Base64
  imports IdTypes
begin

text \<open>
  Go's \<open>base64.RawURLEncoding\<close>, which \<open>pkg/ids/uid.go\<close> and \<open>internal/app/shared/crypto/sign.go\<close> use: no padding, the
  URL alphabet, carriage returns and line feeds of the text skipped, the unused bits of the last character not checked.
  The locale states what a text form of data promises; the encoding is one, and so is the base64 form of a UID.
\<close>

section \<open>Text forms\<close>

locale text_codec =
  fixes encode :: "'a \<Rightarrow> string" and decode :: "string \<Rightarrow> 'a option" and valid :: "'a \<Rightarrow> bool"
  assumes decode_encode: "valid x \<Longrightarrow> decode (encode x) = Some x"
begin

lemma encode_inject: "valid x \<Longrightarrow> valid y \<Longrightarrow> encode x = encode y \<longleftrightarrow> x = y"
  by (metis decode_encode option.inject)

lemma encode_list_inject:
  "list_all valid xs \<Longrightarrow> list_all valid ys \<Longrightarrow> map encode xs = map encode ys \<longleftrightarrow> xs = ys"
  by (induction xs arbitrary: ys; case_tac ys) (auto simp: encode_inject)

end

section \<open>RawURLEncoding\<close>

definition b64_char :: "nat \<Rightarrow> char" where
  "b64_char s = (if s < 26 then char_of (65 + s) else if s < 52 then char_of (71 + s)
     else if s < 62 then char_of (s - 4) else if s = 62 then CHR ''-'' else CHR ''_'')"

definition b64_val :: "char \<Rightarrow> nat option" where
  "b64_val c = (let n = (of_char c :: nat) in
     if 65 \<le> n \<and> n \<le> 90 then Some (n - 65) else if 97 \<le> n \<and> n \<le> 122 then Some (n - 71)
     else if 48 \<le> n \<and> n \<le> 57 then Some (n + 4) else if n = 45 then Some 62 else if n = 95 then Some 63 else None)"

fun sextets :: "nat list \<Rightarrow> nat list" where
  "sextets [] = []"
| "sextets [a] = [a div 4, a mod 4 * 16]"
| "sextets [a, b] = [a div 4, a mod 4 * 16 + b div 16, b mod 16 * 4]"
| "sextets (a # b # c # bs) = a div 4 # (a mod 4 * 16 + b div 16) # (b mod 16 * 4 + c div 64) # c mod 64 # sextets bs"

fun octets :: "nat list \<Rightarrow> nat list option" where
  "octets [] = Some []"
| "octets [s] = None"
| "octets [s, t] = Some [s * 4 + t div 16]"
| "octets [s, t, u] = Some [s * 4 + t div 16, t mod 16 * 16 + u div 4]"
| "octets (s # t # u # v # ss) =
     map_option (\<lambda>bs. (s * 4 + t div 16) # (t mod 16 * 16 + u div 4) # (u mod 4 * 64 + v) # bs) (octets ss)"

definition raw_encode :: "byte list \<Rightarrow> string" where
  "raw_encode bs = map b64_char (sextets (map unat bs))"

definition raw_decode :: "string \<Rightarrow> byte list option" where
  "raw_decode s =
     (let cs = filter (\<lambda>c. c \<noteq> CHR 0x0A \<and> c \<noteq> CHR 0x0D) s; vals = map b64_val cs in
      if None \<in> set vals then None
      else map_option (map of_nat) (octets (map the vals)))"

section \<open>UIDs\<close>

definition UID_ToBase64 :: "UID \<Rightarrow> string" where
  "UID_ToBase64 u = raw_encode u"

definition NewUIDFromBase64 :: "string \<Rightarrow> string + UID" where
  "NewUIDFromBase64 s =
     (case raw_decode s of
        None \<Rightarrow> Inl ''illegal base64 data''
      | Some out \<Rightarrow> if length out \<noteq> 16 then Inl (''invalid UUID length (expected 16 bytes, got '' @ Itoa (int (length out)) @ '' bytes)'')
                    else Inr out)"

section \<open>Lemmas\<close>

lemma b64_val_char: "s < 64 \<Longrightarrow> b64_val (b64_char s) = Some s"
  by (auto simp: b64_val_def b64_char_def Let_def)

lemma b64_char_text: "s < 64 \<Longrightarrow> b64_char s \<noteq> CHR 0x0A \<and> b64_char s \<noteq> CHR 0x0D"
  using b64_val_char [of s] by (auto simp: b64_val_def)

lemma sextet_bounds:
  fixes a b :: nat
  shows "a < 256 \<Longrightarrow> a div 4 < 64" "b < 256 \<Longrightarrow> a mod 4 * 16 + b div 16 < 64" "b < 256 \<Longrightarrow> a mod 16 * 4 + b div 64 < 64"
    "a mod 4 * 16 < 64" "a mod 16 * 4 < 64" "a mod 64 < 64"
proof -
  have m: "a mod 4 < 4" "a mod 16 < 16" "a mod 64 < 64" by simp_all
  then show "a mod 4 * 16 < 64" "a mod 16 * 4 < 64" "a mod 64 < 64" by linarith+
  show "a < 256 \<Longrightarrow> a div 4 < 64" by auto
  show "b < 256 \<Longrightarrow> a mod 4 * 16 + b div 16 < 64"
  proof -
    assume "b < 256"
    then have "b div 16 < 16" by auto
    with m(1) show ?thesis by linarith
  qed
  show "b < 256 \<Longrightarrow> a mod 16 * 4 + b div 64 < 64"
  proof -
    assume "b < 256"
    then have "b div 64 < 4" by auto
    with m(2) show ?thesis by linarith
  qed
qed

lemma sextets_bound: "\<forall>b\<in>set bs. b < 256 \<Longrightarrow> \<forall>s\<in>set (sextets bs). s < 64"
  by (induction bs rule: sextets.induct) (simp_all add: sextet_bounds del: mult_Suc_right)

lemma byte_bound: "unat (b :: byte) < 256"
  using unsigned_less [of b, where 'a = nat] by simp

lemma octets_sextets: "\<forall>b\<in>set bs. b < 256 \<Longrightarrow> octets (sextets bs) = Some bs"
  by (induction bs rule: sextets.induct) auto

lemma length_sextets: "length (sextets bs) = (4 * length bs + 2) div 3"
  by (induction bs rule: sextets.induct) auto

lemma raw_decode_encode: "raw_decode (raw_encode bs) = Some bs"
proof -
  have b: "\<forall>s\<in>set (sextets (map unat bs)). s < 64"
    by (rule sextets_bound) (auto simp: byte_bound)
  have o: "octets (sextets (map unat bs)) = Some (map unat bs)"
    by (rule octets_sextets) (auto simp: byte_bound)
  have "filter (\<lambda>c. c \<noteq> CHR 0x0A \<and> c \<noteq> CHR 0x0D) (map b64_char ss) = map b64_char ss" if "\<forall>s\<in>set ss. s < 64" for ss
    using that by (induction ss) (simp_all add: b64_char_text)
  moreover have "map b64_val (map b64_char ss) = map Some ss" if "\<forall>s\<in>set ss. s < 64" for ss
    using that by (induction ss) (simp_all add: b64_val_char)
  ultimately show ?thesis using b o by (auto simp: raw_decode_def raw_encode_def Let_def comp_def map_idI)
qed

interpretation raw64: text_codec raw_encode raw_decode "\<lambda>_. True"
  by unfold_locales (rule raw_decode_encode)

interpretation uid64: text_codec UID_ToBase64 "\<lambda>s. case NewUIDFromBase64 s of Inl _ \<Rightarrow> None | Inr u \<Rightarrow> Some u" "\<lambda>u. length u = 16"
  by unfold_locales (simp add: UID_ToBase64_def NewUIDFromBase64_def raw_decode_encode)

lemma raw_decode_newline: "raw_decode (s @ replicate n CHR 0x0A) = raw_decode s"
  by (simp add: raw_decode_def)

section \<open>Properties\<close>

text \<open>C35. The base64 form of a UID is 22 characters of the URL alphabet, different for different UIDs, and read back; but
  a UID can be read from infinitely many other texts, so the text is no key for it.\<close>

theorem uid_base64:
  assumes "length u = 16"
  shows "NewUIDFromBase64 (UID_ToBase64 u) = Inr u \<and> length (UID_ToBase64 u) = 22
    \<and> (\<forall>c\<in>set (UID_ToBase64 u). b64_val c \<noteq> None)
    \<and> (length v = 16 \<longrightarrow> (UID_ToBase64 u = UID_ToBase64 v \<longleftrightarrow> u = v))
    \<and> infinite {s. NewUIDFromBase64 s = Inr u}"
proof -
  have r: "NewUIDFromBase64 (UID_ToBase64 u) = Inr u"
    using assms by (simp add: UID_ToBase64_def NewUIDFromBase64_def raw_decode_encode)
  have l: "length (UID_ToBase64 u) = 22" using assms by (simp add: UID_ToBase64_def raw_encode_def length_sextets)
  have "\<forall>s\<in>set (sextets (map unat u)). s < 64"
    by (rule sextets_bound) (auto simp: byte_bound)
  then have a: "\<forall>c\<in>set (UID_ToBase64 u). b64_val c \<noteq> None"
    by (auto simp: UID_ToBase64_def raw_encode_def b64_val_char)
  have "range (\<lambda>n. UID_ToBase64 u @ replicate n CHR 0x0A) \<subseteq> {s. NewUIDFromBase64 s = Inr u}"
    using r by (auto simp: NewUIDFromBase64_def raw_decode_newline)
  moreover have "infinite (range (\<lambda>n. UID_ToBase64 u @ replicate n CHR 0x0A))"
    by (rule notI, drule finite_imageD) (auto simp: inj_on_def)
  ultimately have "infinite {s. NewUIDFromBase64 s = Inr u}" by (rule infinite_super)
  with r l a uid64.encode_inject [OF assms] show ?thesis by blast
qed

lemma uid_base64_witness:
  "NewUIDFromBase64 (UID_ToBase64 (replicate 16 7)) = Inr (replicate 16 7) \<and> length (UID_ToBase64 (replicate 16 7)) = 22"
  using uid_base64 [of "replicate 16 7"] by simp

end
