(* ===== verification/Regexps.thy ===== *)
theory Regexps
  imports GoStrings
begin

text \<open>
  What \<open>pkg/strs/str.go\<close> uses of Go's \<open>regexp\<close> and \<open>unicode/utf8\<close>: expressions over classes of ASCII characters,
  \<open>MatchString\<close> with and without the anchors, and \<open>RuneCountInString\<close> on arbitrary bytes. The classes of the
  program's expressions hold ASCII characters only, so matching bytes is matching runes.
\<close>

section \<open>Expressions\<close>

datatype rx = Never | Nothing | Cls "(char \<times> char) list" | Cat rx rx | Alt rx rx | Many rx

definition in_class :: "(char \<times> char) list \<Rightarrow> char \<Rightarrow> bool" where
  "in_class rs c \<longleftrightarrow> list_ex (\<lambda>(a, b). (of_char a :: nat) \<le> of_char c \<and> (of_char c :: nat) \<le> of_char b) rs"

lemma in_class_one: "in_class ((a, a) # rs) c \<longleftrightarrow> c = a \<or> in_class rs c"
  by (auto simp: in_class_def dest: antisym)

definition Lit :: "char \<Rightarrow> rx" where "Lit c = Cls [(c, c)]"
definition Opt :: "rx \<Rightarrow> rx" where "Opt r = Alt r Nothing"
definition Some_of :: "rx \<Rightarrow> rx" where "Some_of r = Cat r (Many r)"

fun Times :: "nat \<Rightarrow> rx \<Rightarrow> rx" where
  "Times 0 r = Nothing"
| "Times (Suc n) r = Cat r (Times n r)"

fun Upto :: "nat \<Rightarrow> rx \<Rightarrow> rx" where
  "Upto 0 r = Nothing"
| "Upto (Suc n) r = Opt (Cat r (Upto n r))"

definition Between :: "nat \<Rightarrow> nat \<Rightarrow> rx \<Rightarrow> rx" where
  "Between m n r = Cat (Times m r) (Upto (n - m) r)"

fun Word :: "string \<Rightarrow> rx" where
  "Word [] = Nothing"
| "Word (c # s) = Cat (Lit c) (Word s)"

text \<open>The strings an expression stands for.\<close>

inductive accepts :: "rx \<Rightarrow> string \<Rightarrow> bool" where
  acc_nothing: "accepts Nothing []"
| acc_class: "in_class rs c \<Longrightarrow> accepts (Cls rs) [c]"
| acc_cat: "accepts r s \<Longrightarrow> accepts q t \<Longrightarrow> accepts (Cat r q) (s @ t)"
| acc_left: "accepts r s \<Longrightarrow> accepts (Alt r q) s"
| acc_right: "accepts q s \<Longrightarrow> accepts (Alt r q) s"
| acc_stop: "accepts (Many r) []"
| acc_more: "accepts r s \<Longrightarrow> accepts (Many r) t \<Longrightarrow> accepts (Many r) (s @ t)"

inductive_simps accepts_Never [simp]: "accepts Never s"
inductive_simps accepts_Nothing [simp]: "accepts Nothing s"
inductive_simps accepts_Cls: "accepts (Cls rs) s"
inductive_simps accepts_Cat: "accepts (Cat r q) s"
inductive_simps accepts_Alt [simp]: "accepts (Alt r q) s"

text \<open>A match read one byte at a time: what is left to match after a byte.\<close>

primrec may_stop :: "rx \<Rightarrow> bool" where
  "may_stop Never \<longleftrightarrow> False"
| "may_stop Nothing \<longleftrightarrow> True"
| "may_stop (Cls rs) \<longleftrightarrow> False"
| "may_stop (Cat r q) \<longleftrightarrow> may_stop r \<and> may_stop q"
| "may_stop (Alt r q) \<longleftrightarrow> may_stop r \<or> may_stop q"
| "may_stop (Many r) \<longleftrightarrow> True"

text \<open>The two constructors below drop what can never match, so that the rest stays small.\<close>

definition cat :: "rx \<Rightarrow> rx \<Rightarrow> rx" where
  "cat r q = (if r = Never then Never else if r = Nothing then q else Cat r q)"

definition alt :: "rx \<Rightarrow> rx \<Rightarrow> rx" where
  "alt r q = (if r = Never \<or> r = q then q else if q = Never then r else Alt r q)"

primrec after :: "char \<Rightarrow> rx \<Rightarrow> rx" where
  "after c Never = Never"
| "after c Nothing = Never"
| "after c (Cls rs) = (if in_class rs c then Nothing else Never)"
| "after c (Cat r q) = alt (cat (after c r) q) (if may_stop r then after c q else Never)"
| "after c (Alt r q) = alt (after c r) (after c q)"
| "after c (Many r) = cat (after c r) (Many r)"

fun rx_match :: "rx \<Rightarrow> string \<Rightarrow> bool" where
  "rx_match r [] \<longleftrightarrow> may_stop r"
| "rx_match r (c # s) \<longleftrightarrow> rx_match (after c r) s"

text \<open>\<open>regexp.MatchString\<close>: a compiled expression and whether it begins with \<open>^\<close> and ends with \<open>$\<close>.\<close>

definition Anything :: rx where "Anything = Many (Cls [(char_of (0 :: nat), char_of (255 :: nat))])"

record Regexp =
  re_begin :: bool
  re_body :: rx
  re_end :: bool

definition MatchString :: "Regexp \<Rightarrow> string \<Rightarrow> bool" where
  "MatchString p s =
     rx_match (Cat (if re_begin p then Nothing else Anything) (Cat (re_body p) (if re_end p then Nothing else Anything))) s"

section \<open>Matching is acceptance\<close>

lemma may_stop_accepts: "may_stop r \<longleftrightarrow> accepts r []"
proof
  show "may_stop r \<Longrightarrow> accepts r []"
    by (induction r) (auto intro: accepts.intros acc_cat [where s = "[]" and t = "[]", simplified])
next
  have "accepts r s \<Longrightarrow> s = [] \<Longrightarrow> may_stop r" for s
    by (induction rule: accepts.induct) auto
  then show "accepts r [] \<Longrightarrow> may_stop r" by blast
qed

lemma accepts_cat [simp]: "accepts (cat r q) s \<longleftrightarrow> accepts (Cat r q) s"
  by (auto simp: cat_def accepts_Cat)

lemma accepts_alt [simp]: "accepts (alt r q) s \<longleftrightarrow> accepts r s \<or> accepts q s"
  by (auto simp: alt_def)

lemma accepts_Many_Cons: "accepts (Many r) (c # s) \<longleftrightarrow> (\<exists>u v. s = u @ v \<and> accepts r (c # u) \<and> accepts (Many r) v)"
proof
  have "accepts q t \<Longrightarrow> q = Many r \<Longrightarrow> t = c # s \<Longrightarrow> \<exists>u v. s = u @ v \<and> accepts r (c # u) \<and> accepts (Many r) v" for q t
  proof (induction rule: accepts.induct)
    case (acc_more r' x y)
    then show ?case by (cases x) auto
  qed simp_all
  then show "accepts (Many r) (c # s) \<Longrightarrow> \<exists>u v. s = u @ v \<and> accepts r (c # u) \<and> accepts (Many r) v" by blast
next
  assume "\<exists>u v. s = u @ v \<and> accepts r (c # u) \<and> accepts (Many r) v"
  then obtain u v where "s = u @ v" "accepts r (c # u)" "accepts (Many r) v" by blast
  then show "accepts (Many r) (c # s)" using acc_more [of r "c # u" v] by simp
qed

lemma accepts_Cat_Cons:
  "accepts (Cat r q) (c # s) \<longleftrightarrow>
     (\<exists>u v. s = u @ v \<and> accepts r (c # u) \<and> accepts q v) \<or> accepts r [] \<and> accepts q (c # s)"
  by (auto simp: accepts_Cat Cons_eq_append_conv)

lemma accepts_after: "accepts (after c r) s \<longleftrightarrow> accepts r (c # s)"
proof (induction r arbitrary: s)
  case (Cat r q)
  then show ?case unfolding accepts_Cat_Cons by (auto simp: accepts_Cat may_stop_accepts)
next
  case (Many r)
  then show ?case unfolding accepts_Many_Cons by (auto simp: accepts_Cat)
qed (auto simp: accepts_Cls)

lemma rx_match_accepts: "rx_match r s \<longleftrightarrow> accepts r s"
  by (induction r s rule: rx_match.induct) (simp_all add: may_stop_accepts accepts_after)

lemma accepts_Anything [simp]: "accepts Anything s"
proof (induction s)
  case Nil
  show ?case by (simp add: Anything_def acc_stop)
next
  case (Cons c s)
  have "(of_char c :: nat) \<le> 255" using nat_of_char_less_256 [of c] by linarith
  then have "in_class [(char_of (0 :: nat), char_of (255 :: nat))] c" by (simp add: in_class_def)
  from acc_more [OF acc_class [OF this] Cons [unfolded Anything_def]] show ?case by (simp add: Anything_def)
qed

lemma MatchString_iff:
  "MatchString p s \<longleftrightarrow> (\<exists>a b d. s = a @ b @ d \<and> accepts (re_body p) b \<and> (re_begin p \<longrightarrow> a = []) \<and> (re_end p \<longrightarrow> d = []))"
  by (auto simp: MatchString_def rx_match_accepts accepts_Cat)

lemma MatchString_anchored: "re_begin p \<Longrightarrow> re_end p \<Longrightarrow> MatchString p s \<longleftrightarrow> accepts (re_body p) s"
  by (auto simp: MatchString_iff)

section \<open>Repeated classes\<close>

lemma accepts_Lit [simp]: "accepts (Lit c) s \<longleftrightarrow> s = [c]"
  by (auto simp: Lit_def accepts_Cls in_class_def dest: antisym)

lemma accepts_Opt [simp]: "accepts (Opt r) s \<longleftrightarrow> s = [] \<or> accepts r s"
  by (auto simp: Opt_def)

lemma accepts_Word: "accepts (Word w) s \<longleftrightarrow> s = w"
  by (induction w arbitrary: s) (auto simp: accepts_Cat)

lemma accepts_Cat_Lit: "accepts (Cat (Lit c) q) s \<longleftrightarrow> (\<exists>t. s = c # t \<and> accepts q t)"
  by (auto simp: accepts_Cat)

lemma accepts_Cat_Cls: "accepts (Cat (Cls rs) q) s \<longleftrightarrow> (\<exists>c t. s = c # t \<and> in_class rs c \<and> accepts q t)"
proof
  assume "\<exists>c t. s = c # t \<and> in_class rs c \<and> accepts q t"
  then obtain c t where "s = [c] @ t" "in_class rs c" "accepts q t" by auto
  then show "accepts (Cat (Cls rs) q) s" by (metis acc_cat acc_class)
qed (auto simp: accepts_Cat accepts_Cls)

lemma accepts_Many_Cls [simp]: "accepts (Many (Cls rs)) s \<longleftrightarrow> list_all (in_class rs) s"
proof (induction s)
  case Nil
  show ?case by (simp add: acc_stop)
next
  case (Cons c s)
  then show ?case by (auto simp: accepts_Many_Cons accepts_Cls)
qed

lemma accepts_Times_Cls [simp]: "accepts (Times n (Cls rs)) s \<longleftrightarrow> length s = n \<and> list_all (in_class rs) s"
proof (induction n arbitrary: s)
  case (Suc n)
  then show ?case by (cases s) (auto simp: accepts_Cat_Cls)
qed auto

lemma accepts_Upto_Cls [simp]: "accepts (Upto n (Cls rs)) s \<longleftrightarrow> length s \<le> n \<and> list_all (in_class rs) s"
proof (induction n arbitrary: s)
  case (Suc n)
  then show ?case by (cases s) (auto simp: accepts_Cat_Cls)
qed auto

lemma accepts_Between_Cls:
  assumes "m \<le> n"
  shows "accepts (Between m n (Cls rs)) s \<longleftrightarrow> m \<le> length s \<and> length s \<le> n \<and> list_all (in_class rs) s"
proof
  assume "accepts (Between m n (Cls rs)) s"
  with assms show "m \<le> length s \<and> length s \<le> n \<and> list_all (in_class rs) s"
    by (auto simp: Between_def accepts_Cat)
next
  assume r: "m \<le> length s \<and> length s \<le> n \<and> list_all (in_class rs) s"
  then have "accepts (Times m (Cls rs)) (take m s)" "accepts (Upto (n - m) (Cls rs)) (drop m s)"
    by (auto simp: list_all_iff dest: in_set_takeD in_set_dropD)
  from acc_cat [OF this] show "accepts (Between m n (Cls rs)) s" by (simp add: Between_def)
qed

lemma accepts_Some_of_Cls [simp]: "accepts (Some_of (Cls rs)) s \<longleftrightarrow> s \<noteq> [] \<and> list_all (in_class rs) s"
  by (cases s) (auto simp: Some_of_def accepts_Cat_Cls)

text \<open>Every byte of an accepted string is in a class of the expression.\<close>

primrec rx_chars :: "rx \<Rightarrow> char set" where
  "rx_chars Never = {}"
| "rx_chars Nothing = {}"
| "rx_chars (Cls rs) = {c. in_class rs c}"
| "rx_chars (Cat r q) = rx_chars r \<union> rx_chars q"
| "rx_chars (Alt r q) = rx_chars r \<union> rx_chars q"
| "rx_chars (Many r) = rx_chars r"

lemma accepts_chars: "accepts r s \<Longrightarrow> set s \<subseteq> rx_chars r"
  by (induction rule: accepts.induct) auto

lemma rx_chars_simps [simp]:
  "rx_chars (Lit c) = {c}" "rx_chars (Opt r) = rx_chars r" "rx_chars (Some_of r) = rx_chars r"
  by (auto simp: Lit_def Opt_def Some_of_def in_class_def dest: antisym)

section \<open>Runes\<close>

text \<open>The number of bytes of the first rune; a byte that does not begin a rune counts as one rune.\<close>

definition byteval :: "char \<Rightarrow> nat" where "byteval c = of_char c"

definition rune_len :: "string \<Rightarrow> nat" where
  "rune_len s =
     (let tail = (\<lambda>i. i < length s \<and> 128 \<le> byteval (s ! i) \<and> byteval (s ! i) \<le> 191);
          second = (\<lambda>lo hi. 1 < length s \<and> lo \<le> byteval (s ! 1) \<and> byteval (s ! 1) \<le> hi)
      in case s of [] \<Rightarrow> 1 | c # _ \<Rightarrow>
        let b = byteval c in
        if 194 \<le> b \<and> b \<le> 223 then (if tail 1 then 2 else 1)
        else if 224 \<le> b \<and> b \<le> 239
        then (if second (if b = 224 then 160 else 128) (if b = 237 then 159 else 191) \<and> tail 2 then 3 else 1)
        else if 240 \<le> b \<and> b \<le> 244
        then (if second (if b = 240 then 144 else 128) (if b = 244 then 143 else 191) \<and> tail 2 \<and> tail 3 then 4 else 1)
        else 1)"

lemma rune_len_range: "1 \<le> rune_len s \<and> rune_len s \<le> 4"
  by (simp add: rune_len_def Let_def split: list.splits)

lemma rune_len_pos [simp]: "0 < rune_len s"
  using rune_len_range [of s] by linarith

function RuneCountInString :: "string \<Rightarrow> nat" where
  "RuneCountInString s = (if s = [] then 0 else Suc (RuneCountInString (drop (rune_len s) s)))"
  by auto
termination by (relation "measure length") (auto simp: rune_len_pos)

declare RuneCountInString.simps [simp del]

text \<open>The UTF-8 text of a code point.\<close>

definition scalar :: "nat \<Rightarrow> bool" where
  "scalar n \<longleftrightarrow> n < 0xD800 \<or> 0xE000 \<le> n \<and> n < 0x110000"

definition utf8 :: "nat \<Rightarrow> string" where
  "utf8 n = map char_of
     (if n < 0x80 then [n]
      else if n < 0x800 then [0xC0 + n div 64, 0x80 + n mod 64]
      else if n < 0x10000 then [0xE0 + n div 4096, 0x80 + n div 64 mod 64, 0x80 + n mod 64]
      else [0xF0 + n div 262144, 0x80 + n div 4096 mod 64, 0x80 + n div 64 mod 64, 0x80 + n mod 64])"

lemma byteval_char_of [simp]: "n < 256 \<Longrightarrow> byteval (char_of n) = n"
  by (simp add: byteval_def)

lemma rune_len_utf8:
  assumes "scalar n"
  shows "rune_len (utf8 n @ s) = length (utf8 n)"
proof -
  consider "n < 0x80" | "0x80 \<le> n" "n < 0x800" | "0x800 \<le> n" "n < 0x10000" | "0x10000 \<le> n"
    by linarith
  then show ?thesis
  proof cases
    case 1
    then show ?thesis by (simp add: utf8_def rune_len_def)
  next
    case 2
    then have "2 \<le> n div 64" "n div 64 < 32" by auto
    with 2 show ?thesis by (simp add: utf8_def rune_len_def)
  next
    case 3
    then have "n div 64 = 64 * (n div 4096) + n div 64 mod 64" by (simp add: div_mult2_eq [of n 64 64, simplified])
    moreover have "32 \<le> n div 64" "n div 4096 < 16" using 3 by auto
    moreover have "n div 64 < 864 \<or> 896 \<le> n div 64" using assms by (auto simp: scalar_def)
    ultimately have "n div 4096 = 0 \<longrightarrow> 32 \<le> n div 64 mod 64" "n div 4096 = 13 \<longrightarrow> n div 64 mod 64 \<le> 31"
      by auto
    moreover have "n div 4096 = 0 \<longrightarrow> n div 64 \<le> 63" by auto
    moreover have "\<And>m :: nat. m mod 64 \<le> 63" by (simp add: less_Suc_eq_le [symmetric])
    ultimately show ?thesis using 3 \<open>n div 4096 < 16\<close> by (simp add: utf8_def rune_len_def)
  next
    case 4
    have "n div 4096 = 64 * (n div 262144) + n div 4096 mod 64" by (simp add: div_mult2_eq [of n 4096 64, simplified])
    moreover have m: "\<And>m :: nat. m mod 64 \<le> 63" by (simp add: less_Suc_eq_le [symmetric])
    moreover have "n div 262144 = 0 \<longrightarrow> n div 4096 \<le> 63" by auto
    moreover have "16 \<le> n div 4096" "n div 262144 < 5" "n div 4096 < 272" using 4 assms by (auto simp: scalar_def)
    ultimately have "n div 262144 = 0 \<longrightarrow> 16 \<le> n div 4096 mod 64" "n div 262144 = 4 \<longrightarrow> n div 4096 mod 64 \<le> 15"
      and "n div 262144 = 0 \<longrightarrow> n div 4096 \<le> 63" by auto
    with 4 m \<open>n div 262144 < 5\<close> show ?thesis by (simp add: utf8_def rune_len_def numeral_3_eq_3)
  qed
qed

lemma utf8_nonempty [simp]: "utf8 n \<noteq> []" by (simp add: utf8_def)

lemma RuneCount_utf8: "list_all scalar ns \<Longrightarrow> RuneCountInString (concat (map utf8 ns)) = length ns"
proof (induction ns)
  case Nil
  show ?case by (simp add: RuneCountInString.simps)
next
  case (Cons n ns)
  then show ?case
    using RuneCountInString.simps [of "utf8 n @ concat (map utf8 ns)"] by (simp add: rune_len_utf8)
qed

lemma RuneCount_bounds: "RuneCountInString s \<le> length s \<and> length s \<le> 4 * RuneCountInString s"
proof (induction s rule: RuneCountInString.induct)
  case (1 s)
  show ?case
  proof (cases "s = []")
    case True
    then show ?thesis by (simp add: RuneCountInString.simps)
  next
    case False
    with 1 have "RuneCountInString (drop (rune_len s) s) \<le> length (drop (rune_len s) s)
      \<and> length (drop (rune_len s) s) \<le> 4 * RuneCountInString (drop (rune_len s) s)" by blast
    moreover have "0 < length s" using False by simp
    moreover have "1 \<le> rune_len s" "rune_len s \<le> 4" using rune_len_range by blast+
    moreover have "RuneCountInString s = Suc (RuneCountInString (drop (rune_len s) s))"
      using False by (subst RuneCountInString.simps) simp
    ultimately show ?thesis unfolding length_drop by linarith
  qed
qed

lemma RuneCount_ascii: "\<forall>c\<in>set s. byteval c < 128 \<Longrightarrow> RuneCountInString s = length s"
proof (induction s)
  case Nil
  show ?case by (simp add: RuneCountInString.simps)
next
  case (Cons c s)
  then have "rune_len (c # s) = 1" by (simp add: rune_len_def)
  with Cons show ?case by (simp add: RuneCountInString.simps [of "c # s"])
qed

end
