(* ===== verification/Strs.thy ===== *)
theory Strs
  imports Regexps
begin

text \<open>
  \<open>pkg/strs\<close>: padding, masking and splitting (\<open>format.go\<close>), and the validators of \<open>str.go\<close> with their
  regular expressions and rune counts over byte strings. The lemmas \<open>_iff\<close> read each expression as a condition
  on the string.
\<close>

section \<open>Formatting\<close>

definition Repeat :: "string \<Rightarrow> int \<Rightarrow> string" where
  "Repeat s n = concat (replicate (nat n) s)"

definition PadLeft :: "string \<Rightarrow> int \<Rightarrow> string \<Rightarrow> string" where
  "PadLeft val fixLen char =
     (if int (length val) \<ge> fixLen then val else Repeat char (fixLen - int (length val)) @ val)"

definition PadLeftInt :: "int64 \<Rightarrow> int \<Rightarrow> string \<Rightarrow> string" where
  "PadLeftInt num fixLen char =
     (let val = Itoa (sint num) in
      if int (length val) \<ge> fixLen then val else Repeat char (fixLen - int (length val)) @ val)"

definition PadRight :: "string \<Rightarrow> int \<Rightarrow> string \<Rightarrow> string" where
  "PadRight val fixLen char =
     (if int (length val) \<ge> fixLen then val else val @ Repeat char (fixLen - int (length val)))"

definition PadRightInt :: "int64 \<Rightarrow> int \<Rightarrow> string \<Rightarrow> string" where
  "PadRightInt num fixLen char =
     (let val = Itoa (sint num) in
      if int (length val) \<ge> fixLen then val else val @ Repeat char (fixLen - int (length val)))"

text \<open>Slicing a string shorter than the bound panics.\<close>

definition MaskPhone :: "string \<Rightarrow> string outcome" where
  "MaskPhone phone =
     (if length phone < 3 then Panic ''slice bounds out of range''
      else if length phone < 7 then Panic ''slice bounds out of range''
      else Ret (take 3 phone @ ''****'' @ drop 7 phone))"

definition SplitTrimmed :: "string \<Rightarrow> string \<Rightarrow> string list" where
  "SplitTrimmed str sep =
     (if length str \<le> 0 then []
      else fold (\<lambda>v items. let val = TrimSpace v in if 0 < length val then items @ [val] else items)
             (Split str sep) [])"

section \<open>Validators\<close>

definition Digit :: rx where "Digit = Cls [(CHR ''0'', CHR ''9'')]"
definition Hex :: rx where "Hex = Cls [(CHR ''a'', CHR ''f''), (CHR ''A'', CHR ''F''), (CHR ''0'', CHR ''9'')]"
definition Wordchar :: rx where
  "Wordchar = Cls [(CHR ''0'', CHR ''9''), (CHR ''A'', CHR ''Z''), (CHR ''_'', CHR ''_''), (CHR ''a'', CHR ''z'')]"

definition urlRegexStr :: rx where
  "urlRegexStr =
     Cat (Cat (Alt (Word ''http'') (Alt (Word ''ftp'') (Word ''https''))) (Word ''://''))
    (Cat (Alt (Cat (Some_of (Cls [(CHR ''a'', CHR ''z''), (CHR ''A'', CHR ''Z''), (CHR ''0'', CHR ''9''),
                                   (CHR ''.'', CHR ''.''), (CHR ''_'', CHR ''_''), (CHR ''-'', CHR ''-'')]))
              (Cat (Lit CHR ''.'') (Between 2 6 (Cls [(CHR ''a'', CHR ''z''), (CHR ''A'', CHR ''Z'')]))))
              (Cat (Between 1 3 Digit) (Cat (Lit CHR ''.'')
              (Cat (Between 1 3 Digit) (Cat (Lit CHR ''.'')
              (Cat (Between 1 3 Digit) (Cat (Lit CHR ''.'') (Between 1 3 Digit))))))))
    (Cat (Many (Cat (Lit CHR '':'') (Between 1 4 Digit)))
         (Opt (Cat (Lit CHR ''/'') (Many (Cls [(CHR ''a'', CHR ''z''), (CHR ''A'', CHR ''Z''), (CHR ''0'', CHR ''9''),
            (CHR ''&'', CHR ''&''), (CHR ''%'', CHR ''%''), (CHR ''_'', CHR ''_''), (CHR ''.'', CHR ''.''),
            (CHR ''/'', CHR ''~''), (CHR ''-'', CHR ''-'')]))))))"

definition emailRegexStr :: rx where
  "emailRegexStr =
     Cat (Some_of Wordchar)
    (Cat (Many (Cat (Cls [(CHR ''-'', CHR ''-''), (CHR ''+'', CHR ''+''), (CHR ''.'', CHR ''.'')]) (Some_of Wordchar)))
    (Cat (Lit CHR ''@'')
    (Cat (Some_of Wordchar)
    (Cat (Many (Cat (Cls [(CHR ''-'', CHR ''-''), (CHR ''.'', CHR ''.'')]) (Some_of Wordchar)))
    (Cat (Lit CHR ''.'')
    (Cat (Some_of Wordchar)
         (Many (Cat (Cls [(CHR ''-'', CHR ''-''), (CHR ''.'', CHR ''.'')]) (Some_of Wordchar)))))))))"

abbreviation anchored :: "rx \<Rightarrow> Regexp" where
  "anchored r \<equiv> \<lparr>re_begin = True, re_body = r, re_end = True\<rparr>"

definition countryCodeRegex :: Regexp where "countryCodeRegex = anchored (Times 3 Digit)"

definition phoneRegex :: Regexp where
  "phoneRegex = anchored (Cat (Lit CHR ''1'') (Cat (Cls [(CHR ''3'', CHR ''9'')]) (Times 9 Digit)))"

definition telephoneRegex :: Regexp where
  "telephoneRegex = anchored (Cat (Opt (Cat (Between 3 4 Digit) (Lit CHR ''-''))) (Between 6 8 Digit))"

definition urlRegex :: Regexp where "urlRegex = \<lparr>re_begin = False, re_body = urlRegexStr, re_end = False\<rparr>"
definition emailRegex :: Regexp where "emailRegex = anchored emailRegexStr"
definition colorRegex :: Regexp where "colorRegex = anchored (Cat (Lit CHR ''#'') (Times 8 Hex))"
definition numberRegex :: Regexp where "numberRegex = anchored (Many Digit)"

definition IsFixedLengthInt :: "string \<Rightarrow> int \<Rightarrow> bool" where
  "IsFixedLengthInt value l \<longleftrightarrow> (if int (RuneCountInString value) \<noteq> l then False else Atoi value \<noteq> None)"

definition IsLengthInRange :: "string \<Rightarrow> int \<Rightarrow> int \<Rightarrow> bool" where
  "IsLengthInRange value mn mx \<longleftrightarrow> (let l = int (RuneCountInString value) in l \<ge> mn \<and> l \<le> mx)"

definition IsEmpty :: "string \<Rightarrow> bool" where
  "IsEmpty value \<longleftrightarrow> RuneCountInString value = 0"

definition Length :: "string \<Rightarrow> nat" where
  "Length value = RuneCountInString value"

definition IsCellPhone :: "string \<Rightarrow> bool" where
  "IsCellPhone value \<longleftrightarrow> MatchString phoneRegex value"

definition IsCountryCode :: "string \<Rightarrow> bool" where
  "IsCountryCode value \<longleftrightarrow> MatchString countryCodeRegex value"

definition IsTelephone :: "string \<Rightarrow> bool" where
  "IsTelephone value \<longleftrightarrow> MatchString telephoneRegex value"

definition IsUrl :: "string \<Rightarrow> bool \<Rightarrow> bool" where
  "IsUrl value allowEmpty \<longleftrightarrow>
     (if allowEmpty \<and> RuneCountInString value = 0 then True else MatchString urlRegex value)"

definition IsEmail :: "string \<Rightarrow> bool" where
  "IsEmail value \<longleftrightarrow> MatchString emailRegex value"

definition IsColor :: "string \<Rightarrow> bool" where
  "IsColor value \<longleftrightarrow> MatchString colorRegex value"

definition IsNumber :: "string \<Rightarrow> bool" where
  "IsNumber value \<longleftrightarrow> MatchString numberRegex value"

section \<open>What the expressions accept\<close>

lemma in_class_digit: "in_class [(CHR ''0'', CHR ''9'')] = is_digit"
  by (simp add: fun_eq_iff in_class_def is_digit_def)

definition is_hex :: "char \<Rightarrow> bool" where
  "is_hex c \<longleftrightarrow> (let n = (of_char c :: nat) in
     (48 \<le> n \<and> n \<le> 57) \<or> (65 \<le> n \<and> n \<le> 70) \<or> (97 \<le> n \<and> n \<le> 102))"

lemma in_class_hex: "in_class [(CHR ''a'', CHR ''f''), (CHR ''A'', CHR ''F''), (CHR ''0'', CHR ''9'')] = is_hex"
  by (auto simp: fun_eq_iff in_class_def is_hex_def Let_def)

lemma IsCellPhone_iff:
  "IsCellPhone value \<longleftrightarrow> length value = 11 \<and> value ! 0 = CHR ''1''
     \<and> is_digit (value ! 1) \<and> 3 \<le> digit_val (value ! 1) \<and> list_all is_digit (drop 2 value)"
proof -
  have c: "in_class [(CHR ''3'', CHR ''9'')] c \<longleftrightarrow> is_digit c \<and> 3 \<le> digit_val c" for c
    by (auto simp: in_class_def is_digit_def digit_val_def)
  have "IsCellPhone value \<longleftrightarrow>
      (\<exists>c t. value = CHR ''1'' # c # t \<and> is_digit c \<and> 3 \<le> digit_val c \<and> length t = 9 \<and> list_all is_digit t)"
    by (auto simp: IsCellPhone_def phoneRegex_def MatchString_anchored Digit_def accepts_Cat_Lit accepts_Cat_Cls
        c in_class_digit simp del: Times.simps)
  also have "\<dots> \<longleftrightarrow> length value = 11 \<and> value ! 0 = CHR ''1''
     \<and> is_digit (value ! 1) \<and> 3 \<le> digit_val (value ! 1) \<and> list_all is_digit (drop 2 value)" (is "?l \<longleftrightarrow> ?r")
  proof
    assume r: ?r
    then obtain a b t where "value = a # b # t" by (cases "value"; cases "tl value") auto
    with r show ?l by simp
  qed auto
  finally show ?thesis .
qed

lemma IsCountryCode_iff: "IsCountryCode value \<longleftrightarrow> length value = 3 \<and> list_all is_digit value"
  by (simp add: IsCountryCode_def countryCodeRegex_def MatchString_anchored Digit_def in_class_digit del: Times.simps)

lemma IsColor_iff: "IsColor value \<longleftrightarrow> (\<exists>t. value = CHR ''#'' # t \<and> length t = 8 \<and> list_all is_hex t)"
  by (simp add: IsColor_def colorRegex_def MatchString_anchored Hex_def accepts_Cat_Lit in_class_hex del: Times.simps)

lemma IsNumber_iff: "IsNumber value \<longleftrightarrow> list_all is_digit value"
  by (simp add: IsNumber_def numberRegex_def MatchString_anchored Digit_def in_class_digit)

lemma IsTelephone_iff:
  "IsTelephone value \<longleftrightarrow>
     (\<exists>area num. (value = num \<or> value = area @ ''-'' @ num \<and> length area \<in> {3, 4} \<and> list_all is_digit area)
       \<and> length num \<in> {6, 7, 8} \<and> list_all is_digit num)"
proof -
  have n: "accepts (Between 6 8 Digit) s \<longleftrightarrow> length s \<in> {6, 7, 8} \<and> list_all is_digit s" for s
    by (auto simp: Digit_def accepts_Between_Cls in_class_digit)
  have "accepts (Between 3 4 Digit) s \<longleftrightarrow> length s \<in> {3, 4} \<and> list_all is_digit s" for s
    by (auto simp: Digit_def accepts_Between_Cls in_class_digit)
  then have a: "accepts (Opt (Cat (Between 3 4 Digit) (Lit CHR ''-''))) s \<longleftrightarrow>
      s = [] \<or> (\<exists>area. s = area @ ''-'' \<and> length area \<in> {3, 4} \<and> list_all is_digit area)" for s
    by (auto simp: accepts_Cat)
  have t: "IsTelephone value \<longleftrightarrow> (\<exists>u num. value = u @ num \<and>
      accepts (Opt (Cat (Between 3 4 Digit) (Lit CHR ''-''))) u \<and> accepts (Between 6 8 Digit) num)"
    by (simp add: IsTelephone_def telephoneRegex_def MatchString_anchored accepts_Cat [where q = "Between 6 8 Digit"]
        del: accepts_Opt)
  show ?thesis unfolding t a n
  proof (intro iffI; elim exE conjE disjE)
    fix u num area
    assume "value = u @ num" "u = area @ ''-''" "length area \<in> {3, 4}" "list_all is_digit area"
      "length num \<in> {6, 7, 8}" "list_all is_digit num"
    then show "\<exists>area num. (value = num \<or> value = area @ ''-'' @ num \<and> length area \<in> {3, 4} \<and> list_all is_digit area)
       \<and> length num \<in> {6, 7, 8} \<and> list_all is_digit num"
      by (intro exI [of _ area] exI [of _ num]) simp
  next
    fix area num
    assume "value = area @ ''-'' @ num" "length area \<in> {3, 4}" "list_all is_digit area"
      "length num \<in> {6, 7, 8}" "list_all is_digit num"
    then show "\<exists>u num. value = u @ num \<and>
        (u = [] \<or> (\<exists>area. u = area @ ''-'' \<and> length area \<in> {3, 4} \<and> list_all is_digit area))
        \<and> length num \<in> {6, 7, 8} \<and> list_all is_digit num"
      by (intro exI [of _ "area @ ''-''"] exI [of _ num]) simp
  qed (auto intro: exI [of _ "[]"])
qed

lemma country_code_86: "\<not> IsCountryCode ''86''"
  by (simp add: IsCountryCode_iff)

lemma PadLeft_length: "length c = 1 \<Longrightarrow> int (length (PadLeft v n c)) = max (int (length v)) n"
  by (auto simp: PadLeft_def Repeat_def length_concat sum_list_replicate)

text \<open>An address that passes \<open>IsEmail\<close> has exactly one \<open>@\<close>, a non-empty local part before it, and behind it two
  non-empty parts joined by a dot; it holds no byte but letters, digits and \<open>_ - + . @\<close>.\<close>

lemma Wordchar_chars: "rx_chars Wordchar = {c. in_class [(CHR ''0'', CHR ''9''), (CHR ''A'', CHR ''Z''),
    (CHR ''_'', CHR ''_''), (CHR ''a'', CHR ''z'')] c}"
  by (simp add: Wordchar_def)

theorem email_shape:
  assumes "IsEmail value"
  shows "\<exists>user host name domain. value = user @ ''@'' @ host \<and> host = name @ ''.'' @ domain
    \<and> user \<noteq> [] \<and> name \<noteq> [] \<and> domain \<noteq> [] \<and> CHR ''@'' \<notin> set user \<and> CHR ''@'' \<notin> set host
    \<and> set value \<subseteq> set ''-+.@'' \<union> rx_chars Wordchar"
proof -
  let ?M = "Many (Cat (Cls [(CHR ''-'', CHR ''-''), (CHR ''.'', CHR ''.'')]) (Some_of Wordchar))"
  let ?U = "Many (Cat (Cls [(CHR ''-'', CHR ''-''), (CHR ''+'', CHR ''+''), (CHR ''.'', CHR ''.'')]) (Some_of Wordchar))"
  from assms have "accepts emailRegexStr value" by (simp add: IsEmail_def emailRegex_def MatchString_anchored)
  then obtain a b c d e f where v: "value = a @ b @ ''@'' @ c @ d @ ''.'' @ e @ f"
    and w: "accepts (Some_of Wordchar) a" "accepts ?U b" "accepts (Some_of Wordchar) c" "accepts ?M d"
      "accepts (Some_of Wordchar) e" "accepts ?M f"
    unfolding emailRegexStr_def by (elim accepts_Cat [THEN iffD1, elim_format] exE conjE) auto
  have ne: "a \<noteq> []" "c \<noteq> []" "e \<noteq> []" using w(1,3,5) by (auto simp: Wordchar_def)
  have two: "rx_chars ?M \<subseteq> set ''-.'' \<union> rx_chars Wordchar" "rx_chars ?U \<subseteq> set ''-+.'' \<union> rx_chars Wordchar"
    by (auto simp: in_class_one in_class_def [of "[]"])
  have at: "CHR ''@'' \<notin> rx_chars Wordchar" by (simp add: Wordchar_chars in_class_def)
  note sub = accepts_chars [OF w(1)] accepts_chars [OF w(2)] accepts_chars [OF w(3)] accepts_chars [OF w(4)]
    accepts_chars [OF w(5)] accepts_chars [OF w(6)]
  have u: "CHR ''@'' \<notin> set (a @ b)" "set (a @ b) \<subseteq> set ''-+.@'' \<union> rx_chars Wordchar" using sub(1,2) two at by auto
  have h: "CHR ''@'' \<notin> set (c @ d @ ''.'' @ e @ f)" "set (c @ d @ ''.'' @ e @ f) \<subseteq> set ''-+.@'' \<union> rx_chars Wordchar"
    using sub(3-6) two at by auto
  show ?thesis
    using v ne u h
    by (intro exI [of _ "a @ b"] exI [of _ "c @ d @ ''.'' @ e @ f"] exI [of _ "c @ d"] exI [of _ "e @ f"]) auto
qed

lemma email_shape_witness:
  "\<exists>user host. ''a.b@c-d.org'' = user @ ''@'' @ host \<and> CHR ''@'' \<notin> set user \<and> CHR ''@'' \<notin> set host"
proof -
  have "IsEmail ''a.b@c-d.org''" by code_simp
  from email_shape [OF this] show ?thesis by blast
qed

text \<open>\<open>IsUrl\<close> looks for a URL anywhere: text around one does not make the check fail.\<close>

theorem url_anywhere: "IsUrl value False \<Longrightarrow> IsUrl (a @ value @ b) e"
proof -
  assume "IsUrl value False"
  then obtain x y z where "value = x @ y @ z" "accepts urlRegexStr y"
    by (auto simp: IsUrl_def urlRegex_def MatchString_iff)
  then have "\<exists>x' y z'. a @ value @ b = x' @ y @ z' \<and> accepts urlRegexStr y"
    by (intro exI [of _ "a @ x"] exI [of _ y] exI [of _ "z @ b"]) simp
  then show ?thesis by (simp add: IsUrl_def urlRegex_def MatchString_iff)
qed

lemma url_anywhere_witness: "IsUrl (''javascript:alert(1)//'' @ ''http://a.cn'' @ ''<script>'') True"
proof -
  have "IsUrl ''http://a.cn'' False" by code_simp
  from url_anywhere [OF this] show ?thesis .
qed

end
