(* ===== verification/Headers.thy ===== *)
theory Headers
  imports MapX IdTypes
begin

text \<open>
  \<open>internal/app/shared/headers\<close> and \<open>shared/claims\<close>: what a request carries (platform, tokens, client
  id, session) and what the handlers of a request leave in its context. A request is its header and
  cookie lookups (a missing header reads as the empty string). The SHA-256 hash, base64 decoding and
  the X25519 agreement are parameters.
\<close>

record request =
  rq_header :: "string \<Rightarrow> string"
  rq_cookie :: "string \<Rightarrow> string option"
  rq_path :: string
  rq_method :: string
  rq_query :: "(string \<times> string list) list"
  rq_content_length :: int
  rq_body :: string
  rq_body_token :: "string option" \<comment> \<open>the field \<open>token\<close> of a JSON body, if the body binds\<close>
  rq_ip :: string

section \<open>Lookups\<close>

definition cookie :: "request \<Rightarrow> string \<Rightarrow> string" where
  "cookie r name = (case rq_cookie r name of None \<Rightarrow> [] | Some v \<Rightarrow> v)"

definition GetTrimmedHeader :: "request \<Rightarrow> string \<Rightarrow> string" where
  "GetTrimmedHeader r name = TrimSpace (rq_header r name)"

definition Web :: Platform where "Web = 8"
definition Unspecify :: Platform where "Unspecify = 0"

definition GetPlatform :: "request \<Rightarrow> Platform" where
  "GetPlatform r =
     (let platform = GetTrimmedHeader r ''X-Platform'';
          pla = PlatformFromString platform
      in if pla = Unspecify then
           (let str = cookie r ''pla'' in if 0 < length str then PlatformFromString str else pla)
         else pla)"

definition GetAccessToken :: "request \<Rightarrow> string" where
  "GetAccessToken r =
     (let pla = GetPlatform r;
          token = (if pla = Web then cookie r ''acc'' else [])
      in if 0 < length token then token
         else
           (let authHeader = rq_header r ''Authorization'' in
            if \<not> HasPrefix authHeader ''Bearer '' then []
            else TrimSpace (drop 7 authHeader)))"

definition GetRefreshToken :: "request \<Rightarrow> string" where
  "GetRefreshToken r =
     (if GetPlatform r = Web then
        (let token = cookie r ''ref'' in if 0 < length token then token else [])
      else [])"

definition GetClientId :: "request \<Rightarrow> string" where
  "GetClientId r =
     (let token = (if GetPlatform r = Web then cookie r ''cli'' else [])
      in if 0 < length token then token else TrimSpace (rq_header r ''X-Client''))"

definition GetSessionId :: "request \<Rightarrow> string" where
  "GetSessionId r =
     (let sid = GetTrimmedHeader r ''X-Session'' in if length sid = 0 then cookie r ''sid'' else sid)"

definition GetUserAgent :: "request \<Rightarrow> string" where
  "GetUserAgent r = TrimSpace (rq_header r ''User-Agent'')"

definition GetUserAgentHashed :: "(string \<Rightarrow> string) \<Rightarrow> request \<Rightarrow> string" where
  "GetUserAgentHashed sha256 r =
     (let ua = GetUserAgent r in if 0 < length ua then sha256 ua else [])"

definition GetCsrfToken :: "request \<Rightarrow> string" where
  "GetCsrfToken r =
     (let csrf = cookie r ''csrf'' in if 0 < length csrf then csrf else rq_header r ''X-CSRF'')"

section \<open>The request's context\<close>

record AuthorizedClaims =
  cl_UserId :: UID
  cl_Platform :: Platform
  cl_UserAgent :: string
  cl_UserAgentHashed :: string
  cl_ClientId :: string
  cl_Ip :: string

record RequestExtendData =
  ed_Nonce :: string
  ed_Timestamp :: string
  ed_Platform :: Platform
  ed_Signature :: string
  ed_SessionId :: string

record SessionClientKeys =
  ck_SignPubKey :: "byte list"
  ck_BoxPubKey :: "byte list"
  ck_ShareKey :: "byte list option"

text \<open>What \<open>gin.Context\<close> holds: the status it was aborted with, the values set on it, the cookies of
  the response with their maximal ages.\<close>

record gin_ctx =
  cx_aborted :: "nat option"
  cx_claims :: "AuthorizedClaims option"
  cx_keys :: "SessionClientKeys option"
  cx_extend :: "RequestExtendData option"
  cx_cookies :: "(string \<times> string \<times> int) list"

definition new_context :: gin_ctx where
  "new_context = \<lparr>cx_aborted = None, cx_claims = None, cx_keys = None, cx_extend = None, cx_cookies = []\<rparr>"

definition abort_with :: "nat \<Rightarrow> gin_ctx \<Rightarrow> gin_ctx" where
  "abort_with status c = c\<lparr>cx_aborted := Some status\<rparr>"

definition GetClaims :: "gin_ctx \<Rightarrow> AuthorizedClaims option" where
  "GetClaims c = cx_claims c"

definition SaveClaims :: "AuthorizedClaims option \<Rightarrow> gin_ctx \<Rightarrow> gin_ctx" where
  "SaveClaims cl c = (if cl = None then c else c\<lparr>cx_claims := cl\<rparr>)"

definition GetExtendData :: "gin_ctx \<Rightarrow> RequestExtendData option" where
  "GetExtendData c = cx_extend c"

definition SaveExtendData :: "request \<Rightarrow> gin_ctx \<Rightarrow> gin_ctx" where
  "SaveExtendData r c =
     (let platform = GetPlatform r;
          sessionId = GetSessionId r;
          nonce = GetTrimmedHeader r ''X-Nonce'';
          timestamp = GetTrimmedHeader r ''X-Timestamp'';
          signature = GetTrimmedHeader r ''X-Signature''
      in if length sessionId = 0 then abort_with 400 c
         else c\<lparr>cx_extend := Some \<lparr>ed_Nonce = nonce, ed_Timestamp = timestamp, ed_Platform = platform,
                  ed_Signature = signature, ed_SessionId = sessionId\<rparr>\<rparr>)"

definition GetClientKeys :: "gin_ctx \<Rightarrow> SessionClientKeys option" where
  "GetClientKeys c = cx_keys c"

text \<open>The loop that removes the mask: from byte 17 on, each byte is xored with one of the first 17.\<close>

fun unmask_loop :: "nat \<Rightarrow> nat \<Rightarrow> byte list \<Rightarrow> byte list" where
  "unmask_loop 0 i raw = raw"
| "unmask_loop (Suc n) i raw =
     (let elem = raw ! i in unmask_loop n (Suc i) (raw[i := elem XOR raw ! (i mod 17)]))"

definition unmask :: "byte list \<Rightarrow> byte list" where
  "unmask raw = unmask_loop (length raw - 17) 17 raw"

definition SaveClientKeys ::
    "(string \<Rightarrow> byte list option) \<Rightarrow> bool \<Rightarrow> (byte list \<Rightarrow> byte list option) \<Rightarrow> request \<Rightarrow> gin_ctx \<Rightarrow> gin_ctx" where
  "SaveClientKeys b64 enableCrypto negotiate r c =
     (let sessionId = GetSessionId r in
      if length sessionId = 0 then abort_with 400 c
      else case b64 sessionId of
          None \<Rightarrow> abort_with 400 c
        | Some raw \<Rightarrow>
            if length raw \<noteq> 88 then abort_with 400 c
            else
              (let raw = unmask raw;
                   signPubKey = take 32 (drop 24 raw);
                   boxPubKey = drop 56 raw
               in if enableCrypto then
                    (case negotiate boxPubKey of
                       None \<Rightarrow> abort_with 400 c
                     | Some shareKey \<Rightarrow> c\<lparr>cx_keys := Some \<lparr>ck_SignPubKey = signPubKey, ck_BoxPubKey = boxPubKey,
                                             ck_ShareKey = Some shareKey\<rparr>\<rparr>)
                  else c\<lparr>cx_keys := Some \<lparr>ck_SignPubKey = signPubKey, ck_BoxPubKey = boxPubKey,
                              ck_ShareKey = None\<rparr>\<rparr>))"

section \<open>Lemmas\<close>

lemma unmask_loop_nth:
  "17 \<le> i \<Longrightarrow> i + n \<le> length raw \<Longrightarrow>
   length (unmask_loop n i raw) = length raw \<and>
   (\<forall>j<length raw. unmask_loop n i raw ! j =
      (if i \<le> j \<and> j < i + n then raw ! j XOR raw ! (j mod 17) else raw ! j))"
proof (induction n arbitrary: i raw)
  case (Suc n)
  let ?r = "raw[i := raw ! i XOR raw ! (i mod 17)]"
  have m: "j mod 17 \<noteq> i" for j :: nat using Suc.prems(1) mod_less_divisor [of 17 j] by linarith
  have IH: "length (unmask_loop n (Suc i) ?r) = length ?r \<and>
     (\<forall>j<length ?r. unmask_loop n (Suc i) ?r ! j =
        (if Suc i \<le> j \<and> j < Suc i + n then ?r ! j XOR ?r ! (j mod 17) else ?r ! j))"
    using Suc.prems by (intro Suc.IH) auto
  show ?case
  proof (intro conjI allI impI)
    show "length (unmask_loop (Suc n) i raw) = length raw" using IH by (simp add: Let_def)
    fix j assume j: "j < length raw"
    then have "unmask_loop n (Suc i) ?r ! j =
        (if Suc i \<le> j \<and> j < Suc i + n then ?r ! j XOR ?r ! (j mod 17) else ?r ! j)" using IH by simp
    moreover have "?r ! (j mod 17) = raw ! (j mod 17)" using m [of j] by simp
    moreover have "?r ! j = (if j = i then raw ! i XOR raw ! (i mod 17) else raw ! j)"
      using Suc.prems j by simp
    ultimately show "unmask_loop (Suc n) i raw ! j =
        (if i \<le> j \<and> j < i + Suc n then raw ! j XOR raw ! (j mod 17) else raw ! j)"
      by (auto simp: Let_def)
  qed
qed auto

lemma unmask_nth:
  assumes "17 \<le> length raw"
  shows "length (unmask raw) = length raw"
    and "j < length raw \<Longrightarrow> unmask raw ! j = (if 17 \<le> j then raw ! j XOR raw ! (j mod 17) else raw ! j)"
  using unmask_loop_nth [of 17 "length raw - 17" raw] assms by (auto simp: unmask_def)

lemma unmask_unmask:
  assumes "17 \<le> length raw"
  shows "unmask (unmask raw) = raw"
proof (rule nth_equalityI)
  note u = unmask_nth [OF assms]
  have l: "17 \<le> length (unmask raw)" using u(1) assms by simp
  show "length (unmask (unmask raw)) = length raw" using unmask_nth(1) [OF l] u(1) by simp
  fix j assume "j < length (unmask (unmask raw))"
  then have j: "j < length raw" using unmask_nth(1) [OF l] u(1) by simp
  have m: "j mod 17 < length raw" "\<not> 17 \<le> j mod 17"
    using assms mod_less_divisor [of 17 j] by linarith+
  show "unmask (unmask raw) ! j = raw ! j"
    using unmask_nth(2) [OF l, of j] u(1) u(2) [OF j] u(2) [OF m(1)] j m(2)
    by (simp add: xor.assoc)
qed

section \<open>Properties\<close>

text \<open>The session id is a reversible mask: when the session id decodes to the masked form of any
  88 bytes, \<open>SaveClientKeys\<close> recovers bytes 24 to 55 as the signing key and the last 32 as the box key,
  and aborts with 400 exactly when the key agreement is enabled and fails.\<close>

theorem client_keys_recovered:
  assumes "length raw = 88" "GetSessionId r \<noteq> []" "b64 (GetSessionId r) = Some (unmask raw)"
  shows "SaveClientKeys b64 enable negotiate r c =
    (if enable \<and> negotiate (drop 56 raw) = None then abort_with 400 c
     else c\<lparr>cx_keys := Some \<lparr>ck_SignPubKey = take 32 (drop 24 raw), ck_BoxPubKey = drop 56 raw,
            ck_ShareKey = (if enable then negotiate (drop 56 raw) else None)\<rparr>\<rparr>)"
  using assms unmask_nth(1) [of raw] unmask_unmask [of raw]
  by (auto simp: SaveClientKeys_def Let_def split: option.splits)

definition demo_request :: request where
  "demo_request = \<lparr>rq_header = (\<lambda>n. if n = ''X-Session'' then ''s'' else []), rq_cookie = (\<lambda>_. None), rq_path = [],
     rq_method = ''GET'', rq_query = [], rq_content_length = 0, rq_body = [], rq_body_token = None, rq_ip = []\<rparr>"

lemma client_keys_recovered_witness:
  "map_option ck_BoxPubKey (cx_keys (SaveClientKeys (\<lambda>_. Some (unmask (replicate 56 1 @ replicate 32 2))) False
      (\<lambda>_. None) demo_request new_context)) = Some (replicate 32 2)"
proof -
  have s: "GetSessionId demo_request \<noteq> []"
    by (simp add: GetSessionId_def GetTrimmedHeader_def demo_request_def TrimSpace_def is_space_def)
  have l: "length (replicate 56 1 @ replicate 32 (2::byte)) = 88" by simp
  define f where "f = (\<lambda>_::string. Some (unmask (replicate 56 1 @ replicate 32 (2::byte))))"
  have b: "f (GetSessionId demo_request) = Some (unmask (replicate 56 1 @ replicate 32 2))" by (simp add: f_def)
  show ?thesis
    using client_keys_recovered [where ?b64.0 = f and enable = False and negotiate = "\<lambda>_. None"
        and c = new_context, OF l s b]
    by (simp add: f_def)
qed

end
