(* ===== verification/Auth.thy ===== *)
theory Auth
  imports Headers Strs Redis
begin

text \<open>
  Authentication: \<open>authes/stores/auth_store.go\<close>, \<open>authes/authers/msgcode_auther.go\<close>,
  \<open>authes/auth_service.go\<close> and \<open>middleware/auth_middleware.go\<close>, \<open>replay_middleware.go\<close>. The Redis cache,
  the JSON codec of the claims, the hash, random tokens and the user table are parameters; the cache is
  one instance for reading and writing (no replica configured). Every cache call takes a \<open>net\<close> that
  says whether its request or reply is lost. Durations are seconds.
\<close>

section \<open>Parameters\<close>

record 's cache =
  ca_get :: "'s \<Rightarrow> string \<Rightarrow> string option"
  ca_ttl :: "'s \<Rightarrow> string \<Rightarrow> int option" \<comment> \<open>the seconds a key still lives, if it expires\<close>
  ca_set :: "string \<Rightarrow> string \<Rightarrow> int \<Rightarrow> 's \<Rightarrow> 's"
  ca_setnx :: "string \<Rightarrow> string \<Rightarrow> int \<Rightarrow> 's \<Rightarrow> bool \<times> 's"
  ca_del :: "string \<Rightarrow> 's \<Rightarrow> 's"
  ca_tick :: "int \<Rightarrow> 's \<Rightarrow> 's" \<comment> \<open>time passes\<close>

definition cache_laws :: "'s cache \<Rightarrow> bool" where
  "cache_laws C \<longleftrightarrow>
     (\<forall>k v t s. ca_get C (ca_set C k v t s) = (ca_get C s)(k \<mapsto> v)) \<and>
     (\<forall>k s. ca_get C (ca_del C k s) = (ca_get C s)(k := None)) \<and>
     (\<forall>k v t s. fst (ca_setnx C k v t s) \<longleftrightarrow> ca_get C s k = None) \<and>
     (\<forall>k v t s. ca_get C s k = None \<and> 0 < t \<longrightarrow>
        ca_get C (snd (ca_setnx C k v t s)) k = Some v \<and> ca_ttl C (snd (ca_setnx C k v t s)) k = Some t) \<and>
     (\<forall>d s k t. ca_ttl C s k = Some t \<longrightarrow>
        ca_get C (ca_tick C d s) k = (if t \<le> d then None else ca_get C s k))"

record 's auth_env =
  ae_cache :: "'s cache"
  ae_encode :: "AuthorizedClaims \<Rightarrow> string"
  ae_decode :: "string \<Rightarrow> AuthorizedClaims option"
  ae_sha256 :: "string \<Rightarrow> string"
  ae_access_ttl :: int
  ae_refresh_ttl :: int
  ae_replay_max :: int64

definition auth_laws :: "'s auth_env \<Rightarrow> bool" where
  "auth_laws E \<longleftrightarrow> cache_laws (ae_cache E) \<and> (\<forall>c. ae_decode E (ae_encode E c) = Some c)"

section \<open>AuthStore\<close>

definition unit_call :: "net \<Rightarrow> ('s \<Rightarrow> 's) \<Rightarrow> 's \<Rightarrow> string option \<times> 's" where
  "unit_call n f s =
     (case call_redis n (\<lambda>s. ((), f s)) s of (Inl e, s') \<Rightarrow> (Some e, s') | (Inr _, s') \<Rightarrow> (None, s'))"

definition SaveCsrfToken :: "'s auth_env \<Rightarrow> net \<Rightarrow> string \<Rightarrow> string \<Rightarrow> int \<Rightarrow> 's \<Rightarrow> string option \<times> 's" where
  "SaveCsrfToken E n token val expire s =
     unit_call n (ca_set (ae_cache E) (''csrf_token:'' @ token) val expire) s"

text \<open>A missing key is the error \<open>redis.Nil\<close>, which the store turns into the empty string.\<close>

definition StoreGetCsrfToken :: "'s auth_env \<Rightarrow> net \<Rightarrow> string \<Rightarrow> bool \<Rightarrow> 's \<Rightarrow> (string + string) \<times> 's" where
  "StoreGetCsrfToken E n token del s =
     (let key = ''csrf_token:'' @ token;
          C = ae_cache E
      in if del then
           (case call_redis n (\<lambda>s. (ca_get C s key, ca_del C key s)) s of
              (Inl err, s') \<Rightarrow> (Inl err, s')
            | (Inr None, s') \<Rightarrow> (Inr [], s')
            | (Inr (Some val), s') \<Rightarrow> (Inr val, s'))
         else
           (case call_redis n (\<lambda>s. (ca_get C s key, s)) s of
              (Inl err, s') \<Rightarrow> (Inl err, s')
            | (Inr None, s') \<Rightarrow> (Inr [], s')
            | (Inr (Some val), s') \<Rightarrow> (Inr val, s')))"

definition SaveHandledRequest :: "'s auth_env \<Rightarrow> net \<Rightarrow> string \<Rightarrow> int \<Rightarrow> 's \<Rightarrow> (string + bool) \<times> 's" where
  "SaveHandledRequest E n requestId expireAfter s =
     call_redis n (ca_setnx (ae_cache E) (''handled_requests:'' @ requestId) ''1'' expireAfter) s"

definition access_key :: "string \<Rightarrow> string" where "access_key token = ''access_token:'' @ token"
definition refresh_key :: "string \<Rightarrow> string" where "refresh_key token = ''refresh_token:'' @ token"

definition SaveAccessToken :: "'s auth_env \<Rightarrow> net \<Rightarrow> string \<Rightarrow> int \<Rightarrow> AuthorizedClaims \<Rightarrow> 's \<Rightarrow> string option \<times> 's" where
  "SaveAccessToken E n token ttl claims s =
     unit_call n (ca_set (ae_cache E) (access_key token) (ae_encode E claims) ttl) s"

definition DeleteAccessToken :: "'s auth_env \<Rightarrow> net \<Rightarrow> string \<Rightarrow> 's \<Rightarrow> string option \<times> 's" where
  "DeleteAccessToken E n token s = unit_call n (ca_del (ae_cache E) (access_key token)) s"

text \<open>The error of a missing token is \<open>redis.Nil\<close>.\<close>

definition redis_nil :: string where "redis_nil = ''redis: nil''"

definition GetAccessTokenClaims :: "'s auth_env \<Rightarrow> net \<Rightarrow> string \<Rightarrow> 's \<Rightarrow> string + AuthorizedClaims" where
  "GetAccessTokenClaims E n token s =
     (if length token = 0 then Inl redis_nil
      else case fst (call_redis n (\<lambda>s. (ca_get (ae_cache E) s (access_key token), s)) s) of
          Inl err \<Rightarrow> Inl err
        | Inr None \<Rightarrow> Inl redis_nil
        | Inr (Some val) \<Rightarrow>
            (case ae_decode E val of None \<Rightarrow> Inl ''json'' | Some dto \<Rightarrow> Inr dto))"

definition SaveRefreshToken :: "'s auth_env \<Rightarrow> net \<Rightarrow> string \<Rightarrow> AuthorizedClaims \<Rightarrow> int \<Rightarrow> 's \<Rightarrow> string option \<times> 's" where
  "SaveRefreshToken E n token credentials expire s =
     unit_call n (ca_set (ae_cache E) (refresh_key token) (ae_encode E credentials) expire) s"

definition DeleteRefreshToken :: "'s auth_env \<Rightarrow> net \<Rightarrow> string \<Rightarrow> 's \<Rightarrow> string option \<times> 's" where
  "DeleteRefreshToken E n token s = unit_call n (ca_del (ae_cache E) (refresh_key token)) s"

definition GetRefreshTokenCredential :: "'s auth_env \<Rightarrow> net \<Rightarrow> string \<Rightarrow> 's \<Rightarrow> AuthorizedClaims option" where
  "GetRefreshTokenCredential E n token s =
     (case fst (call_redis n (\<lambda>s. (ca_get (ae_cache E) s (refresh_key token), s)) s) of
        Inl err \<Rightarrow> None
      | Inr None \<Rightarrow> None
      | Inr (Some jsonStr) \<Rightarrow> ae_decode E jsonStr)"

section \<open>AuthService\<close>

definition IsClaimsValid :: "'s auth_env \<Rightarrow> request \<Rightarrow> AuthorizedClaims option \<Rightarrow> bool" where
  "IsClaimsValid E r claims =
     (case claims of
        None \<Rightarrow> False
      | Some cl \<Rightarrow> GetClientId r = cl_ClientId cl \<and> GetPlatform r = cl_Platform cl
          \<and> GetUserAgentHashed (ae_sha256 E) r = cl_UserAgentHashed cl)"

definition RevokeAccessToken :: "'s auth_env \<Rightarrow> net \<Rightarrow> string \<Rightarrow> 's \<Rightarrow> string option \<times> 's" where
  "RevokeAccessToken E n token s = (if length token = 0 then (None, s) else DeleteAccessToken E n token s)"

definition RevokeRefreshToken :: "'s auth_env \<Rightarrow> net \<Rightarrow> string \<Rightarrow> 's \<Rightarrow> string option \<times> 's" where
  "RevokeRefreshToken E n refreshToken s =
     (if length refreshToken = 0 then (None, s) else DeleteRefreshToken E n refreshToken s)"

text \<open>\<open>token\<close> is the random token \<open>CreateToken\<close> made.\<close>

definition GenerateAccessToken ::
    "'s auth_env \<Rightarrow> net \<Rightarrow> string \<Rightarrow> request \<Rightarrow> UID \<Rightarrow> string \<Rightarrow> Platform \<Rightarrow> 's \<Rightarrow> (string + string \<times> AuthorizedClaims) \<times> 's" where
  "GenerateAccessToken E n token r userID clientId platform s =
     (if length clientId = 0 \<or> platform = Unspecify then (Inl ''invalid args'', s)
      else
        (let claims = \<lparr>cl_UserId = userID, cl_Platform = platform, cl_UserAgent = GetUserAgent r,
                       cl_UserAgentHashed = GetUserAgentHashed (ae_sha256 E) r, cl_ClientId = clientId,
                       cl_Ip = rq_ip r\<rparr>
         in case SaveAccessToken E n token (ae_access_ttl E * 60) claims s of
              (Some err, s') \<Rightarrow> (Inl err, s')
            | (None, s') \<Rightarrow> (Inr (token, claims), s')))"

definition GenerateTokenPair ::
    "'s auth_env \<Rightarrow> net \<Rightarrow> net \<Rightarrow> string \<Rightarrow> string \<Rightarrow> request \<Rightarrow> UID \<Rightarrow> 's \<Rightarrow> (string + string \<times> string) \<times> 's" where
  "GenerateTokenPair E n1 n2 access refresh r userID s =
     (case GenerateAccessToken E n1 access r userID (GetClientId r) (GetPlatform r) s of
        (Inl err, s') \<Rightarrow> (Inl err, s')
      | (Inr (accessToken, claims), s') \<Rightarrow>
          (case SaveRefreshToken E n2 refresh claims (ae_refresh_ttl E * 60) s' of
             (Some err, s'') \<Rightarrow> (Inl err, s'')
           | (None, s'') \<Rightarrow> (Inr (accessToken, refresh), s'')))"

definition setupAuthorizedCookie :: "'s auth_env \<Rightarrow> string \<Rightarrow> string \<Rightarrow> string \<Rightarrow> gin_ctx \<Rightarrow> gin_ctx" where
  "setupAuthorizedCookie E clientId accessToken refreshToken c =
     (let atkMaxAge = ae_access_ttl E * 60;
          rtkMaxAge = ae_refresh_ttl E * 60;
          cliMaxAge = rtkMaxAge + 24 * 30 * 3600
      in c\<lparr>cx_cookies := cx_cookies c @ [(''acc'', accessToken, atkMaxAge), (''ref'', refreshToken, rtkMaxAge),
              (''cli'', clientId, cliMaxAge)]\<rparr>)"

datatype auth_response = NoResponse | CookiesOnly | Tokens string string

text \<open>The end that \<open>Authorize\<close> and \<open>RefreshToken\<close> share.\<close>

definition respond_tokens :: "'s auth_env \<Rightarrow> request \<Rightarrow> string \<Rightarrow> string \<Rightarrow> gin_ctx \<Rightarrow> auth_response \<times> gin_ctx" where
  "respond_tokens E r accessToken refreshToken c =
     (if GetPlatform r = Web
      then (CookiesOnly, setupAuthorizedCookie E (GetClientId r) accessToken refreshToken c)
      else (Tokens accessToken refreshToken, c))"

definition refresh_token_of :: "request \<Rightarrow> string" where
  "refresh_token_of r =
     (let token = GetRefreshToken r in
      if length token = 0 then (case rq_body_token r of None \<Rightarrow> token | Some t \<Rightarrow> t) else token)"

text \<open>\<open>RefreshToken\<close> up to the check of the credentials: a status to abort with, or the credentials.\<close>

definition refresh_check :: "'s auth_env \<Rightarrow> net \<Rightarrow> net \<Rightarrow> request \<Rightarrow> 's \<Rightarrow> (nat + AuthorizedClaims) \<times> 's" where
  "refresh_check E n1 n2 r s =
     (let token = refresh_token_of r in
      if length token = 0 then (Inl 401, s)
      else
        (let s' = snd (RevokeAccessToken E n1 (GetAccessToken r) s) in
         case GetRefreshTokenCredential E n2 token s' of
           None \<Rightarrow> (Inl 401, s')
         | Some credentials \<Rightarrow>
             if \<not> IsClaimsValid E r (Some credentials) then (Inl 401, s') else (Inr credentials, s')))"

text \<open>The rest of it: revoking the token, then the new pair.\<close>

definition refresh_commit ::
    "'s auth_env \<Rightarrow> net \<Rightarrow> net \<Rightarrow> net \<Rightarrow> string \<Rightarrow> string \<Rightarrow> request \<Rightarrow> AuthorizedClaims \<Rightarrow> gin_ctx \<Rightarrow> 's
       \<Rightarrow> auth_response \<times> gin_ctx \<times> 's" where
  "refresh_commit E n3 n4 n5 access refresh r credentials c s =
     (case RevokeRefreshToken E n3 (refresh_token_of r) s of
        (Some err, s') \<Rightarrow> (NoResponse, abort_with 500 c, s')
      | (None, s') \<Rightarrow>
          (case GenerateTokenPair E n4 n5 access refresh r (cl_UserId credentials) s' of
             (Inl err, s'') \<Rightarrow> (NoResponse, abort_with 401 c, s'')
           | (Inr (a, f), s'') \<Rightarrow> (let (resp, c') = respond_tokens E r a f c in (resp, c', s''))))"

definition RefreshToken ::
    "'s auth_env \<Rightarrow> net \<Rightarrow> net \<Rightarrow> net \<Rightarrow> net \<Rightarrow> net \<Rightarrow> string \<Rightarrow> string \<Rightarrow> request \<Rightarrow> gin_ctx \<Rightarrow> 's
       \<Rightarrow> auth_response \<times> gin_ctx \<times> 's" where
  "RefreshToken E n1 n2 n3 n4 n5 access refresh r c s =
     (case refresh_check E n1 n2 r s of
        (Inl status, s') \<Rightarrow> (NoResponse, abort_with status c, s')
      | (Inr credentials, s') \<Rightarrow> refresh_commit E n3 n4 n5 access refresh r credentials c s')"

definition Logout :: "'s auth_env \<Rightarrow> net \<Rightarrow> net \<Rightarrow> request \<Rightarrow> gin_ctx \<Rightarrow> 's \<Rightarrow> gin_ctx \<times> 's" where
  "Logout E n1 n2 r c s =
     (let accessToken = GetAccessToken r;
          refreshToken = GetRefreshToken r;
          s = snd (RevokeAccessToken E n1 accessToken s);
          s = snd (RevokeRefreshToken E n2 refreshToken s)
      in (c\<lparr>cx_cookies := cx_cookies c @ [(''acc'', [], - 1000), (''ref'', [], - 1000)]\<rparr>, s))"

text \<open>\<open>now\<close> is \<open>time.Now().Unix()\<close>; the difference wraps.\<close>

definition IsReplayRequest :: "'s auth_env \<Rightarrow> net \<Rightarrow> int64 \<Rightarrow> string \<Rightarrow> string \<Rightarrow> 's \<Rightarrow> bool \<times> 's" where
  "IsReplayRequest E n now requestId timestamp s =
     (case Atoi timestamp of
        None \<Rightarrow> (True, s)
      | Some v \<Rightarrow>
          (let timestampVal = word_of_int v; maxInterval = ae_replay_max E in
           if maxInterval <s now - timestampVal then (True, s)
           else case SaveHandledRequest E n requestId (sint maxInterval) s of
               (Inl err, s') \<Rightarrow> (False, s')
             | (Inr res, s') \<Rightarrow> (\<not> res, s')))"

section \<open>Logging in\<close>

record MsgCodeLoginRequest =
  lr_CountryCode :: string
  lr_Phone :: string
  lr_ImgCode :: string
  lr_MsgCode :: string
  lr_CsrfToken :: string

record User =
  us_ID :: UID
  us_Phone :: string
  us_banned :: bool

text \<open>\<open>binding:"required"\<close>: the handler rejects requests with an empty field.\<close>

definition login_bound :: "MsgCodeLoginRequest \<Rightarrow> bool" where
  "login_bound q \<longleftrightarrow> lr_CountryCode q \<noteq> [] \<and> lr_Phone q \<noteq> [] \<and> lr_ImgCode q \<noteq> [] \<and> lr_MsgCode q \<noteq> []
     \<and> lr_CsrfToken q \<noteq> []"

text \<open>\<open>upsert\<close> is the user table's answer for a phone number.\<close>

definition MsgCode_Authorize ::
    "'s auth_env \<Rightarrow> net \<Rightarrow> (string \<Rightarrow> string + User) \<Rightarrow> request \<Rightarrow> MsgCodeLoginRequest \<Rightarrow> 's \<Rightarrow> (nat + User) \<times> 's" where
  "MsgCode_Authorize E n upsert r q s =
     (let csrfToken = GetCsrfToken r in
      if csrfToken \<noteq> lr_CsrfToken q then (Inl 400, s)
      else if \<not> IsCountryCode (lr_CountryCode q) \<or> \<not> IsCellPhone (lr_Phone q) then (Inl 400, s)
      else case StoreGetCsrfToken E n csrfToken True s of
          (Inl err, s') \<Rightarrow> (Inl 500, s')
        | (Inr imgCode, s') \<Rightarrow>
            if lr_ImgCode q \<noteq> imgCode then (Inl 400, s')
            else if lr_MsgCode q \<noteq> ''8888'' then (Inl 400, s')
            else
              (let fullphone = lr_CountryCode q @ lr_Phone q in
               case upsert fullphone of
                 Inl err \<Rightarrow> (Inl 500, s')
               | Inr user \<Rightarrow> (Inr user, s')))"

definition Service_Authorize ::
    "'s auth_env \<Rightarrow> net \<Rightarrow> net \<Rightarrow> net \<Rightarrow> string \<Rightarrow> string \<Rightarrow> (string \<Rightarrow> string + User) \<Rightarrow> request
       \<Rightarrow> MsgCodeLoginRequest \<Rightarrow> gin_ctx \<Rightarrow> 's \<Rightarrow> auth_response \<times> gin_ctx \<times> 's" where
  "Service_Authorize E n1 n2 n3 access refresh upsert r q c s =
     (case MsgCode_Authorize E n1 upsert r q s of
        (Inl status, s') \<Rightarrow> (NoResponse, abort_with status c, s')
      | (Inr user, s') \<Rightarrow>
          if us_banned user then (NoResponse, abort_with 403 c, s')
          else (case GenerateTokenPair E n2 n3 access refresh r (us_ID user) s' of
              (Inl err, s'') \<Rightarrow> (NoResponse, abort_with 500 c, s'')
            | (Inr (a, f), s'') \<Rightarrow>
                (let c' = c\<lparr>cx_cookies := cx_cookies c @ [(''csrf'', [], - 1000)]\<rparr>;
                     (resp, c'') = respond_tokens E r a f c'
                 in (resp, c'', s''))))"

text \<open>\<open>PrepareLogin\<close>: the answer of the image, the token made for it, and the errors of drawing and
  saving. The image itself is left out.\<close>

definition PrepareLogin ::
    "'s auth_env \<Rightarrow> net \<Rightarrow> string option \<Rightarrow> string \<Rightarrow> string \<Rightarrow> gin_ctx \<Rightarrow> 's \<Rightarrow> string option \<times> gin_ctx \<times> 's" where
  "PrepareLogin E n drawErr answer csrfToken c s =
     (if drawErr \<noteq> None then (None, abort_with 500 c, s)
      else case SaveCsrfToken E n csrfToken answer 600 s of
          (Some err, s') \<Rightarrow> (None, abort_with 500 c, s')
        | (None, s') \<Rightarrow> (Some csrfToken, c\<lparr>cx_cookies := cx_cookies c @ [(''csrf'', csrfToken, 600)]\<rparr>, s'))"

section \<open>Middleware\<close>

fun not_auth :: "string list \<Rightarrow> string \<Rightarrow> bool" where
  "not_auth [] path = False"
| "not_auth (p # ps) path = (if EqualFold p path then True else not_auth ps path)"

fun need_auth :: "string list \<Rightarrow> string \<Rightarrow> bool" where
  "need_auth [] path = False"
| "need_auth (p # ps) path =
     (if Contains p ''*'' then True else if EqualFold p path then True else need_auth ps path)"

definition isPathNeedAuth :: "string list \<Rightarrow> string list \<Rightarrow> string \<Rightarrow> bool" where
  "isPathNeedAuth pathsNotAuth pathsNeedAuth path =
     (if not_auth pathsNotAuth path then False else need_auth pathsNeedAuth path)"

text \<open>The context when the chain goes on (\<open>c.Next\<close>) or was aborted.\<close>

definition AuthMiddleware ::
    "'s auth_env \<Rightarrow> net \<Rightarrow> string list \<Rightarrow> string list \<Rightarrow> (gin_ctx \<Rightarrow> gin_ctx) \<Rightarrow> request \<Rightarrow> 's \<Rightarrow> gin_ctx \<Rightarrow> gin_ctx" where
  "AuthMiddleware E n pathsNotAuth pathsNeedAuth saveClientKeys r s c =
     (let token = GetAccessToken r;
          parsed = GetAccessTokenClaims E n token s;
          cc = (case parsed of Inl _ \<Rightarrow> None | Inr cl \<Rightarrow> Some cl);
          claimsValid = IsClaimsValid E r cc;
          c = (if claimsValid then SaveClaims cc c else c)
      in if isPathNeedAuth pathsNotAuth pathsNeedAuth (rq_path r) \<and> \<not> claimsValid then
           (case parsed of
              Inl err \<Rightarrow> if err \<noteq> redis_nil then abort_with 500 c else abort_with 401 c
            | Inr _ \<Rightarrow> abort_with 401 c)
         else saveClientKeys c)"

definition ReplayMiddleware :: "'s auth_env \<Rightarrow> net \<Rightarrow> int64 \<Rightarrow> request \<Rightarrow> gin_ctx \<Rightarrow> 's \<Rightarrow> gin_ctx \<times> 's" where
  "ReplayMiddleware E n now r c s =
     (let nonce = GetTrimmedHeader r ''X-Nonce'';
          timestampStr = GetTrimmedHeader r ''X-Timestamp'';
          platform = GetPlatform r;
          signature = GetTrimmedHeader r ''X-Signature'';
          sessionId = GetSessionId r
      in if length nonce = 0 \<or> length timestampStr = 0 \<or> length signature = 0 \<or> length sessionId = 0
            \<or> \<not> Platform_IsValid platform then (abort_with 400 c, s)
         else case IsReplayRequest E n now nonce timestampStr s of
             (True, s') \<Rightarrow> (abort_with 400 c, s')
           | (False, s') \<Rightarrow> (SaveExtendData r c, s'))"

end
