(* ===== verification/AuthProofs.thy ===== *)
theory AuthProofs
  imports Auth
begin

text \<open>
  What the authentication promises: the gate of the middleware, rotation of refresh tokens one request
  at a time and its failure for two at once, single use of the login image, and the replay window.
\<close>

section \<open>Keys\<close>

lemma key_distinct [simp]:
  "access_key a \<noteq> refresh_key b" "refresh_key b \<noteq> access_key a"
  "access_key a = access_key a' \<longleftrightarrow> a = a'" "refresh_key b = refresh_key b' \<longleftrightarrow> b = b'"
  by (simp_all add: access_key_def refresh_key_def)

lemma call_redis_Reply [simp]: "call_redis Reply f s = (Inr (fst (f s)), snd (f s))"
  by (simp add: call_redis_def)

lemma unit_call_Reply [simp]: "unit_call Reply f s = (None, f s)"
  by (simp add: unit_call_def)

lemma cache_laws_simps:
  assumes "cache_laws C"
  shows "ca_get C (ca_set C k v t s) = (ca_get C s)(k \<mapsto> v)"
    and "ca_get C (ca_del C k s) = (ca_get C s)(k := None)"
    and "fst (ca_setnx C k v t s) \<longleftrightarrow> ca_get C s k = None"
    and "ca_get C s k = None \<Longrightarrow> 0 < t \<Longrightarrow> ca_get C (snd (ca_setnx C k v t s)) k = Some v"
    and "ca_get C s k = None \<Longrightarrow> 0 < t \<Longrightarrow> ca_ttl C (snd (ca_setnx C k v t s)) k = Some t"
    and "ca_ttl C s k = Some t \<Longrightarrow> ca_get C (ca_tick C d s) k = (if t \<le> d then None else ca_get C s k)"
  using assms by (simp_all add: cache_laws_def)

section \<open>A cache and an environment for which the laws hold\<close>

type_synonym demo_store = "string \<Rightarrow> (string \<times> int) option"

definition demo_cache :: "demo_store cache" where
  "demo_cache = \<lparr>
     ca_get = (\<lambda>s k. map_option fst (s k)),
     ca_ttl = (\<lambda>s k. map_option snd (s k)),
     ca_set = (\<lambda>k v t s. s(k \<mapsto> (v, t))),
     ca_setnx = (\<lambda>k v t s. if s k = None then (True, s(k \<mapsto> (v, t))) else (False, s)),
     ca_del = (\<lambda>k s. s(k := None)),
     ca_tick = (\<lambda>d s k. case s k of None \<Rightarrow> None | Some (v, t) \<Rightarrow> if t \<le> d then None else Some (v, t - d))\<rparr>"

lemma demo_cache_laws: "cache_laws demo_cache"
  by (auto simp: cache_laws_def demo_cache_def fun_eq_iff split: option.splits)

text \<open>A codec of claims that is enough for claims without strings that contain byte 0.\<close>

definition enc_claims :: "AuthorizedClaims \<Rightarrow> string list" where
  "enc_claims c = [map (\<lambda>b. char_of (unat b)) (cl_UserId c), [char_of (unat (cl_Platform c))],
     cl_UserAgent c, cl_UserAgentHashed c, cl_ClientId c, cl_Ip c]"

definition dec_claims :: "string list \<Rightarrow> AuthorizedClaims option" where
  "dec_claims ss =
     (case ss of
        [u, [p], a, h, i, ip] \<Rightarrow> Some \<lparr>cl_UserId = map (\<lambda>c. of_nat (of_char c)) u, cl_Platform = of_nat (of_char p),
           cl_UserAgent = a, cl_UserAgentHashed = h, cl_ClientId = i, cl_Ip = ip\<rparr>
      | _ \<Rightarrow> None)"

text \<open>Lists of strings as one string: each character is preceded by \<open>c\<close>, each end is \<open>e\<close>.\<close>

fun flat1 :: "string \<Rightarrow> string" where
  "flat1 [] = ''e''"
| "flat1 (c # s) = CHR ''c'' # c # flat1 s"

definition flat :: "string list \<Rightarrow> string" where
  "flat ss = concat (map flat1 ss)"

fun unflat :: "string \<Rightarrow> string \<Rightarrow> string list" where
  "unflat cur [] = []"
| "unflat cur (x # s) =
     (if x = CHR ''e'' then rev cur # unflat [] s
      else case s of [] \<Rightarrow> [] | c # s' \<Rightarrow> unflat (c # cur) s')"

lemma unflat_flat1: "unflat cur (flat1 s @ t) = (rev cur @ s) # unflat [] t"
  by (induction s arbitrary: cur) auto

lemma unflat_flat: "unflat [] (flat ss) = ss"
  by (induction ss) (auto simp: flat_def unflat_flat1)

definition demo_env :: "demo_store auth_env" where
  "demo_env = \<lparr>ae_cache = demo_cache, ae_encode = flat \<circ> enc_claims, ae_decode = dec_claims \<circ> unflat [],
     ae_sha256 = (\<lambda>s. s), ae_access_ttl = 60, ae_refresh_ttl = 600, ae_replay_max = 300\<rparr>"

lemma unat_mod_256 [simp]: "of_nat (unat (b :: 8 word) mod 256) = b"
proof -
  have "unat b < 256" by (rule order.strict_trans2 [OF unsigned_less]) simp
  then show ?thesis by simp
qed

lemma demo_env_laws: "auth_laws demo_env"
proof -
  have "dec_claims (enc_claims c) = Some c" for c
    by (cases c) (simp add: dec_claims_def enc_claims_def o_def)
  then show ?thesis
    by (simp add: auth_laws_def demo_env_def demo_cache_laws unflat_flat)
qed

section \<open>Properties\<close>

text \<open>What the middleware lets through: the claims it sets, if any, are those the cache holds for the request's token.\<close>

definition claims_of :: "'s auth_env \<Rightarrow> request \<Rightarrow> 's \<Rightarrow> AuthorizedClaims \<Rightarrow> bool" where
  "claims_of E r s cl \<longleftrightarrow> GetAccessToken r \<noteq> []
     \<and> (\<exists>val. ca_get (ae_cache E) s (access_key (GetAccessToken r)) = Some val \<and> ae_decode E val = Some cl)
     \<and> cl_ClientId cl = GetClientId r \<and> cl_Platform cl = GetPlatform r
     \<and> cl_UserAgentHashed cl = GetUserAgentHashed (ae_sha256 E) r"

lemma auth_stage:
  assumes "cx_aborted (AuthMiddleware E n notAuth needAuth keys r s c) = None"
  shows "\<exists>found. AuthMiddleware E n notAuth needAuth keys r s c = keys (SaveClaims found c)
    \<and> (isPathNeedAuth notAuth needAuth (rq_path r) \<longrightarrow> found \<noteq> None)
    \<and> (\<forall>cl. found = Some cl \<longrightarrow> claims_of E r s cl)"
proof (cases "\<exists>cl. GetAccessTokenClaims E n (GetAccessToken r) s = Inr cl \<and> IsClaimsValid E r (Some cl)")
  case True
  then obtain cl where p: "GetAccessTokenClaims E n (GetAccessToken r) s = Inr cl" "IsClaimsValid E r (Some cl)" by blast
  then have "claims_of E r s cl"
    by (auto simp: claims_of_def GetAccessTokenClaims_def IsClaimsValid_def call_redis_def
        split: net.splits sum.splits option.splits if_splits)
  with p show ?thesis by (intro exI [of _ "Some cl"]) (simp add: AuthMiddleware_def)
next
  case False
  then have v: "\<not> IsClaimsValid E r (case GetAccessTokenClaims E n (GetAccessToken r) s of Inl _ \<Rightarrow> None | Inr cl \<Rightarrow> Some cl)"
    by (auto simp: IsClaimsValid_def split: sum.splits)
  with assms have "\<not> isPathNeedAuth notAuth needAuth (rq_path r)"
    by (auto simp: AuthMiddleware_def abort_with_def Let_def split: sum.splits if_splits)
  with v show ?thesis by (intro exI [of _ None]) (simp add: AuthMiddleware_def SaveClaims_def)
qed

text \<open>The gate: a request for a path that needs authentication goes on only with claims, and these
  are the claims the cache holds for the request's non-empty access token and were issued to the same
  client id, platform and user agent; a missing token or record is refused with 401.\<close>

theorem auth_gate:
  assumes "isPathNeedAuth notAuth needAuth (rq_path r)" "cx_aborted c = None"
    and "cx_claims c = None" "\<And>x. cx_claims (keys x) = cx_claims x"
    and "c' = AuthMiddleware E n notAuth needAuth keys r s c" "cx_aborted c' = None"
  shows "\<exists>cl val. GetClaims c' = Some cl \<and> GetAccessToken r \<noteq> []
    \<and> ca_get (ae_cache E) s (access_key (GetAccessToken r)) = Some val \<and> ae_decode E val = Some cl
    \<and> cl_ClientId cl = GetClientId r \<and> cl_Platform cl = GetPlatform r
    \<and> cl_UserAgentHashed cl = GetUserAgentHashed (ae_sha256 E) r"
proof -
  obtain cl where "c' = keys (SaveClaims (Some cl) c)" "claims_of E r s cl"
    using auth_stage [of E n notAuth needAuth keys r s c] assms(1,5,6) by auto
  with assms(4) show ?thesis by (auto simp: SaveClaims_def GetClaims_def claims_of_def)
qed

definition app_request :: request where
  "app_request = \<lparr>rq_header = (\<lambda>n. if n = ''X-Platform'' then ''1'' else if n = ''X-Client'' then ''dev''
      else if n = ''Authorization'' then ''Bearer tok'' else []), rq_cookie = (\<lambda>_. None), rq_path = ''/v1/me'',
     rq_method = ''GET'', rq_query = [], rq_content_length = 0, rq_body = [], rq_body_token = Some ''old'', rq_ip = []\<rparr>"

definition app_claims :: AuthorizedClaims where
  "app_claims = \<lparr>cl_UserId = ZeroUID, cl_Platform = 1, cl_UserAgent = [], cl_UserAgentHashed = [],
     cl_ClientId = ''dev'', cl_Ip = []\<rparr>"

lemma app_request_eval:
  "GetPlatform app_request = 1" "GetClientId app_request = ''dev''" "GetAccessToken app_request = ''tok''"
  "GetUserAgentHashed h app_request = []" "refresh_token_of app_request = ''old''"
proof -
  have a: "Atoi ''1'' = Some 1" by code_simp
  have t: "TrimSpace ''1'' = ''1''" "TrimSpace ''dev'' = ''dev''" "TrimSpace ''tok'' = ''tok''" "TrimSpace [] = []"
    by (simp_all add: TrimSpace_def is_space_def)
  show p: "GetPlatform app_request = 1"
    by (simp add: GetPlatform_def GetTrimmedHeader_def app_request_def t PlatformFromString_def a
        Platform_IsValid_def platforms_def Unspecify_def)
  show "GetClientId app_request = ''dev''"
    by (simp add: GetClientId_def p Web_def) (simp add: app_request_def t)
  show "GetAccessToken app_request = ''tok''"
    by (simp add: GetAccessToken_def p Web_def) (simp add: app_request_def HasPrefix_def t)
  show "GetUserAgentHashed h app_request = []"
    by (simp add: GetUserAgentHashed_def GetUserAgent_def) (simp add: app_request_def t)
  show "refresh_token_of app_request = ''old''"
    by (simp add: refresh_token_of_def GetRefreshToken_def p Web_def) (simp add: app_request_def)
qed

lemma auth_gate_witness:
  "\<exists>cl. GetClaims (AuthMiddleware demo_env Reply [] [''*''] (\<lambda>c. c) app_request
      [access_key ''tok'' \<mapsto> (ae_encode demo_env app_claims, 60)] new_context) = Some cl \<and> cl_ClientId cl = ''dev''"
proof -
  let ?s = "[access_key ''tok'' \<mapsto> (ae_encode demo_env app_claims, 60)] :: demo_store"
  let ?c = "AuthMiddleware demo_env Reply [] [''*''] (\<lambda>c. c) app_request ?s new_context"
  have d: "ae_decode demo_env (ae_encode demo_env app_claims) = Some app_claims"
    using demo_env_laws by (simp add: auth_laws_def)
  have g: "ca_get (ae_cache demo_env) ?s (access_key ''tok'') = Some (ae_encode demo_env app_claims)"
    by (simp add: demo_env_def demo_cache_def)
  have n: "isPathNeedAuth [] [''*''] (rq_path app_request)"
    by (simp add: isPathNeedAuth_def HasPrefix_def)
  have cl: "cl_ClientId app_claims = ''dev''" "cl_Platform app_claims = 1" "cl_UserAgentHashed app_claims = []"
    by (simp_all add: app_claims_def)
  have "cx_aborted ?c = None"
    by (simp add: AuthMiddleware_def app_request_eval GetAccessTokenClaims_def d g IsClaimsValid_def
        SaveClaims_def new_context_def cl)
  from auth_gate [OF n _ _ _ refl this] show ?thesis
    by (auto simp: new_context_def app_request_eval)
qed

section \<open>Refreshing\<close>

lemma revoke_access_get:
  assumes "cache_laws (ae_cache E)"
  shows "ca_get (ae_cache E) (snd (RevokeAccessToken E Reply tok s))
    = (if tok = [] then ca_get (ae_cache E) s else (ca_get (ae_cache E) s)(access_key tok := None))"
  using cache_laws_simps(2) [OF assms] by (simp add: RevokeAccessToken_def DeleteAccessToken_def)

lemma refresh_check_cases:
  assumes "auth_laws E"
  shows "refresh_check E Reply Reply r s = (Inr cl, s1) \<longleftrightarrow>
    refresh_token_of r \<noteq> [] \<and> s1 = snd (RevokeAccessToken E Reply (GetAccessToken r) s)
    \<and> (\<exists>val. ca_get (ae_cache E) s (refresh_key (refresh_token_of r)) = Some val \<and> ae_decode E val = Some cl)
    \<and> IsClaimsValid E r (Some cl)"
proof -
  have l: "cache_laws (ae_cache E)" using assms by (simp add: auth_laws_def)
  show ?thesis
    by (auto simp: refresh_check_def Let_def GetRefreshTokenCredential_def revoke_access_get [OF l]
        split: option.splits if_splits)
qed

text \<open>The claims of the tokens \<open>GenerateTokenPair\<close> makes for a request.\<close>

definition new_claims :: "'s auth_env \<Rightarrow> request \<Rightarrow> UID \<Rightarrow> AuthorizedClaims" where
  "new_claims E r userID = \<lparr>cl_UserId = userID, cl_Platform = GetPlatform r, cl_UserAgent = GetUserAgent r,
     cl_UserAgentHashed = GetUserAgentHashed (ae_sha256 E) r, cl_ClientId = GetClientId r, cl_Ip = rq_ip r\<rparr>"

definition can_issue :: "request \<Rightarrow> bool" where
  "can_issue r \<longleftrightarrow> GetClientId r \<noteq> [] \<and> GetPlatform r \<noteq> Unspecify"

lemma refresh_commit_result:
  assumes "auth_laws E" "refresh_token_of r \<noteq> []"
    and "refresh_commit E Reply Reply Reply access refresh r cl c s = (resp, c', s')"
  shows "resp \<noteq> NoResponse \<longleftrightarrow> can_issue r"
    and "can_issue r \<Longrightarrow> ca_get (ae_cache E) s' = (ca_get (ae_cache E) s)(refresh_key (refresh_token_of r) := None,
      access_key access \<mapsto> ae_encode E (new_claims E r (cl_UserId cl)),
      refresh_key refresh \<mapsto> ae_encode E (new_claims E r (cl_UserId cl)))"
proof -
  have l: "cache_laws (ae_cache E)" using assms(1) by (simp add: auth_laws_def)
  note C = cache_laws_simps(1,2) [OF l]
  have "(resp \<noteq> NoResponse \<longleftrightarrow> can_issue r) \<and> (can_issue r \<longrightarrow> ca_get (ae_cache E) s'
      = (ca_get (ae_cache E) s)(refresh_key (refresh_token_of r) := None,
      access_key access \<mapsto> ae_encode E (new_claims E r (cl_UserId cl)),
      refresh_key refresh \<mapsto> ae_encode E (new_claims E r (cl_UserId cl))))"
  proof (cases "can_issue r")
    case True
    then show ?thesis
      using assms(2,3)
      by (auto simp: refresh_commit_def RevokeRefreshToken_def DeleteRefreshToken_def GenerateTokenPair_def
          GenerateAccessToken_def can_issue_def Let_def SaveAccessToken_def SaveRefreshToken_def C
          new_claims_def respond_tokens_def split: if_splits)
  next
    case False
    then show ?thesis
      using assms(2,3)
      by (auto simp: refresh_commit_def RevokeRefreshToken_def DeleteRefreshToken_def GenerateTokenPair_def
          GenerateAccessToken_def can_issue_def)
  qed
  then show "resp \<noteq> NoResponse \<longleftrightarrow> can_issue r"
    and "can_issue r \<Longrightarrow> ca_get (ae_cache E) s' = (ca_get (ae_cache E) s)(refresh_key (refresh_token_of r) := None,
      access_key access \<mapsto> ae_encode E (new_claims E r (cl_UserId cl)),
      refresh_key refresh \<mapsto> ae_encode E (new_claims E r (cl_UserId cl)))" by blast+
qed


definition app_store :: demo_store where
  "app_store = [refresh_key ''old'' \<mapsto> (ae_encode demo_env app_claims, 600)]"

lemma app_refresh_check:
  "refresh_check demo_env Reply Reply app_request app_store
     = (Inr app_claims, snd (RevokeAccessToken demo_env Reply ''tok'' app_store))"
proof -
  have v: "IsClaimsValid demo_env app_request (Some app_claims)"
    by (simp add: IsClaimsValid_def app_request_eval) (simp add: app_claims_def)
  have d: "ae_decode demo_env (ae_encode demo_env app_claims) = Some app_claims"
    using demo_env_laws by (simp add: auth_laws_def)
  show ?thesis
    unfolding refresh_check_cases [OF demo_env_laws]
    using v d by (simp add: app_request_eval) (simp add: app_store_def demo_env_def demo_cache_def)
qed

lemma app_can_issue: "can_issue app_request"
  by (simp add: can_issue_def app_request_eval Unspecify_def)


text \<open>Two refreshes at once both succeed: when two requests pass the check before either revokes the
  token, both are answered with a token pair and both new refresh tokens stand in the cache; revoking
  does not look at whether the token was still there.\<close>

theorem concurrent_refresh_both_succeed:
  assumes L: "auth_laws E" and "can_issue r" "refresh1 \<noteq> refresh_token_of r"
    and "refresh_check E Reply Reply r s = (Inr cl, s1)"
    and "refresh_check E Reply Reply r s1 = (x, s2)"
    and "refresh_commit E Reply Reply Reply access1 refresh1 r cl c s2 = (resp1, c1, s3)"
    and "refresh_commit E Reply Reply Reply access2 refresh2 r cl c s3 = (resp2, c2, s4)"
  shows "x = Inr cl \<and> resp1 \<noteq> NoResponse \<and> resp2 \<noteq> NoResponse
    \<and> GetRefreshTokenCredential E Reply refresh1 s4 \<noteq> None
    \<and> GetRefreshTokenCredential E Reply refresh2 s4 \<noteq> None"
proof -
  have l: "cache_laws (ae_cache E)" and dec: "\<And>c. ae_decode E (ae_encode E c) = Some c"
    using L by (simp_all add: auth_laws_def)
  note K = assms(4) [unfolded refresh_check_cases [OF L]]
  have "ca_get (ae_cache E) s1 (refresh_key (refresh_token_of r)) = ca_get (ae_cache E) s (refresh_key (refresh_token_of r))"
    using K by (simp add: revoke_access_get [OF l])
  then have "refresh_check E Reply Reply r s1 = (Inr cl, snd (RevokeAccessToken E Reply (GetAccessToken r) s1))"
    unfolding refresh_check_cases [OF L] using K by auto
  then have x: "x = Inr cl" using assms(5) by simp
  have t: "refresh_token_of r \<noteq> []" using K by blast
  note C1 = refresh_commit_result [OF L t assms(6)] and C2 = refresh_commit_result [OF L t assms(7)]
  have "ca_get (ae_cache E) s3 (refresh_key refresh1) = Some (ae_encode E (new_claims E r (cl_UserId cl)))"
    using C1(2) assms(2) by simp
  then have "ca_get (ae_cache E) s4 (refresh_key refresh1) = Some (ae_encode E (new_claims E r (cl_UserId cl)))"
    "ca_get (ae_cache E) s4 (refresh_key refresh2) = Some (ae_encode E (new_claims E r (cl_UserId cl)))"
    using C2(2) assms(2,3) by simp_all
  then show ?thesis
    using x C1(1) C2(1) assms(2) by (simp add: GetRefreshTokenCredential_def dec)
qed

lemma concurrent_refresh_both_succeed_witness:
  "\<exists>s1 s2 resp1 c1 s3 resp2 c2 s4.
     refresh_check demo_env Reply Reply app_request app_store = (Inr app_claims, s1)
     \<and> refresh_commit demo_env Reply Reply Reply ''a1'' ''r1'' app_request app_claims new_context s2 = (resp1, c1, s3)
     \<and> refresh_commit demo_env Reply Reply Reply ''a2'' ''r2'' app_request app_claims new_context s3 = (resp2, c2, s4)
     \<and> resp1 \<noteq> NoResponse \<and> resp2 \<noteq> NoResponse"
proof -
  let ?s1 = "snd (RevokeAccessToken demo_env Reply ''tok'' app_store)"
  obtain x s2 where x: "refresh_check demo_env Reply Reply app_request ?s1 = (x, s2)" by fastforce
  obtain resp1 c1 s3 where 1: "refresh_commit demo_env Reply Reply Reply ''a1'' ''r1'' app_request app_claims
      new_context s2 = (resp1, c1, s3)" by (metis prod.exhaust)
  obtain resp2 c2 s4 where 2: "refresh_commit demo_env Reply Reply Reply ''a2'' ''r2'' app_request app_claims
      new_context s3 = (resp2, c2, s4)" by (metis prod.exhaust)
  have "''r1'' \<noteq> refresh_token_of app_request" by (simp add: app_request_eval)
  from concurrent_refresh_both_succeed [OF demo_env_laws app_can_issue this app_refresh_check x 1 2]
  show ?thesis using app_refresh_check 1 2 by blast
qed

section \<open>Logging in and replays\<close>

text \<open>The login image can be used once: a login that passes the cookie and the format checks
  removes the stored answer whatever its outcome, so a later one with the same CSRF token is refused
  with 400. A login that succeeds gave the stored answer and the fixed message code 8888, and yields
  whatever user the table has for the phone number: no code was sent to that phone.\<close>

theorem login_image_single_use:
  assumes "auth_laws E" "MsgCode_Authorize E Reply upsert r q s = (res, s')"
    and "GetCsrfToken r = lr_CsrfToken q" "IsCountryCode (lr_CountryCode q)" "IsCellPhone (lr_Phone q)"
    and "lr_CsrfToken q2 = lr_CsrfToken q" "login_bound q2"
  shows "fst (MsgCode_Authorize E Reply upsert r2 q2 s') = Inl 400
    \<and> (res = Inr user \<longleftrightarrow> lr_MsgCode q = ''8888'' \<and> upsert (lr_CountryCode q @ lr_Phone q) = Inr user
         \<and> lr_ImgCode q = (case ca_get (ae_cache E) s (''csrf_token:'' @ lr_CsrfToken q) of None \<Rightarrow> [] | Some v \<Rightarrow> v))"
proof -
  have l: "cache_laws (ae_cache E)" using assms(1) by (simp add: auth_laws_def)
  have s': "s' = ca_del (ae_cache E) (''csrf_token:'' @ lr_CsrfToken q) s"
    using assms(2-5) by (auto simp: MsgCode_Authorize_def StoreGetCsrfToken_def Let_def
        split: option.splits sum.splits if_splits)
  have "fst (MsgCode_Authorize E Reply upsert r2 q2 s') = Inl 400"
    using assms(6,7) cache_laws_simps(2) [OF l]
    by (auto simp: MsgCode_Authorize_def StoreGetCsrfToken_def Let_def s' login_bound_def)
  moreover have "res = Inr user \<longleftrightarrow> lr_MsgCode q = ''8888'' \<and> upsert (lr_CountryCode q @ lr_Phone q) = Inr user
         \<and> lr_ImgCode q = (case ca_get (ae_cache E) s (''csrf_token:'' @ lr_CsrfToken q) of None \<Rightarrow> [] | Some v \<Rightarrow> v)"
    using assms(2-5) by (auto simp: MsgCode_Authorize_def StoreGetCsrfToken_def Let_def
        split: option.splits sum.splits if_splits)
  ultimately show ?thesis by blast
qed

definition demo_login :: MsgCodeLoginRequest where
  "demo_login = \<lparr>lr_CountryCode = ''086'', lr_Phone = ''13455555555'', lr_ImgCode = ''1234'', lr_MsgCode = ''8888'',
     lr_CsrfToken = ''t''\<rparr>"

lemma login_image_single_use_witness:
  "fst (MsgCode_Authorize demo_env Reply (\<lambda>p. Inl ''db'') (app_request\<lparr>rq_cookie := [''csrf'' \<mapsto> ''t'']\<rparr>) demo_login
      (snd (MsgCode_Authorize demo_env Reply (\<lambda>p. Inl ''db'') (app_request\<lparr>rq_cookie := [''csrf'' \<mapsto> ''t'']\<rparr>) demo_login
        [''csrf_token:t'' \<mapsto> (''1234'', 600)]))) = Inl 400"
proof -
  let ?r = "app_request\<lparr>rq_cookie := [''csrf'' \<mapsto> ''t'']\<rparr>"
  have c: "GetCsrfToken ?r = lr_CsrfToken demo_login"
    by (simp add: GetCsrfToken_def cookie_def demo_login_def)
  have f: "IsCountryCode (lr_CountryCode demo_login)" "IsCellPhone (lr_Phone demo_login)"
    by (simp_all add: IsCountryCode_iff IsCellPhone_iff demo_login_def is_digit_def digit_val_def)
  have b: "login_bound demo_login" by (simp add: login_bound_def demo_login_def)
  show ?thesis
    by (rule login_image_single_use [OF demo_env_laws surjective_pairing c f refl b, THEN conjunct1])
qed



end
