(* ===== verification/Sign.thy ===== *)
theory Sign
  imports Headers "HOL-Library.Char_ord" "HOL-Library.List_Lexorder" "HOL-Library.Multiset"
begin

text \<open>
  Request signatures and encryption: \<open>shared/crypto/sign.go\<close>, \<open>shared/crypto/crypto.go\<close>,
  \<open>middleware/sign_middleware.go\<close> and \<open>middleware/crypto_middleware.go\<close>, with the body writer of
  \<open>pkg/httpex/writer.go\<close>. Ed25519, AES-GCM and base64 are the fields of a record. A map of parameters
  is an association list with distinct keys; strings are ordered byte by byte, as \<open>sort.Strings\<close> does.
  The rest of the handler chain is a function that gives the context, the status, and the bytes it wrote.
\<close>

record crypto_lib =
  cl_decode :: "string \<Rightarrow> byte list option"
  cl_encode :: "byte list \<Rightarrow> string"
  cl_verify :: "byte list \<Rightarrow> string \<Rightarrow> byte list \<Rightarrow> bool"
  cl_sign :: "byte list \<Rightarrow> string \<Rightarrow> byte list"
  cl_seal :: "byte list \<Rightarrow> byte list \<Rightarrow> string \<Rightarrow> byte list"
  cl_open :: "byte list \<Rightarrow> byte list \<Rightarrow> byte list \<Rightarrow> string option"

text \<open>Base64 decodes what it encoded, and AES-GCM opens what it sealed under the same key and nonce.\<close>

definition crypto_laws :: "crypto_lib \<Rightarrow> bool" where
  "crypto_laws L \<longleftrightarrow>
     (\<forall>x. cl_decode L (cl_encode L x) = Some x) \<and> (\<forall>x. x \<noteq> [] \<longrightarrow> cl_encode L x \<noteq> []) \<and>
     (\<forall>k n d. cl_open L k n (cl_seal L k n d) = Some d)"

section \<open>The signed text\<close>

definition StringfyMap :: "(string \<times> string) list \<Rightarrow> string" where
  "StringfyMap params =
     (if length params = 0 then []
      else
        (let keys = sort (map fst params);
             buf = concat (map (\<lambda>k. k @ ''='' @ the (map_of params k) @ ''&'') keys)
         in take (length buf - 1) buf))"

definition convertValuesToMap :: "(string \<times> string list) list \<Rightarrow> (string \<times> string) list" where
  "convertValuesToMap values = map (\<lambda>(k, v). (k, Join v '','')) values"

text \<open>\<open>ed25519.Verify\<close> and \<open>ed25519.Sign\<close> panic on a key of the wrong length.\<close>

definition VerifySignMap ::
    "crypto_lib \<Rightarrow> byte list \<Rightarrow> (string \<times> string) list \<Rightarrow> string \<Rightarrow> (string + bool) outcome" where
  "VerifySignMap L pubKey mp signature =
     (case cl_decode L signature of
        None \<Rightarrow> Ret (Inl ''illegal base64 data'')
      | Some sig \<Rightarrow>
          if length pubKey \<noteq> 32 then Panic ''ed25519: bad public key length''
          else Ret (Inr (cl_verify L pubKey (StringfyMap mp) sig)))"

definition SignMap ::
    "crypto_lib \<Rightarrow> string \<Rightarrow> string \<Rightarrow> (string \<times> string) list \<Rightarrow> (string + string) outcome" where
  "SignMap L key pKey mp =
     (if length key = 0 then Panic ''sign key is empty''
      else case cl_decode L key of
          None \<Rightarrow> Ret (Inl ''illegal base64 data'')
        | Some priKey \<Rightarrow>
            (case cl_decode L pKey of
               None \<Rightarrow> Ret (Inl ''illegal base64 data'')
             | Some pubKey \<Rightarrow>
                 (let data = StringfyMap mp;
                      priKey = priKey @ pubKey
                  in if length priKey \<noteq> 64 then Panic ''ed25519: bad private key length''
                     else Ret (Inr (cl_encode L (cl_sign L priKey data))))))"

text \<open>\<open>generated\<close> is the key pair \<open>ed25519.GenerateKey\<close> returns: 32 public and 64 private bytes.\<close>

definition NewSignKeyPair :: "crypto_lib \<Rightarrow> byte list \<times> byte list \<Rightarrow> string \<times> string" where
  "NewSignKeyPair L generated = (case generated of (pub, pri) \<Rightarrow> (cl_encode L pub, cl_encode L pri))"

section \<open>Encryption of bodies\<close>

definition aes_key :: "byte list \<Rightarrow> bool" where
  "aes_key secret \<longleftrightarrow> length secret = 16 \<or> length secret = 24 \<or> length secret = 32"

text \<open>\<open>nonce\<close> is the result of \<open>SecureBytes\<close>.\<close>

definition Encrypt :: "crypto_lib \<Rightarrow> byte list option \<Rightarrow> byte list \<Rightarrow> string \<Rightarrow> string + string" where
  "Encrypt L nonce secret data =
     (if length data = 0 then Inr []
      else if \<not> aes_key secret then Inl ''crypto/aes: invalid key size''
      else case nonce of
          None \<Rightarrow> Inl ''no random bytes''
        | Some n \<Rightarrow> Inr (cl_encode L (n @ cl_seal L secret n data)))"

definition Decrypt :: "crypto_lib \<Rightarrow> byte list \<Rightarrow> string \<Rightarrow> (string + string) outcome" where
  "Decrypt L secret data =
     (if length data = 0 then Ret (Inr data)
      else if \<not> aes_key secret then Ret (Inl ''crypto/aes: invalid key size'')
      else case cl_decode L data of
          None \<Rightarrow> Ret (Inl ''illegal base64 data'')
        | Some raw \<Rightarrow>
            if length raw < 12 then Panic ''slice bounds out of range''
            else (case cl_open L secret (take 12 raw) (drop 12 raw) of
                    None \<Rightarrow> Ret (Inl ''cipher: message authentication failed'')
                  | Some res \<Rightarrow> Ret (Inr res)))"

section \<open>Signing middleware\<close>

definition platform_number :: "Platform \<Rightarrow> string" where
  "platform_number p = Itoa (sint p)"

text \<open>The request's data that the signature covers.\<close>

definition data_to_verify :: "RequestExtendData \<Rightarrow> request \<Rightarrow> (string \<times> string) list" where
  "data_to_verify extendData r =
     (let authorization = TrimSpace (rq_header r ''Authorization'');
          method = ToUpper (rq_method r);
          queryStr = StringfyMap (convertValuesToMap (rq_query r));
          d = [(''session'', ed_SessionId extendData), (''nonce'', ed_Nonce extendData),
               (''timestamp'', ed_Timestamp extendData), (''platform'', platform_number (ed_Platform extendData)),
               (''method'', method), (''path'', rq_path r), (''query'', queryStr)];
          d = (if GetPlatform r = Web then d else d @ [(''authorization'', authorization)])
      in if rq_method r \<noteq> ''GET'' \<and> 0 < rq_content_length r then d @ [(''body'', rq_body r)] else d)"

record response =
  rs_ctx :: gin_ctx
  rs_status :: nat
  rs_body :: string
  rs_headers :: "(string \<times> string) list"

definition stop_with :: "nat \<Rightarrow> gin_ctx \<Rightarrow> response" where
  "stop_with st c = \<lparr>rs_ctx = abort_with st c, rs_status = st, rs_body = [], rs_headers = []\<rparr>"

text \<open>
  While a \<open>BodyWriter\<close> is installed, what the chain writes goes to its buffer; a middleware that returns
  without copying the buffer to the outer writer leaves the response empty.
\<close>

definition buffered :: "response \<Rightarrow> response" where
  "buffered resp = resp\<lparr>rs_body := []\<rparr>"

text \<open>\<open>nonce\<close> and \<open>stamp\<close> are the response's fresh nonce and its time in milliseconds.\<close>

definition SignMiddleware ::
    "crypto_lib \<Rightarrow> string \<times> string \<Rightarrow> string \<Rightarrow> string \<Rightarrow> (gin_ctx \<Rightarrow> response outcome)
       \<Rightarrow> request \<Rightarrow> gin_ctx \<Rightarrow> response outcome" where
  "SignMiddleware L keyPair nonce stamp chain r c =
     (case (GetClientKeys c, GetExtendData c) of
        (Some keys, Some extendData) \<Rightarrow>
          bind_outcome (VerifySignMap L (ck_SignPubKey keys) (data_to_verify extendData r) (ed_Signature extendData))
           (\<lambda>v. case v of
              Inl _ \<Rightarrow> Ret (stop_with 500 c)
            | Inr verified \<Rightarrow>
                if \<not> verified then Ret (stop_with 400 c)
                else bind_outcome (chain c) (\<lambda>resp.
                  if cx_aborted (rs_ctx resp) \<noteq> None then Ret (buffered resp)
                  else if rs_status resp < 200 \<or> rs_status resp \<ge> 300 then Ret (buffered resp)
                  else
                    (let dataToSign = [(''session'', ed_SessionId extendData), (''nonce'', nonce),
                           (''platform'', platform_number (ed_Platform extendData)), (''timestamp'', stamp),
                           (''method'', ToUpper (rq_method r)), (''path'', rq_path r),
                           (''query'', StringfyMap (convertValuesToMap (rq_query r))), (''body'', rs_body resp)]
                     in bind_outcome (SignMap L (snd keyPair) (fst keyPair) dataToSign) (\<lambda>sg. case sg of
                          Inl _ \<Rightarrow> Ret ((buffered resp)\<lparr>rs_ctx := abort_with 500 (rs_ctx resp), rs_status := 500\<rparr>)
                        | Inr sig \<Rightarrow> Ret (resp\<lparr>rs_headers := rs_headers resp @
                            [(''X-Timestamp'', stamp), (''X-Nonce'', nonce), (''X-Signature'', sig)]\<rparr>)))))
      | _ \<Rightarrow> Ret (stop_with 400 c))"

section \<open>Encryption middleware\<close>

fun not_crypt :: "string list \<Rightarrow> string \<Rightarrow> bool" where
  "not_crypt [] path = False"
| "not_crypt (p # ps) path = (if Contains p ''*'' \<or> EqualFold p path then True else not_crypt ps path)"

fun need_crypt :: "string list \<Rightarrow> string \<Rightarrow> bool" where
  "need_crypt [] path = False"
| "need_crypt (p # ps) path =
     (if Contains p ''*'' then True else if EqualFold p path then True else need_crypt ps path)"

definition isPathNeedCrypto :: "string list \<Rightarrow> string list \<Rightarrow> string \<Rightarrow> bool" where
  "isPathNeedCrypto pathsNotCrypt pathsNeedCrypt path =
     (if not_crypt pathsNotCrypt path then False else need_crypt pathsNeedCrypt path)"

definition ContentTypeEncrypted :: string where
  "ContentTypeEncrypted = ''application/x-encrypted''"

definition getDecryptContentType :: "string \<Rightarrow> string" where
  "getDecryptContentType path = ''application/json''"

definition share_key :: "SessionClientKeys \<Rightarrow> byte list" where
  "share_key keys = (case ck_ShareKey keys of None \<Rightarrow> [] | Some k \<Rightarrow> k)"

text \<open>The request's part: the request the rest of the chain gets, or the status of the abort.\<close>

definition decrypt_request :: "crypto_lib \<Rightarrow> SessionClientKeys \<Rightarrow> request \<Rightarrow> (nat + request) outcome" where
  "decrypt_request L keys r =
     (if rq_method r \<noteq> ''GET'' \<and> 0 < rq_content_length r then
        (if \<not> HasPrefix (rq_header r ''Content-Type'') ContentTypeEncrypted then Ret (Inl 400)
         else bind_outcome (Decrypt L (share_key keys) (rq_body r)) (\<lambda>d. case d of
             Inl _ \<Rightarrow> Ret (Inl 400)
           | Inr reqBody \<Rightarrow>
               Ret (Inr (r\<lparr>rq_body := reqBody, rq_content_length := int (length reqBody),
                           rq_header := (rq_header r)(''Content-Type'' := getDecryptContentType (rq_path r))\<rparr>))))
      else Ret (Inr r))"

text \<open>\<open>nonce\<close> gives the random bytes of \<open>Encrypt\<close>; \<open>rtype\<close> is the response's content type.\<close>

definition CryptoMiddleware ::
    "crypto_lib \<Rightarrow> bool \<Rightarrow> string list \<Rightarrow> string list \<Rightarrow> byte list option
       \<Rightarrow> (request \<Rightarrow> gin_ctx \<Rightarrow> response outcome) \<Rightarrow> string \<Rightarrow> request \<Rightarrow> gin_ctx \<Rightarrow> response outcome" where
  "CryptoMiddleware L enabled pathsNot pathsNeed nonce chain rtype r c =
     (if \<not> isPathNeedCrypto pathsNot pathsNeed (rq_path r) \<or> \<not> enabled then chain r c
      else case GetClientKeys c of
          None \<Rightarrow> Ret (stop_with 400 c)
        | Some keys \<Rightarrow>
            bind_outcome (decrypt_request L keys r) (\<lambda>d. case d of
              Inl st \<Rightarrow> Ret (stop_with st c)
            | Inr r' \<Rightarrow>
                bind_outcome (chain r' c) (\<lambda>resp.
                  if cx_aborted (rs_ctx resp) \<noteq> None then Ret (buffered resp)
                  else if rs_status resp < 200 \<or> rs_status resp \<ge> 300 then Ret (buffered resp)
                  else if Contains rtype ''application/json'' \<or> Contains rtype ''text/plain'' then
                    (case Encrypt L nonce (share_key keys) (rs_body resp) of
                       Inl _ \<Rightarrow> Ret ((buffered resp)\<lparr>rs_ctx := abort_with 500 (rs_ctx resp), rs_status := 500\<rparr>)
                     | Inr body \<Rightarrow> Ret (resp\<lparr>rs_body := body, rs_headers := rs_headers resp @
                         [(''X-RawType'', rtype), (''Content-Type'', ContentTypeEncrypted),
                          (''Content-Length'', Itoa (int (length body)))]\<rparr>))
                  else Ret (resp\<lparr>rs_headers := rs_headers resp @
                         [(''Content-Length'', Itoa (int (length (rs_body resp))))]\<rparr>))))"

section \<open>Lemmas\<close>

text \<open>The order in which the map's entries come does not matter.\<close>

lemma StringfyMap_order:
  assumes "distinct (map fst xs)" "mset xs = mset ys"
  shows "StringfyMap xs = StringfyMap ys"
proof -
  have keys: "mset (map fst xs) = mset (map fst ys)" using arg_cong [OF assms(2), of "image_mset fst"] by simp
  have d: "distinct (map fst ys)" using assms(1) keys mset_eq_imp_distinct_iff by blast
  have "sort (map fst xs) = sort (map fst ys)"
    by (rule properties_for_sort) (use keys in simp_all)
  moreover have "map_of xs = map_of ys"
    by (rule map_of_inject_set [THEN iffD2]) (use assms(1) d mset_eq_setD [OF assms(2)] in simp_all)
  moreover have "length xs = length ys" using assms(2) by (rule mset_eq_length)
  ultimately show ?thesis by (simp add: StringfyMap_def)
qed

lemma buffered_simps [simp]:
  "rs_body (buffered resp) = []" "rs_status (buffered resp) = rs_status resp" "rs_ctx (buffered resp) = rs_ctx resp"
  by (simp_all add: buffered_def)

lemma GetPlatform_query: "GetPlatform (r\<lparr>rq_query := q\<rparr>) = GetPlatform r"
  by (simp add: GetPlatform_def GetTrimmedHeader_def cookie_def Let_def)

lemma data_to_verify_query:
  "StringfyMap (convertValuesToMap q) = StringfyMap (convertValuesToMap q') \<Longrightarrow>
   data_to_verify ed (r\<lparr>rq_query := q\<rparr>) = data_to_verify ed (r\<lparr>rq_query := q'\<rparr>)"
  by (simp add: data_to_verify_def GetPlatform_query Let_def)

section \<open>Properties\<close>

text \<open>The text that is signed does not determine the parameters: a query with two parameters and
  one whose single value contains \<open>&\<close> and \<open>=\<close> give the same text, for every request they come in.\<close>

theorem sign_data_ambiguous:
  "StringfyMap (data_to_verify ed (r\<lparr>rq_query := [(''a'', [''1'']), (''b'', [''2''])]\<rparr>))
     = StringfyMap (data_to_verify ed (r\<lparr>rq_query := [(''a'', [''1&b=2''])]\<rparr>))"
  by (rule arg_cong [OF data_to_verify_query]) code_simp

text \<open>Behind \<open>SignMiddleware\<close> no handler runs for a request whose signature was not verified: the
  outcome is then the same for every chain, and a response of it is an abort without a body.\<close>

theorem sign_gate:
  assumes "GetClientKeys c = Some keys" "GetExtendData c = Some ed"
    and "VerifySignMap L (ck_SignPubKey keys) (data_to_verify ed r) (ed_Signature ed) \<noteq> Ret (Inr True)"
  shows "SignMiddleware L kp nonce stamp chain r c = SignMiddleware L kp nonce stamp chain' r c \<and>
         (SignMiddleware L kp nonce stamp chain r c = Ret resp \<longrightarrow>
            cx_aborted (rs_ctx resp) \<noteq> None \<and> rs_body resp = [])"
  using assms
  by (cases "VerifySignMap L (ck_SignPubKey keys) (data_to_verify ed r) (ed_Signature ed)")
     (auto simp: SignMiddleware_def stop_with_def abort_with_def split: sum.splits)

text \<open>A body encrypted for a session is decrypted to itself by the session's key, whatever the
  twelve random bytes.\<close>

theorem decrypt_encrypt:
  assumes "crypto_laws L" "length n = 12" "aes_key secret" "Encrypt L (Some n) secret data = Inr body"
  shows "Decrypt L secret body = Ret (Inr data)"
proof (cases "data = []")
  case False
  then have b: "body = cl_encode L (n @ cl_seal L secret n data)" using assms by (simp add: Encrypt_def)
  have "n @ x \<noteq> []" for x using assms(2) by auto
  then have "body \<noteq> []" using assms(1) by (simp add: b crypto_laws_def)
  then show ?thesis using assms by (simp add: Decrypt_def b crypto_laws_def)
qed (use assms in \<open>simp add: Encrypt_def Decrypt_def\<close>)

text \<open>A request body that decodes to fewer than twelve bytes makes the encryption middleware panic,
  before any handler runs.\<close>

theorem crypto_short_body_panics:
  assumes "isPathNeedCrypto pathsNot pathsNeed (rq_path r)" "GetClientKeys c = Some keys"
    and "rq_method r \<noteq> ''GET''" "0 < rq_content_length r" "rq_body r \<noteq> []"
    and "HasPrefix (rq_header r ''Content-Type'') ContentTypeEncrypted" "aes_key (share_key keys)"
    and "cl_decode L (rq_body r) = Some raw" "length raw < 12"
  shows "CryptoMiddleware L True pathsNot pathsNeed nonce chain rtype r c = Panic ''slice bounds out of range''"
  using assms by (simp add: CryptoMiddleware_def decrypt_request_def Decrypt_def)

text \<open>A handler that answers outside 200..299 or aborts has its body dropped by both middlewares:
  the text stays in the body writer's buffer.\<close>

theorem error_bodies_dropped:
  assumes "GetClientKeys c = Some keys" "GetExtendData c = Some ed"
    and "VerifySignMap L (ck_SignPubKey keys) (data_to_verify ed r) (ed_Signature ed) = Ret (Inr True)"
    and "isPathNeedCrypto pathsNot pathsNeed (rq_path r)" "decrypt_request L keys r = Ret (Inr r')"
    and "chain r' c = Ret resp"
    and "rs_status resp < 200 \<or> 300 \<le> rs_status resp \<or> cx_aborted (rs_ctx resp) \<noteq> None"
  shows "SignMiddleware L kp nonce stamp (chain r') r c = Ret (resp\<lparr>rs_body := []\<rparr>) \<and>
         CryptoMiddleware L True pathsNot pathsNeed rnd chain rtype r c = Ret (resp\<lparr>rs_body := []\<rparr>)"
  using assms by (auto simp: SignMiddleware_def CryptoMiddleware_def buffered_def)

text \<open>A key pair of \<open>NewSignKeyPair\<close> cannot be the one of \<open>SignMap\<close>, which takes a 32-byte seed.\<close>

lemma generated_pair_panics:
  assumes "crypto_laws L" "length pub = 32" "length pri = 64"
  shows "\<exists>m. SignMap L (snd (NewSignKeyPair L (pub, pri))) (fst (NewSignKeyPair L (pub, pri))) mp = Panic m"
  using assms by (auto simp: NewSignKeyPair_def SignMap_def crypto_laws_def)

section \<open>Witnesses\<close>

definition demo_bytes :: "string \<Rightarrow> byte list" where
  "demo_bytes = map (\<lambda>c. of_nat (of_char c))"

definition demo_text :: "byte list \<Rightarrow> string" where
  "demo_text = map (\<lambda>b. char_of (unat b))"

text \<open>A cipher and an encoding that change nothing.\<close>

definition demo_crypt :: "bool \<Rightarrow> crypto_lib" where
  "demo_crypt v = \<lparr>cl_decode = (\<lambda>s. Some (demo_bytes s)), cl_encode = demo_text, cl_verify = (\<lambda>_ _ _. v),
     cl_sign = (\<lambda>_ _. []), cl_seal = (\<lambda>k n d. demo_bytes d), cl_open = (\<lambda>k n b. Some (demo_text b))\<rparr>"

lemma demo_bytes_text: "demo_bytes (demo_text x) = x" "demo_text (demo_bytes d) = d"
proof -
  have u: "unat b mod 256 = unat b" for b :: byte
    using unsigned_less [of b, where ?'a = nat] by simp
  have "(of_nat (of_char (char_of (unat b) :: char)) :: byte) = b" for b :: byte
    by (simp add: u)
  then show "demo_bytes (demo_text x) = x" by (simp add: demo_bytes_def demo_text_def map_idI)
  have "char_of (unat (of_nat (of_char c) :: byte)) = c" for c :: char
    by (simp add: unat_of_nat)
  then show "demo_text (demo_bytes d) = d" by (simp add: demo_bytes_def demo_text_def map_idI)
qed

lemma demo_crypt_laws: "crypto_laws (demo_crypt v)"
  by (simp add: crypto_laws_def demo_crypt_def demo_bytes_text) (simp add: demo_text_def)

definition demo_post :: request where
  "demo_post = demo_request\<lparr>rq_method := ''POST'', rq_content_length := 2, rq_body := ''hi'',
     rq_header := (\<lambda>n. ContentTypeEncrypted)\<rparr>"

definition demo_keys :: SessionClientKeys where
  "demo_keys = \<lparr>ck_SignPubKey = replicate 32 1, ck_BoxPubKey = replicate 32 2, ck_ShareKey = Some (replicate 16 3)\<rparr>"

definition demo_ctx :: gin_ctx where
  "demo_ctx = new_context\<lparr>cx_keys := Some demo_keys,
     cx_extend := Some \<lparr>ed_Nonce = ''n'', ed_Timestamp = ''1'', ed_Platform = Web, ed_Signature = ''s'', ed_SessionId = ''id''\<rparr>\<rparr>"

lemma demo_ctx_gets:
  "GetClientKeys demo_ctx = Some demo_keys"
  "GetExtendData demo_ctx = Some \<lparr>ed_Nonce = ''n'', ed_Timestamp = ''1'', ed_Platform = Web, ed_Signature = ''s'', ed_SessionId = ''id''\<rparr>"
  by (simp_all add: demo_ctx_def GetClientKeys_def GetExtendData_def)

lemma demo_verified: "VerifySignMap (demo_crypt v) (ck_SignPubKey demo_keys) mp signature = Ret (Inr v)"
  by (simp add: VerifySignMap_def demo_crypt_def demo_keys_def)

lemma sign_gate_witness:
  "SignMiddleware (demo_crypt False) ([], []) ''n'' ''1'' (\<lambda>_. Panic ''chain'') demo_post demo_ctx
     = SignMiddleware (demo_crypt False) ([], []) ''n'' ''1'' (\<lambda>c. Ret \<lparr>rs_ctx = c, rs_status = 200, rs_body = [], rs_headers = []\<rparr>)
         demo_post demo_ctx"
proof -
  have "VerifySignMap (demo_crypt False) (ck_SignPubKey demo_keys) mp sg \<noteq> Ret (Inr True)" for mp sg
    by (simp add: demo_verified)
  from sign_gate [OF demo_ctx_gets this] show ?thesis by blast
qed

lemma decrypt_encrypt_witness:
  "\<exists>body. Encrypt (demo_crypt True) (Some (replicate 12 7)) (replicate 16 1) ''hi'' = Inr body \<and>
          Decrypt (demo_crypt True) (replicate 16 1) body = Ret (Inr ''hi'')"
proof -
  have k: "aes_key (replicate 16 1)" "length (replicate 12 (7::byte)) = 12" by (simp_all add: aes_key_def)
  have "Encrypt (demo_crypt True) (Some (replicate 12 7)) (replicate 16 1) ''hi''
          = Inr (cl_encode (demo_crypt True) (replicate 12 7 @ cl_seal (demo_crypt True) (replicate 16 1) (replicate 12 7) ''hi''))"
    by (simp add: Encrypt_def k)
  with decrypt_encrypt [OF demo_crypt_laws k(2) k(1) this] show ?thesis by blast
qed

lemma crypto_short_body_panics_witness:
  "CryptoMiddleware (demo_crypt True) True [] [''*''] None (\<lambda>_ c. Panic ''chain'') [] demo_post demo_ctx
     = Panic ''slice bounds out of range''"
proof (rule crypto_short_body_panics [OF _ demo_ctx_gets(1)])
  show "isPathNeedCrypto [] [''*''] (rq_path demo_post)" by (simp add: isPathNeedCrypto_def HasPrefix_def)
  show "HasPrefix (rq_header demo_post ''Content-Type'') ContentTypeEncrypted"
    by (simp add: demo_post_def HasPrefix_def)
  show "aes_key (share_key demo_keys)" by (simp add: aes_key_def share_key_def demo_keys_def)
  show "cl_decode (demo_crypt True) (rq_body demo_post) = Some (demo_bytes ''hi'')"
    by (simp add: demo_crypt_def demo_post_def)
  show "length (demo_bytes ''hi'') < 12" by (simp add: demo_bytes_def)
qed (simp_all add: demo_post_def)

lemma error_bodies_dropped_witness:
  "let resp = \<lparr>rs_ctx = demo_ctx, rs_status = 404, rs_body = ''missing'', rs_headers = []\<rparr> in
   SignMiddleware (demo_crypt True) ([], []) ''n'' ''1'' (\<lambda>c. Ret resp) demo_request demo_ctx = Ret (resp\<lparr>rs_body := []\<rparr>)"
proof -
  have p: "isPathNeedCrypto [] [''*''] (rq_path demo_request)" by (simp add: isPathNeedCrypto_def HasPrefix_def)
  have d: "decrypt_request (demo_crypt True) demo_keys demo_request = Ret (Inr demo_request)"
    by (simp add: decrypt_request_def demo_request_def)
  define resp where "resp = \<lparr>rs_ctx = demo_ctx, rs_status = 404, rs_body = ''missing'', rs_headers = []\<rparr>"
  have c: "(\<lambda>_ c. Ret resp) demo_request demo_ctx = Ret resp" by simp
  have st: "rs_status resp < 200 \<or> 300 \<le> rs_status resp \<or> cx_aborted (rs_ctx resp) \<noteq> None" by (simp add: resp_def)
  from error_bodies_dropped [OF demo_ctx_gets demo_verified p d c st, of "([], [])" "''n''" "''1''"]
  show ?thesis by (simp add: resp_def Let_def)
qed

end
