(* ===== verification/Chat.thy ===== *)
theory Chat
  imports HubProofs Packet Headers
begin

text \<open>
  \<open>internal/app/features/hubs/chat/chat_hub.go\<close>: the chat hub of the application, which serves
  \<open>pkg/hub\<close> with packets of \<open>pkg/bytes\<close>. The handlers of the hub's channels are functions of the hub;
  printing is left out, and so is the extra data a line carries. \<open>ts\<close> is the clock reading of
  \<open>EncodeResp\<close>.
\<close>

section \<open>Messages\<close>

definition ChatMsgTypeReady :: byte where "ChatMsgTypeReady = 1"
definition ChatMsgTypePing :: byte where "ChatMsgTypePing = 5"
definition ChatMsgTypePong :: byte where "ChatMsgTypePong = 6"
definition ChatRespCodeOk :: byte where "ChatRespCodeOk = 1"

lemmas chat_consts = ChatMsgTypeReady_def ChatMsgTypePing_def ChatMsgTypePong_def ChatRespCodeOk_def

text \<open>The hub's protocol: neither signer nor cryptor.\<close>

definition chat_protocol :: "'p PayloadMarshaler \<Rightarrow> 'p PacketProtocol" where
  "chat_protocol msgpack = \<lparr>pp_signer = None, pp_cryptor = None, pp_marshaler = msgpack\<rparr>"

record LineMessage =
  lm_UserId :: string
  lm_Platform :: Platform
  lm_LineId :: string
  lm_Data :: "byte list"

definition handleReceivedMsg :: "'p PayloadMarshaler \<Rightarrow> int32 \<Rightarrow> LineMessage \<Rightarrow> byte hub \<Rightarrow> byte hub" where
  "handleReceivedMsg msgpack ts msg h =
     (case GetMeta (lm_Data msg) of
        Inl err \<Rightarrow> h
      | Inr meta \<Rightarrow>
          if MsgType meta = ChatMsgTypePing then
            (case EncodeResp (chat_protocol msgpack) ts (ucast ChatMsgTypePong) (RequestId meta) ChatRespCodeOk None of
               Inl err \<Rightarrow> h
             | Inr resp \<Rightarrow> snd (PushToUserLines (lm_UserId msg) resp [lm_LineId msg] h))
          else h)"

definition handleLineRegistered :: "'p PayloadMarshaler \<Rightarrow> int32 \<Rightarrow> nat \<Rightarrow> byte hub \<Rightarrow> byte hub" where
  "handleLineRegistered msgpack ts a h =
     (case EncodeResp (chat_protocol msgpack) ts (ucast ChatMsgTypeReady) 0 ChatRespCodeOk None of
        Inl err \<Rightarrow> h
      | Inr resp \<Rightarrow> snd (PushToUserLines (ln_userId (hb_lines h a)) resp [ln_id (hb_lines h a)] h))"

section \<open>Connecting\<close>

text \<open>
  \<open>upgrade\<close>: lines of the user with the client's id are told to close, then the new line \<open>b\<close> is made.
  Reading the claims of a request without any is a nil dereference. The result: the context, whether
  the line was announced to the hub, and the hub.
\<close>

definition ChatHub_upgrade ::
    "string option \<Rightarrow> string option \<Rightarrow> string option \<Rightarrow> bool \<Rightarrow> int64 \<Rightarrow> nat \<Rightarrow> request \<Rightarrow> gin_ctx \<Rightarrow> byte hub
       \<Rightarrow> (gin_ctx \<times> bool \<times> byte hub) outcome" where
  "ChatHub_upgrade upgradeErr submitRead submitWrite closedNow now b r c h =
     (case GetClaims c of
        None \<Rightarrow> Panic ''nil pointer dereference''
      | Some claims \<Rightarrow>
          (let userId = UID_String (cl_UserId claims);
               clientId = GetClientId r
           in if length clientId = 0 then Ret (abort_with 401 c, False, h)
              else
                (let h1 = (case GetUserLines userId h of None \<Rightarrow> h | Some p \<Rightarrow> CloseLines [clientId] p h);
                     ((err, announced), h2) =
                       UpgradeWebSocket upgradeErr submitRead submitWrite closedNow now b userId (cl_Platform claims) clientId h1
                 in Ret (if err \<noteq> None then abort_with 500 c else c, announced, h2))))"

section \<open>Lemmas\<close>

lemma chat_encodes: "EncodeResp (chat_protocol msgpack) ts mt rid code None = Inr (header ts mt rid code)"
  by (simp add: EncodeResp_def chat_protocol_def header_def Let_def)

lemma GetMeta_header_only: "GetMeta (header ts mt rid code) = Inr \<lparr>MsgType = ucast mt, RequestId = rid, Timestamp = ts\<rparr>"
  using GetMeta_header [of ts mt rid code "[]"] by simp

lemma header_not_Nil [simp]: "header ts mt rid code \<noteq> []"
  by (simp add: header_def)

section \<open>Properties\<close>

text \<open>A ping is answered: a packet of type ping received from a live line puts exactly one packet
  on that line's write channel, a pong with the ping's request id, and touches no other line; a packet
  of another type, or one too short for a header, changes nothing.\<close>

theorem chat_ping_pong:
  assumes "hub_rep key h L" "a \<in> set L" "key a = (lm_UserId msg, lm_LineId msg)"
    and "\<not> ln_isClosed (hb_lines h a)" "\<not> hb_isClosed h"
  shows "case GetMeta (lm_Data msg) of
      Inr meta \<Rightarrow>
        if MsgType meta = ChatMsgTypePing then
          \<exists>resp. GetMeta resp = Inr \<lparr>MsgType = ChatMsgTypePong, RequestId = RequestId meta, Timestamp = ts\<rparr>
            \<and> hb_lines (handleReceivedMsg msgpack ts msg h) = (hb_lines h)(a := (hb_lines h a)
                \<lparr>ln_writeChan := Some (the (ln_writeChan (hb_lines h a)) @ [resp])\<rparr>)
        else handleReceivedMsg msgpack ts msg h = h
    | Inl err \<Rightarrow> handleReceivedMsg msgpack ts msg h = h"
proof (cases "GetMeta (lm_Data msg)")
  case (Inr meta)
  let ?resp = "header ts (ucast ChatMsgTypePong) (RequestId meta) ChatRespCodeOk"
  have "GetMeta ?resp = Inr \<lparr>MsgType = ChatMsgTypePong, RequestId = RequestId meta, Timestamp = ts\<rparr>"
    by (simp add: GetMeta_header_only ChatMsgTypePong_def)
  moreover have "MsgType meta = ChatMsgTypePing \<Longrightarrow>
      hb_lines (handleReceivedMsg msgpack ts msg h) = (hb_lines h)(a := (hb_lines h a)
         \<lparr>ln_writeChan := Some (the (ln_writeChan (hb_lines h a)) @ [?resp])\<rparr>)"
    using push_to_one_line [OF assms, of ?resp] by (simp add: handleReceivedMsg_def Inr chat_encodes)
  ultimately show ?thesis using Inr by (auto simp: handleReceivedMsg_def)
qed (simp add: handleReceivedMsg_def)

lemma hub_register_isClosed: "ln_isClosed (hb_lines (hub_register b h) x) = ln_isClosed (hb_lines h x)"
  by (simp add: hub_register_def load_or_store_def UserLines_add_def set_line_def set_ul_def Let_def split: option.split)

lemma hub_unregister_isClosed: "ln_isClosed (hb_lines (hub_unregister a h) x) = ln_isClosed (hb_lines h x)"
  by (simp add: hub_unregister_def UserLines_remove_def closeLineChans_def set_line_def set_ul_def Let_def split: option.split)

text \<open>The state after an upgrade that reaches the hub: every live line of the user with the client's id
  got a close command, and the new line is in the heap.\<close>

lemma upgrade_state:
  assumes R: "hub_rep key h L" and a: "a \<in> set L" "key a = (UID_String (cl_UserId cl), GetClientId r)"
    and "GetClaims c = Some cl" "GetClientId r \<noteq> []" "b \<notin> set L"
    and "\<not> ln_isClosed (hb_lines h a)" "\<not> hb_isClosed h"
    and U: "ChatHub_upgrade None None None False now b r c h = Ret (c', announced, h1)"
  shows "c' = c" "announced" "hub_rep (key(b := key a)) h1 L" "\<not> hb_isClosed h1"
    and "hb_lines h1 a = (hb_lines h a)\<lparr>ln_cmds := Suc (ln_cmds (hb_lines h a))\<rparr>"
    and "\<not> ln_isClosed (hb_lines h1 b)"
proof -
  note D = hub_repD [OF R]
  define u where "u = UID_String (cl_UserId cl)"
  have m: "a \<in> set (lines_of key u L)" using a by (simp add: u_def)
  obtain p where p: "hb_conns h u = Some p" using D(5) [of u] m by (cases "hb_conns h u") auto
  define h0 where "h0 = close_loop (\<lambda>l. ln_id l = GetClientId r) (lines_of key u L) h"
  have d: "distinct (lines_of key u L)" using D(3) by (simp add: lines_of_def)
  have h0: "hb_lines h0 x = (let l = hb_lines h x in
      if x \<in> set (lines_of key u L) \<and> commandable l \<and> ln_id l = GetClientId r
      then l\<lparr>ln_cmds := Suc (ln_cmds l)\<rparr> else l)" for x
    unfolding h0_def close_loop_lines [OF d] by simp
  let ?new = "\<lparr>ln_id = GetClientId r, ln_userId = u, ln_platform = cl_Platform cl, ln_lastActive = now,
     ln_closeChan = False, ln_writeChan = None, ln_isClosed = False, ln_cmds = 0\<rparr> :: byte line"
  have c: "hb_isClosed h0 = hb_isClosed h" by (simp add: h0_def close_loop_tables)
  have r: "c' = c" "announced" "h1 = set_line b ?new h0"
    using U assms(4,5,8) p D(8) [OF p] c
    by (simp_all add: ChatHub_upgrade_def UpgradeWebSocket_def Line_start_def GetUserLines_def CloseLines_def
        u_def [symmetric] h0_def [symmetric] Let_def set_line_def)
  then show "c' = c" "announced" by simp_all
  show "\<not> hb_isClosed h1" using assms(8) c r(3) by (simp add: set_line_def)
  have ab: "a \<noteq> b" using a(1) assms(6) by auto
  show "hb_lines h1 a = (hb_lines h a)\<lparr>ln_cmds := Suc (ln_cmds (hb_lines h a))\<rparr>"
    using ab m assms(7) D(2,10) [of a] a by (simp add: r(3) set_line_def h0 Let_def commandable_def)
  show "\<not> ln_isClosed (hb_lines h1 b)" by (simp add: r(3) set_line_def)
  show "hub_rep (key(b := key a)) h1 L"
  proof (rule hub_rep_frame [OF R])
    show "(ln_userId (hb_lines h1 x), ln_id (hb_lines h1 x)) = (key(b := key a)) x" for x
      using D(1,2) [of x] a(2) by (cases "key x") (simp add: r(3) set_line_def h0 Let_def u_def)
    show "ln_closeChan (hb_lines h1 x) = ln_closeChan (hb_lines h x)
        \<and> (ln_writeChan (hb_lines h1 x) = None) = (ln_writeChan (hb_lines h x) = None)" if "x \<in> set L" for x
      using that assms(6) by (auto simp: r(3) set_line_def h0 Let_def)
  qed (use assms(6) in \<open>auto simp: r(3) set_line_def h0_def close_loop_tables\<close>)
qed

text \<open>A line that takes its close command marks itself closed and asks to be unregistered.\<close>

lemma close_command_taken:
  assumes "hub_rep key h L" "a \<in> set L" "\<not> ln_isClosed (hb_lines h a)" "\<not> hb_isClosed h"
    and "h' = snd (snd (write_turn CloseReady None None a h))"
  shows "hub_rep key h' L" "a \<in> set (hb_unreg_queue h')"
    "hb_lines h' = (hb_lines h)(a := (hb_lines h a)\<lparr>ln_isClosed := True\<rparr>)"
proof -
  note D = hub_repD [OF assms(1)]
  have e: "h' = (set_line a ((hb_lines h a)\<lparr>ln_isClosed := True\<rparr>) h)\<lparr>hb_unreg_queue := hb_unreg_queue h @ [a]\<rparr>"
    using assms(3-5) D(10) [OF assms(2)] by (simp add: write_turn_def Line_close_def set_line_def Let_def)
  show "hb_lines h' = (hb_lines h)(a := (hb_lines h a)\<lparr>ln_isClosed := True\<rparr>)" "a \<in> set (hb_unreg_queue h')"
    by (simp_all add: e set_line_def)
  show "hub_rep key h' L"
    by (rule hub_rep_frame [OF assms(1)]) (simp_all add: e set_line_def D(1,2))
qed

text \<open>C30. Reconnecting loses the connection: \<open>upgrade\<close> sends the close command to the client's old line
  \<open>a\<close> and announces the new line \<open>b\<close> under the same id; when \<open>a\<close> takes the command and the hub then
  handles the two queues, registering \<open>b\<close> before it unregisters \<open>a\<close>, no line of the client is found
  any more, although \<open>b\<close> is open.\<close>

theorem chat_reconnect_loses_line:
  assumes "hub_rep key h L" "a \<in> set L" "key a = (UID_String (cl_UserId cl), GetClientId r)"
    and "GetClaims c = Some cl" "GetClientId r \<noteq> []" "b \<notin> set L"
    and "\<not> ln_isClosed (hb_lines h a)" "\<not> hb_isClosed h"
    and "ChatHub_upgrade None None None False now b r c h = Ret (c', announced, h1)"
    and "h2 = snd (snd (write_turn CloseReady None None a h1))"
    and "h3 = hub_unregister a (hub_register b h2)"
  shows "announced \<and> a \<in> set (hb_unreg_queue h2)
    \<and> GetUserLine (UID_String (cl_UserId cl)) (GetClientId r) h3 = None
    \<and> \<not> ln_isClosed (hb_lines h3 b) \<and> ln_writeChan (hb_lines h3 b) = Some []"
proof -
  note U = upgrade_state [OF assms(1-9)]
  have ab: "b \<noteq> a" using assms(2,6) by auto
  have o: "\<not> ln_isClosed (hb_lines h1 a)" using assms(7) by (simp add: U(5))
  note C = close_command_taken [OF U(3) assms(2) o U(4) assms(10)]
  let ?key = "key(b := key a)"
  have k: "?key b = ?key a" "?key a = (UID_String (cl_UserId cl), GetClientId r)" using ab assms(3) by simp_all
  from reconnect_loses_new_line [OF C(1) assms(2,6) ab k(1) assms(11)] k(2)
  have "GetUserLine (UID_String (cl_UserId cl)) (GetClientId r) h3 = None" "ln_writeChan (hb_lines h3 b) = Some []"
    by simp_all
  moreover have "ln_isClosed (hb_lines h3 b) = ln_isClosed (hb_lines h2 b)"
    by (simp add: assms(11) hub_register_isClosed hub_unregister_isClosed)
  ultimately show ?thesis using U(2,6) C ab by simp
qed

section \<open>Witnesses\<close>

definition chat_user :: UID where "chat_user = replicate 16 1"

definition chat_heap :: "nat \<Rightarrow> byte line" where
  "chat_heap a = \<lparr>ln_id = ''c1'', ln_userId = UID_String chat_user, ln_platform = 8, ln_lastActive = 0,
     ln_closeChan = False, ln_writeChan = None, ln_isClosed = False, ln_cmds = 0\<rparr>"

definition chat_hub :: "byte hub" where
  "chat_hub = events_run hub_register hub_unregister [Joined 1] (hub_over 0 chat_heap)"

lemma chat_hub_rep: "hub_rep (heap_keys chat_heap) chat_hub [1]"
  unfolding chat_hub_def by (rule hub_registry.run_rep [OF hub_over_rep]) simp

lemma chat_hub_line:
  "\<not> ln_isClosed (hb_lines chat_hub 1)" "\<not> hb_isClosed chat_hub" "ln_writeChan (hb_lines chat_hub 1) = Some []"
  by (simp_all add: chat_hub_def hub_register_def load_or_store_def set_line_def UserLines_add_def set_ul_def
      hub_over_def NewHub_def chat_heap_def Let_def)

lemma chat_ping_pong_witness:
  "\<exists>resp. ln_writeChan (hb_lines (handleReceivedMsg (pp_marshaler plain_protocol) 7
       \<lparr>lm_UserId = UID_String chat_user, lm_Platform = 8, lm_LineId = ''c1'', lm_Data = header 0 5 9 0\<rparr> chat_hub) 1) = Some [resp]
     \<and> GetMeta resp = Inr \<lparr>MsgType = 6, RequestId = 9, Timestamp = 7\<rparr>"
proof -
  let ?msg = "\<lparr>lm_UserId = UID_String chat_user, lm_Platform = 8, lm_LineId = ''c1'', lm_Data = header 0 5 9 0\<rparr>"
  have k: "heap_keys chat_heap 1 = (lm_UserId ?msg, lm_LineId ?msg)" by (simp add: heap_keys_def chat_heap_def)
  from chat_ping_pong [OF chat_hub_rep _ k chat_hub_line(1,2), of "pp_marshaler plain_protocol" 7] chat_hub_line(3)
  show ?thesis by (auto simp: GetMeta_header_only chat_consts)
qed

definition chat_request :: request where
  "chat_request = demo_request\<lparr>rq_header := (\<lambda>n. if n = ''X-Client'' then ''c1'' else [])\<rparr>"

definition chat_claims :: AuthorizedClaims where
  "chat_claims = \<lparr>cl_UserId = chat_user, cl_Platform = 8, cl_UserAgent = [], cl_UserAgentHashed = [],
     cl_ClientId = ''c1'', cl_Ip = []\<rparr>"

lemma chat_request_client: "GetClientId chat_request = ''c1''"
  by (simp add: GetClientId_def GetPlatform_def GetTrimmedHeader_def PlatformFromString_def cookie_def Web_def
      Unspecify_def chat_request_def demo_request_def TrimSpace_def is_space_def Let_def)

lemma chat_reconnect_loses_line_witness:
  "\<exists>c' h1. ChatHub_upgrade None None None False 0 2 chat_request (new_context\<lparr>cx_claims := Some chat_claims\<rparr>) chat_hub = Ret (c', True, h1)
    \<and> GetUserLine (UID_String chat_user) ''c1''
        (hub_unregister 1 (hub_register 2 (snd (snd (write_turn CloseReady None None 1 h1))))) = None"
proof -
  let ?c = "new_context\<lparr>cx_claims := Some chat_claims\<rparr>"
  have g: "GetClaims ?c = Some chat_claims" "GetClientId chat_request \<noteq> []"
    by (simp_all add: GetClaims_def chat_request_client)
  have k: "heap_keys chat_heap 1 = (UID_String (cl_UserId chat_claims), GetClientId chat_request)"
    by (simp add: heap_keys_def chat_heap_def chat_claims_def chat_request_client)
  obtain c' ann h1 where u: "ChatHub_upgrade None None None False 0 2 chat_request ?c chat_hub = Ret (c', ann, h1)"
    using g by (fastforce simp: ChatHub_upgrade_def Let_def split: prod.split)
  from chat_reconnect_loses_line [OF chat_hub_rep _ k g(1,2) _ chat_hub_line(1,2) u refl refl]
  have "ann \<and> GetUserLine (UID_String chat_user) ''c1''
      (hub_unregister 1 (hub_register 2 (snd (snd (write_turn CloseReady None None 1 h1))))) = None"
    by (simp add: chat_claims_def chat_request_client)
  with u show ?thesis by auto
qed

end
