(* ===== verification/ChatListen.thy ===== *)
theory ChatListen
  imports Chat
begin

text \<open>
  The goroutine of \<open>internal/app/features/hubs/chat/chat_hub.go\<close> that reads the hub's channels, and the
  construction of the hub from the configuration. A turn of \<open>listen\<close> is one iteration of its loop; which ready
  arm the \<open>select\<close> takes is an argument. A channel is the list of what was sent and not yet received; \<open>Close\<close>
  closes all four, and a receive from a closed and empty channel is ready at once with \<open>ok\<close> false.
\<close>

section \<open>Construction\<close>

record HubConfig =
  SubProtocols :: "string list"
  LiveCheckDuration :: int64
  ConnMaxIdleTime :: int64
  ReadTimeout :: int64
  WriteTimeout :: int64
  HandshakeTimeout :: int64
  EnableCompression :: bool

definition ChatSecond :: int64 where "ChatSecond = 1000000000"

text \<open>The check of a handshake's \<open>Origin\<close> header; a request without the header has the empty origin.\<close>

definition check_origin :: "string list \<Rightarrow> string \<Rightarrow> bool" where
  "check_origin allowOrigins origin \<longleftrightarrow> origin \<in> set allowOrigins"

text \<open>\<open>NewHub\<close> uses of the durations only the idle time in the state that is modelled.\<close>

definition ChatHub_Start :: "HubConfig \<Rightarrow> bool \<Rightarrow> string option \<Rightarrow> byte hub outcome" where
  "ChatHub_Start config pool submitErr =
     (case NewHub pool (ChatSecond * ConnMaxIdleTime config) submitErr of
        Inl err \<Rightarrow> Panic err
      | Inr hub \<Rightarrow> Ret hub)"

section \<open>The loop\<close>

record chat =
  ct_hub :: "byte hub"
  ct_messages :: "LineMessage list" \<comment> \<open>sent on \<open>messageChan\<close>\<close>

datatype arm = Message | Registered | Unregistered | Failed | Idle

definition chat_ready :: "arm \<Rightarrow> chat \<Rightarrow> bool" where
  "chat_ready a c \<longleftrightarrow>
     (let h = ct_hub c in
      case a of
        Message \<Rightarrow> ct_messages c \<noteq> [] \<or> hb_isClosed h
      | Registered \<Rightarrow> hb_registered h \<noteq> [] \<or> hb_isClosed h
      | Unregistered \<Rightarrow> hb_unregistered h \<noteq> [] \<or> hb_isClosed h
      | Failed \<Rightarrow> hb_errors h \<noteq> [] \<or> hb_isClosed h
      | Idle \<Rightarrow> ct_messages c = [] \<and> hb_registered h = [] \<and> hb_unregistered h = [] \<and> hb_errors h = []
          \<and> \<not> hb_isClosed h)"

text \<open>One iteration: the state after it and the milliseconds slept. The handlers of the last two channels only print.\<close>

definition chat_turn :: "'p PayloadMarshaler \<Rightarrow> int32 \<Rightarrow> arm \<Rightarrow> chat \<Rightarrow> (chat \<times> nat) option" where
  "chat_turn msgpack ts a c =
     (let h = ct_hub c in
      if \<not> chat_ready a c then None
      else Some (case a of
        Message \<Rightarrow>
          (case ct_messages c of
             [] \<Rightarrow> (c, 0)
           | msg # rest \<Rightarrow> (c\<lparr>ct_hub := handleReceivedMsg msgpack ts msg h, ct_messages := rest\<rparr>, 0))
      | Registered \<Rightarrow>
          (case hb_registered h of
             [] \<Rightarrow> (c, 0)
           | r # rest \<Rightarrow> (c\<lparr>ct_hub := handleLineRegistered msgpack ts r (h\<lparr>hb_registered := rest\<rparr>)\<rparr>, 0))
      | Unregistered \<Rightarrow>
          (case hb_unregistered h of
             [] \<Rightarrow> (c, 0)
           | u # rest \<Rightarrow> (c\<lparr>ct_hub := h\<lparr>hb_unregistered := rest\<rparr>\<rparr>, 0))
      | Failed \<Rightarrow>
          (case hb_errors h of
             [] \<Rightarrow> (c, 0)
           | e # rest \<Rightarrow> (c\<lparr>ct_hub := h\<lparr>hb_errors := rest\<rparr>\<rparr>, 0))
      | Idle \<Rightarrow> (c, 10)))"

text \<open>\<open>listen\<close> over a run of turns, with the sum of what it slept.\<close>

fun chat_listen :: "'p PayloadMarshaler \<Rightarrow> (int32 \<times> arm) list \<Rightarrow> chat \<Rightarrow> (chat \<times> nat) option" where
  "chat_listen msgpack [] c = Some (c, 0)"
| "chat_listen msgpack ((ts, a) # turns) c =
     (case chat_turn msgpack ts a c of
        None \<Rightarrow> None
      | Some (c, slept) \<Rightarrow> map_option (map_prod id ((+) slept)) (chat_listen msgpack turns c))"

definition chat_pending :: "chat \<Rightarrow> nat" where
  "chat_pending c = length (ct_messages c) + length (hb_registered (ct_hub c)) + length (hb_unregistered (ct_hub c))
     + length (hb_errors (ct_hub c))"

section \<open>Lemmas\<close>

lemma push_loop_queues:
  "hb_registered (push_loop P data as h) = hb_registered h" "hb_unregistered (push_loop P data as h) = hb_unregistered h"
  "hb_errors (push_loop P data as h) = hb_errors h"
  by (induction P data as h rule: push_loop.induct) (simp_all add: Let_def send_data_def set_line_def)

lemma PushToUserLines_queues [simp]:
  "hb_registered (snd (PushToUserLines u data ids h)) = hb_registered h"
  "hb_unregistered (snd (PushToUserLines u data ids h)) = hb_unregistered h"
  "hb_errors (snd (PushToUserLines u data ids h)) = hb_errors h"
  "hb_isClosed (snd (PushToUserLines u data ids h)) = hb_isClosed h"
  by (simp_all add: PushToUserLines_def PushMessageToLines_def push_loop_queues push_loop_tables split: option.split)

lemma handler_queues [simp]:
  "hb_registered (handleReceivedMsg m ts msg h) = hb_registered h"
  "hb_unregistered (handleReceivedMsg m ts msg h) = hb_unregistered h"
  "hb_errors (handleReceivedMsg m ts msg h) = hb_errors h"
  "hb_isClosed (handleReceivedMsg m ts msg h) = hb_isClosed h"
  "hb_registered (handleLineRegistered m ts a h) = hb_registered h"
  "hb_unregistered (handleLineRegistered m ts a h) = hb_unregistered h"
  "hb_errors (handleLineRegistered m ts a h) = hb_errors h"
  "hb_isClosed (handleLineRegistered m ts a h) = hb_isClosed h"
  by (simp_all add: handleReceivedMsg_def handleLineRegistered_def split: sum.split)

text \<open>A turn that receives something takes it off its channel; every other turn changes nothing.\<close>

lemma chat_turn_effect:
  assumes "chat_turn m ts a c = Some (c', slept)"
  shows "hb_isClosed (ct_hub c') = hb_isClosed (ct_hub c)
    \<and> ct_messages c' = (if a = Message then tl (ct_messages c) else ct_messages c)
    \<and> (slept = 0 \<and> chat_pending c = Suc (chat_pending c')
       \<or> c' = c \<and> slept = 0 \<and> hb_isClosed (ct_hub c)
       \<or> c' = c \<and> slept = 10 \<and> chat_pending c = 0 \<and> \<not> hb_isClosed (ct_hub c))"
proof -
  have r: "chat_ready a c" using assms by (simp add: chat_turn_def Let_def split: if_splits)
  show ?thesis
  proof (cases a)
    case Message
    with assms r show ?thesis
      by (cases "ct_messages c") (auto simp: chat_turn_def chat_ready_def chat_pending_def Let_def)
  next
    case Registered
    with assms r show ?thesis
      by (cases "hb_registered (ct_hub c)") (auto simp: chat_turn_def chat_ready_def chat_pending_def Let_def)
  next
    case Unregistered
    with assms r show ?thesis
      by (cases "hb_unregistered (ct_hub c)") (auto simp: chat_turn_def chat_ready_def chat_pending_def Let_def)
  next
    case Failed
    with assms r show ?thesis
      by (cases "hb_errors (ct_hub c)") (auto simp: chat_turn_def chat_ready_def chat_pending_def Let_def)
  next
    case Idle
    with assms r show ?thesis by (auto simp: chat_turn_def chat_ready_def chat_pending_def Let_def)
  qed
qed

lemma chat_ready_some: "\<exists>a. chat_ready a c"
proof (rule ccontr)
  assume none: "\<nexists>a. chat_ready a c"
  then have "\<not> chat_ready Idle c" "\<not> chat_ready Message c" "\<not> chat_ready Registered c" "\<not> chat_ready Unregistered c"
    "\<not> chat_ready Failed c" by blast+
  then show False by (auto simp: chat_ready_def Let_def)
qed

lemma chat_never_stuck: "\<exists>turns. length turns = n \<and> chat_listen m turns c \<noteq> None"
proof (induction n arbitrary: c)
  case (Suc n)
  obtain a where "chat_ready a c" using chat_ready_some by blast
  then obtain c' slept where t: "chat_turn m 0 a c = Some (c', slept)"
    by (cases "chat_turn m 0 a c") (auto simp: chat_turn_def Let_def)
  obtain turns where "length turns = n" "chat_listen m turns c' \<noteq> None" using Suc by blast
  with t show ?case by (intro exI [of _ "(0, a) # turns"]) auto
qed simp

section \<open>Properties\<close>


definition closed_chat :: chat where
  "closed_chat = \<lparr>ct_hub = chat_hub\<lparr>hb_isClosed := True, hb_registered := []\<rparr>, ct_messages = []\<rparr>"


text \<open>The handshake of a browser page is accepted from the listed origins only; a client that sends no \<open>Origin\<close> header
  is refused unless the empty origin is listed.\<close>

lemma no_origin_refused: "[] \<notin> set allowOrigins \<Longrightarrow> \<not> check_origin allowOrigins []"
  by (simp add: check_origin_def)

end
