(* ===== verification/SSE.thy ===== *)
theory SSE
  imports HubProofs Headers
begin

text \<open>
  \<open>pkg/sse\<close>: the hub for server-sent events, and \<open>internal/app/features/hubs/sse/ai_hub.go\<close>, which
  serves it. \<open>user_lines.go\<close> and most of \<open>hub.go\<close> are, word for word, the functions of \<open>pkg/hub\<close> with
  strings as messages, so their models are those of theory \<open>Hub\<close> at the type of characters; the fields
  that record has for activity are not used here. The line and its loop are this package's own.
\<close>

type_synonym sse_hub = "char hub"
type_synonym sse_line = "char line"

section \<open>UserLines\<close>

definition sse_Len :: "nat \<Rightarrow> sse_hub \<Rightarrow> int" where "sse_Len p h = UserLines_Len p h"
definition sse_add :: "nat \<Rightarrow> nat \<Rightarrow> sse_hub \<Rightarrow> sse_hub" where "sse_add p a h = UserLines_add p a h"
definition sse_remove :: "nat \<Rightarrow> string \<Rightarrow> sse_hub \<Rightarrow> sse_hub" where "sse_remove p lineId h = UserLines_remove p lineId h"
definition sse_Get :: "nat \<Rightarrow> string \<Rightarrow> sse_hub \<Rightarrow> nat option" where "sse_Get p lineId h = UserLines_Get p lineId h"
definition sse_GetPlatformLines :: "nat \<Rightarrow> Platform list \<Rightarrow> sse_hub \<Rightarrow> nat list" where
  "sse_GetPlatformLines p ps h = UserLines_GetPlatformLines p ps h"
definition sse_ClosePlatforms :: "Platform list \<Rightarrow> nat \<Rightarrow> sse_hub \<Rightarrow> sse_hub" where
  "sse_ClosePlatforms ps p h = ClosePlatforms ps p h"
definition sse_ClosePlatformsExcept :: "Platform list \<Rightarrow> nat \<Rightarrow> sse_hub \<Rightarrow> sse_hub" where
  "sse_ClosePlatformsExcept ps p h = ClosePlatformsExcept ps p h"
definition sse_CloseLines :: "string list \<Rightarrow> nat \<Rightarrow> sse_hub \<Rightarrow> sse_hub" where
  "sse_CloseLines lineIds p h = CloseLines lineIds p h"
definition sse_CloseLinesExcept :: "string list \<Rightarrow> nat \<Rightarrow> sse_hub \<Rightarrow> sse_hub" where
  "sse_CloseLinesExcept lineIds p h = CloseLinesExcept lineIds p h"
definition sse_CloseAll :: "nat \<Rightarrow> sse_hub \<Rightarrow> sse_hub" where "sse_CloseAll p h = CloseAll p h"
definition sse_UserPushMessage :: "string \<Rightarrow> nat \<Rightarrow> sse_hub \<Rightarrow> sse_hub" where
  "sse_UserPushMessage data p h = UserLines_PushMessage data p h"
definition sse_PushMessageExceptPlatforms :: "string \<Rightarrow> Platform list \<Rightarrow> nat \<Rightarrow> sse_hub \<Rightarrow> sse_hub" where
  "sse_PushMessageExceptPlatforms data ps p h = PushMessageExceptPlatforms data ps p h"
definition sse_PushMessageExceptLines :: "string \<Rightarrow> string list \<Rightarrow> nat \<Rightarrow> sse_hub \<Rightarrow> sse_hub" where
  "sse_PushMessageExceptLines data lineIds p h = PushMessageExceptLines data lineIds p h"
definition sse_PushMessageToPlatforms :: "string \<Rightarrow> Platform list \<Rightarrow> nat \<Rightarrow> sse_hub \<Rightarrow> sse_hub" where
  "sse_PushMessageToPlatforms data ps p h = PushMessageToPlatforms data ps p h"
definition sse_PushMessageToLines :: "string \<Rightarrow> string list \<Rightarrow> nat \<Rightarrow> sse_hub \<Rightarrow> sse_hub" where
  "sse_PushMessageToLines data lineIds p h = PushMessageToLines data lineIds p h"

section \<open>Hub\<close>

definition sse_NewHub :: "bool \<Rightarrow> string option \<Rightarrow> string + sse_hub" where
  "sse_NewHub pool submitErr = NewHub pool 0 submitErr"
definition sse_register :: "nat \<Rightarrow> sse_hub \<Rightarrow> sse_hub" where "sse_register a h = hub_register a h"
definition sse_unregister :: "nat \<Rightarrow> sse_hub \<Rightarrow> sse_hub" where "sse_unregister a h = hub_unregister a h"
definition sse_LiveCount :: "sse_hub \<Rightarrow> int" where "sse_LiveCount h = LiveCount h"
definition sse_closeLineChans :: "nat \<Rightarrow> sse_hub \<Rightarrow> sse_hub" where "sse_closeLineChans a h = closeLineChans a h"
definition sse_Close :: "string list \<Rightarrow> sse_hub \<Rightarrow> sse_hub" where "sse_Close users h = Hub_Close users h"
definition sse_GetUserLines :: "string \<Rightarrow> sse_hub \<Rightarrow> nat option" where "sse_GetUserLines userId h = GetUserLines userId h"
definition sse_GetUserLine :: "string \<Rightarrow> string \<Rightarrow> sse_hub \<Rightarrow> nat option" where
  "sse_GetUserLine userId lineId h = GetUserLine userId lineId h"
definition sse_CloseUserLines :: "string list \<Rightarrow> sse_hub \<Rightarrow> sse_hub" where
  "sse_CloseUserLines userIds h = CloseUserLines userIds h"
definition sse_PushMessage :: "string list \<Rightarrow> string \<Rightarrow> sse_hub \<Rightarrow> sse_hub" where
  "sse_PushMessage userIds data h = Hub_PushMessage userIds data h"
definition sse_PushToUserLines :: "string \<Rightarrow> string \<Rightarrow> string list \<Rightarrow> sse_hub \<Rightarrow> string option \<times> sse_hub" where
  "sse_PushToUserLines userId data lineIds h = PushToUserLines userId data lineIds h"
definition sse_BroadcastMessage :: "string \<Rightarrow> string list \<Rightarrow> sse_hub \<Rightarrow> sse_hub" where
  "sse_BroadcastMessage data users h = BroadcastMessage data users h"

text \<open>The package's tables are a registry too.\<close>

interpretation sse_registry: registry sse_register sse_unregister "hub_rep key" key for key
  by unfold_locales (auto simp: sse_register_def sse_unregister_def intro: hub_register_rep hub_unregister_rep)

section \<open>Lines\<close>

text \<open>What \<open>push\<close> writes: \<open>now\<close> is \<open>time.Now().UnixMicro()\<close>.\<close>

abbreviation nl :: char where "nl \<equiv> CHR 0x0A"

definition sse_frame :: "int64 \<Rightarrow> string \<Rightarrow> string" where
  "sse_frame now msg = ''id: '' @ Itoa (sint now) @ [nl] @ ''data: '' @ msg @ [nl, nl]"

definition sse_notifyClose :: "nat \<Rightarrow> sse_hub \<Rightarrow> sse_hub" where
  "sse_notifyClose a h = (if \<not> hb_isClosed h then h\<lparr>hb_unreg_queue := hb_unreg_queue h @ [a]\<rparr> else h)"

definition sse_Line_close :: "string option \<Rightarrow> nat \<Rightarrow> sse_hub \<Rightarrow> sse_hub" where
  "sse_Line_close err a h =
     (if ln_isClosed (hb_lines h a) then h
      else
        (let h = set_line a ((hb_lines h a)\<lparr>ln_isClosed := True\<rparr>) h;
             h = (case err of None \<Rightarrow> h
                  | Some e \<Rightarrow> if \<not> hb_isClosed h then h\<lparr>hb_errors := hb_errors h @ [(a, e)]\<rparr> else h)
         in sse_notifyClose a h))"

text \<open>
  \<open>Serve\<close> with the line's address \<open>a\<close>: whether the line was sent on \<open>registeredChanInternal\<close>, and the
  first thing written.
\<close>

definition sse_Serve :: "int64 \<Rightarrow> nat \<Rightarrow> string \<Rightarrow> Platform \<Rightarrow> string \<Rightarrow> sse_hub \<Rightarrow> bool \<times> string \<times> sse_hub" where
  "sse_Serve now a userId platform lineId h =
     (let h' = set_line a \<lparr>ln_id = lineId, ln_userId = userId, ln_platform = platform, ln_lastActive = 0,
                 ln_closeChan = False, ln_writeChan = None, ln_isClosed = False, ln_cmds = 0\<rparr> h
      in if hb_isClosed h' then (False, [], h') else (True, sse_frame now ''open'', h'))"

text \<open>
  One turn of the loop of \<open>start\<close>. A \<open>select\<close> looks up its channels once, when it is entered: \<open>chans\<close>
  says whether the line had its channels then (they are made when the hub registers the line; a nil
  channel is never ready). \<open>None\<close> is a branch that cannot be taken. The result: whether the loop goes
  on, the message pushed to the client, and the hub.
\<close>

datatype sse_ready = MsgReady | TickReady | CloseCmdReady | ClientGone

definition sse_turn :: "bool \<Rightarrow> sse_ready \<Rightarrow> nat \<Rightarrow> sse_hub \<Rightarrow> (bool \<times> string option \<times> sse_hub) option" where
  "sse_turn chans ready a h =
     (let line = hb_lines h a in
      if ln_isClosed line \<or> hb_isClosed h then Some (False, None, h)
      else case ready of
          MsgReady \<Rightarrow>
            if \<not> chans then None
            else (case ln_writeChan line of
                    None \<Rightarrow> Some (True, Some [], h) \<comment> \<open>closed meanwhile\<close>
                  | Some [] \<Rightarrow> None
                  | Some (msg # q) \<Rightarrow> Some (True, Some msg, set_line a (line\<lparr>ln_writeChan := Some q\<rparr>) h))
        | TickReady \<Rightarrow> Some (True, Some ''ping'', h)
        | CloseCmdReady \<Rightarrow>
            if \<not> chans then None
            else Some (False, None, sse_notifyClose a (set_line a (line\<lparr>ln_isClosed := True\<rparr>) h))
        | ClientGone \<Rightarrow> Some (False, None, sse_Line_close (Some ''client disconnect'') a h))"

section \<open>The application's hub\<close>

text \<open>\<open>c.Query\<close>: the first value of a key; \<open>Sprintf("%d", uid)\<close> prints the 16 bytes in brackets.\<close>

definition gin_Query :: "request \<Rightarrow> string \<Rightarrow> string" where
  "gin_Query r key = (case map_of (rq_query r) key of Some (v # _) \<Rightarrow> v | _ \<Rightarrow> [])"

definition AI_userId :: "UID \<Rightarrow> string" where
  "AI_userId uid = ''['' @ Join (map (\<lambda>b. Itoa (uint b)) uid) '' '' @ '']''"

definition AIHub_Serve ::
    "int64 \<Rightarrow> nat \<Rightarrow> request \<Rightarrow> gin_ctx \<Rightarrow> sse_hub \<Rightarrow> (gin_ctx \<times> (bool \<times> string \<times> sse_hub)) outcome" where
  "AIHub_Serve now a r c h =
     (let lineID = TrimSpace (gin_Query r ''id'') in
      if length lineID = 0 then Ret (abort_with 401 c, (False, [], h))
      else case GetClaims c of
          None \<Rightarrow> Panic ''nil pointer dereference''
        | Some claims \<Rightarrow>
            (let userId = AI_userId (cl_UserId claims);
                 h' = (case sse_GetUserLines userId h of None \<Rightarrow> h | Some p \<Rightarrow> sse_CloseLines [lineID] p h)
             in Ret (c, sse_Serve now a userId (cl_Platform claims) lineID h')))"

section \<open>The stream a client sees\<close>

definition sse_stream :: "(int64 \<times> string) list \<Rightarrow> string" where
  "sse_stream ms = concat (map (\<lambda>(now, msg). sse_frame now msg) ms)"

lemma cut_at_char:
  "c \<notin> set a \<Longrightarrow> c \<notin> set b \<Longrightarrow> a @ c # r = b @ c # s \<longleftrightarrow> a = b \<and> r = s"
proof (induction a arbitrary: b)
  case Nil
  then show ?case by (cases b) auto
next
  case (Cons x a)
  then show ?case by (cases b) auto
qed

lemma nl_not_digit: "\<not> is_digit nl"
  by (simp add: is_digit_def)

lemma Itoa_no_nl: "nl \<notin> set (Itoa n)"
proof -
  have "nl \<notin> set (nat_digits k)" for k
    using nat_digits_digits [of k] nl_not_digit by (auto simp: list_all_iff)
  then show ?thesis by (simp add: Itoa_def)
qed

lemma Itoa_sint_inject: "Itoa (sint t) = Itoa (sint t') \<longleftrightarrow> t = t'" for t t' :: int64
proof -
  have "int64_range (sint t)" for t :: int64
    using sint_range_size [of t] by (simp add: int64_range_def word_size)
  then have "Itoa (sint t) = Itoa (sint t') \<Longrightarrow> sint t = sint t'"
    using Atoi_Itoa by (metis option.inject)
  then show ?thesis by (auto intro: signed_word_eqI)
qed

lemma sse_frame_inject:
  assumes "nl \<notin> set m" "nl \<notin> set m'"
  shows "sse_frame t m @ r = sse_frame t' m' @ r' \<longleftrightarrow> t = t' \<and> m = m' \<and> r = r'"
proof -
  have "sse_frame t m @ r = (''id: '' @ Itoa (sint t)) @ nl # ((''data: '' @ m) @ nl # (nl # r))" for t m r
    by (simp add: sse_frame_def)
  then show ?thesis
    using cut_at_char [of nl "''id: '' @ Itoa (sint t)" "''id: '' @ Itoa (sint t')"]
      cut_at_char [of nl "''data: '' @ m" "''data: '' @ m'"] assms Itoa_no_nl
    by (auto simp: Itoa_sint_inject)
qed

lemma sse_stream_Cons: "sse_stream ((t, m) # ms) = sse_frame t m @ sse_stream ms"
  by (simp add: sse_stream_def)

lemma sse_stream_inject:
  assumes "\<forall>(t, m)\<in>set ms. nl \<notin> set m" "\<forall>(t, m)\<in>set ms'. nl \<notin> set m" "sse_stream ms = sse_stream ms'"
  shows "ms = ms'"
  using assms
proof (induction ms arbitrary: ms')
  case Nil
  then show ?case by (cases ms') (auto simp: sse_stream_def sse_frame_def)
next
  case (Cons x ms)
  obtain t m where x: "x = (t, m)" by fastforce
  then obtain t' m' ms'' where ms': "ms' = (t', m') # ms''"
    using Cons.prems(3) by (cases ms') (auto simp: sse_stream_def sse_frame_def)
  have "nl \<notin> set m" "nl \<notin> set m'" using Cons.prems(1,2) by (auto simp: x ms')
  from sse_frame_inject [OF this] Cons.prems(3)
  have e: "t = t'" "m = m'" "sse_stream ms = sse_stream ms''" by (simp_all add: x ms' sse_stream_Cons)
  have "ms = ms''" by (rule Cons.IH) (use Cons.prems(1,2) e(3) in \<open>simp_all add: x ms'\<close>)
  with e show ?case by (simp add: x ms')
qed

section \<open>Delivery\<close>

datatype sse_event = PushLine string | Turn sse_ready

text \<open>Pushes to the line \<open>a\<close> of user \<open>u\<close> with id \<open>i\<close>, between turns of its loop; the result carries
  what was pushed to the client, with the branch that pushed it.\<close>

fun sse_run :: "string \<Rightarrow> string \<Rightarrow> nat \<Rightarrow> sse_event list \<Rightarrow> sse_hub \<Rightarrow> (sse_hub \<times> (sse_ready \<times> string) list) option" where
  "sse_run u i a [] h = Some (h, [])"
| "sse_run u i a (PushLine m # es) h = sse_run u i a es (snd (sse_PushToUserLines u m [i] h))"
| "sse_run u i a (Turn r # es) h =
     (case sse_turn True r a h of
        None \<Rightarrow> None
      | Some (goes_on, out, h') \<Rightarrow>
          (case sse_run u i a es h' of
             None \<Rightarrow> None
           | Some (h'', outs) \<Rightarrow> Some (h'', (case out of None \<Rightarrow> outs | Some m \<Rightarrow> (r, m) # outs))))"

fun pushed :: "sse_event list \<Rightarrow> string list" where
  "pushed [] = []"
| "pushed (PushLine m # es) = (if m = [] then pushed es else m # pushed es)"
| "pushed (Turn r # es) = pushed es"

definition sent :: "(sse_ready \<times> string) list \<Rightarrow> string list" where
  "sent out = map snd (filter (\<lambda>(r, m). r = MsgReady) out)"

text \<open>The state in which a registered line's loop runs, with the messages waiting on its channel.\<close>

definition sse_serving :: "(nat \<Rightarrow> string \<times> string) \<Rightarrow> nat list \<Rightarrow> nat \<Rightarrow> string list \<Rightarrow> sse_hub \<Rightarrow> bool" where
  "sse_serving key L a q h \<longleftrightarrow> hub_rep key h L \<and> a \<in> set L \<and> \<not> ln_isClosed (hb_lines h a) \<and> \<not> hb_isClosed h
     \<and> ln_writeChan (hb_lines h a) = Some q"

lemma sse_serving_push:
  assumes "sse_serving key L a q h" "key a = (u, i)"
  shows "sse_serving key L a (q @ (if m = [] then [] else [m])) (snd (sse_PushToUserLines u m [i] h))"
proof (cases "m = []")
  case True
  then have "snd (sse_PushToUserLines u m [i] h) = h"
    by (simp add: sse_PushToUserLines_def PushToUserLines_def PushMessageToLines_def split: option.split)
  with True assms(1) show ?thesis by simp
next
  case False
  let ?h = "snd (PushToUserLines u m [i] h)"
  note R = assms(1) [unfolded sse_serving_def]
  have l: "hb_lines ?h = (hb_lines h)(a := (hb_lines h a)\<lparr>ln_writeChan := Some (q @ [m])\<rparr>)"
    using push_to_one_line [of key h L a u i m] R assms(2) False by simp
  have "hub_rep key ?h L"
    by (rule hub_rep_frame [of key h]) (use R in \<open>simp_all add: l PushToUserLines_tables hub_repD(1,2) [of key h L]\<close>)
  then show ?thesis using R False by (simp add: sse_serving_def sse_PushToUserLines_def l PushToUserLines_tables)
qed

lemma sse_serving_turn:
  assumes "sse_serving key L a q h" "sse_turn True r a h = Some (goes_on, out, h')" "r = MsgReady \<or> r = TickReady"
  shows "goes_on \<and> (if r = MsgReady then \<exists>m q'. q = m # q' \<and> out = Some m \<and> sse_serving key L a q' h'
                else out = Some ''ping'' \<and> h' = h)"
proof (cases r)
  case MsgReady
  note R = assms(1) [unfolded sse_serving_def]
  obtain m q' where q: "q = m # q'" "goes_on" "out = Some m"
    "h' = set_line a ((hb_lines h a)\<lparr>ln_writeChan := Some q'\<rparr>) h"
    using assms(2) R MsgReady by (cases q) (auto simp: sse_turn_def Let_def)
  have "hub_rep key h' L"
    by (rule hub_rep_frame [of key h]) (use R in \<open>simp_all add: q(4) set_line_def hub_repD(1,2) [of key h L]\<close>)
  then show ?thesis using R q MsgReady by (simp add: sse_serving_def set_line_def)
qed (use assms in \<open>auto simp: sse_turn_def sse_serving_def Let_def\<close>)

lemma sse_run_delivers:
  assumes "sse_serving key L a q h" "key a = (u, i)" "\<forall>e\<in>set es. e \<noteq> Turn CloseCmdReady \<and> e \<noteq> Turn ClientGone"
    and "sse_run u i a es h = Some (h', out)"
  shows "\<exists>q'. sse_serving key L a q' h' \<and> q @ pushed es = sent out @ q'
    \<and> (\<forall>(r, m)\<in>set out. r = TickReady \<longrightarrow> m = ''ping'')"
  using assms(1,3,4)
proof (induction es arbitrary: h q out)
  case Nil
  then show ?case by (auto simp: sent_def)
next
  case (Cons e es)
  show ?case
  proof (cases e)
    case (PushLine m)
    let ?q = "q @ (if m = [] then [] else [m])"
    have "\<exists>q'. sse_serving key L a q' h' \<and> ?q @ pushed es = sent out @ q' \<and> (\<forall>(r, m)\<in>set out. r = TickReady \<longrightarrow> m = ''ping'')"
      by (rule Cons.IH [OF sse_serving_push [OF Cons.prems(1) assms(2)]]) (use Cons.prems PushLine in auto)
    then show ?thesis using PushLine by (cases "m = []") simp_all
  next
    case (Turn r)
    obtain goes_on o1 h1 out1 where t: "sse_turn True r a h = Some (goes_on, o1, h1)"
      "sse_run u i a es h1 = Some (h', out1)" "out = (case o1 of None \<Rightarrow> out1 | Some m \<Rightarrow> (r, m) # out1)"
      using Cons.prems(3) by (auto simp: Turn split: option.splits prod.splits)
    have r: "r = MsgReady \<or> r = TickReady" using Cons.prems(2) Turn by (cases r) auto
    note T = sse_serving_turn [OF Cons.prems(1) t(1) r]
    show ?thesis
    proof (cases "r = MsgReady")
      case True
      then obtain m q1 where m: "q = m # q1" "o1 = Some m" "sse_serving key L a q1 h1" using T by auto
      have "\<exists>q'. sse_serving key L a q' h' \<and> q1 @ pushed es = sent out1 @ q' \<and> (\<forall>(r, m)\<in>set out1. r = TickReady \<longrightarrow> m = ''ping'')"
        by (rule Cons.IH [OF m(3) _ t(2)]) (use Cons.prems(2) in auto)
      then show ?thesis using True m t(3) Turn by (auto simp: sent_def)
    next
      case False
      then have m: "o1 = Some ''ping''" "h1 = h" "r = TickReady" using T r by auto
      have "\<exists>q'. sse_serving key L a q' h' \<and> q @ pushed es = sent out1 @ q' \<and> (\<forall>(r, m)\<in>set out1. r = TickReady \<longrightarrow> m = ''ping'')"
        by (rule Cons.IH [OF Cons.prems(1) _ t(2) [unfolded m(2)]]) (use Cons.prems(2) in auto)
      then show ?thesis using m t(3) Turn by (auto simp: sent_def)
    qed
  qed
qed

text \<open>A select entered before the hub registered the line waits for the ticker or the client.\<close>

lemma sse_deaf_before_registration:
  assumes "sse_turn False r a h = Some x" "\<not> ln_isClosed (hb_lines h a)" "\<not> hb_isClosed h"
  shows "r = TickReady \<or> r = ClientGone"
  using assms by (cases r) (auto simp: sse_turn_def)

section \<open>Properties\<close>

text \<open>A client can tell the events apart exactly when no message contains a line feed: the texts
  of two sequences of such messages are equal only when the sequences are, times included, while a
  message that contains the right lines gives the text of two events.\<close>

theorem sse_stream_reading:
  assumes "\<forall>(t, m)\<in>set ms. nl \<notin> set m" "\<forall>(t, m)\<in>set ms'. nl \<notin> set m"
  shows "(sse_stream ms = sse_stream ms' \<longleftrightarrow> ms = ms')
    \<and> sse_stream [(t, m1 @ [nl, nl] @ ''id: '' @ Itoa (sint t') @ [nl] @ ''data: '' @ m2)] = sse_stream [(t, m1), (t', m2)]"
  using sse_stream_inject [OF assms] by (auto simp: sse_stream_def sse_frame_def)

lemma sse_stream_reading_witness:
  "sse_stream [(1, ''a'')] = sse_stream [(1, ''a'')] \<longleftrightarrow> [(1 :: int64, ''a'')] = [(1, ''a'')]"
  using sse_stream_reading [of "[(1, ''a'')]" "[(1, ''a'')]"] by simp

text \<open>C32. What is pushed to a registered line reaches the client once and in order: however pushes to
  the line and turns of its loop (messages and heartbeats) alternate, the messages written are the
  ones pushed so far, in order, but for those still waiting on the line's channel, and the heartbeats
  between them are \<open>ping\<close>s.\<close>

theorem sse_delivers_in_order:
  assumes "hub_rep key h L" "a \<notin> set L" "key a \<notin> key ` set L" "key a = (u, i)"
    and "\<not> ln_isClosed (hb_lines h a)" "\<not> hb_isClosed h"
    and "\<forall>e\<in>set es. e \<noteq> Turn CloseCmdReady \<and> e \<noteq> Turn ClientGone"
    and "sse_run u i a es (sse_register a h) = Some (h', out)"
  shows "\<exists>q. ln_writeChan (hb_lines h' a) = Some q \<and> pushed es = sent out @ q
    \<and> (\<forall>(r, m)\<in>set out. r = TickReady \<longrightarrow> m = ''ping'')"
proof -
  have R: "hub_rep key (sse_register a h) (L @ [a])"
    using hub_register_rep [OF assms(1-3)] by (simp add: sse_register_def)
  have "hb_lines (sse_register a h) = (hb_lines h)(a := (hb_lines h a)\<lparr>ln_closeChan := True, ln_writeChan := Some []\<rparr>)"
    unfolding sse_register_def using hub_register_fields(4) [OF assms(1) refl, of a] .
  moreover have "hb_isClosed (sse_register a h) = hb_isClosed h"
    by (simp add: sse_register_def hub_register_def load_or_store_def UserLines_add_def set_line_def set_ul_def Let_def
        split: option.split)
  ultimately have "sse_serving key (L @ [a]) a [] (sse_register a h)"
    using R assms(5,6) by (simp add: sse_serving_def)
  from sse_run_delivers [OF this assms(4,7,8)] show ?thesis by (auto simp: sse_serving_def)
qed

lemma sse_delivers_in_order_witness:
  "\<exists>h' out. sse_run ''ann'' ''c1'' 1 [PushLine ''x'', Turn TickReady, PushLine ''y'', Turn MsgReady]
        (sse_register 1 (hub_over 0 demo_heap)) = Some (h', out)
     \<and> (\<exists>q. ln_writeChan (hb_lines h' 1) = Some q \<and> [''x'', ''y''] = sent out @ q)"
proof -
  let ?es = "[PushLine ''x'', Turn TickReady, PushLine ''y'', Turn MsgReady]"
  let ?h = "sse_register 1 (hub_over 0 demo_heap)"
  have "sse_run ''ann'' ''c1'' 1 ?es ?h \<noteq> None"
    by (simp add: sse_register_def hub_register_def load_or_store_def UserLines_add_def set_line_def set_ul_def hub_over_def
        NewHub_def demo_heap_def sse_PushToUserLines_def PushToUserLines_def GetUserLines_def PushMessageToLines_def
        send_data_def sse_turn_def Let_def)
  then obtain h' out where r: "sse_run ''ann'' ''c1'' 1 ?es ?h = Some (h', out)" by auto
  have k: "heap_keys demo_heap 1 = (''ann'', ''c1'')" by (simp add: heap_keys_def demo_heap_def)
  have o: "\<not> ln_isClosed (hb_lines (hub_over 0 demo_heap) 1)" "\<not> hb_isClosed (hub_over 0 demo_heap)"
    by (simp_all add: hub_over_def NewHub_def demo_heap_def)
  from sse_delivers_in_order [OF hub_over_rep _ _ k o _ r]
  have "\<exists>q. ln_writeChan (hb_lines h' 1) = Some q \<and> [''x'', ''y''] = sent out @ q" by auto
  with r show ?thesis by blast
qed

end
