(* ===== verification/Ranking.thy ===== *)
theory Ranking
  imports Redis "HOL-Library.AList" "HOL-Library.List_Lexorder" "HOL-Library.Char_ord"
begin

text \<open>
  \<open>pkg/services/ranking.go\<close>: a ranking kept in a Redis sorted set, with a hash of counts per range of
  scores for approximate ranks. The three Lua scripts are part of the code and are translated over the
  server's commands. The server and the floating point numbers are arguments: \<open>rank_server\<close> with
  \<open>rank_laws\<close>, \<open>floats\<close> with \<open>float_laws\<close>. Numbers travel between Go, Lua and Redis as decimal text that
  reads back as the same double, so the conversions are not written out. Waiting between two batches
  has no effect on the result and is left out.
\<close>

section \<open>Numbers and server\<close>

record 'f floats =
  fl_parse :: "string \<Rightarrow> 'f option"      \<comment> \<open>\<open>strconv.ParseFloat\<close>\<close>
  fl_of_int :: "int \<Rightarrow> 'f"
  fl_add :: "'f \<Rightarrow> 'f \<Rightarrow> 'f"
  fl_div :: "'f \<Rightarrow> 'f \<Rightarrow> 'f"
  fl_floor :: "'f \<Rightarrow> 'f"                 \<comment> \<open>\<open>math.Floor\<close>, and Lua's \<open>math.floor\<close>\<close>
  fl_modf :: "'f \<Rightarrow> 'f \<times> 'f"           \<comment> \<open>\<open>math.Modf\<close>\<close>
  fl_to_int :: "'f \<Rightarrow> int"              \<comment> \<open>the conversion \<open>int64(x)\<close>\<close>

text \<open>
  The commands. \<open>rk_pairs\<close> is what \<open>ZRANGE key +inf -inf BYSCORE REV WITHSCORES\<close> lists, \<open>rk_seen\<close> whether a
  string key is held. A script's \<open>unpack\<close> fails from \<open>rk_unpack\<close> elements on.
\<close>

record ('s, 'f) rank_server =
  rk_seen :: "'s \<Rightarrow> string \<Rightarrow> bool"
  rk_pairs :: "'s \<Rightarrow> string \<Rightarrow> (string \<times> 'f) list"
  rk_setnx :: "string \<Rightarrow> int \<Rightarrow> 's \<Rightarrow> (string + bool) \<times> 's"
  rk_zscore :: "'s \<Rightarrow> string \<Rightarrow> string \<Rightarrow> 'f option"
  rk_zadd :: "string \<Rightarrow> 'f \<Rightarrow> string \<Rightarrow> 's \<Rightarrow> int \<times> 's"
  rk_zrev_limit :: "'s \<Rightarrow> string \<Rightarrow> int \<Rightarrow> int \<Rightarrow> string list"
  rk_zrev_from :: "'s \<Rightarrow> string \<Rightarrow> 'f \<Rightarrow> int \<Rightarrow> int \<Rightarrow> (string \<times> 'f) list"
  rk_zrem :: "string \<Rightarrow> string list \<Rightarrow> 's \<Rightarrow> int \<times> 's"
  rk_zrevrank :: "'s \<Rightarrow> string \<Rightarrow> string \<Rightarrow> int option"
  rk_hmset :: "string \<Rightarrow> (string \<times> string) list \<Rightarrow> 's \<Rightarrow> (string + bool) \<times> 's"
  rk_hgetall :: "'s \<Rightarrow> string \<Rightarrow> (string \<times> string) list"
  rk_unpack :: nat

definition run_script :: "net \<Rightarrow> ('s \<Rightarrow> (string + 'r) \<times> 's) \<Rightarrow> 's \<Rightarrow> (string + 'r) \<times> 's" where
  "run_script n f s =
     (case call_redis n f s of
        (Inl e, s') \<Rightarrow> (Inl e, s')
      | (Inr v, s') \<Rightarrow> (v, s'))"

section \<open>Scripts\<close>

definition luaIncr ::
    "'f floats \<Rightarrow> ('s, 'f) rank_server \<Rightarrow> string \<Rightarrow> string \<Rightarrow> string \<Rightarrow> int \<Rightarrow> 'f \<Rightarrow> int \<Rightarrow> 's \<Rightarrow> (string + int) \<times> 's" where
  "luaIncr F R key1 key2 member delta frac secs s =
     (case rk_setnx R key1 secs s of
        (Inl e, s1) \<Rightarrow> (Inl e, s1)
      | (Inr res, s1) \<Rightarrow>
          if res then
            (let integer = (case rk_zscore R s1 key2 member of
                              None \<Rightarrow> fl_of_int F 0
                            | Some current_score \<Rightarrow> fl_floor F current_score);
                 integer = fl_add F integer (fl_of_int F delta);
                 score = fl_add F integer frac;
                 (added, s2) = rk_zadd R key2 score member s1
             in (Inr added, s2))
          else (Inr (- 2), s1))"

definition luaAdd ::
    "('s, 'f) rank_server \<Rightarrow> string \<Rightarrow> string \<Rightarrow> string \<Rightarrow> 'f \<Rightarrow> int \<Rightarrow> 's \<Rightarrow> (string + int) \<times> 's" where
  "luaAdd R key1 key2 member score secs s =
     (case rk_setnx R key1 secs s of
        (Inl e, s1) \<Rightarrow> (Inl e, s1)
      | (Inr res, s1) \<Rightarrow>
          if res then (let (added, s2) = rk_zadd R key2 score member s1 in (Inr added, s2))
          else (Inr (- 2), s1))"

definition luaTruncate :: "('s, 'f) rank_server \<Rightarrow> string \<Rightarrow> int \<Rightarrow> int \<Rightarrow> 's \<Rightarrow> (string + int) \<times> 's" where
  "luaTruncate R key1 offset count s =
     (let elements = rk_zrev_limit R s key1 offset count in
      if 0 < length elements then
        if rk_unpack R \<le> length elements then (Inl ''too many results to unpack'', s)
        else (let (removed, s') = rk_zrem R key1 elements s in (Inr removed, s'))
      else (Inr 0, s))"

section \<open>The service\<close>

datatype rank_error = ErrIdempotent | RankErr string

definition idempotentKey :: "string \<Rightarrow> string \<Rightarrow> string" where
  "idempotentKey key requestId = key @ '':idempotent:'' @ requestId"

text \<open>\<open>ts\<close> is the number of seconds until \<open>rankingTimeFuture\<close>.\<close>

definition frac_of :: "'f floats \<Rightarrow> int \<Rightarrow> 'f option" where
  "frac_of F ts = fl_parse F (''0.'' @ Itoa ts)"

definition answer_error :: "string + int \<Rightarrow> rank_error option" where
  "answer_error v =
     (case v of
        Inl e \<Rightarrow> Some (RankErr e)
      | Inr vv \<Rightarrow> if vv = - 2 then Some ErrIdempotent else None)"

definition Increment ::
    "'f floats \<Rightarrow> ('s, 'f) rank_server \<Rightarrow> net \<Rightarrow> string \<Rightarrow> int \<Rightarrow> string \<Rightarrow> string \<Rightarrow> int \<Rightarrow> int \<Rightarrow> 's
       \<Rightarrow> rank_error option \<times> 's" where
  "Increment F R n key ts requestId member delta idempotentExpSecs s =
     (case frac_of F ts of
        None \<Rightarrow> (Some (RankErr ''invalid syntax''), s)
      | Some frac \<Rightarrow>
          (let (v, s') = run_script n
                 (luaIncr F R (idempotentKey key requestId) key member delta frac idempotentExpSecs) s
           in (answer_error v, s')))"

definition UpdateScore ::
    "'f floats \<Rightarrow> ('s, 'f) rank_server \<Rightarrow> net \<Rightarrow> string \<Rightarrow> int \<Rightarrow> string \<Rightarrow> string \<Rightarrow> int \<Rightarrow> int \<Rightarrow> 's
       \<Rightarrow> rank_error option \<times> 's" where
  "UpdateScore F R n key ts requestId member score idempotentExpSecs s =
     (case frac_of F ts of
        None \<Rightarrow> (Some (RankErr ''invalid syntax''), s)
      | Some frac \<Rightarrow>
          (let finalScore = fl_add F (fl_of_int F score) frac;
               (v, s') = run_script n
                 (luaAdd R (idempotentKey key requestId) key member finalScore idempotentExpSecs) s
           in (answer_error v, s')))"

text \<open>
  The loop of \<open>Truncate\<close> runs until a call removes nothing; \<open>net k\<close> is the outcome of its \<open>k\<close>-th call.
  The result: the count (or \<open>-1\<close>), and the error.
\<close>

partial_function (option) truncate_loop ::
    "('s, 'f) rank_server \<Rightarrow> (nat \<Rightarrow> net) \<Rightarrow> string \<Rightarrow> int \<Rightarrow> int \<Rightarrow> nat \<Rightarrow> int \<Rightarrow> 's
       \<Rightarrow> ((int \<times> string option) \<times> 's) option" where
  "truncate_loop R net key sz batchSize k count s =
     (case run_script (net k) (luaTruncate R key sz batchSize) s of
        (Inl err, s') \<Rightarrow> Some ((- 1, Some err), s')
      | (Inr cnt, s') \<Rightarrow>
          if cnt = 0 then Some ((count, None), s')
          else truncate_loop R net key sz batchSize (Suc k) (count + cnt) s')"

definition truncate_once ::
    "('s, 'f) rank_server \<Rightarrow> net \<Rightarrow> string \<Rightarrow> int \<Rightarrow> int \<Rightarrow> 's \<Rightarrow> (int \<times> string option) \<times> 's" where
  "truncate_once R n key sz count s =
     (case run_script n (luaTruncate R key sz count) s of
        (Inl err, s') \<Rightarrow> ((- 1, Some err), s')
      | (Inr v, s') \<Rightarrow> ((v, None), s'))"

definition Truncate ::
    "('s, 'f) rank_server \<Rightarrow> (nat \<Rightarrow> net) \<Rightarrow> string \<Rightarrow> int \<Rightarrow> int \<Rightarrow> 's \<Rightarrow> ((int \<times> string option) \<times> 's) option" where
  "Truncate R net key sz batchSize s =
     (if batchSize \<le> 0 then Some (truncate_once R (net 0) key sz batchSize s)
      else truncate_loop R net key sz batchSize 0 0 s)"

definition TruncateAll ::
    "('s, 'f) rank_server \<Rightarrow> net \<Rightarrow> string \<Rightarrow> int \<Rightarrow> 's \<Rightarrow> (int \<times> string option) \<times> 's" where
  "TruncateAll R n key sz s = truncate_once R n key sz (- 1) s"

record 'f RankingItem =
  ri_Member :: string
  ri_Score :: int
  ri_Frac :: 'f

text \<open>The scores from 0 on, from the highest.\<close>

definition Paginate ::
    "'f floats \<Rightarrow> ('s, 'f) rank_server \<Rightarrow> net \<Rightarrow> string \<Rightarrow> int \<Rightarrow> int \<Rightarrow> 's \<Rightarrow> string + 'f RankingItem list" where
  "Paginate F R n key offset limit s =
     (case fst (call_redis n (\<lambda>s. (rk_zrev_from R s key (fl_of_int F 0) offset limit, s)) s) of
        Inl err \<Rightarrow> Inl err
      | Inr vals \<Rightarrow> Inr (map (\<lambda>(mem, score). let (fscore, frac) = fl_modf F score in
          \<lparr>ri_Member = mem, ri_Score = fl_to_int F fscore, ri_Frac = frac\<rparr>) vals))"

text \<open>\<open>s\<close> is the state of the replica that is asked.\<close>

definition Rank :: "('s, 'f) rank_server \<Rightarrow> net \<Rightarrow> string \<Rightarrow> string \<Rightarrow> 's \<Rightarrow> int" where
  "Rank R n key member s =
     (case fst (call_redis n (\<lambda>s. (rk_zrevrank R s key member, s)) s) of
        Inl err \<Rightarrow> - 1
      | Inr None \<Rightarrow> - 1
      | Inr (Some val) \<Rightarrow> val)"

section \<open>Approximate ranks\<close>

record RankingFuzzyCount =
  RangeStart :: int64
  RangeEnd :: int64
  rf_Count :: int64

definition fuzzy_key :: "string \<Rightarrow> string" where
  "fuzzy_key key = key @ '':fuzzy''"

definition fuzzy_field :: "RankingFuzzyCount \<Rightarrow> string" where
  "fuzzy_field v = Itoa (sint (RangeStart v)) @ ''-'' @ Itoa (sint (RangeEnd v))"

text \<open>The map of fields that \<open>HMSet\<close> gets, as an association list without repeated fields.\<close>

definition fuzzy_vals :: "RankingFuzzyCount list \<Rightarrow> (string \<times> string) list" where
  "fuzzy_vals rangesCount = fold (\<lambda>v. AList.update (fuzzy_field v) (Itoa (sint (rf_Count v)))) rangesCount []"

definition FuzzySet ::
    "('s, 'f) rank_server \<Rightarrow> net \<Rightarrow> string \<Rightarrow> RankingFuzzyCount list \<Rightarrow> 's \<Rightarrow> string option \<times> 's" where
  "FuzzySet R n key rangesCount s =
     (case run_script n (rk_hmset R (fuzzy_key key) (fuzzy_vals rangesCount)) s of
        (Inl err, s') \<Rightarrow> (Some err, s')
      | (Inr _, s') \<Rightarrow> (None, s'))"

text \<open>
  \<open>fmt.Sscanf(field, "%d-%d", &start, &end)\<close>: each \<open>%d\<close> skips blanks, takes an optional sign and the
  longest run of digits, and must fit an int64; the rest of the field is not looked at.
\<close>

definition scan_d :: "string \<Rightarrow> (int64 \<times> string) option" where
  "scan_d s =
     (let s = dropWhile (\<lambda>c. is_space c \<and> c \<noteq> CHR 0x0A) s;
          (sgn, r) = (case s of [] \<Rightarrow> ([], s) | c # r \<Rightarrow> if c = CHR ''-'' \<or> c = CHR ''+'' then ([c], r) else ([], s))
      in map_option (\<lambda>v. (word_of_int v, dropWhile is_digit r)) (Atoi (sgn @ takeWhile is_digit r)))"

definition scan_range :: "string \<Rightarrow> (int64 \<times> int64) option" where
  "scan_range field =
     (case scan_d field of
        None \<Rightarrow> None
      | Some (start, r) \<Rightarrow>
          (case r of
             [] \<Rightarrow> None
           | c # r \<Rightarrow>
               if c = CHR ''-'' then map_option (\<lambda>(fin, _). (start, fin)) (scan_d r) else None))"

text \<open>The loop over the fields, in the order in which the map is iterated.\<close>

fun fuzzy_parse :: "(string \<times> string) list \<Rightarrow> string + RankingFuzzyCount list" where
  "fuzzy_parse [] = Inr []"
| "fuzzy_parse ((field, count) # vals) =
     (case scan_range field of
        None \<Rightarrow> Inl ''expected integer''
      | Some (start, fin) \<Rightarrow>
          (case Atoi count of
             None \<Rightarrow> Inl ''invalid syntax''
           | Some c \<Rightarrow>
               (case fuzzy_parse vals of
                  Inl err \<Rightarrow> Inl err
                | Inr arr \<Rightarrow> Inr (\<lparr>RangeStart = start, RangeEnd = fin, rf_Count = word_of_int c\<rparr> # arr))))"

definition FuzzyGet ::
    "('s, 'f) rank_server \<Rightarrow> net \<Rightarrow> string \<Rightarrow> 's \<Rightarrow> string + RankingFuzzyCount list" where
  "FuzzyGet R n key s =
     (case fst (call_redis n (\<lambda>s. (rk_hgetall R s (fuzzy_key key), s)) s) of
        Inl err \<Rightarrow> Inl err
      | Inr vals \<Rightarrow> if length vals = 0 then Inr [] else fuzzy_parse vals)"

text \<open>
  \<open>slices.SortFunc\<close> with the comparison \<open>int(b.RangeStart - a.RangeStart)\<close>, as the insertion sort it is on
  short slices: the next element moves left while it compares less than its neighbour. The part of the
  slice that is sorted already is kept reversed.
\<close>

definition fuzzy_cmp :: "RankingFuzzyCount \<Rightarrow> RankingFuzzyCount \<Rightarrow> int" where
  "fuzzy_cmp a b = sint (RangeStart b - RangeStart a)"

fun fuzzy_insert :: "RankingFuzzyCount \<Rightarrow> RankingFuzzyCount list \<Rightarrow> RankingFuzzyCount list" where
  "fuzzy_insert x [] = [x]"
| "fuzzy_insert x (y # ys) = (if fuzzy_cmp x y < 0 then y # fuzzy_insert x ys else x # y # ys)"

definition fuzzy_sort :: "RankingFuzzyCount list \<Rightarrow> RankingFuzzyCount list" where
  "fuzzy_sort ranges = rev (fold fuzzy_insert ranges [])"

fun fuzzy_loop :: "'f floats \<Rightarrow> int64 \<Rightarrow> int64 \<Rightarrow> RankingFuzzyCount list \<Rightarrow> int64" where
  "fuzzy_loop F memberScore rank [] = rank"
| "fuzzy_loop F memberScore rank (v # vs) =
     (if RangeStart v \<le>s memberScore \<and> memberScore <s RangeEnd v then
        (let rangeRank = fl_floor F (fl_div F (fl_of_int F (sint (RangeEnd v - memberScore)))
                                              (fl_of_int F (sint (RangeEnd v - RangeStart v))))
         in rank + word_of_int (fl_to_int F rangeRank))
      else fuzzy_loop F memberScore (rank + rf_Count v) vs)"

definition FuzzyRank ::
    "'f floats \<Rightarrow> ('s, 'f) rank_server \<Rightarrow> net \<Rightarrow> net \<Rightarrow> string \<Rightarrow> string \<Rightarrow> int64 \<Rightarrow> int \<Rightarrow> 's \<Rightarrow> int" where
  "FuzzyRank F R n1 n2 key member memberScore accurateRankSize s =
     (let concretRank = Rank R n1 key member s in
      if 0 \<le> concretRank \<and> concretRank < accurateRankSize then concretRank
      else
        (case FuzzyGet R n2 key s of
           Inl err \<Rightarrow> - 1
         | Inr ranges \<Rightarrow>
             if length ranges = 0 then - 1
             else sint (fuzzy_loop F memberScore 0 (fuzzy_sort ranges))))"

end
