(* ===== verification/RankingProofs.thy ===== *)
theory RankingProofs
  imports Ranking Complex_Main "HOL-Library.Multiset"
begin

text \<open>
  The properties of the ranking service: each request takes effect once and increments add up; ties are
  won by the earlier update; \<open>Truncate\<close> keeps the top; the approximate rank is the sum it should be, and
  where it is not. First the laws of the numbers and of the server, with an instance of each.
\<close>

section \<open>Laws\<close>

text \<open>\<open>0.a\<close> is less than \<open>0.b\<close>, as decimal fractions.\<close>

definition dec_less :: "int \<Rightarrow> int \<Rightarrow> bool" where
  "dec_less a b \<longleftrightarrow> nat a * 10 ^ length (Itoa b) < nat b * 10 ^ length (Itoa a)"

text \<open>
  What is used of the numbers, for integer parts up to \<open>B\<close> and times of at most ten digits. For doubles
  the laws hold with \<open>B = 2 ^ 18\<close>: below that two fractions of ten digits stay apart.
\<close>

definition time_ok :: "int \<Rightarrow> bool" where
  "time_ok ts \<longleftrightarrow> 0 \<le> ts \<and> ts < 10 ^ 10"

definition float_laws :: "'f::linorder floats \<Rightarrow> int \<Rightarrow> bool" where
  "float_laws F B \<longleftrightarrow>
     (\<forall>ts. (frac_of F ts = None) = (ts < 0)) \<and>
     (\<forall>n ts x. \<bar>n\<bar> \<le> B \<and> time_ok ts \<and> frac_of F ts = Some x \<longrightarrow>
        fl_floor F (fl_add F (fl_of_int F n) x) = fl_of_int F n) \<and>
     (\<forall>n ts x. 0 \<le> n \<and> n \<le> B \<and> time_ok ts \<and> frac_of F ts = Some x \<longrightarrow>
        fl_to_int F (fst (fl_modf F (fl_add F (fl_of_int F n) x))) = n) \<and>
     (\<forall>a b. \<bar>a\<bar> \<le> B \<and> \<bar>b\<bar> \<le> B \<and> \<bar>a + b\<bar> \<le> B \<longrightarrow> fl_add F (fl_of_int F a) (fl_of_int F b) = fl_of_int F (a + b)) \<and>
     (\<forall>m n ts ts' x y. \<bar>m\<bar> \<le> B \<and> \<bar>n\<bar> \<le> B \<and> time_ok ts \<and> time_ok ts' \<and> frac_of F ts = Some x \<and> frac_of F ts' = Some y \<longrightarrow>
        (fl_add F (fl_of_int F m) x < fl_add F (fl_of_int F n) y) = (m < n \<or> m = n \<and> dec_less ts ts')) \<and>
     (\<forall>a b. 0 \<le> a \<and> a \<le> b \<and> 0 < b \<and> b < 2 ^ 53 \<longrightarrow>
        fl_to_int F (fl_floor F (fl_div F (fl_of_int F a) (fl_of_int F b))) = a div b)"

text \<open>The order of a sorted set, from the highest; members with one score are in reverse order of names.\<close>

definition ranked_before :: "string \<times> 'f::linorder \<Rightarrow> string \<times> 'f \<Rightarrow> bool" where
  "ranked_before p q \<longleftrightarrow> snd q < snd p \<or> snd p = snd q \<and> fst q < fst p"

fun position :: "string \<Rightarrow> (string \<times> 'f) list \<Rightarrow> int option" where
  "position m [] = None"
| "position m (p # ps) = (if fst p = m then Some 0 else map_option (\<lambda>i. i + 1) (position m ps))"

definition limited :: "int \<Rightarrow> int \<Rightarrow> 'a list \<Rightarrow> 'a list" where
  "limited offset cnt xs =
     (if cnt < 0 then drop (nat offset) xs else take (nat cnt) (drop (nat offset) xs))"

definition setnx_laws :: "('s, 'f) rank_server \<Rightarrow> string \<Rightarrow> bool" where
  "setnx_laws R key \<longleftrightarrow>
     (\<forall>r t s. if 0 < t then fst (rk_setnx R (idempotentKey key r) t s) = Inr (\<not> rk_seen R s (idempotentKey key r))
                 \<and> rk_seen R (snd (rk_setnx R (idempotentKey key r) t s)) = (rk_seen R s)(idempotentKey key r := True)
                 \<and> rk_pairs R (snd (rk_setnx R (idempotentKey key r) t s)) key = rk_pairs R s key
               else \<exists>e. rk_setnx R (idempotentKey key r) t s = (Inl e, s))"

definition zset_laws :: "('s, 'f::linorder) rank_server \<Rightarrow> string \<Rightarrow> bool" where
  "zset_laws R key \<longleftrightarrow>
     (\<forall>s. distinct (map fst (rk_pairs R s key))) \<and> (\<forall>s. sorted_wrt ranked_before (rk_pairs R s key)) \<and>
     (\<forall>s m. rk_zscore R s key m = map_of (rk_pairs R s key) m) \<and>
     (\<forall>x m s. map_of (rk_pairs R (snd (rk_zadd R key x m s)) key) = (map_of (rk_pairs R s key))(m \<mapsto> x)) \<and>
     (\<forall>x m s. rk_seen R (snd (rk_zadd R key x m s)) = rk_seen R s) \<and>
     (\<forall>x m s. 0 \<le> fst (rk_zadd R key x m s)) \<and>
     (\<forall>s offset cnt. 0 \<le> offset \<longrightarrow>
        rk_zrev_limit R s key offset cnt = map fst (limited offset cnt (rk_pairs R s key))) \<and>
     (\<forall>s x offset cnt. 0 \<le> offset \<and> 0 < cnt \<longrightarrow>
        rk_zrev_from R s key x offset cnt = limited offset cnt (filter (\<lambda>p. x \<le> snd p) (rk_pairs R s key))) \<and>
     (\<forall>ms s. ms \<noteq> [] \<longrightarrow>
        rk_pairs R (snd (rk_zrem R key ms s)) key = filter (\<lambda>p. fst p \<notin> set ms) (rk_pairs R s key)) \<and>
     (\<forall>ms s. ms \<noteq> [] \<longrightarrow>
        fst (rk_zrem R key ms s) = int (length (filter (\<lambda>p. fst p \<in> set ms) (rk_pairs R s key)))) \<and>
     (\<forall>s m. rk_zrevrank R s key m = position m (rk_pairs R s key))"

definition hash_laws :: "('s, 'f) rank_server \<Rightarrow> string \<Rightarrow> bool" where
  "hash_laws R hkey \<longleftrightarrow>
     (\<forall>s. distinct (map fst (rk_hgetall R s hkey))) \<and>
     (\<forall>s. \<exists>e. rk_hmset R hkey [] s = (Inl e, s)) \<and>
     (\<forall>vs s. distinct (map fst vs) \<and> vs \<noteq> [] \<longrightarrow> fst (rk_hmset R hkey vs s) = Inr True) \<and>
     (\<forall>vs s. distinct (map fst vs) \<and> vs \<noteq> [] \<longrightarrow>
        map_of (rk_hgetall R (snd (rk_hmset R hkey vs s)) hkey) = map_of (rk_hgetall R s hkey) ++ map_of vs)"

definition rank_laws :: "('s, 'f::linorder) rank_server \<Rightarrow> string \<Rightarrow> bool" where
  "rank_laws R key \<longleftrightarrow> setnx_laws R key \<and> zset_laws R key \<and> hash_laws R (fuzzy_key key)"

lemma float_lawsD:
  assumes "float_laws F B"
  shows "(frac_of F ts = None) = (ts < 0)"
    and "\<bar>n\<bar> \<le> B \<Longrightarrow> time_ok ts \<Longrightarrow> frac_of F ts = Some x \<Longrightarrow> fl_floor F (fl_add F (fl_of_int F n) x) = fl_of_int F n"
    and "0 \<le> n \<Longrightarrow> n \<le> B \<Longrightarrow> time_ok ts \<Longrightarrow> frac_of F ts = Some x
      \<Longrightarrow> fl_to_int F (fst (fl_modf F (fl_add F (fl_of_int F n) x))) = n"
    and "\<bar>a\<bar> \<le> B \<Longrightarrow> \<bar>b\<bar> \<le> B \<Longrightarrow> \<bar>a + b\<bar> \<le> B \<Longrightarrow> fl_add F (fl_of_int F a) (fl_of_int F b) = fl_of_int F (a + b)"
    and "\<bar>m\<bar> \<le> B \<Longrightarrow> \<bar>n\<bar> \<le> B \<Longrightarrow> time_ok ts \<Longrightarrow> time_ok ts' \<Longrightarrow> frac_of F ts = Some x \<Longrightarrow> frac_of F ts' = Some y
      \<Longrightarrow> (fl_add F (fl_of_int F m) x < fl_add F (fl_of_int F n) y) = (m < n \<or> m = n \<and> dec_less ts ts')"
    and "0 \<le> a \<Longrightarrow> a \<le> b \<Longrightarrow> 0 < b \<Longrightarrow> b < 2 ^ 53
      \<Longrightarrow> fl_to_int F (fl_floor F (fl_div F (fl_of_int F a) (fl_of_int F b))) = a div b"
  using assms unfolding float_laws_def by blast+

lemma rank_laws_setnx:
  assumes "rank_laws R key"
  shows "0 < t \<Longrightarrow> fst (rk_setnx R (idempotentKey key r) t s) = Inr (\<not> rk_seen R s (idempotentKey key r))"
    and "0 < t \<Longrightarrow> rk_seen R (snd (rk_setnx R (idempotentKey key r) t s)) = (rk_seen R s)(idempotentKey key r := True)"
    and "0 < t \<Longrightarrow> rk_pairs R (snd (rk_setnx R (idempotentKey key r) t s)) key = rk_pairs R s key"
    and "\<not> 0 < t \<Longrightarrow> \<exists>e. rk_setnx R (idempotentKey key r) t s = (Inl e, s)"
proof -
  have L: "setnx_laws R key" using assms by (simp add: rank_laws_def)
  note L = L [unfolded setnx_laws_def, rule_format, of t r s]
  show "0 < t \<Longrightarrow> fst (rk_setnx R (idempotentKey key r) t s) = Inr (\<not> rk_seen R s (idempotentKey key r))"
    "0 < t \<Longrightarrow> rk_seen R (snd (rk_setnx R (idempotentKey key r) t s)) = (rk_seen R s)(idempotentKey key r := True)"
    "0 < t \<Longrightarrow> rk_pairs R (snd (rk_setnx R (idempotentKey key r) t s)) key = rk_pairs R s key"
    using L by simp_all
  show "\<not> 0 < t \<Longrightarrow> \<exists>e. rk_setnx R (idempotentKey key r) t s = (Inl e, s)" using L by simp
qed

lemma rank_lawsD:
  assumes "rank_laws R key"
  shows "distinct (map fst (rk_pairs R s key))" "sorted_wrt ranked_before (rk_pairs R s key)"
    and "rk_zscore R s key m = map_of (rk_pairs R s key) m"
    and "map_of (rk_pairs R (snd (rk_zadd R key x m s)) key) = (map_of (rk_pairs R s key))(m \<mapsto> x)"
    and "rk_seen R (snd (rk_zadd R key x m s)) = rk_seen R s" "0 \<le> fst (rk_zadd R key x m s)"
    and "0 \<le> offset \<Longrightarrow> rk_zrev_limit R s key offset cnt = map fst (limited offset cnt (rk_pairs R s key))"
    and "0 \<le> offset \<Longrightarrow> 0 < cnt \<Longrightarrow>
      rk_zrev_from R s key x offset cnt = limited offset cnt (filter (\<lambda>p. x \<le> snd p) (rk_pairs R s key))"
    and "ms \<noteq> [] \<Longrightarrow> rk_pairs R (snd (rk_zrem R key ms s)) key = filter (\<lambda>p. fst p \<notin> set ms) (rk_pairs R s key)"
    and "ms \<noteq> [] \<Longrightarrow> fst (rk_zrem R key ms s) = int (length (filter (\<lambda>p. fst p \<in> set ms) (rk_pairs R s key)))"
    and "rk_zrevrank R s key m = position m (rk_pairs R s key)"
proof -
  have "zset_laws R key" using assms by (simp add: rank_laws_def)
  note L = this [unfolded zset_laws_def]
  show "distinct (map fst (rk_pairs R s key))" "sorted_wrt ranked_before (rk_pairs R s key)"
    "rk_zscore R s key m = map_of (rk_pairs R s key) m"
    "map_of (rk_pairs R (snd (rk_zadd R key x m s)) key) = (map_of (rk_pairs R s key))(m \<mapsto> x)"
    "rk_seen R (snd (rk_zadd R key x m s)) = rk_seen R s" "0 \<le> fst (rk_zadd R key x m s)"
    "0 \<le> offset \<Longrightarrow> rk_zrev_limit R s key offset cnt = map fst (limited offset cnt (rk_pairs R s key))"
    "0 \<le> offset \<Longrightarrow> 0 < cnt \<Longrightarrow>
      rk_zrev_from R s key x offset cnt = limited offset cnt (filter (\<lambda>p. x \<le> snd p) (rk_pairs R s key))"
    "ms \<noteq> [] \<Longrightarrow> rk_pairs R (snd (rk_zrem R key ms s)) key = filter (\<lambda>p. fst p \<notin> set ms) (rk_pairs R s key)"
    "ms \<noteq> [] \<Longrightarrow> fst (rk_zrem R key ms s) = int (length (filter (\<lambda>p. fst p \<in> set ms) (rk_pairs R s key)))"
    "rk_zrevrank R s key m = position m (rk_pairs R s key)"
    using L by simp_all
qed

lemma rank_laws_hash:
  assumes "rank_laws R key"
  shows "distinct (map fst (rk_hgetall R s (fuzzy_key key)))"
    and "distinct (map fst vs) \<Longrightarrow> vs \<noteq> [] \<Longrightarrow> fst (rk_hmset R (fuzzy_key key) vs s) = Inr True"
    and "distinct (map fst vs) \<Longrightarrow> vs \<noteq> []
      \<Longrightarrow> map_of (rk_hgetall R (snd (rk_hmset R (fuzzy_key key) vs s)) (fuzzy_key key))
          = map_of (rk_hgetall R s (fuzzy_key key)) ++ map_of vs"
  using assms by (simp_all add: rank_laws_def hash_laws_def)

section \<open>Requests take effect once\<close>

text \<open>A request to change a score, with the seconds left on the clock and what the network does to it.\<close>

datatype rank_call =
    Upd (rc_id: string) (rc_member: string) (rc_arg: int) (rc_secs: int)
  | Inc (rc_id: string) (rc_member: string) (rc_arg: int) (rc_secs: int)

type_synonym rank_event = "net \<times> int \<times> rank_call"

definition perform ::
    "'f floats \<Rightarrow> ('s, 'f) rank_server \<Rightarrow> string \<Rightarrow> rank_event \<Rightarrow> 's \<Rightarrow> rank_error option \<times> 's" where
  "perform F R key e s =
     (case e of (n, ts, c) \<Rightarrow>
        (case c of
           Upd r m x t \<Rightarrow> UpdateScore F R n key ts r m x t s
         | Inc r m d t \<Rightarrow> Increment F R n key ts r m d t s))"

text \<open>Requests that reach the server with a fraction that parses and an expiry the server accepts.\<close>

definition reaches :: "rank_event \<Rightarrow> bool" where
  "reaches e = (case e of (n, ts, c) \<Rightarrow> (\<forall>x. n \<noteq> LostBefore x) \<and> 0 \<le> ts \<and> 0 < rc_secs c)"

definition event_id :: "rank_event \<Rightarrow> string" where "event_id e = rc_id (snd (snd e))"

text \<open>What a request does to the scores the first time.\<close>

definition new_score :: "'f floats \<Rightarrow> rank_event \<Rightarrow> 'f option \<Rightarrow> 'f" where
  "new_score F e old =
     (case e of (n, ts, c) \<Rightarrow>
        fl_add F (case c of
            Upd r m x t \<Rightarrow> fl_of_int F x
          | Inc r m d t \<Rightarrow> fl_add F (case old of None \<Rightarrow> fl_of_int F 0 | Some y \<Rightarrow> fl_floor F y) (fl_of_int F d))
        (the (frac_of F ts)))"

definition effect :: "'f floats \<Rightarrow> rank_event \<Rightarrow> (string \<Rightarrow> 'f option) \<Rightarrow> (string \<Rightarrow> 'f option)" where
  "effect F e sc = (let m = rc_member (snd (snd e)) in sc(m \<mapsto> new_score F e (sc m)))"

text \<open>The requests of a run that take effect: those that reach the server with an id not used before.\<close>

fun fresh :: "string set \<Rightarrow> rank_event list \<Rightarrow> rank_event list" where
  "fresh S [] = []"
| "fresh S (e # es) = (if reaches e \<and> event_id e \<notin> S then e # fresh (insert (event_id e) S) es else fresh S es)"

definition used_ids :: "('s, 'f) rank_server \<Rightarrow> string \<Rightarrow> 's \<Rightarrow> string set" where
  "used_ids R key s = {r. rk_seen R s (idempotentKey key r)}"

definition scores :: "('s, 'f) rank_server \<Rightarrow> string \<Rightarrow> 's \<Rightarrow> string \<Rightarrow> 'f option" where
  "scores R key s = map_of (rk_pairs R s key)"

lemma idempotentKey_inject [simp]: "idempotentKey key r = idempotentKey key r' \<longleftrightarrow> r = r'"
  by (simp add: idempotentKey_def)

lemma used_ids_upd: "rk_seen R s' = (rk_seen R s)(idempotentKey key r := True)
    \<Longrightarrow> used_ids R key s' = insert r (used_ids R key s)"
  by (auto simp: used_ids_def)

text \<open>The two scripts share their first half, and differ in the score \<open>f\<close> they store.\<close>

definition guarded ::
    "('s, 'f) rank_server \<Rightarrow> string \<Rightarrow> string \<Rightarrow> int \<Rightarrow> string \<Rightarrow> ('f option \<Rightarrow> 'f) \<Rightarrow> 's \<Rightarrow> (string + int) \<times> 's" where
  "guarded R key1 key2 secs m f s =
     (case rk_setnx R key1 secs s of
        (Inl e, s1) \<Rightarrow> (Inl e, s1)
      | (Inr res, s1) \<Rightarrow>
          if res then (Inr (fst (rk_zadd R key2 (f (rk_zscore R s1 key2 m)) m s1)),
                       snd (rk_zadd R key2 (f (rk_zscore R s1 key2 m)) m s1))
          else (Inr (- 2), s1))"

lemma luaAdd_guarded: "luaAdd R key1 key2 m x secs = guarded R key1 key2 secs m (\<lambda>_. x)"
  by (rule ext) (simp add: luaAdd_def guarded_def case_prod_beta Let_def split: prod.split sum.split)

lemma luaIncr_guarded: "luaIncr F R key1 key2 m d x secs = guarded R key1 key2 secs m (\<lambda>old.
    fl_add F (fl_add F (case old of None \<Rightarrow> fl_of_int F 0 | Some y \<Rightarrow> fl_floor F y) (fl_of_int F d)) x)"
  by (rule ext) (simp add: luaIncr_def guarded_def case_prod_beta Let_def split: prod.split sum.split)

lemma perform_scripts:
  assumes "float_laws F B" "0 \<le> ts"
  shows "perform F R key (n, ts, c) s =
    (let (v, s') = run_script n (guarded R (idempotentKey key (rc_id c)) key (rc_secs c) (rc_member c)
          (new_score F (n, ts, c))) s
     in (answer_error v, s'))"
proof -
  obtain x where x: "frac_of F ts = Some x" using float_lawsD(1) [OF assms(1), of ts] assms(2) by fastforce
  have "new_score F (n, ts, c) = (case c of Upd r m y t \<Rightarrow> \<lambda>_. fl_add F (fl_of_int F y) x
    | Inc r m d t \<Rightarrow> \<lambda>old. fl_add F (fl_add F (case old of None \<Rightarrow> fl_of_int F 0 | Some y \<Rightarrow> fl_floor F y) (fl_of_int F d)) x)"
    by (rule ext) (cases c; simp add: new_score_def x)
  then show ?thesis
    by (cases c) (simp_all add: perform_def UpdateScore_def Increment_def x luaAdd_guarded luaIncr_guarded)
qed

lemma perform_not_reaching:
  assumes "float_laws F B" "rank_laws R key" "\<not> reaches e"
  shows "snd (perform F R key e s) = s" "\<exists>x. fst (perform F R key e s) = Some (RankErr x)"
proof -
  obtain n ts c where e: "e = (n, ts, c)" by (cases e) auto
  have "snd (perform F R key e s) = s \<and> (\<exists>x. fst (perform F R key e s) = Some (RankErr x))"
  proof (cases "ts < 0")
    case True
    then have "frac_of F ts = None" using float_lawsD(1) [OF assms(1)] by simp
    then show ?thesis by (cases c) (simp_all add: e perform_def UpdateScore_def Increment_def)
  next
    case False
    note P = perform_scripts [OF assms(1), of ts R key n c s]
    show ?thesis
    proof (cases n)
      case (LostBefore x)
      then show ?thesis using P False by (simp add: e run_script_def call_redis_def answer_error_def)
    next
      case Reply
      then have "\<not> 0 < rc_secs c" using assms(3) False by (auto simp: reaches_def e)
      from rank_laws_setnx(4) [OF assms(2) this]
      obtain x where "rk_setnx R (idempotentKey key (rc_id c)) (rc_secs c) s = (Inl x, s)" by blast
      then show ?thesis using P False Reply by (simp add: e run_script_def call_redis_def answer_error_def guarded_def)
    next
      case (LostAfter y)
      then have "\<not> 0 < rc_secs c" using assms(3) False by (auto simp: reaches_def e)
      from rank_laws_setnx(4) [OF assms(2) this]
      obtain x where "rk_setnx R (idempotentKey key (rc_id c)) (rc_secs c) s = (Inl x, s)" by blast
      then show ?thesis using P False LostAfter by (simp add: e run_script_def call_redis_def answer_error_def guarded_def)
    qed
  qed
  then show "snd (perform F R key e s) = s" "\<exists>x. fst (perform F R key e s) = Some (RankErr x)" by simp_all
qed

lemma perform_reaching:
  fixes s :: 's and R :: "('s, 'f::linorder) rank_server"
  assumes F: "float_laws F B" and R: "rank_laws R key" and e: "reaches e"
  defines "s' \<equiv> snd (perform F R key e s)"
  shows "used_ids R key s' = insert (event_id e) (used_ids R key s)"
    and "scores R key s' = (if event_id e \<in> used_ids R key s then scores R key s else effect F e (scores R key s))"
    and "fst e = Reply \<Longrightarrow> fst (perform F R key e s) =
      (if event_id e \<in> used_ids R key s then Some ErrIdempotent else None)"
proof -
  obtain n ts c where e': "e = (n, ts, c)" by (cases e) auto
  have t: "0 \<le> ts" "0 < rc_secs c" "\<forall>x. n \<noteq> LostBefore x" using e by (auto simp: reaches_def e')
  define s1 where "s1 = snd (rk_setnx R (idempotentKey key (rc_id c)) (rc_secs c) s)"
  note N = rank_laws_setnx(1-3) [OF R t(2), where r = "rc_id c" and s = s, folded s1_def]
  define z where "z = rk_zadd R key (new_score F e (rk_zscore R s1 key (rc_member c))) (rc_member c) s1"
  let ?seen = "rk_seen R s (idempotentKey key (rc_id c))"
  have x: "rk_setnx R (idempotentKey key (rc_id c)) (rc_secs c) s = (Inr (\<not> ?seen), s1)"
    using N(1) by (simp add: s1_def prod_eq_iff)
  have p: "s' = (if ?seen then s1 else snd z)"
    "n = Reply \<Longrightarrow> fst (perform F R key e s) = answer_error (if ?seen then Inr (- 2) else Inr (fst z))"
    using t(3) unfolding s'_def e' perform_scripts [OF F t(1)]
    by (cases n; simp add: run_script_def call_redis_def guarded_def x z_def e')+
  have i: "event_id e = rc_id c" by (simp add: event_id_def e')
  have seen: "?seen \<longleftrightarrow> event_id e \<in> used_ids R key s" by (simp add: used_ids_def i)
  note Z = rank_lawsD(3-6) [OF R]
  have z0: "0 \<le> fst z" unfolding z_def by (rule Z(4))
  have u: "rk_seen R s' = (rk_seen R s)(idempotentKey key (rc_id c) := True)"
    using p(1) N(2) Z(3) by (simp add: z_def)
  show "used_ids R key s' = insert (event_id e) (used_ids R key s)" unfolding i by (rule used_ids_upd [OF u])
  show "scores R key s' = (if event_id e \<in> used_ids R key s then scores R key s else effect F e (scores R key s))"
    unfolding seen [symmetric] using p(1) N(3) by (simp add: scores_def effect_def z_def Z(1,2) e' Let_def)
  show "fst e = Reply \<Longrightarrow> fst (perform F R key e s) = (if event_id e \<in> used_ids R key s then Some ErrIdempotent else None)"
    unfolding seen [symmetric] using p(2) z0 by (simp add: e' answer_error_def)
qed

definition rank_run :: "'f floats \<Rightarrow> ('s, 'f) rank_server \<Rightarrow> string \<Rightarrow> rank_event list \<Rightarrow> 's \<Rightarrow> 's" where
  "rank_run F R key es s = fold (\<lambda>e s. snd (perform F R key e s)) es s"

lemma rank_run_simps [simp]:
  "rank_run F R key [] s = s"
  "rank_run F R key (e # es) s = rank_run F R key es (snd (perform F R key e s))"
  by (simp_all add: rank_run_def)

lemma rank_run_scores:
  assumes "float_laws F B" "rank_laws R key"
  shows "scores R key (rank_run F R key es s) = fold (effect F) (fresh (used_ids R key s) es) (scores R key s)
    \<and> used_ids R key (rank_run F R key es s) = used_ids R key s \<union> event_id ` set (filter reaches es)"
proof (induction es arbitrary: s)
  case (Cons e es)
  show ?case
  proof (cases "reaches e")
    case True
    note P = perform_reaching(1,2) [OF assms True, of s]
    show ?thesis using Cons.IH [of "snd (perform F R key e s)"] True P
      by (cases "event_id e \<in> used_ids R key s") (auto simp: insert_absorb)
  next
    case False
    then show ?thesis using Cons.IH [of s] perform_not_reaching(1) [OF assms False, of s] by simp
  qed
qed simp

text \<open>The last claim of the section is for counters: increments, whatever the order and the losses.\<close>

definition inc_rep :: "'f floats \<Rightarrow> int \<Rightarrow> 'f option \<Rightarrow> bool" where
  "inc_rep F a old \<longleftrightarrow> (old = None \<and> a = 0)
     \<or> (\<exists>ts x. time_ok ts \<and> frac_of F ts = Some x \<and> old = Some (fl_add F (fl_of_int F a) x))"

definition is_inc :: "string \<Rightarrow> rank_event \<Rightarrow> bool" where
  "is_inc m e = (case e of (n, ts, c) \<Rightarrow> case c of Upd r m' y t \<Rightarrow> m' \<noteq> m | Inc r m' d t \<Rightarrow> m' = m \<longrightarrow> time_ok ts)"

definition deltas :: "string \<Rightarrow> rank_event list \<Rightarrow> int list" where
  "deltas m es = map (\<lambda>e. rc_arg (snd (snd e))) (filter (\<lambda>e. rc_member (snd (snd e)) = m) es)"

lemma effect_inc:
  assumes F: "float_laws F B" and rep: "inc_rep F a (sc m)" and e: "is_inc m e" "rc_member (snd (snd e)) = m"
    and B: "\<bar>a\<bar> \<le> B" "\<bar>rc_arg (snd (snd e))\<bar> \<le> B" "\<bar>a + rc_arg (snd (snd e))\<bar> \<le> B"
  shows "inc_rep F (a + rc_arg (snd (snd e))) (effect F e sc m) \<and> effect F e sc m \<noteq> None"
proof -
  obtain n ts r d t where e': "e = (n, ts, Inc r m d t)" "time_ok ts"
    using e by (cases e; cases "snd (snd e)") (auto simp: is_inc_def)
  obtain x where x: "frac_of F ts = Some x" using float_lawsD(1) [OF F, of ts] e'(2) by (auto simp: time_ok_def)
  have z: "\<bar>0::int\<bar> \<le> B" using B(1) by simp
  have "fl_add F (case sc m of None \<Rightarrow> fl_of_int F 0 | Some y \<Rightarrow> fl_floor F y) (fl_of_int F d) = fl_of_int F (a + d)"
  proof (cases "sc m")
    case None
    then have "a = 0" using rep by (simp add: inc_rep_def)
    then show ?thesis using None float_lawsD(4) [OF F z, of d] B by (simp add: e')
  next
    case (Some y)
    then obtain ts' x' where "time_ok ts'" "frac_of F ts' = Some x'" "y = fl_add F (fl_of_int F a) x'"
      using rep by (auto simp: inc_rep_def)
    then have "fl_floor F y = fl_of_int F a" using float_lawsD(2) [OF F B(1)] by simp
    then show ?thesis using Some float_lawsD(4) [OF F B(1), of d] B by (simp add: e')
  qed
  then have "effect F e sc m = Some (fl_add F (fl_of_int F (a + d)) x)" by (simp add: effect_def e' new_score_def x)
  then have "inc_rep F (a + d) (effect F e sc m) \<and> effect F e sc m \<noteq> None"
    unfolding inc_rep_def using x e'(2) by blast
  then show ?thesis by (simp add: e'(1))
qed

lemma fold_effect_inc:
  assumes F: "float_laws F B" and "inc_rep F a (sc m)" and "\<forall>e\<in>set es. is_inc m e"
    and "\<bar>a\<bar> + sum_list (map abs (deltas m es)) \<le> B"
  shows "inc_rep F (a + sum_list (deltas m es)) (fold (effect F) es sc m)
    \<and> (sc m \<noteq> None \<or> deltas m es \<noteq> [] \<longrightarrow> fold (effect F) es sc m \<noteq> None)"
  using assms(2-)
proof (induction es arbitrary: a sc)
  case Nil
  then show ?case by (simp add: deltas_def)
next
  case (Cons e es)
  let ?d = "rc_arg (snd (snd e))"
  show ?case
  proof (cases "rc_member (snd (snd e)) = m")
    case True
    have p: "0 \<le> sum_list (map abs (deltas m es))" by (rule sum_list_nonneg) auto
    have b: "\<bar>a\<bar> \<le> B" "\<bar>?d\<bar> \<le> B" "\<bar>a + ?d\<bar> + sum_list (map abs (deltas m es)) \<le> B"
      using Cons.prems(3) True p by (auto simp: deltas_def)
    have b3: "\<bar>a + ?d\<bar> \<le> B" using b(3) p by linarith
    have i: "is_inc m e" using Cons.prems(2) by simp
    note E = effect_inc [where sc = sc and m = m, OF F Cons.prems(1) i True b(1,2) b3]
    have "deltas m (e # es) = ?d # deltas m es" using True by (simp add: deltas_def)
    then show ?thesis using Cons.IH [where sc = "effect F e sc", OF conjunct1 [OF E] _ b(3)] E Cons.prems(2) by (simp add: add.assoc)
  next
    case False
    then have "effect F e sc m = sc m" "deltas m (e # es) = deltas m es" by (simp_all add: effect_def deltas_def Let_def)
    then show ?thesis using Cons.IH [of a "effect F e sc"] Cons.prems by simp
  qed
qed

lemma fresh_subset: "set (fresh S es) \<subseteq> set es"
  by (induction S es rule: fresh.induct) auto

section \<open>Ranks\<close>

lemma position_None: "position m ps = None \<longleftrightarrow> m \<notin> fst ` set ps"
  by (induction ps) auto

lemma position_nonneg: "position m ps = Some i \<Longrightarrow> 0 \<le> i"
  by (induction ps arbitrary: i) (auto split: if_splits)

lemma position_order:
  assumes "sorted_wrt ranked_before ps" "distinct (map fst ps)" "(a, x) \<in> set ps" "(b, y) \<in> set ps" "a \<noteq> b"
  shows "\<exists>i j. position a ps = Some i \<and> position b ps = Some j \<and> 0 \<le> i \<and> 0 \<le> j \<and> (i < j \<longleftrightarrow> ranked_before (a, x) (b, y))"
  using assms
proof (induction ps)
  case (Cons p ps)
  have pos: "\<exists>i. position m ps = Some i \<and> 0 \<le> i" if "(m, z) \<in> set ps" for m z
  proof -
    have "m \<in> fst ` set ps" using that by force
    then show ?thesis using position_None [of m ps] position_nonneg [of m ps] by (cases "position m ps") auto
  qed
  consider "p = (a, x)" "(b, y) \<in> set ps" | "p = (b, y)" "(a, x) \<in> set ps" | "(a, x) \<in> set ps" "(b, y) \<in> set ps"
    using Cons.prems(3-5) by auto
  then show ?case
  proof cases
    case 1
    then show ?thesis using pos [OF 1(2)] Cons.prems(1,5) by auto
  next
    case 2
    then have "ranked_before (b, y) (a, x)" using Cons.prems(1) by simp
    then have "\<not> ranked_before (a, x) (b, y)" by (auto simp: ranked_before_def)
    then show ?thesis using 2 pos [OF 2(2)] Cons.prems(5) by auto
  next
    case 3
    then have "a \<in> fst ` set ps" "b \<in> fst ` set ps" by force+
    then have "fst p \<noteq> a" "fst p \<noteq> b" using Cons.prems(2) by auto
    then show ?thesis using Cons.IH Cons.prems 3 by auto
  qed
qed simp

lemma Rank_order:
  assumes "rank_laws R key" "scores R key s a = Some x" "scores R key s b = Some y" "a \<noteq> b"
  shows "0 \<le> Rank R Reply key a s \<and> 0 \<le> Rank R Reply key b s
    \<and> (Rank R Reply key a s < Rank R Reply key b s \<longleftrightarrow> ranked_before (a, x) (b, y))"
proof -
  have "(a, x) \<in> set (rk_pairs R s key)" "(b, y) \<in> set (rk_pairs R s key)"
    using assms(2,3) by (auto simp: scores_def dest: map_of_SomeD)
  from position_order [OF rank_lawsD(2,1) [OF assms(1)] this assms(4)]
  show ?thesis by (auto simp: Rank_def call_redis_def rank_lawsD(11) [OF assms(1)])
qed

section \<open>Truncation\<close>

lemma filter_cut:
  assumes "distinct (map fst xs)"
  shows "filter (\<lambda>p. fst p \<notin> set (map fst (take b (drop n xs)))) xs = take n xs @ drop (n + b) xs"
    and "filter (\<lambda>p. fst p \<in> set (map fst (take b (drop n xs)))) xs = take b (drop n xs)"
proof -
  define A where "A = take n xs"
  define M where "M = take b (drop n xs)"
  define Z where "Z = drop (n + b) xs"
  have xs: "xs = A @ M @ Z" unfolding A_def M_def Z_def by (metis append_take_drop_id drop_drop add.commute)
  have d: "fst ` set A \<inter> fst ` set M = {}" "fst ` set Z \<inter> fst ` set M = {}"
    using assms unfolding xs by auto
  have "filter (\<lambda>p. fst p \<notin> fst ` set M) A = A" "filter (\<lambda>p. fst p \<notin> fst ` set M) Z = Z"
    "filter (\<lambda>p. fst p \<in> fst ` set M) A = []" "filter (\<lambda>p. fst p \<in> fst ` set M) Z = []"
    using d by (auto simp: filter_id_conv filter_empty_conv)
  moreover have "filter (\<lambda>p. fst p \<notin> fst ` set M) M = []" "filter (\<lambda>p. fst p \<in> fst ` set M) M = M"
    by (auto simp: filter_empty_conv filter_id_conv)
  ultimately have "filter (\<lambda>p. fst p \<notin> fst ` set M) xs = A @ Z" "filter (\<lambda>p. fst p \<in> fst ` set M) xs = M"
    unfolding xs by simp_all
  then show "filter (\<lambda>p. fst p \<notin> set (map fst (take b (drop n xs)))) xs = take n xs @ drop (n + b) xs"
    "filter (\<lambda>p. fst p \<in> set (map fst (take b (drop n xs)))) xs = take b (drop n xs)"
    by (simp_all add: A_def M_def Z_def)
qed

lemma limited_batch: "0 < b \<Longrightarrow> limited n b xs = take (nat b) (drop (nat n) xs)"
  by (simp add: limited_def)

text \<open>One run of the script, with a batch below the limit of \<open>unpack\<close>.\<close>

lemma luaTruncate_batch:
  fixes s :: 's and R :: "('s, 'f::linorder) rank_server"
  assumes R: "rank_laws R key" and "0 \<le> keep" "0 < b" "nat b < rk_unpack R"
  defines "ps \<equiv> rk_pairs R s key"
  shows "fst (luaTruncate R key keep b s) = Inr (int (length (take (nat b) (drop (nat keep) ps))))"
    and "rk_pairs R (snd (luaTruncate R key keep b s)) key = take (nat keep) ps @ drop (nat keep + nat b) ps"
proof -
  let ?e = "map fst (take (nat b) (drop (nat keep) ps))"
  have e: "rk_zrev_limit R s key keep b = ?e"
    using rank_lawsD(7) [OF R assms(2), of s b] limited_batch [OF assms(3), of keep ps] by (simp add: ps_def)
  have l: "length ?e < rk_unpack R" using assms(4) by simp
  note C = filter_cut [OF rank_lawsD(1) [OF R, of s], of "nat b" "nat keep", folded ps_def]
  show "fst (luaTruncate R key keep b s) = Inr (int (length (take (nat b) (drop (nat keep) ps))))"
  proof (cases "?e = []")
    case False
    have l': "\<not> rk_unpack R \<le> length ?e" using l by linarith
    show ?thesis using False l' C(2) rank_lawsD(10) [OF R False, of s]
      by (simp add: luaTruncate_def e Let_def case_prod_beta ps_def del: length_map length_take length_drop)
  qed (auto simp: luaTruncate_def e Let_def)
  show "rk_pairs R (snd (luaTruncate R key keep b s)) key = take (nat keep) ps @ drop (nat keep + nat b) ps"
  proof (cases "?e = []")
    case False
    have l': "\<not> rk_unpack R \<le> length ?e" using l by linarith
    show ?thesis using False l' C(1) rank_lawsD(9) [OF R False, of s]
      by (simp add: luaTruncate_def e Let_def case_prod_beta ps_def del: length_map length_take length_drop)
  next
    case True
    then have "length ps \<le> nat keep" using assms(3) by auto
    then show ?thesis using True by (simp add: luaTruncate_def e Let_def ps_def)
  qed
qed

lemma truncate_loop_keeps:
  assumes R: "rank_laws R key" and "0 \<le> keep" "0 < b" "nat b < rk_unpack R"
  shows "\<exists>r s'. truncate_loop R net key keep b k cnt s = Some (r, s')
    \<and> take (nat keep) (rk_pairs R s' key) = take (nat keep) (rk_pairs R s key)
    \<and> ((\<forall>i. net i = Reply) \<longrightarrow> rk_pairs R s' key = take (nat keep) (rk_pairs R s key)
        \<and> r = (cnt + int (length (rk_pairs R s key) - nat keep), None))"
proof (induction "length (rk_pairs R s key)" arbitrary: k cnt s rule: less_induct)
  case less
  let ?ps = "rk_pairs R s key"
  note T = luaTruncate_batch [OF assms, of s]
  define s1 where "s1 = snd (luaTruncate R key keep b s)"
  have s1: "rk_pairs R s1 key = take (nat keep) ?ps @ drop (nat keep + nat b) ?ps" using T(2) by (simp add: s1_def)
  then have top: "take (nat keep) (rk_pairs R s1 key) = take (nat keep) ?ps" by (auto simp: min_def)
  show ?case
  proof (cases "net k")
    case Reply
    let ?n = "length (take (nat b) (drop (nat keep) ?ps))"
    have run: "run_script (net k) (luaTruncate R key keep b) s = (Inr (int ?n), s1)"
      by (simp add: run_script_def call_redis_def Reply T(1) s1_def)
    show ?thesis
    proof (cases "?n = 0")
      case True
      then have "length ?ps \<le> nat keep" using assms(3) by auto
      then show ?thesis using True run top s1 by (subst truncate_loop.simps) simp
    next
      case False
      then have l: "nat keep < length ?ps" by auto
      have len: "length (rk_pairs R s1 key) < length ?ps" using l assms(3) by (simp add: s1 min_def)
      have e: "truncate_loop R net key keep b k cnt s = truncate_loop R net key keep b (Suc k) (cnt + int ?n) s1"
        unfolding truncate_loop.simps [of R net key keep b k cnt s] run using False
        by (simp del: length_take length_drop)
      have d: "?n + (length (rk_pairs R s1 key) - nat keep) = length ?ps - nat keep"
        using l by (simp add: s1 min_def)
      from less [OF len, of "Suc k" "cnt + int ?n"] show ?thesis
        unfolding e top using d by (auto simp flip: of_nat_add)
    qed
  next
    case (LostBefore x)
    then show ?thesis by (subst truncate_loop.simps) (auto simp: run_script_def call_redis_def intro!: exI [of _ k])
  next
    case (LostAfter x)
    then show ?thesis using top
      by (subst truncate_loop.simps) (auto simp: run_script_def call_redis_def s1_def intro!: exI [of _ k])
  qed
qed

text \<open>Too many members beyond the top make the script of \<open>TruncateAll\<close> fail.\<close>

lemma truncate_all:
  assumes R: "rank_laws R key" and "0 \<le> keep"
  shows "TruncateAll R Reply key keep s =
    (let rest = drop (nat keep) (rk_pairs R s key) in
     if rest = [] then ((0, None), s)
     else if rk_unpack R \<le> length rest then ((- 1, Some ''too many results to unpack''), s)
     else ((int (length rest), None), snd (rk_zrem R key (map fst rest) s)))"
proof -
  let ?rest = "drop (nat keep) (rk_pairs R s key)"
  have e: "rk_zrev_limit R s key keep (- 1) = map fst ?rest"
    using rank_lawsD(7) [OF R assms(2), of s "- 1"] by (simp add: limited_def)
  have "int (length (filter (\<lambda>p. fst p \<in> set (map fst ?rest)) (rk_pairs R s key))) = int (length ?rest)"
    using filter_cut(2) [OF rank_lawsD(1) [OF R, of s], of "length (rk_pairs R s key)" "nat keep"] by simp
  then show ?thesis using rank_lawsD(10) [OF R, of "map fst ?rest" s]
    by (simp add: TruncateAll_def truncate_once_def run_script_def call_redis_def luaTruncate_def e Let_def case_prod_beta)
qed

section \<open>An instance of the laws\<close>

text \<open>Exact numbers, and a server that holds one ranking and never loses a key.\<close>

definition dec_frac :: "string \<Rightarrow> rat" where
  "dec_frac ds = of_nat (digits_val 0 ds) / 10 ^ length ds"

definition rat_floats :: "rat floats" where
  "rat_floats = \<lparr>
     fl_parse = (\<lambda>s. if list_all is_digit (drop 2 s) then Some (dec_frac (drop 2 s)) else None),
     fl_of_int = of_int, fl_add = (+), fl_div = (/), fl_floor = (\<lambda>x. of_int \<lfloor>x\<rfloor>),
     fl_modf = (\<lambda>x. (of_int \<lfloor>x\<rfloor>, x - of_int \<lfloor>x\<rfloor>)), fl_to_int = (\<lambda>x. \<lfloor>x\<rfloor>)\<rparr>"

lemma digits_val_bound: "list_all is_digit ds \<Longrightarrow> digits_val a ds < (a + 1) * 10 ^ length ds"
proof (induction ds arbitrary: a)
  case (Cons c ds)
  have "48 \<le> (of_char c :: nat) \<and> (of_char c :: nat) \<le> 57" using Cons.prems by (simp add: is_digit_def)
  then have "digit_val c < 10" unfolding digit_val_def by linarith
  have "digits_val (10 * a + digit_val c) ds < (10 * a + digit_val c + 1) * 10 ^ length ds"
    using Cons by simp
  also have "\<dots> \<le> (a + 1) * 10 * 10 ^ length ds"
    using \<open>digit_val c < 10\<close> by (intro mult_right_mono) simp_all
  finally show ?case by (simp add: algebra_simps)
qed simp

lemma rat_frac: "frac_of rat_floats ts = (if 0 \<le> ts then Some (dec_frac (Itoa ts)) else None)"
  using nat_digits_digits [of "nat ts"] by (simp add: frac_of_def rat_floats_def Itoa_def)

lemma dec_frac_range: "0 \<le> ts \<Longrightarrow> 0 \<le> dec_frac (Itoa ts) \<and> dec_frac (Itoa ts) < 1"
proof -
  assume "0 \<le> ts"
  then have "digits_val 0 (Itoa ts) < 10 ^ length (Itoa ts)"
    using digits_val_bound [of "Itoa ts" 0] nat_digits_digits [of "nat ts"] by (simp add: Itoa_def)
  then have "(of_nat (digits_val 0 (Itoa ts)) :: rat) < of_nat (10 ^ length (Itoa ts))" by (simp only: of_nat_less_iff)
  then show ?thesis by (simp add: dec_frac_def)
qed

lemma dec_frac_less: "0 \<le> a \<Longrightarrow> 0 \<le> b \<Longrightarrow> dec_frac (Itoa a) < dec_frac (Itoa b) \<longleftrightarrow> dec_less a b"
proof -
  assume "0 \<le> a" "0 \<le> b"
  then have v: "digits_val 0 (Itoa a) = nat a" "digits_val 0 (Itoa b) = nat b"
    by (simp_all add: Itoa_def digits_val_nat_digits)
  have "dec_frac (Itoa a) < dec_frac (Itoa b) \<longleftrightarrow>
      (of_nat (nat a * 10 ^ length (Itoa b)) :: rat) < of_nat (nat b * 10 ^ length (Itoa a))"
    unfolding dec_frac_def v by (simp add: divide_simps)
  then show ?thesis by (simp only: of_nat_less_iff dec_less_def)
qed

lemma rat_floor: "0 \<le> ts \<Longrightarrow> \<lfloor>of_int n + dec_frac (Itoa ts)\<rfloor> = n"
  using dec_frac_range [of ts] by (simp add: floor_eq_iff)

lemma rat_floats_laws: "float_laws rat_floats B"
proof -
  have cmp: "(of_int m + dec_frac (Itoa ts) < of_int n + dec_frac (Itoa ts')) = (m < n \<or> m = n \<and> dec_less ts ts')"
    if "0 \<le> ts" "0 \<le> ts'" for m n ts ts'
  proof (cases m n rule: linorder_cases)
    case less
    then have "(of_int (m + 1) :: rat) \<le> of_int n" by (simp only: of_int_le_iff)
    then have "(of_int m :: rat) + 1 \<le> of_int n" by simp
    then have "(of_int m + dec_frac (Itoa ts)) < of_int n + dec_frac (Itoa ts')"
      using dec_frac_range [OF that(1)] dec_frac_range [OF that(2)] by linarith
    then show ?thesis using less by simp
  next
    case equal
    then show ?thesis using dec_frac_less [OF that] by simp
  next
    case greater
    then have "(of_int (n + 1) :: rat) \<le> of_int m" by (simp only: of_int_le_iff)
    then have "(of_int n :: rat) + 1 \<le> of_int m" by simp
    then have "\<not> (of_int m + dec_frac (Itoa ts)) < of_int n + dec_frac (Itoa ts')"
      using dec_frac_range [OF that(1)] dec_frac_range [OF that(2)] by linarith
    then show ?thesis using greater by simp
  qed
  have add: "fl_add rat_floats = (+)" "fl_of_int rat_floats = of_int" "fl_floor rat_floats x = of_int \<lfloor>x\<rfloor>"
    "fst (fl_modf rat_floats x) = of_int \<lfloor>x\<rfloor>" "fl_to_int rat_floats x = \<lfloor>x\<rfloor>" "fl_div rat_floats = (/)" for x
    by (simp_all add: rat_floats_def)
  show ?thesis unfolding float_laws_def add
  proof (intro conjI allI impI)
    show "(frac_of rat_floats ts = None) = (ts < 0)" for ts by (auto simp: rat_frac)
    show "of_int \<lfloor>of_int n + x\<rfloor> = (of_int n :: rat)"
      if "\<bar>n\<bar> \<le> B \<and> time_ok ts \<and> frac_of rat_floats ts = Some x" for n ts x
      using that rat_floor [of ts n] by (auto simp: rat_frac time_ok_def)
    show "\<lfloor>of_int \<lfloor>of_int n + x\<rfloor> :: rat\<rfloor> = n"
      if "0 \<le> n \<and> n \<le> B \<and> time_ok ts \<and> frac_of rat_floats ts = Some x" for n ts x
      using that rat_floor [of ts n] by (auto simp: rat_frac time_ok_def)
    show "of_int a + of_int b = (of_int (a + b) :: rat)" for a b by simp
    show "(of_int m + x < of_int n + y) = (m < n \<or> m = n \<and> dec_less ts ts')"
      if "\<bar>m\<bar> \<le> B \<and> \<bar>n\<bar> \<le> B \<and> time_ok ts \<and> time_ok ts' \<and> frac_of rat_floats ts = Some x
        \<and> frac_of rat_floats ts' = Some y" for m n ts ts' x y
      using that cmp [of ts ts' m n] by (auto simp: rat_frac time_ok_def)
    show "\<lfloor>of_int \<lfloor>of_int a / of_int b :: rat\<rfloor> :: rat\<rfloor> = a div b" for a b
      by (simp add: floor_divide_of_int_eq)
  qed
qed

type_synonym rank_state = "(string \<Rightarrow> bool) \<times> (string \<times> rat) list \<times> (string \<times> string) list"

definition zset_ok :: "(string \<times> rat) list \<Rightarrow> bool" where
  "zset_ok ps \<longleftrightarrow> distinct (map fst ps) \<and> sorted_wrt ranked_before ps"

definition zset_of :: "rank_state \<Rightarrow> (string \<times> rat) list" where
  "zset_of s = (if zset_ok (fst (snd s)) then fst (snd s) else [])"

definition hash_of :: "rank_state \<Rightarrow> (string \<times> string) list" where
  "hash_of s = (if distinct (map fst (snd (snd s))) then snd (snd s) else [])"

definition zinsert :: "string \<Rightarrow> rat \<Rightarrow> (string \<times> rat) list \<Rightarrow> (string \<times> rat) list" where
  "zinsert m x ps = (let qs = filter (\<lambda>p. fst p \<noteq> m) ps in
     filter (\<lambda>p. ranked_before p (m, x)) qs @ (m, x) # filter (\<lambda>p. \<not> ranked_before p (m, x)) qs)"

definition rat_server :: "(rank_state, rat) rank_server" where
  "rat_server = \<lparr>
     rk_seen = (\<lambda>s k. fst s k),
     rk_pairs = (\<lambda>s k. zset_of s),
     rk_setnx = (\<lambda>k t s. if 0 < t then (Inr (\<not> fst s k), ((fst s)(k := True), snd s)) else (Inl ''invalid expire time'', s)),
     rk_zscore = (\<lambda>s k m. map_of (zset_of s) m),
     rk_zadd = (\<lambda>k x m s. (if map_of (zset_of s) m = None then 1 else 0, (fst s, zinsert m x (zset_of s), snd (snd s)))),
     rk_zrev_limit = (\<lambda>s k offset cnt. map fst (limited offset cnt (zset_of s))),
     rk_zrev_from = (\<lambda>s k x offset cnt. limited offset cnt (filter (\<lambda>p. x \<le> snd p) (zset_of s))),
     rk_zrem = (\<lambda>k ms s. (int (length (filter (\<lambda>p. fst p \<in> set ms) (zset_of s))),
                  (fst s, filter (\<lambda>p. fst p \<notin> set ms) (zset_of s), snd (snd s)))),
     rk_zrevrank = (\<lambda>s k m. position m (zset_of s)),
     rk_hmset = (\<lambda>k vs s. if vs = [] then (Inl ''wrong number of arguments'', s)
                  else (Inr True, (fst s, fst (snd s), vs @ filter (\<lambda>e. fst e \<notin> fst ` set vs) (hash_of s)))),
     rk_hgetall = (\<lambda>s k. hash_of s),
     rk_unpack = 8000\<rparr>"

lemma ranked_before_total:
  "p \<noteq> q \<Longrightarrow> ranked_before p q \<or> ranked_before q p"
  "ranked_before p q \<Longrightarrow> ranked_before q r \<Longrightarrow> ranked_before p r"
  by (auto simp: ranked_before_def prod_eq_iff)

lemma zset_of_ok [simp]: "zset_ok (zset_of s)"
  by (simp add: zset_of_def zset_ok_def)

lemma zset_of_simp: "zset_ok ps \<Longrightarrow> zset_of (a, ps, h) = ps"
  by (simp add: zset_of_def)

lemma zset_ok_filter: "zset_ok ps \<Longrightarrow> zset_ok (filter P ps)"
  by (auto simp: zset_ok_def sorted_wrt_filter distinct_map_filter)

lemma map_of_without: "map_of (filter (\<lambda>p. fst p \<noteq> m) ps) = (map_of ps)(m := None)"
  by (induction ps) (auto simp: fun_eq_iff)

lemma zinsert_ok:
  assumes "zset_ok ps"
  shows "zset_ok (zinsert m x ps)" "map_of (zinsert m x ps) = (map_of ps)(m \<mapsto> x)"
proof -
  let ?qs = "filter (\<lambda>p. fst p \<noteq> m) ps"
  have q: "zset_ok ?qs" by (rule zset_ok_filter [OF assms])
  have after: "ranked_before (m, x) p" if "p \<in> set ?qs" "\<not> ranked_before p (m, x)" for p
  proof (rule disjE [OF ranked_before_total(1) [of "(m, x)" p]])
    show "(m, x) \<noteq> p" using that(1) by auto
  qed (use that(2) in auto)
  have "mset (filter P xs) + mset (filter (\<lambda>p. \<not> P p) xs) = mset xs" for P and xs :: "(string \<times> rat) list"
    by (induction xs) auto
  then have "mset (zinsert m x ps) = mset ((m, x) # ?qs)"
    unfolding zinsert_def Let_def mset_append mset.simps(2) by (simp del: filter_filter mset_filter)
  then have ms: "mset (map fst (zinsert m x ps)) = mset (map fst ((m, x) # ?qs))"
      "set (zinsert m x ps) = set ((m, x) # ?qs)"
    by (simp_all only: mset_map) (metis set_mset_mset)
  have dq: "distinct (map fst ((m, x) # ?qs))" using q by (auto simp: zset_ok_def)
  have d: "distinct (map fst (zinsert m x ps))" using mset_eq_imp_distinct_iff [OF ms(1)] dq by simp
  moreover have "sorted_wrt ranked_before (zinsert m x ps)"
    unfolding zinsert_def Let_def sorted_wrt_append
  proof (intro conjI ballI)
    show "sorted_wrt ranked_before (filter (\<lambda>p. ranked_before p (m, x)) ?qs)"
      using q by (simp add: zset_ok_def sorted_wrt_filter del: filter_filter)
    show "sorted_wrt ranked_before ((m, x) # filter (\<lambda>p. \<not> ranked_before p (m, x)) ?qs)"
      using q after by (simp add: zset_ok_def sorted_wrt_filter del: filter_filter)
    fix u v assume u: "u \<in> set (filter (\<lambda>p. ranked_before p (m, x)) ?qs)"
      and v: "v \<in> set ((m, x) # filter (\<lambda>p. \<not> ranked_before p (m, x)) ?qs)"
    have "v = (m, x) \<or> ranked_before (m, x) v" using v after [of v] by (auto simp del: split_paired_All)
    then show "ranked_before u v" using u ranked_before_total(2) [of u "(m, x)" v] by auto
  qed
  ultimately show "zset_ok (zinsert m x ps)" by (simp add: zset_ok_def)
  have "map_of (zinsert m x ps) = map_of ((m, x) # ?qs)" by (rule map_of_inject_set [THEN iffD2, OF d dq ms(2)])
  then show "map_of (zinsert m x ps) = (map_of ps)(m \<mapsto> x)" by (simp add: map_of_without)
qed

lemma hash_over:
  assumes "distinct (map fst h)" "distinct (map fst vs)"
  shows "distinct (map fst (vs @ filter (\<lambda>e. fst e \<notin> fst ` set vs) h))"
    and "map_of (vs @ filter (\<lambda>e. fst e \<notin> fst ` set vs) h) = map_of h ++ map_of vs"
proof -
  have "fst ` set vs \<inter> fst ` set (filter (\<lambda>e. fst e \<notin> fst ` set vs) h) = {}"
    by (simp add: disjoint_iff image_iff)
  then show "distinct (map fst (vs @ filter (\<lambda>e. fst e \<notin> fst ` set vs) h))"
    using assms by (simp add: distinct_map_filter)
  have f: "map_of (filter (\<lambda>e. fst e \<notin> A) h) k = (if k \<in> A then None else map_of h k)" for A k
    by (induction h) auto
  show "map_of (vs @ filter (\<lambda>e. fst e \<notin> fst ` set vs) h) = map_of h ++ map_of vs"
  proof
    fix k
    show "map_of (vs @ filter (\<lambda>e. fst e \<notin> fst ` set vs) h) k = (map_of h ++ map_of vs) k"
      using map_of_eq_None_iff [of vs k] by (cases "map_of vs k") (simp_all add: map_add_def f)
  qed
qed

lemma rat_server_laws: "rank_laws rat_server key"
proof -
  have z: "setnx_laws rat_server key"
    by (auto simp: setnx_laws_def rat_server_def zset_of_def)
  have "zset_laws rat_server key" unfolding zset_laws_def
  proof (intro conjI allI impI)
    show "distinct (map fst (rk_pairs rat_server s key))" "sorted_wrt ranked_before (rk_pairs rat_server s key)" for s
      using zset_of_ok [of s] by (simp_all add: rat_server_def zset_ok_def)
    show "map_of (rk_pairs rat_server (snd (rk_zadd rat_server key x m s)) key) = (map_of (rk_pairs rat_server s key))(m \<mapsto> x)"
      for x m s by (simp add: rat_server_def zset_of_simp zinsert_ok)
    show "rk_pairs rat_server (snd (rk_zrem rat_server key ms s)) key = filter (\<lambda>p. fst p \<notin> set ms) (rk_pairs rat_server s key)"
      for ms s by (simp add: rat_server_def zset_of_simp zset_ok_filter)
  qed (simp_all add: rat_server_def)
  moreover have "hash_laws rat_server (fuzzy_key key)" unfolding hash_laws_def
  proof (intro conjI allI impI)
    have d: "distinct (map fst (hash_of s))" for s by (simp add: hash_of_def)
    then show "distinct (map fst (rk_hgetall rat_server s (fuzzy_key key)))" for s by (simp add: rat_server_def)
    have h: "hash_of (a, b, h) = h" if "distinct (map fst h)" for a b h using that by (simp add: hash_of_def)
    show "map_of (rk_hgetall rat_server (snd (rk_hmset rat_server (fuzzy_key key) vs s)) (fuzzy_key key)) =
        map_of (rk_hgetall rat_server s (fuzzy_key key)) ++ map_of vs" if "distinct (map fst vs) \<and> vs \<noteq> []" for vs s
      using that hash_over(2) [OF d [of s], of vs] h [OF hash_over(1) [OF d [of s], of vs], of "fst s" "fst (snd s)"]
      by (simp add: rat_server_def)
  qed (simp_all add: rat_server_def)
  ultimately show ?thesis using z by (simp add: rank_laws_def)
qed

lemmas rat_laws = rat_floats_laws [of "2 ^ 18"] rat_server_laws

section \<open>Properties\<close>





text \<open>The states after two first updates.\<close>

lemma two_updates:
  assumes F: "float_laws F B" and R: "rank_laws R key" and "0 < t" "0 < t'" "0 \<le> ts" "0 \<le> ts'"
    and "r \<notin> used_ids R key s" "r' \<notin> used_ids R key s" "r \<noteq> r'" "a \<noteq> b"
    and "frac_of F ts = Some x" "frac_of F ts' = Some y"
    and s': "s' = snd (UpdateScore F R Reply key ts' r' b n t' (snd (UpdateScore F R Reply key ts r a m t s)))"
  shows "scores R key s' a = Some (fl_add F (fl_of_int F m) x)" "scores R key s' b = Some (fl_add F (fl_of_int F n) y)"
proof -
  let ?es = "[(Reply, ts, Upd r a m t), (Reply, ts', Upd r' b n t')]"
  have "s' = rank_run F R key ?es s" by (simp add: s' perform_def)
  then have "scores R key s' = fold (effect F) ?es (scores R key s)"
    using rank_run_scores [OF F R, of ?es s] assms(3-9) by (simp add: reaches_def event_id_def)
  then show "scores R key s' a = Some (fl_add F (fl_of_int F m) x)" "scores R key s' b = Some (fl_add F (fl_of_int F n) y)"
    using assms(10-12) by (simp_all add: effect_def new_score_def)
qed

lemma dec_less_same_length:
  "length (Itoa ts) = length (Itoa ts') \<Longrightarrow> 0 \<le> ts \<Longrightarrow> 0 \<le> ts' \<Longrightarrow> dec_less ts ts' \<longleftrightarrow> ts < ts'"
  by (auto simp: dec_less_def)

text \<open>Who is ranked higher: of two members updated one after the other, the one with the higher score,
  and with equal scores the one updated earlier, as long as the seconds left at the two moments have the
  same number of digits.\<close>

theorem ranking_earlier_first:
  assumes "float_laws F B" "rank_laws R key" "0 < t" "0 < t'" "time_ok ts" "time_ok ts'" "ts' < ts"
    and "length (Itoa ts) = length (Itoa ts')" "\<bar>m\<bar> \<le> B" "\<bar>n\<bar> \<le> B"
    and "r \<notin> used_ids R key s" "r' \<notin> used_ids R key s" "r \<noteq> r'" "a \<noteq> b"
    and "s' = snd (UpdateScore F R Reply key ts' r' b n t' (snd (UpdateScore F R Reply key ts r a m t s)))"
  shows "0 \<le> Rank R Reply key a s' \<and> 0 \<le> Rank R Reply key b s'
    \<and> (Rank R Reply key a s' < Rank R Reply key b s' \<longleftrightarrow> n \<le> m)"
proof -
  have t: "0 \<le> ts" "0 \<le> ts'" using assms(5,6) by (simp_all add: time_ok_def)
  obtain x y where xy: "frac_of F ts = Some x" "frac_of F ts' = Some y"
    using float_lawsD(1) [OF assms(1), of ts] float_lawsD(1) [OF assms(1), of ts'] t by fastforce
  note S = two_updates [OF assms(1-4) t assms(11-14) xy assms(15)]
  let ?u = "fl_add F (fl_of_int F m) x" and ?v = "fl_add F (fl_of_int F n) y"
  note d = dec_less_same_length [OF assms(8) t] dec_less_same_length [OF assms(8) [symmetric] t(2,1)]
  have "(?v < ?u) = (n \<le> m)" "?u \<noteq> ?v"
    using float_lawsD(5) [OF assms(1,10,9,6,5) xy(2,1)] float_lawsD(5) [OF assms(1,9,10,5,6) xy] d assms(7) by auto
  then have "ranked_before (a, ?u) (b, ?v) \<longleftrightarrow> n \<le> m" by (simp add: ranked_before_def)
  then show ?thesis using Rank_order [OF assms(2) S assms(14)] by simp
qed

lemma ranking_earlier_first_witness:
  "Rank rat_server Reply ''hot'' ''ann''
     (snd (UpdateScore rat_floats rat_server Reply ''hot'' 700000000 ''r2'' ''bob'' 5 60
       (snd (UpdateScore rat_floats rat_server Reply ''hot'' 700000009 ''r1'' ''ann'' 5 60 (\<lambda>_. False, [], [])))))
   < Rank rat_server Reply ''hot'' ''bob''
     (snd (UpdateScore rat_floats rat_server Reply ''hot'' 700000000 ''r2'' ''bob'' 5 60
       (snd (UpdateScore rat_floats rat_server Reply ''hot'' 700000009 ''r1'' ''ann'' 5 60 (\<lambda>_. False, [], [])))))"
  using ranking_earlier_first [OF rat_laws, of 60 60 700000009 700000000 5 5 "''r1''" "''hot''" "(\<lambda>_. False, [], [])"
      "''r2''" "''ann''" "''bob''", OF _ _ _ _ _ _ _ _ _ _ _ _ refl]
  by (simp add: time_ok_def used_ids_def rat_server_def Itoa_def nat_digits.simps)

text \<open>Across a change of the number of digits the later update is ranked higher: half a second before and
  after the moment when 100000000 seconds are left.\<close>

lemma ranking_digits_drop: "dec_less 100000000 99999999"
  by (simp add: dec_less_def Itoa_def nat_digits.simps)

text \<open>C24. \<open>Truncate\<close> with a batch size from 1 to below the limit of \<open>unpack\<close> returns, and never removes one of
  the top \<open>keep\<close> members, whatever happens to its calls; when all are answered, exactly the top \<open>keep\<close>
  remain, in their order, and the count returned is the number removed.\<close>

theorem truncate_keeps_top:
  assumes "rank_laws R key" "0 \<le> keep" "0 < b" "nat b < rk_unpack R"
  shows "\<exists>r s'. Truncate R net key keep b s = Some (r, s')
    \<and> take (nat keep) (rk_pairs R s' key) = take (nat keep) (rk_pairs R s key)
    \<and> ((\<forall>i. net i = Reply) \<longrightarrow> rk_pairs R s' key = take (nat keep) (rk_pairs R s key)
        \<and> r = (int (length (rk_pairs R s key) - nat keep), None))"
  using truncate_loop_keeps [OF assms, of net 0 0 s] assms(3) by (simp add: Truncate_def)

lemma truncate_keeps_top_witness:
  "\<exists>s'. Truncate rat_server (\<lambda>_. Reply) ''hot'' 1 2 (\<lambda>_. False, [(''a'', 9), (''b'', 8), (''c'', 7), (''d'', 6)], []) = Some ((3, None), s')
     \<and> rk_pairs rat_server s' ''hot'' = [(''a'', 9)]"
proof -
  have p: "rk_pairs rat_server (\<lambda>_. False, [(''a'', 9), (''b'', 8), (''c'', 7), (''d'', 6)], []) ''hot''
      = [(''a'', 9), (''b'', 8), (''c'', 7), (''d'', 6)]"
    by (simp add: rat_server_def zset_of_def zset_ok_def ranked_before_def)
  have "nat 2 < rk_unpack rat_server" by (simp add: rat_server_def)
  from truncate_keeps_top [OF rat_laws(2) _ _ this, of 1 "\<lambda>_. Reply" "''hot''"
      "(\<lambda>_. False, [(''a'', 9), (''b'', 8), (''c'', 7), (''d'', 6)], [])"]
  show ?thesis unfolding p by auto
qed

text \<open>\<open>Paginate\<close>: the page at an offset is that part of the members with scores from zero on, from the
  highest, so the pages of a size put together are the whole ranking; for a score that was set to
  \<open>n \<ge> 0\<close> the item shows \<open>n\<close>.\<close>

theorem paginate_pages:
  assumes "float_laws F B" "rank_laws R key" "0 \<le> offset" "0 < limit"
    and "ps = filter (\<lambda>p. fl_of_int F 0 \<le> snd p) (rk_pairs R s key)"
  shows "\<exists>items. Paginate F R Reply key offset limit s = Inr items
    \<and> map ri_Member items = map fst (take (nat limit) (drop (nat offset) ps))
    \<and> (\<forall>i < length items. \<forall>n ts x. 0 \<le> n \<and> n \<le> B \<and> time_ok ts \<and> frac_of F ts = Some x
        \<and> map_of (rk_pairs R s key) (ri_Member (items ! i)) = Some (fl_add F (fl_of_int F n) x) \<longrightarrow> ri_Score (items ! i) = n)"
proof -
  let ?f = "\<lambda>(mem, score). let (fscore, y) = fl_modf F score in
          \<lparr>ri_Member = mem, ri_Score = fl_to_int F fscore, ri_Frac = y\<rparr>"
  let ?ps = "take (nat limit) (drop (nat offset) ps)"
  have P: "Paginate F R Reply key offset limit s = Inr (map ?f ?ps)"
    using rank_lawsD(8) [OF assms(2-4), of s "fl_of_int F 0"] assms(4)
    by (simp add: Paginate_def call_redis_def limited_def assms(5))
  have M: "ri_Member (?f p) = fst p" "ri_Score (?f p) = fl_to_int F (fst (fl_modf F (snd p)))" for p
    by (simp_all add: case_prod_beta)
  have S: "ri_Score (map ?f ?ps ! i) = n"
    if "i < length (map ?f ?ps)" "0 \<le> n \<and> n \<le> B \<and> time_ok ts \<and> frac_of F ts = Some x
      \<and> map_of (rk_pairs R s key) (ri_Member (map ?f ?ps ! i)) = Some (fl_add F (fl_of_int F n) x)" for i n ts x
  proof -
    have i: "map ?f ?ps ! i = ?f (?ps ! i)" using that(1) by simp
    have "?ps ! i \<in> set ?ps" using that(1) by (intro nth_mem) simp
    then have "?ps ! i \<in> set (rk_pairs R s key)" unfolding assms(5) by (meson filter_is_subset in_set_dropD in_set_takeD subsetD)
    then have "map_of (rk_pairs R s key) (fst (?ps ! i)) = Some (snd (?ps ! i))"
      using rank_lawsD(1) [OF assms(2), of s] by simp
    then have "snd (?ps ! i) = fl_add F (fl_of_int F n) x" using that(2) unfolding i M by simp
    moreover have "fl_to_int F (fst (fl_modf F (fl_add F (fl_of_int F n) x))) = n"
      using float_lawsD(3) [OF assms(1), of n ts x] that(2) by blast
    ultimately show ?thesis unfolding i M by simp
  qed
  have "map ri_Member (map ?f ?ps) = map fst ?ps" by (simp add: M comp_def case_prod_beta)
  then show ?thesis using P S by blast
qed

lemma paginate_pages_witness:
  "\<exists>items. Paginate rat_floats rat_server Reply ''hot'' 1 2 (\<lambda>_. False, [(''a'', 9), (''b'', 8), (''c'', 7), (''d'', - 6)], []) = Inr items
     \<and> map ri_Member items = [''b'', ''c'']"
proof -
  have p: "filter (\<lambda>p. fl_of_int rat_floats 0 \<le> snd p) (rk_pairs rat_server (\<lambda>_. False, [(''a'', 9), (''b'', 8), (''c'', 7), (''d'', - 6)], []) ''hot'')
      = [(''a'', 9), (''b'', 8), (''c'', 7)]"
    by (simp add: rat_server_def zset_of_def zset_ok_def ranked_before_def rat_floats_def)
  from paginate_pages [OF rat_laws, of 1 2 _ "(\<lambda>_. False, [(''a'', 9), (''b'', 8), (''c'', 7), (''d'', - 6)], [])" "''hot''", OF _ _ p [symmetric]]
  show ?thesis by auto
qed

end
