(* ===== verification/RankingFuzzy.thy ===== *)
theory RankingFuzzy
  imports RankingProofs
begin

text \<open>
  The approximate ranks of \<open>pkg/services/ranking.go\<close>: \<open>FuzzyGet\<close> reads back what \<open>FuzzySet\<close> wrote, next to
  the ranges written before, and \<open>FuzzyRank\<close> is compared with the number it estimates.
\<close>

section \<open>Fields\<close>

lemma takeWhile_Itoa_digits:
  assumes "list_all is_digit ds" "r = [] \<or> \<not> is_digit (hd r)"
  shows "takeWhile is_digit (ds @ r) = ds" "dropWhile is_digit (ds @ r) = r"
proof -
  have "takeWhile is_digit r = []" "dropWhile is_digit r = r"
    using assms(2) by (cases r; simp)+
  then show "takeWhile is_digit (ds @ r) = ds" "dropWhile is_digit (ds @ r) = r"
    using assms(1) by (induction ds) auto
qed

lemma scan_d_Itoa:
  assumes "int64_range n" "r = [] \<or> \<not> is_digit (hd r)"
  shows "scan_d (Itoa n @ r) = Some (word_of_int n, r)"
proof -
  obtain c t where ct: "nat_digits (nat \<bar>n\<bar>) = c # t" "is_digit c" "list_all is_digit (nat_digits (nat \<bar>n\<bar>))"
    using nat_digits_digits [of "nat \<bar>n\<bar>"] by (cases "nat_digits (nat \<bar>n\<bar>)") auto
  have c: "\<not> is_space c" "c \<noteq> CHR ''-''" "c \<noteq> CHR ''+''" using ct(2) by (auto simp: is_digit_def is_space_def)
  have m: "\<not> is_space CHR ''-''" by (simp add: is_space_def)
  note T = takeWhile_Itoa_digits [OF ct(3) assms(2)]
  have A: "Atoi (Itoa n) = Some n" by (rule Atoi_Itoa [OF assms(1)])
  show ?thesis
  proof (cases "n < 0")
    case True
    then have i: "Itoa n = CHR ''-'' # nat_digits (nat \<bar>n\<bar>)" by (simp add: Itoa_def)
    then show ?thesis using A T m by (simp add: scan_d_def Let_def)
  next
    case False
    then have i: "Itoa n = nat_digits (nat \<bar>n\<bar>)" by (simp add: Itoa_def)
    then show ?thesis using A T c unfolding scan_d_def Let_def ct(1) by (simp add: ct(1))
  qed
qed

lemma int64_range_sint: "int64_range (sint x)" for x :: int64
  using sint_range_size [of x] by (simp add: int64_range_def word_size)

lemma scan_range_field: "scan_range (fuzzy_field v) = Some (RangeStart v, RangeEnd v)"
proof -
  have "scan_d (fuzzy_field v) = Some (RangeStart v, ''-'' @ Itoa (sint (RangeEnd v)))"
    using scan_d_Itoa [OF int64_range_sint, of "''-'' @ Itoa (sint (RangeEnd v))" "RangeStart v"] by (simp add: fuzzy_field_def)
  moreover have "scan_d (Itoa (sint (RangeEnd v))) = Some (RangeEnd v, [])"
    using scan_d_Itoa [OF int64_range_sint, of "[]" "RangeEnd v"] by simp
  ultimately show ?thesis by (simp add: scan_range_def)
qed

definition fuzzy_entry :: "RankingFuzzyCount \<Rightarrow> string \<times> string" where
  "fuzzy_entry v = (fuzzy_field v, Itoa (sint (rf_Count v)))"

lemma fuzzy_parse_entries: "fuzzy_parse (map fuzzy_entry vs) = Inr vs"
  by (induction vs) (simp_all add: fuzzy_entry_def scan_range_field Atoi_Itoa int64_range_sint)

lemma fuzzy_field_inject: "fuzzy_field v = fuzzy_field w \<longleftrightarrow> RangeStart v = RangeStart w \<and> RangeEnd v = RangeEnd w"
proof
  assume "fuzzy_field v = fuzzy_field w"
  then have "scan_range (fuzzy_field v) = scan_range (fuzzy_field w)" by simp
  then show "RangeStart v = RangeStart w \<and> RangeEnd v = RangeEnd w" by (simp add: scan_range_field)
qed (simp add: fuzzy_field_def)

lemma fuzzy_entry_inject [simp]: "fuzzy_entry v = fuzzy_entry w \<longleftrightarrow> v = w"
proof
  assume e: "fuzzy_entry v = fuzzy_entry w"
  have "Atoi (Itoa (sint (rf_Count v))) = Atoi (Itoa (sint (rf_Count w)))" using e by (simp add: fuzzy_entry_def)
  then have "rf_Count v = rf_Count w" by (simp add: Atoi_Itoa int64_range_sint) (metis signed_word_eqI)
  then show "v = w" using e fuzzy_field_inject [of v w] by (simp add: fuzzy_entry_def)
qed simp

text \<open>With different ranges, the map that \<open>FuzzySet\<close> builds holds an entry for each.\<close>

lemma fuzzy_vals_entries:
  assumes "distinct (map fuzzy_field vs)"
  shows "fuzzy_vals vs = map fuzzy_entry vs"
proof -
  have upd: "k \<notin> fst ` set xs \<Longrightarrow> AList.update k y xs = xs @ [(k, y)]" for k y and xs :: "(string \<times> string) list"
    by (induction xs) auto
  have "distinct (map fst xs @ map fuzzy_field vs) \<Longrightarrow>
      fold (\<lambda>v. AList.update (fuzzy_field v) (Itoa (sint (rf_Count v)))) vs xs = xs @ map fuzzy_entry vs" for xs
  proof (induction vs arbitrary: xs)
    case (Cons v vs)
    have "fuzzy_field v \<notin> fst ` set xs" using Cons.prems by auto
    then have "AList.update (fuzzy_field v) (Itoa (sint (rf_Count v))) xs = xs @ [fuzzy_entry v]"
      by (simp add: upd fuzzy_entry_def)
    moreover have "distinct (map fst (xs @ [fuzzy_entry v]) @ map fuzzy_field vs)"
      using Cons.prems by (auto simp: fuzzy_entry_def)
    ultimately show ?case using Cons.IH [of "xs @ [fuzzy_entry v]"] by simp
  qed simp
  from this [of "[]"] assms show ?thesis by (simp add: fuzzy_vals_def)
qed

text \<open>The entries of a hash that \<open>FuzzySet\<close> has extended.\<close>

lemma fuzzy_hash_after:
  assumes "distinct (map fuzzy_field rs)" "set h = fuzzy_entry ` set old" "distinct (map fst h)"
    and "map_of h' = map_of h ++ map_of (map fuzzy_entry rs)" "distinct (map fst h')"
  shows "set h' = fuzzy_entry ` (set rs \<union> {v \<in> set old. fuzzy_field v \<notin> fuzzy_field ` set rs})"
proof -
  have fst: "map fst (map fuzzy_entry rs) = map fuzzy_field rs" by (simp add: fuzzy_entry_def comp_def)
  have dom: "map_of (map fuzzy_entry rs) k = None \<longleftrightarrow> k \<notin> fuzzy_field ` set rs" for k
    by (simp add: map_of_eq_None_iff image_image fuzzy_entry_def)
  have mem: "(k, c) \<in> set h' \<longleftrightarrow> map_of (map fuzzy_entry rs) k = Some c \<or> k \<notin> fuzzy_field ` set rs \<and> (k, c) \<in> set h" for k c
    using map_of_eq_Some_iff [OF assms(5), of k c] map_of_eq_Some_iff [OF assms(3), of k c] dom [of k]
    by (auto simp: assms(4) map_add_Some_iff)
  have mr: "map_of (map fuzzy_entry rs) k = Some c \<longleftrightarrow> (k, c) \<in> fuzzy_entry ` set rs" for k c
    using assms(1) by (simp add: map_of_eq_Some_iff fst del: map_map)
  show ?thesis
  proof (intro set_eqI iffI)
    fix e assume "e \<in> set h'"
    then have "e \<in> fuzzy_entry ` set rs \<or> fst e \<notin> fuzzy_field ` set rs \<and> e \<in> fuzzy_entry ` set old"
      using mem [of "fst e" "snd e"] mr [of "fst e" "snd e"] assms(2) by simp
    then show "e \<in> fuzzy_entry ` (set rs \<union> {v \<in> set old. fuzzy_field v \<notin> fuzzy_field ` set rs})"
      by (auto simp: fuzzy_entry_def)
  next
    fix e assume "e \<in> fuzzy_entry ` (set rs \<union> {v \<in> set old. fuzzy_field v \<notin> fuzzy_field ` set rs})"
    then have "e \<in> fuzzy_entry ` set rs \<or> fst e \<notin> fuzzy_field ` set rs \<and> e \<in> fuzzy_entry ` set old"
      by (auto simp: fuzzy_entry_def)
    then show "e \<in> set h'" using mem [of "fst e" "snd e"] mr [of "fst e" "snd e"] assms(2) by simp
  qed
qed

lemma ranges_of_entries: "set h \<subseteq> range fuzzy_entry \<Longrightarrow> \<exists>vs. h = map fuzzy_entry vs"
  by (metis ex_map_conv rangeE subsetD)

lemma fuzzy_get_after_set:
  assumes R: "rank_laws R key" and "rs \<noteq> []" "distinct (map fuzzy_field rs)"
    and old: "rk_hgetall R s (fuzzy_key key) = map fuzzy_entry old"
    and s': "FuzzySet R Reply key rs s = (err, s')"
  shows "err = None \<and> (\<exists>arr. FuzzyGet R Reply key s' = Inr arr \<and> distinct arr
    \<and> set arr = set rs \<union> {v \<in> set old. fuzzy_field v \<notin> fuzzy_field ` set rs})"
proof -
  let ?k = "fuzzy_key key" and ?vs = "map fuzzy_entry rs"
  have d: "distinct (map fst ?vs)" using assms(3) by (simp add: fuzzy_entry_def comp_def)
  have ne: "?vs \<noteq> []" using assms(2) by simp
  note H = rank_laws_hash(2,3) [OF R d ne, of s]
  have e: "err = None" "s' = snd (rk_hmset R ?k ?vs s)"
    using s' H(1) by (auto simp: FuzzySet_def run_script_def call_redis_def fuzzy_vals_entries [OF assms(3)])
  let ?h = "rk_hgetall R s' ?k"
  have "set ?h = fuzzy_entry ` (set rs \<union> {v \<in> set old. fuzzy_field v \<notin> fuzzy_field ` set rs})"
    by (rule fuzzy_hash_after [OF assms(3) _ rank_laws_hash(1) [OF R, of s] _ rank_laws_hash(1) [OF R, of s']])
       (use H(2) in \<open>simp_all add: e(2) old\<close>)
  moreover from this obtain arr where arr: "?h = map fuzzy_entry arr" using ranges_of_entries [of ?h] by auto
  ultimately have "set arr = set rs \<union> {v \<in> set old. fuzzy_field v \<notin> fuzzy_field ` set rs}"
    by (simp add: image_set [symmetric] inj_image_eq_iff inj_def)
  moreover from this have "arr \<noteq> []" using assms(2) by auto
  moreover have "distinct arr" using rank_laws_hash(1) [OF R, of s'] unfolding arr by (simp add: distinct_map)
  ultimately show ?thesis using e(1) by (simp add: FuzzyGet_def call_redis_def arr fuzzy_parse_entries)
qed

section \<open>The estimate\<close>

definition score_in :: "int64 \<Rightarrow> RankingFuzzyCount \<Rightarrow> bool" where
  "score_in x v \<longleftrightarrow> sint (RangeStart v) \<le> sint x \<and> sint x < sint (RangeEnd v)"

text \<open>The condition of the comment on \<open>FuzzySet\<close>: the ranges do not overlap. They are not too wide for the
  division, and their starts are not so far apart that the comparison's subtraction wraps.\<close>

definition ranges_ok :: "RankingFuzzyCount list \<Rightarrow> bool" where
  "ranges_ok vs \<longleftrightarrow> distinct vs
     \<and> (\<forall>v\<in>set vs. sint (RangeStart v) < sint (RangeEnd v) \<and> sint (RangeEnd v) - sint (RangeStart v) < 2 ^ 53
          \<and> \<bar>sint (RangeStart v)\<bar> < 2 ^ 62)
     \<and> (\<forall>v\<in>set vs. \<forall>w\<in>set vs. v \<noteq> w \<longrightarrow>
          sint (RangeEnd v) \<le> sint (RangeStart w) \<or> sint (RangeEnd w) \<le> sint (RangeStart v))"

definition range_above :: "RankingFuzzyCount \<Rightarrow> RankingFuzzyCount \<Rightarrow> bool" where
  "range_above v w \<longleftrightarrow> sint (RangeEnd w) \<le> sint (RangeStart v)"

lemma sint_diff_63:
  fixes a b :: int64
  assumes "- (2 ^ 63) \<le> sint a - sint b" "sint a - sint b < 2 ^ 63"
  shows "sint (a - b) = sint a - sint b"
  by (rule sint_diff_small [OF assms])

lemma fuzzy_cmp_above:
  assumes "ranges_ok (x # y # [])"
  shows "fuzzy_cmp x y < 0 \<longleftrightarrow> range_above x y"
proof -
  have o: "\<bar>sint (RangeStart x)\<bar> < 2 ^ 62" "\<bar>sint (RangeStart y)\<bar> < 2 ^ 62"
    "sint (RangeStart x) < sint (RangeEnd x)" "sint (RangeStart y) < sint (RangeEnd y)"
    "sint (RangeEnd x) \<le> sint (RangeStart y) \<or> sint (RangeEnd y) \<le> sint (RangeStart x)"
    using assms by (auto simp: ranges_ok_def)
  have "sint (RangeStart y - RangeStart x) = sint (RangeStart y) - sint (RangeStart x)"
    by (rule sint_diff_63) (use o(1,2) in \<open>simp add: abs_less_iff\<close>)+
  then show ?thesis using o(3-5) by (auto simp: fuzzy_cmp_def range_above_def)
qed

lemma ranges_ok_subset: "ranges_ok vs \<Longrightarrow> distinct ws \<Longrightarrow> set ws \<subseteq> set vs \<Longrightarrow> ranges_ok ws"
  unfolding ranges_ok_def by blast

lemma range_above_cases:
  assumes "ranges_ok vs" "v \<in> set vs" "w \<in> set vs" "v \<noteq> w"
  shows "range_above v w \<or> range_above w v" "\<not> (range_above v w \<and> range_above w v)"
proof -
  have "sint (RangeStart v) < sint (RangeEnd v)" "sint (RangeStart w) < sint (RangeEnd w)"
    "sint (RangeEnd v) \<le> sint (RangeStart w) \<or> sint (RangeEnd w) \<le> sint (RangeStart v)"
    using assms by (simp_all add: ranges_ok_def)
  then show "range_above v w \<or> range_above w v" "\<not> (range_above v w \<and> range_above w v)"
    unfolding range_above_def by linarith+
qed

lemma range_above_trans:
  assumes "ranges_ok vs" "v \<in> set vs" "range_above u v" "range_above v w"
  shows "range_above u w"
proof -
  have "sint (RangeStart v) < sint (RangeEnd v)" using assms(1,2) by (simp add: ranges_ok_def)
  then show ?thesis using assms(3,4) by (simp add: range_above_def)
qed

text \<open>The sorted part is kept reversed, so a lower range stands before a higher one.\<close>

lemma fuzzy_insert_sorted:
  assumes "ranges_ok (x # ys)" "sorted_wrt (\<lambda>v w. range_above w v) ys"
  shows "mset (fuzzy_insert x ys) = add_mset x (mset ys) \<and> sorted_wrt (\<lambda>v w. range_above w v) (fuzzy_insert x ys)"
  using assms
proof (induction ys)
  case (Cons y ys)
  have p: "ranges_ok [x, y]" by (rule ranges_ok_subset [OF Cons.prems(1)]) (use Cons.prems(1) in \<open>auto simp: ranges_ok_def\<close>)
  have r: "ranges_ok (x # ys)" by (rule ranges_ok_subset [OF Cons.prems(1)]) (use Cons.prems(1) in \<open>auto simp: ranges_ok_def\<close>)
  have xy: "x \<noteq> y" using Cons.prems(1) by (auto simp: ranges_ok_def)
  show ?case
  proof (cases "fuzzy_cmp x y < 0")
    case True
    have IH: "mset (fuzzy_insert x ys) = add_mset x (mset ys)" "sorted_wrt (\<lambda>v w. range_above w v) (fuzzy_insert x ys)"
      using Cons.IH [OF r] Cons.prems(2) by simp_all
    have "set (fuzzy_insert x ys) = insert x (set ys)" using mset_eq_setD [OF trans [OF IH(1) mset.simps(2) [symmetric]]] by simp
    then show ?thesis using True IH Cons.prems(2) fuzzy_cmp_above [OF p] by simp
  next
    case False
    then have yx: "range_above y x" using range_above_cases(1) [OF p, of x y] xy fuzzy_cmp_above [OF p] by simp
    have "range_above z x" if "z \<in> set ys" for z
      by (rule range_above_trans [OF p, of y]) (use that Cons.prems(2) yx in auto)
    then show ?thesis using False yx Cons.prems(2) by simp
  qed
qed simp

lemma fuzzy_sort_sorted:
  assumes "ranges_ok vs"
  shows "mset (fuzzy_sort vs) = mset vs \<and> sorted_wrt range_above (fuzzy_sort vs)"
proof -
  have "ranges_ok (xs @ vs) \<Longrightarrow> mset ys = mset xs \<Longrightarrow> sorted_wrt (\<lambda>v w. range_above w v) ys \<Longrightarrow>
      mset (fold fuzzy_insert vs ys) = mset (xs @ vs) \<and> sorted_wrt (\<lambda>v w. range_above w v) (fold fuzzy_insert vs ys)" for xs ys
  proof (induction vs arbitrary: xs ys)
    case (Cons v vs)
    have "set ys = set xs" by (rule mset_eq_setD [OF Cons.prems(2)])
    moreover have "distinct ys" using Cons.prems(1) mset_eq_imp_distinct_iff [OF Cons.prems(2)] by (simp add: ranges_ok_def)
    ultimately have "ranges_ok (v # ys)"
      by (intro ranges_ok_subset [OF Cons.prems(1)]) (use Cons.prems(1) in \<open>auto simp: ranges_ok_def\<close>)
    note I = fuzzy_insert_sorted [OF this Cons.prems(3)]
    have "ranges_ok ((xs @ [v]) @ vs)" using Cons.prems(1) by simp
    from Cons.IH [OF this, of "fuzzy_insert v ys"] I Cons.prems(2) show ?case by simp
  qed simp
  from this [of "[]" "[]"] assms show ?thesis by (simp add: fuzzy_sort_def sorted_wrt_rev)
qed

definition counts :: "RankingFuzzyCount list \<Rightarrow> int" where
  "counts vs = sum_list (map (\<lambda>v. sint (rf_Count v)) vs)"

text \<open>The number of members in the ranges above a score.\<close>

definition members_above :: "int64 \<Rightarrow> RankingFuzzyCount list \<Rightarrow> int" where
  "members_above x vs = counts (filter (\<lambda>w. sint x < sint (RangeStart w)) vs)"

definition estimate :: "int64 \<Rightarrow> RankingFuzzyCount list \<Rightarrow> int" where
  "estimate x vs =
     (if \<exists>v\<in>set vs. score_in x v then members_above x vs + (if x \<in> RangeStart ` set vs then 1 else 0)
      else counts vs)"

lemma counts_mset: "mset vs = mset ws \<Longrightarrow> counts (filter P vs) = counts (filter P ws)"
proof -
  assume "mset vs = mset ws"
  then have "sum_mset (mset (map (\<lambda>v. sint (rf_Count v)) (filter P vs))) = sum_mset (mset (map (\<lambda>v. sint (rf_Count v)) (filter P ws)))"
    by simp
  then show ?thesis unfolding sum_mset_sum_list counts_def .
qed

lemma estimate_mset: "mset vs = mset ws \<Longrightarrow> estimate x vs = estimate x ws"
  using counts_mset [of vs ws "\<lambda>_. True"] mset_eq_setD [of vs ws] counts_mset [of vs ws]
  by (simp add: estimate_def members_above_def)

lemma range_quotient:
  assumes F: "float_laws F B" and v: "score_in x v" "sint (RangeEnd v) - sint (RangeStart v) < 2 ^ 53"
  shows "fl_to_int F (fl_floor F (fl_div F (fl_of_int F (sint (RangeEnd v - x))) (fl_of_int F (sint (RangeEnd v - RangeStart v)))))
    = (if x = RangeStart v then 1 else 0)"
proof -
  let ?a = "sint (RangeEnd v) - sint x" and ?b = "sint (RangeEnd v) - sint (RangeStart v)"
  have o: "0 < ?a" "?a \<le> ?b" "0 < ?b" "?b < 2 ^ 53" using v by (auto simp: score_in_def)
  have d: "sint (RangeEnd v - x) = ?a" "sint (RangeEnd v - RangeStart v) = ?b"
    by (rule sint_diff_63; use o in simp)+
  have "fl_to_int F (fl_floor F (fl_div F (fl_of_int F ?a) (fl_of_int F ?b))) = ?a div ?b"
    using float_lawsD(6) [OF F, of ?a ?b] o by simp
  also have "\<dots> = (if ?a = ?b then 1 else 0)" using o by auto
  also have "(?a = ?b) = (x = RangeStart v)" by (auto intro: signed_word_eqI)
  finally show ?thesis by (simp add: d)
qed

lemma fuzzy_loop_estimate:
  assumes F: "float_laws F B" and "ranges_ok vs" "sorted_wrt range_above vs"
  shows "fuzzy_loop F x r vs = r + word_of_int (estimate x vs)"
  using assms(2,3)
proof (induction vs arbitrary: r)
  case Nil
  then show ?case by (simp add: estimate_def counts_def)
next
  case (Cons v vs)
  have ok: "ranges_ok vs" by (rule ranges_ok_subset [OF Cons.prems(1)]) (use Cons.prems(1) in \<open>auto simp: ranges_ok_def\<close>)
  have v: "sint (RangeStart v) < sint (RangeEnd v)" "sint (RangeEnd v) - sint (RangeStart v) < 2 ^ 53"
    using Cons.prems(1) by (auto simp: ranges_ok_def)
  have w: "sint (RangeStart w) < sint (RangeEnd w)" "sint (RangeEnd w) \<le> sint (RangeStart v)" if "w \<in> set vs" for w
    using that ok Cons.prems(2) by (auto simp: ranges_ok_def range_above_def)
  show ?case
  proof (cases "score_in x v")
    case True
    have below: "\<not> sint x < sint (RangeStart w)" "x \<noteq> RangeStart w" if "w \<in> set vs" for w
      using w [OF that] True by (auto simp: score_in_def)
    then have "members_above x (v # vs) = 0" using True by (simp add: members_above_def score_in_def counts_def filter_False)
    moreover have "x \<in> RangeStart ` set (v # vs) \<longleftrightarrow> x = RangeStart v" using below by auto
    ultimately have "estimate x (v # vs) = (if x = RangeStart v then 1 else 0)" using True by (simp add: estimate_def)
    moreover have "fuzzy_loop F x r (v # vs) = r + word_of_int (if x = RangeStart v then 1 else 0)"
      using True range_quotient [OF F True v(2)] by (simp add: word_sle_eq word_sless_alt score_in_def)
    ultimately show ?thesis by simp
  next
    case False
    then have e: "fuzzy_loop F x r (v # vs) = fuzzy_loop F x (r + rf_Count v) vs"
      by (auto simp: word_sle_eq word_sless_alt score_in_def)
    have "estimate x (v # vs) = sint (rf_Count v) + estimate x vs"
    proof (cases "\<exists>w\<in>set vs. score_in x w")
      case True
      then obtain u where u: "u \<in> set vs" "score_in x u" by blast
      have xv: "sint x < sint (RangeStart v)" using w(2) [OF u(1)] u(2) by (simp add: score_in_def)
      then have "x \<noteq> RangeStart v" by auto
      then have xs: "x \<in> RangeStart ` set (v # vs) \<longleftrightarrow> x \<in> RangeStart ` set vs" by simp
      have "members_above x (v # vs) = sint (rf_Count v) + members_above x vs"
        using xv by (simp add: members_above_def counts_def)
      then show ?thesis using True xs by (simp add: estimate_def)
    qed (use False in \<open>simp add: estimate_def counts_def\<close>)
    then show ?thesis unfolding e using Cons.IH [OF ok, of "r + rf_Count v"] Cons.prems(2) by (simp add: add.assoc)
  qed
qed

lemma counts_filter_bounds:
  assumes "\<forall>v\<in>set vs. 0 \<le> sint (rf_Count v)"
  shows "0 \<le> counts (filter P vs)" "counts (filter P vs) \<le> counts vs"
  using assms by (induction vs) (auto simp: counts_def)

lemma estimate_bounds:
  assumes "\<forall>v\<in>set vs. 0 \<le> sint (rf_Count v)"
  shows "0 \<le> estimate x vs" "estimate x vs \<le> counts vs + 1"
  using counts_filter_bounds [OF assms, of "\<lambda>_. True"] counts_filter_bounds [OF assms, of "\<lambda>w. sint x < sint (RangeStart w)"]
  by (auto simp: estimate_def members_above_def)

lemma FuzzyRank_estimate:
  assumes F: "float_laws F B" and ok: "ranges_ok ranges" "ranges \<noteq> []"
    and c: "\<forall>v\<in>set ranges. 0 \<le> sint (rf_Count v)" "counts ranges + 1 < 2 ^ 63"
    and g: "FuzzyGet R n2 key s = Inr ranges" and nr: "\<not> (0 \<le> Rank R n1 key m s \<and> Rank R n1 key m s < k)"
  shows "FuzzyRank F R n1 n2 key m x k s = estimate x ranges"
proof -
  note S = fuzzy_sort_sorted [OF ok(1)]
  have st: "set (fuzzy_sort ranges) = set ranges" using mset_eq_setD [OF conjunct1 [OF S]] .
  have "distinct (fuzzy_sort ranges)" using mset_eq_imp_distinct_iff [OF conjunct1 [OF S]] ok(1) by (simp add: ranges_ok_def)
  then have "ranges_ok (fuzzy_sort ranges)" using ranges_ok_subset [OF ok(1)] st by simp
  then have "fuzzy_loop F x 0 (fuzzy_sort ranges) = word_of_int (estimate x ranges)"
    using fuzzy_loop_estimate [OF F, of "fuzzy_sort ranges" x 0] S estimate_mset [OF conjunct1 [OF S], of x] by simp
  moreover have "sint (word_of_int (estimate x ranges) :: int64) = estimate x ranges"
    using estimate_bounds [OF c(1), of x] c(2) by (intro sint_word_of_int_64) simp_all
  ultimately show ?thesis using g nr ok(2) by (auto simp: FuzzyRank_def Let_def)
qed

section \<open>Properties\<close>

text \<open>After \<open>FuzzySet\<close>, \<open>FuzzyGet\<close> returns the ranges just written with their counts, once each, and
  besides them every range written earlier that has another start or end: ranges are never removed.\<close>

theorem fuzzy_set_get:
  assumes "rank_laws R key" "rs \<noteq> []" "distinct (map fuzzy_field rs)"
    and "rk_hgetall R s (fuzzy_key key) = map fuzzy_entry old" "FuzzySet R Reply key rs s = (err, s')"
  shows "err = None \<and> (\<exists>arr. FuzzyGet R Reply key s' = Inr arr \<and> distinct arr
    \<and> set arr = set rs \<union> {v \<in> set old. fuzzy_field v \<notin> fuzzy_field ` set rs})"
  using assms by (rule fuzzy_get_after_set)

lemma fuzzy_set_get_witness:
  "\<exists>s' arr. FuzzySet rat_server Reply ''hot'' [\<lparr>RangeStart = 0, RangeEnd = 10, rf_Count = 7\<rparr>] (\<lambda>_. False, [], []) = (None, s')
     \<and> FuzzyGet rat_server Reply ''hot'' s' = Inr arr \<and> set arr = {\<lparr>RangeStart = 0, RangeEnd = 10, rf_Count = 7\<rparr>}"
proof -
  let ?v = "\<lparr>RangeStart = 0, RangeEnd = 10, rf_Count = 7\<rparr>" and ?s = "(\<lambda>_. False, [], []) :: rank_state"
  obtain err s' where s': "FuzzySet rat_server Reply ''hot'' [?v] ?s = (err, s')"
    by (cases "FuzzySet rat_server Reply ''hot'' [?v] ?s") simp
  have "rk_hgetall rat_server ?s (fuzzy_key ''hot'') = map fuzzy_entry []" by (simp add: rat_server_def hash_of_def)
  from fuzzy_set_get [OF rat_laws(2) _ _ this s'] show ?thesis using s' by auto
qed

text \<open>The approximate rank of a member below the accurate ones, for ranges as they should be (without
  overlap): for a score in a range it is the number of members in the higher ranges, plus one when
  the score is the range's start; for a score in no range it is the number of members in all ranges,
  so a member above every range is ranked behind all of them.\<close>

theorem fuzzy_rank_estimate:
  assumes "float_laws F B" "ranges_ok ranges" "ranges \<noteq> []"
    and "\<forall>v\<in>set ranges. 0 \<le> sint (rf_Count v)" "counts ranges + 1 < 2 ^ 63"
    and "FuzzyGet R n2 key s = Inr ranges" "\<not> (0 \<le> Rank R n1 key m s \<and> Rank R n1 key m s < k)"
  shows "FuzzyRank F R n1 n2 key m x k s =
    (if \<exists>v\<in>set ranges. score_in x v then members_above x ranges + (if x \<in> RangeStart ` set ranges then 1 else 0)
     else counts ranges)"
  using FuzzyRank_estimate [OF assms] by (simp add: estimate_def)

lemma fuzzy_rank_estimate_witness:
  "FuzzyRank rat_floats rat_server Reply Reply ''hot'' ''ann'' 25 3
      (\<lambda>_. False, [], map fuzzy_entry [\<lparr>RangeStart = 0, RangeEnd = 10, rf_Count = 7\<rparr>, \<lparr>RangeStart = 10, RangeEnd = 20, rf_Count = 2\<rparr>]) = 9"
proof -
  let ?rs = "[\<lparr>RangeStart = 0, RangeEnd = 10, rf_Count = 7\<rparr>, \<lparr>RangeStart = 10, RangeEnd = 20, rf_Count = 2\<rparr>]"
  let ?s = "(\<lambda>_. False, [], map fuzzy_entry ?rs) :: rank_state"
  have "distinct (map fst (map fuzzy_entry ?rs))" by (simp add: fuzzy_entry_def fuzzy_field_def Itoa_def nat_digits.simps)
  then have g: "FuzzyGet rat_server Reply ''hot'' ?s = Inr ?rs"
    using fuzzy_parse_entries [of ?rs] by (simp add: FuzzyGet_def call_redis_def rat_server_def hash_of_def)
  have r: "\<not> (0 \<le> Rank rat_server Reply ''hot'' ''ann'' ?s \<and> Rank rat_server Reply ''hot'' ''ann'' ?s < 3)"
    by (simp add: Rank_def call_redis_def rat_server_def zset_of_def)
  have "ranges_ok ?rs" by (simp add: ranges_ok_def)
  from fuzzy_rank_estimate [OF rat_laws(1) this _ _ _ g r, of 25] show ?thesis
    by (simp add: score_in_def counts_def)
qed

end
