(* ===== verification/Logging.thy ===== *)
theory Logging
  imports IdTypes
begin

text \<open>
  \<open>internal/pkg/features/logging\<close>: log records collected by a goroutine and written in batches. The
  writer, its channel, timer and context are one record; a turn of the goroutine of \<open>listen\<close> is one
  operation, and so is each statement of \<open>release\<close>, which runs beside it. A turn evaluates the select's
  channels and takes a ready branch. The store is an argument: whether \<open>WriteMany\<close> fails. Blocking on a
  full channel is not modelled: \<open>post\<close> is possible only while there is room.
\<close>

section \<open>Records\<close>

datatype Level = DebugLevel | InfoLevel | WarnLevel | ErrorLevel | FatalLevel

record ServiceLog =
  sl_ID :: UID
  sl_Service :: string
  sl_TraceID :: UID
  sl_Level :: Level
  sl_Message :: string
  sl_StackTrace :: string
  sl_Data :: string
  sl_CreatedAt :: int

definition WithTraceID :: "UID \<Rightarrow> ServiceLog \<Rightarrow> ServiceLog" where "WithTraceID traceID log = log\<lparr>sl_TraceID := traceID\<rparr>"
definition WithData :: "string \<Rightarrow> ServiceLog \<Rightarrow> ServiceLog" where "WithData data log = log\<lparr>sl_Data := data\<rparr>"
definition WithStackTrace :: "string \<Rightarrow> ServiceLog \<Rightarrow> ServiceLog" where
  "WithStackTrace stackTrace log = log\<lparr>sl_StackTrace := stackTrace\<rparr>"

text \<open>The zero id is 16 zero bytes.\<close>

definition new_log :: "Level \<Rightarrow> string \<Rightarrow> (ServiceLog \<Rightarrow> ServiceLog) list \<Rightarrow> ServiceLog" where
  "new_log level msg options = fold (\<lambda>opt. opt) options
     \<lparr>sl_ID = replicate 16 0, sl_Service = [], sl_TraceID = replicate 16 0, sl_Level = level, sl_Message = msg,
      sl_StackTrace = [], sl_Data = [], sl_CreatedAt = 0\<rparr>"

section \<open>Writers\<close>

text \<open>A timer fires once; its value waits in the timer's channel until it is received.\<close>

datatype timer = Armed | Fired | Spent | Stopped

record Writer =
  interval :: int
  maxCount :: int
  bufferSize :: int
  writeCh :: "(ServiceLog list \<times> bool) option" \<comment> \<open>nil, or what waits in the channel and whether it is closed\<close>
  w_timer :: "timer option"
  w_cancel :: bool \<comment> \<open>\<open>cancel\<close> is not nil\<close>
  serviceName :: string
  bufferedLogs :: "ServiceLog option list" \<comment> \<open>pointers: \<open>None\<close> is nil\<close>
  ctx_done :: bool
  returned :: bool \<comment> \<open>\<open>listen\<close> has returned\<close>
  w_written :: "ServiceLog list list" \<comment> \<open>the batches the store has accepted\<close>

definition WithInterval :: "int \<Rightarrow> Writer \<Rightarrow> Writer" where "WithInterval i w = w\<lparr>interval := i\<rparr>"
definition WithMaxCount :: "int \<Rightarrow> Writer \<Rightarrow> Writer" where "WithMaxCount c w = w\<lparr>maxCount := c\<rparr>"
definition WithBufferSize :: "int \<Rightarrow> Writer \<Rightarrow> Writer" where "WithBufferSize s w = w\<lparr>bufferSize := s\<rparr>"

definition Writer_init :: "Writer \<Rightarrow> Writer" where
  "Writer_init w =
     (let w = (if maxCount w < 1 then w\<lparr>maxCount := 1\<rparr> else w);
          w = (if bufferSize w < 1 then w\<lparr>bufferSize := 1000\<rparr> else w);
          w = w\<lparr>writeCh := Some ([], False)\<rparr>;
          w = (if interval w < 100000000 then w\<lparr>interval := 100000000\<rparr> else w)
      in w\<lparr>w_timer := Some Armed\<rparr>)"

text \<open>The statements of \<open>release\<close>, one by one: closing a nil or closed channel, and calling a nil function, panic.\<close>

datatype release_op = CloseCh | StopTimer | Cancel | NilTimer | NilCh | NilCancel

fun release_step :: "release_op \<Rightarrow> Writer \<Rightarrow> Writer outcome" where
  "release_step CloseCh w =
     (case writeCh w of
        None \<Rightarrow> Panic ''close of nil channel''
      | Some (q, closed) \<Rightarrow>
          if closed then Panic ''close of closed channel'' else Ret (w\<lparr>writeCh := Some (q, True)\<rparr>))"
| "release_step StopTimer w =
     (case w_timer w of
        None \<Rightarrow> Panic ''nil pointer dereference''
      | Some t \<Rightarrow> Ret (w\<lparr>w_timer := Some (if t = Armed then Stopped else t)\<rparr>))"
| "release_step Cancel w =
     (if \<not> w_cancel w then Panic ''nil pointer dereference'' else Ret (w\<lparr>ctx_done := True\<rparr>))"
| "release_step NilTimer w = Ret (w\<lparr>w_timer := None\<rparr>)"
| "release_step NilCh w = Ret (w\<lparr>writeCh := None\<rparr>)"
| "release_step NilCancel w = Ret (w\<lparr>w_cancel := False\<rparr>)"

definition release_ops :: "release_op list" where
  "release_ops = [CloseCh, StopTimer, Cancel, NilTimer, NilCh, NilCancel]"

definition release :: "Writer \<Rightarrow> Writer outcome" where
  "release w = fold (\<lambda>op m. bind_outcome m (release_step op)) release_ops (Ret w)"

text \<open>\<open>flush\<close>: \<open>stamps i\<close> is the id and the time of the \<open>i\<close>-th record, \<open>ok\<close> whether the store took the batch.\<close>

definition stamp_log :: "string \<Rightarrow> UID \<times> int \<Rightarrow> ServiceLog \<Rightarrow> ServiceLog" where
  "stamp_log service st log = log\<lparr>sl_ID := fst st, sl_Service := service, sl_CreatedAt := snd st\<rparr>"

fun stamp_all :: "string \<Rightarrow> (nat \<Rightarrow> UID \<times> int) \<Rightarrow> nat \<Rightarrow> ServiceLog option list \<Rightarrow> ServiceLog list outcome" where
  "stamp_all service stamps i [] = Ret []"
| "stamp_all service stamps i (None # logs) = Panic ''nil pointer dereference''"
| "stamp_all service stamps i (Some log # logs) =
     bind_outcome (stamp_all service stamps (Suc i) logs) (\<lambda>rest. Ret (stamp_log service (stamps i) log # rest))"

definition flush :: "(nat \<Rightarrow> UID \<times> int) \<Rightarrow> bool \<Rightarrow> Writer \<Rightarrow> Writer outcome" where
  "flush stamps ok w =
     (if length (bufferedLogs w) = 0 then Ret w
      else bind_outcome (stamp_all (serviceName w) stamps 0 (bufferedLogs w)) (\<lambda>batch.
             Ret (w\<lparr>bufferedLogs := [], w_written := (if ok then w_written w @ [batch] else w_written w)\<rparr>)))"

section \<open>The goroutine\<close>

text \<open>\<open>listen\<close> first makes its own cancellation.\<close>

definition listen_begin :: "Writer \<Rightarrow> Writer" where
  "listen_begin w = w\<lparr>w_cancel := True\<rparr>"

datatype log_ready = DoneReady | LogReady | TimerReady

text \<open>One turn: \<open>None\<close> is a branch that is not ready, or a goroutine that has returned.\<close>

definition listen_turn :: "log_ready \<Rightarrow> (nat \<Rightarrow> UID \<times> int) \<Rightarrow> bool \<Rightarrow> Writer \<Rightarrow> Writer outcome option" where
  "listen_turn ready stamps ok w =
     (if returned w then None
      else case w_timer w of
          None \<Rightarrow> Some (Panic ''nil pointer dereference'')
        | Some t \<Rightarrow>
            (case ready of
               DoneReady \<Rightarrow> if ctx_done w then Some (Ret (w\<lparr>returned := True\<rparr>)) else None
             | LogReady \<Rightarrow>
                 (let got = (\<lambda>logData q closed.
                        (let w = w\<lparr>writeCh := Some (q, closed), bufferedLogs := bufferedLogs w @ [logData]\<rparr> in
                         if maxCount w \<le> int (length (bufferedLogs w)) then flush stamps ok w else Ret w))
                  in case writeCh w of
                       None \<Rightarrow> None
                     | Some (log # q, closed) \<Rightarrow> Some (got (Some log) q closed)
                     | Some ([], closed) \<Rightarrow> if closed then Some (got None [] closed) else None)
             | TimerReady \<Rightarrow>
                 if t = Fired then Some (flush stamps ok (w\<lparr>w_timer := Some Spent\<rparr>)) else None))"

text \<open>The runtime fires an armed timer.\<close>

definition timer_fires :: "Writer \<Rightarrow> Writer" where
  "timer_fires w = (if w_timer w = Some Armed then w\<lparr>w_timer := Some Fired\<rparr> else w)"

section \<open>The package\<close>

text \<open>The package's variable \<open>writer\<close> is the argument of the functions below. A send on the nil channel of a
  released writer never returns, which \<open>None\<close> stands for, as it does for a full channel.\<close>

definition log_Start :: "string \<Rightarrow> (Writer \<Rightarrow> Writer) list \<Rightarrow> Writer option \<Rightarrow> Writer outcome" where
  "log_Start service opts writer =
     (let w = \<lparr>interval = 1000000000, maxCount = 100, bufferSize = 0, writeCh = None, w_timer = None, w_cancel = False,
               serviceName = service, bufferedLogs = [], ctx_done = False, returned = False, w_written = []\<rparr>;
          started = Ret (Writer_init (fold (\<lambda>opt. opt) opts w))
      in case writer of
           None \<Rightarrow> started
         | Some old \<Rightarrow> bind_outcome (release old) (\<lambda>_. started))"

definition log_Stop :: "Writer option \<Rightarrow> Writer option outcome" where
  "log_Stop writer = (case writer of None \<Rightarrow> Ret None | Some w \<Rightarrow> bind_outcome (release w) (\<lambda>_. Ret None))"

definition post :: "ServiceLog \<Rightarrow> Writer option \<Rightarrow> Writer option outcome option" where
  "post log writer =
     (case writer of
        None \<Rightarrow> Some (Panic ''logging: writer is nil, please call Start() first'')
      | Some w \<Rightarrow>
          (case writeCh w of
             None \<Rightarrow> None
           | Some (q, closed) \<Rightarrow>
               if closed then Some (Panic ''send on closed channel'')
               else if int (length q) < bufferSize w then Some (Ret (Some (w\<lparr>writeCh := Some (q @ [log], closed)\<rparr>)))
               else None))"

definition doLog :: "Level \<Rightarrow> string \<Rightarrow> (ServiceLog \<Rightarrow> ServiceLog) list \<Rightarrow> Writer option \<Rightarrow> Writer option outcome option" where
  "doLog level msg options writer = post (new_log level msg options) writer"

definition Debug where "Debug msg options = doLog DebugLevel msg options"
definition Info where "Info msg options = doLog InfoLevel msg options"
definition Warn where "Warn msg options = doLog WarnLevel msg options"
definition Error where "Error msg options = doLog ErrorLevel msg options"
definition Fatal where "Fatal msg options = doLog FatalLevel msg options"

section \<open>Runs\<close>

datatype log_event = Post ServiceLog | Turn log_ready "nat \<Rightarrow> UID \<times> int" bool | Fire

definition log_step :: "log_event \<Rightarrow> Writer \<Rightarrow> Writer outcome option" where
  "log_step e w =
     (case e of
        Post log \<Rightarrow>
          (case post log (Some w) of
             None \<Rightarrow> None
           | Some (Panic m) \<Rightarrow> Some (Panic m)
           | Some (Ret writer) \<Rightarrow> Some (Ret (the writer)))
      | Turn r stamps ok \<Rightarrow> listen_turn r stamps ok w
      | Fire \<Rightarrow> Some (Ret (timer_fires w)))"

fun log_run :: "log_event list \<Rightarrow> Writer \<Rightarrow> Writer outcome option" where
  "log_run [] w = Some (Ret w)"
| "log_run (e # es) w =
     (case log_step e w of
        None \<Rightarrow> None
      | Some (Panic m) \<Rightarrow> Some (Panic m)
      | Some (Ret w') \<Rightarrow> log_run es w')"

text \<open>A started writer whose goroutine runs.\<close>

definition log_ok :: "Writer \<Rightarrow> bool" where
  "log_ok w \<longleftrightarrow> (\<exists>q. writeCh w = Some (q, False)) \<and> w_timer w \<noteq> None \<and> None \<notin> set (bufferedLogs w)
     \<and> 1 \<le> maxCount w \<and> int (length (bufferedLogs w)) < maxCount w"

text \<open>What a record says, and what a writer holds in the order of arrival.\<close>

definition said :: "ServiceLog \<Rightarrow> UID \<times> Level \<times> string \<times> string \<times> string" where
  "said log = (sl_TraceID log, sl_Level log, sl_Message log, sl_StackTrace log, sl_Data log)"

definition pending :: "Writer \<Rightarrow> ServiceLog list" where
  "pending w = map the (bufferedLogs w) @ (case writeCh w of None \<Rightarrow> [] | Some (q, _) \<Rightarrow> q)"

fun posts :: "log_event list \<Rightarrow> ServiceLog list" where
  "posts [] = []"
| "posts (Post log # es) = log # posts es"
| "posts (Turn r st ok # es) = posts es"
| "posts (Fire # es) = posts es"

lemma stamp_all_Ret:
  "None \<notin> set logs \<Longrightarrow> \<exists>batch. stamp_all service stamps i logs = Ret batch \<and> map said batch = map (said \<circ> the) logs
     \<and> (\<forall>l\<in>set batch. sl_Service l = service)"
proof (induction logs arbitrary: i)
  case (Cons l logs)
  then obtain log batch where "l = Some log" "stamp_all service stamps (Suc i) logs = Ret batch"
    "map said batch = map (said \<circ> the) logs" "\<forall>l\<in>set batch. sl_Service l = service" by (cases l) fastforce+
  moreover have "said (stamp_log service st log) = said log" "sl_Service (stamp_log service st log) = service" for st
    by (simp_all add: stamp_log_def said_def)
  ultimately show ?case by (simp add: comp_def)
qed simp

text \<open>What a flush does to a writer without nil records.\<close>

lemma flush_ok:
  assumes "None \<notin> set (bufferedLogs w)"
  obtains batch where
    "flush stamps ok w = Ret (w\<lparr>bufferedLogs := [],
       w_written := (if ok \<and> bufferedLogs w \<noteq> [] then w_written w @ [batch] else w_written w)\<rparr>)"
    "map said batch = map (said \<circ> the) (bufferedLogs w)" "\<forall>l\<in>set batch. sl_Service l = serviceName w"
proof -
  obtain batch where b: "stamp_all (serviceName w) stamps 0 (bufferedLogs w) = Ret batch"
    "map said batch = map (said \<circ> the) (bufferedLogs w)" "\<forall>l\<in>set batch. sl_Service l = serviceName w"
    using stamp_all_Ret [OF assms] by blast
  show ?thesis
  proof (cases "bufferedLogs w = []")
    case True
    then have "flush stamps ok w = Ret (w\<lparr>bufferedLogs := [],
       w_written := (if ok \<and> bufferedLogs w \<noteq> [] then w_written w @ [batch] else w_written w)\<rparr>)"
      by (cases w) (simp add: flush_def)
    then show ?thesis using that b by blast
  next
    case False
    then have "flush stamps ok w = Ret (w\<lparr>bufferedLogs := [],
       w_written := (if ok \<and> bufferedLogs w \<noteq> [] then w_written w @ [batch] else w_written w)\<rparr>)"
      using b(1) by (simp add: flush_def)
    then show ?thesis using that b by blast
  qed
qed

text \<open>A step of a running writer: it does not panic and keeps the writer as it should be. \<open>grow\<close> says what
  it may add to the store.\<close>

definition grow :: "bool \<Rightarrow> Writer \<Rightarrow> Writer \<Rightarrow> bool" where
  "grow timed w w' \<longleftrightarrow> (w_written w' = w_written w
     \<or> (\<exists>b. w_written w' = w_written w @ [b] \<and> 1 \<le> length b \<and> (\<forall>l\<in>set b. sl_Service l = serviceName w)
          \<and> int (length b) \<le> maxCount w \<and> (\<not> timed \<longrightarrow> int (length b) = maxCount w)))"

definition keeps_logs :: "Writer \<Rightarrow> Writer \<Rightarrow> bool" where
  "keeps_logs w w' \<longleftrightarrow>
     map said (concat (w_written w')) @ map said (pending w') = map said (concat (w_written w)) @ map said (pending w)"

lemma listen_turn_ok:
  assumes w: "log_ok w" and t: "listen_turn r stamps ok w = Some m" and r: "r \<noteq> DoneReady"
  shows "\<exists>w'. m = Ret w' \<and> log_ok w' \<and> maxCount w' = maxCount w \<and> serviceName w' = serviceName w
    \<and> grow (r = TimerReady) w w' \<and> (ok \<longrightarrow> keeps_logs w w')
    \<and> w_timer w' = (if r = TimerReady then Some Spent else w_timer w) \<and> (r = TimerReady \<longrightarrow> w_timer w = Some Fired)"
proof -
  obtain q where q: "writeCh w = Some (q, False)" using w by (auto simp: log_ok_def)
  obtain tm where tm: "w_timer w = Some tm" using w by (auto simp: log_ok_def)
  have n: "None \<notin> set (bufferedLogs w)" "1 \<le> maxCount w" "int (length (bufferedLogs w)) < maxCount w"
    using w by (auto simp: log_ok_def)
  show ?thesis
  proof (cases r)
    case TimerReady
    define w1 where "w1 = w\<lparr>w_timer := Some Spent\<rparr>"
    have f: "tm = Fired" "m = flush stamps ok w1"
      using t tm TimerReady by (auto simp: w1_def listen_turn_def split: if_splits)
    have "None \<notin> set (bufferedLogs w1)" using n by (simp add: w1_def)
    then obtain batch where b: "m = Ret (w1\<lparr>bufferedLogs := [],
         w_written := (if ok \<and> bufferedLogs w1 \<noteq> [] then w_written w1 @ [batch] else w_written w1)\<rparr>)"
      "map said batch = map (said \<circ> the) (bufferedLogs w1)" "\<forall>l\<in>set batch. sl_Service l = serviceName w1"
      unfolding f(2) by (rule flush_ok)
    have l: "length batch = length (bufferedLogs w)" using arg_cong [OF b(2), of length] by (simp add: w1_def)
    show ?thesis using TimerReady b l q n tm f(1)
      by (auto simp: w1_def log_ok_def grow_def keeps_logs_def pending_def Suc_le_eq)
  next
    case LogReady
    obtain log q' where l: "q = log # q'" using t q tm LogReady by (cases q) (auto simp: listen_turn_def split: if_splits)
    define w1 where "w1 = w\<lparr>writeCh := Some (q', False), bufferedLogs := bufferedLogs w @ [Some log]\<rparr>"
    have m: "m = (if maxCount w1 \<le> int (length (bufferedLogs w1)) then flush stamps ok w1 else Ret w1)"
      using t q tm LogReady l by (auto simp: listen_turn_def w1_def Let_def split: if_splits)
    show ?thesis
    proof (cases "maxCount w1 \<le> int (length (bufferedLogs w1))")
      case False
      then show ?thesis using m LogReady q l n tm
        by (auto simp: w1_def log_ok_def grow_def keeps_logs_def pending_def)
    next
      case True
      have "None \<notin> set (bufferedLogs w1)" using n by (simp add: w1_def)
      then obtain batch where b: "m = Ret (w1\<lparr>bufferedLogs := [],
           w_written := (if ok \<and> bufferedLogs w1 \<noteq> [] then w_written w1 @ [batch] else w_written w1)\<rparr>)"
        "map said batch = map (said \<circ> the) (bufferedLogs w1)" "\<forall>l\<in>set batch. sl_Service l = serviceName w1"
        using True unfolding m by (auto elim: flush_ok [where stamps = stamps and ok = ok])
      have len: "length batch = Suc (length (bufferedLogs w))" using arg_cong [OF b(2), of length] by (simp add: w1_def)
      then have "int (length batch) = maxCount w" using True n(3) by (simp add: w1_def)
      then show ?thesis using b LogReady q l n tm len
        by (auto simp: w1_def log_ok_def grow_def keeps_logs_def pending_def)
    qed
  qed (use r in simp)
qed

lemma log_step_ok:
  assumes w: "log_ok w" and t: "log_step e w = Some m" and e: "\<And>st ok. e \<noteq> Turn DoneReady st ok"
  shows "\<exists>w'. m = Ret w' \<and> log_ok w' \<and> maxCount w' = maxCount w \<and> serviceName w' = serviceName w
    \<and> (w_timer w = Some Spent \<longrightarrow> w_timer w' = Some Spent \<and> grow False w w') \<and> grow True w w'
    \<and> ((\<forall>r st. e \<noteq> Turn r st False) \<longrightarrow>
        map said (concat (w_written w')) @ map said (pending w')
          = map said (concat (w_written w)) @ map said (pending w) @ map said (posts [e]))"
proof (cases e)
  case (Post log)
  then obtain q where "writeCh w = Some (q, False)" "m = Ret (w\<lparr>writeCh := Some (q @ [log], False)\<rparr>)"
    using w t by (auto simp: log_ok_def log_step_def post_def split: if_splits)
  then show ?thesis using w Post by (auto simp: log_ok_def grow_def pending_def)
next
  case (Turn r st ok)
  then obtain w' where W: "m = Ret w'" "log_ok w'" "maxCount w' = maxCount w" "serviceName w' = serviceName w"
      "grow (r = TimerReady) w w'" "ok \<longrightarrow> keeps_logs w w'"
      "w_timer w' = (if r = TimerReady then Some Spent else w_timer w)" "r = TimerReady \<longrightarrow> w_timer w = Some Fired"
    using listen_turn_ok [OF w, of r st ok m] t e by (auto simp: log_step_def)
  have "grow False w w'" if "w_timer w = Some Spent" using W(5,8) that by (cases "r = TimerReady") simp_all
  moreover have "grow True w w'" using W(5) by (auto simp: grow_def)
  ultimately show ?thesis using W Turn by (cases ok) (auto simp: keeps_logs_def)
next
  case Fire
  then have "m = Ret (timer_fires w)" using t by (simp add: log_step_def)
  then show ?thesis using w Fire by (auto simp: timer_fires_def log_ok_def grow_def pending_def)
qed

lemma log_run_ok:
  assumes "log_ok w" "log_run es w = Some m" "\<forall>e\<in>set es. \<forall>st ok. e \<noteq> Turn DoneReady st ok"
  shows "\<exists>w' bs. m = Ret w' \<and> log_ok w' \<and> maxCount w' = maxCount w \<and> serviceName w' = serviceName w
    \<and> w_written w' = w_written w @ bs
    \<and> (\<forall>b\<in>set bs. 1 \<le> length b \<and> int (length b) \<le> maxCount w \<and> (\<forall>l\<in>set b. sl_Service l = serviceName w)
        \<and> (w_timer w = Some Spent \<longrightarrow> int (length b) = maxCount w))
    \<and> ((\<forall>e\<in>set es. \<forall>r st. e \<noteq> Turn r st False) \<longrightarrow>
        map said (concat (w_written w')) @ map said (pending w')
          = map said (concat (w_written w)) @ map said (pending w) @ map said (posts es))"
  using assms
proof (induction es arbitrary: w)
  case (Cons e es)
  obtain m1 where m1: "log_step e w = Some m1" using Cons.prems(2) by (cases "log_step e w") auto
  have ne: "\<And>st ok. e \<noteq> Turn DoneReady st ok" using Cons.prems(3) by simp
  from log_step_ok [OF Cons.prems(1) m1 ne] obtain w1 where w1: "m1 = Ret w1" "log_ok w1" "maxCount w1 = maxCount w"
    "serviceName w1 = serviceName w" "w_timer w = Some Spent \<longrightarrow> w_timer w1 = Some Spent \<and> grow False w w1" "grow True w w1"
    "(\<forall>r st. e \<noteq> Turn r st False) \<longrightarrow>
        map said (concat (w_written w1)) @ map said (pending w1)
          = map said (concat (w_written w)) @ map said (pending w) @ map said (posts [e])"
    by blast
  have run: "log_run es w1 = Some m" using Cons.prems(2) m1 w1(1) by simp
  have es: "\<forall>e\<in>set es. \<forall>st ok. e \<noteq> Turn DoneReady st ok" using Cons.prems(3) by simp
  from Cons.IH [OF w1(2) run es, unfolded w1(3,4)] obtain w' bs where IH: "m = Ret w'" "log_ok w'" "maxCount w' = maxCount w"
    "serviceName w' = serviceName w" "w_written w' = w_written w1 @ bs"
    "\<forall>b\<in>set bs. 1 \<le> length b \<and> int (length b) \<le> maxCount w \<and> (\<forall>l\<in>set b. sl_Service l = serviceName w)
        \<and> (w_timer w1 = Some Spent \<longrightarrow> int (length b) = maxCount w)"
    "(\<forall>e\<in>set es. \<forall>r st. e \<noteq> Turn r st False) \<longrightarrow>
        map said (concat (w_written w')) @ map said (pending w')
          = map said (concat (w_written w1)) @ map said (pending w1) @ map said (posts es)"
    by blast
  obtain cs where cs: "w_written w1 = w_written w @ cs"
    "\<forall>b\<in>set cs. 1 \<le> length b \<and> int (length b) \<le> maxCount w \<and> (\<forall>l\<in>set b. sl_Service l = serviceName w)
        \<and> (w_timer w = Some Spent \<longrightarrow> int (length b) = maxCount w)"
  proof (cases "w_written w1 = w_written w")
    case True
    then show ?thesis using that [of "[]"] by simp
  next
    case False
    then obtain b where "w_written w1 = w_written w @ [b]" "1 \<le> length b" "\<forall>l\<in>set b. sl_Service l = serviceName w"
      "int (length b) \<le> maxCount w" "w_timer w = Some Spent \<longrightarrow> int (length b) = maxCount w"
      using w1(5,6) by (auto simp: grow_def)
    then show ?thesis using that [of "[b]"] by simp
  qed
  have p: "posts (e # es) = posts [e] @ posts es" by (cases e) simp_all
  have "map said (concat (w_written w')) @ map said (pending w')
          = map said (concat (w_written w)) @ map said (pending w) @ map said (posts (e # es))"
    if "\<forall>e\<in>set (e # es). \<forall>r st. e \<noteq> Turn r st False"
    unfolding p using that IH(7) w1(7) by simp
  then show ?case using IH cs w1(5) by (intro exI [of _ w'] exI [of _ "cs @ bs"]) auto
qed auto

lemma Writer_init_ok:
  "bufferedLogs w = [] \<Longrightarrow> log_ok (Writer_init w) \<and> pending (Writer_init w) = []
    \<and> w_written (Writer_init w) = w_written w"
  by (simp add: Writer_init_def log_ok_def pending_def Let_def)

definition writer_option :: "(Writer \<Rightarrow> Writer) \<Rightarrow> bool" where
  "writer_option opt \<longleftrightarrow> (\<exists>x. opt = WithInterval x \<or> opt = WithMaxCount x \<or> opt = WithBufferSize x)"

lemma writer_options_keep:
  "\<forall>opt\<in>set opts. writer_option opt \<Longrightarrow>
    bufferedLogs (fold (\<lambda>opt. opt) opts w) = bufferedLogs w \<and> w_written (fold (\<lambda>opt. opt) opts w) = w_written w"
  by (induction opts arbitrary: w) (auto simp: writer_option_def WithInterval_def WithMaxCount_def WithBufferSize_def)

lemma log_Start_ok:
  assumes "\<forall>opt\<in>set opts. writer_option opt" "log_Start service opts None = Ret w"
  shows "log_ok (listen_begin w)" "pending (listen_begin w) = []" "w_written (listen_begin w) = []"
proof -
  define w0 where "w0 = fold (\<lambda>opt. opt) opts \<lparr>interval = 1000000000, maxCount = 100, bufferSize = 0, writeCh = None, w_timer = None,
    w_cancel = False, serviceName = service, bufferedLogs = [], ctx_done = False, returned = False, w_written = []\<rparr>"
  have w: "w = Writer_init w0" using assms(2) by (simp add: log_Start_def w0_def)
  have "bufferedLogs w0 = []" "w_written w0 = []" using writer_options_keep [OF assms(1)] by (simp_all add: w0_def)
  from Writer_init_ok [OF this(1)] this(2)
  show "log_ok (listen_begin w)" "pending (listen_begin w) = []" "w_written (listen_begin w) = []"
    by (simp_all add: w listen_begin_def log_ok_def pending_def)
qed

text \<open>After \<open>release\<close> the timer is nil, which the next turn dereferences.\<close>

lemma release_ok:
  assumes "log_ok w" "w_cancel w"
  obtains w' where "release w = Ret w'" "w_timer w' = None" "returned w' = returned w" "w_written w' = w_written w"
  using assms by (auto simp: release_def release_ops_def log_ok_def)

section \<open>Properties\<close>



text \<open>The timer fires once: after its value was received, whatever else happens short of \<open>Stop\<close>, only
  batches of exactly \<open>maxCount\<close> records reach the store, so the last records before a pause stay
  unwritten however long it lasts.\<close>

theorem logging_timer_once:
  assumes "log_ok w" "w_timer w = Some Spent" "log_run es w = Some m" "\<forall>e\<in>set es. \<forall>st ok. e \<noteq> Turn DoneReady st ok"
  shows "\<exists>w' bs. m = Ret w' \<and> w_written w' = w_written w @ bs \<and> (\<forall>b\<in>set bs. int (length b) = maxCount w)"
  using log_run_ok [OF assms(1,3,4)] assms(2) by auto

lemma logging_timer_once_witness:
  "\<exists>m w' bs. log_run [Post (new_log InfoLevel ''a'' []), Turn LogReady (\<lambda>_. ([], 5)) True, Fire]
      \<lparr>interval = 1000000000, maxCount = 100, bufferSize = 10, writeCh = Some ([], False), w_timer = Some Spent,
        w_cancel = True, serviceName = ''app'', bufferedLogs = [], ctx_done = False, returned = False, w_written = []\<rparr> = Some m
     \<and> m = Ret w' \<and> w_written w' = [] @ bs \<and> (\<forall>b\<in>set bs. int (length b) = 100)"
proof -
  let ?w = "\<lparr>interval = 1000000000, maxCount = 100, bufferSize = 10, writeCh = Some ([], False), w_timer = Some Spent,
        w_cancel = True, serviceName = ''app'', bufferedLogs = [], ctx_done = False, returned = False, w_written = []\<rparr>"
  let ?es = "[Post (new_log InfoLevel ''a'' []), Turn LogReady (\<lambda>_. ([], 5)) True, Fire]"
  have "log_ok ?w" by (simp add: log_ok_def)
  moreover have "log_run ?es ?w \<noteq> None" by (simp add: log_step_def post_def listen_turn_def Let_def)
  then obtain m where m: "log_run ?es ?w = Some m" by auto
  ultimately have "\<exists>w' bs. m = Ret w' \<and> w_written w' = w_written ?w @ bs \<and> (\<forall>b\<in>set bs. int (length b) = maxCount ?w)"
    by (intro logging_timer_once [of ?w ?es]) simp_all
  with m show ?thesis by auto
qed

text \<open>\<open>Stop\<close> on a running writer writes nothing of what is buffered or queued, and any turn that the
  goroutine takes after it panics; a turn between the closing of the channel and the rest of \<open>Stop\<close>, with
  the channel empty, puts a nil record into the buffer, or panics when that completes a batch. The end
  of the context also leaves the buffered records unwritten.\<close>

theorem logging_stop:
  assumes "log_ok w" "w_cancel w" "\<not> returned w"
  shows "(\<exists>w'. release w = Ret w' \<and> w_written w' = w_written w
      \<and> (\<forall>r st ok. listen_turn r st ok w' = Some (Panic ''nil pointer dereference'')))
    \<and> (writeCh w = Some ([], False) \<and> release_step CloseCh w = Ret w1 \<and> listen_turn LogReady st ok w1 = Some m
        \<longrightarrow> m = Panic ''nil pointer dereference'' \<or> (\<exists>w2. m = Ret w2 \<and> None \<in> set (bufferedLogs w2)))
    \<and> (ctx_done w \<longrightarrow> (\<exists>w'. listen_turn DoneReady st ok w = Some (Ret w') \<and> w_written w' = w_written w \<and> returned w'))"
proof -
  obtain w' where "release w = Ret w'" "w_timer w' = None" "returned w' = returned w" "w_written w' = w_written w"
    by (rule release_ok [OF assms(1,2)])
  then have 1: "\<exists>w'. release w = Ret w' \<and> w_written w' = w_written w
      \<and> (\<forall>r st ok. listen_turn r st ok w' = Some (Panic ''nil pointer dereference''))"
    using assms(3) by (simp add: listen_turn_def)
  have nil: "None \<in> set logs \<Longrightarrow> stamp_all sv st i logs = Panic ''nil pointer dereference''" for sv st i logs
  proof (induction logs arbitrary: i)
    case (Cons l logs)
    then show ?case by (cases l) auto
  qed simp
  have 2: "m = Panic ''nil pointer dereference'' \<or> (\<exists>w2. m = Ret w2 \<and> None \<in> set (bufferedLogs w2))"
    if "writeCh w = Some ([], False)" "release_step CloseCh w = Ret w1" "listen_turn LogReady st ok w1 = Some m"
    using that assms(1,3) nil by (auto simp: listen_turn_def log_ok_def flush_def Let_def split: if_splits)
  have 3: "\<exists>w'. listen_turn DoneReady st ok w = Some (Ret w') \<and> w_written w' = w_written w \<and> returned w'" if "ctx_done w"
    using that assms(1,3) by (auto simp: listen_turn_def log_ok_def)
  show ?thesis using 1 2 3 by blast
qed

lemma logging_stop_witness:
  "\<exists>w'. release \<lparr>interval = 1000000000, maxCount = 100, bufferSize = 10, writeCh = Some ([new_log InfoLevel ''a'' []], False),
        w_timer = Some Spent, w_cancel = True, serviceName = ''app'', bufferedLogs = [], ctx_done = False, returned = False,
        w_written = []\<rparr> = Ret w' \<and> w_written w' = []"
proof -
  let ?w = "\<lparr>interval = 1000000000, maxCount = 100, bufferSize = 10, writeCh = Some ([new_log InfoLevel ''a'' []], False),
        w_timer = Some Spent, w_cancel = True, serviceName = ''app'', bufferedLogs = [], ctx_done = False, returned = False,
        w_written = []\<rparr>"
  have "log_ok ?w" by (simp add: log_ok_def)
  from logging_stop [OF this] show ?thesis by auto
qed

end
