(* ===== verification/Rmq.thy ===== *)
theory Rmq
  imports Prelude
begin

text \<open>
  \<open>pkg/rmq\<close>: queues and the client over the AMQP library. Go channels live in a heap that says which are
  closed and which were handed to the library with \<open>NotifyClose\<close> or \<open>NotifyPublish\<close>; the answers of the
  library's calls are arguments. What the library does when a connection or channel is lost is the
  function \<open>lost\<close>, of which \<open>amqp_closes\<close> states the documented part: the channels it was given are closed.
  Waiting and printing are left out.
\<close>

section \<open>Channels\<close>

record chans =
  ch_next :: nat
  ch_closed :: "nat set"
  ch_registered :: "nat set"

definition make_chan :: "chans \<Rightarrow> nat \<times> chans" where
  "make_chan h = (ch_next h, h\<lparr>ch_next := Suc (ch_next h)\<rparr>)"

definition close_chan :: "nat \<Rightarrow> chans \<Rightarrow> chans outcome" where
  "close_chan a h = (if a \<in> ch_closed h then Panic ''close of closed channel'' else Ret (h\<lparr>ch_closed := insert a (ch_closed h)\<rparr>))"

definition notify :: "nat \<Rightarrow> chans \<Rightarrow> chans" where
  "notify a h = h\<lparr>ch_registered := insert a (ch_registered h)\<rparr>"

definition amqp_closes :: "(chans \<Rightarrow> chans) \<Rightarrow> bool" where
  "amqp_closes lost \<longleftrightarrow> (\<forall>h. ch_registered h \<subseteq> ch_closed (lost h) \<and> ch_closed h \<subseteq> ch_closed (lost h) \<and> ch_next (lost h) = ch_next h)"

section \<open>Queues\<close>

datatype rmq_error = ConnectionIsNil | errNotConnected | AmqpErr string

record Queue =
  q_name :: string
  q_connection :: bool \<comment> \<open>not nil\<close>
  q_channel :: bool \<comment> \<open>not nil\<close>
  chNotifyClose :: nat
  chNotifyConfirm :: nat
  chReconnected :: nat
  q_connected :: bool
  cancelConsume :: bool \<comment> \<open>not nil\<close>
  cancelAutoReconnect :: bool

definition newQueue :: "string \<Rightarrow> chans \<Rightarrow> Queue \<times> chans" where
  "newQueue name h =
     (let (a, h) = make_chan h; (b, h) = make_chan h; (c, h) = make_chan h
      in (\<lparr>q_name = name, q_connection = False, q_channel = False, chNotifyClose = a, chNotifyConfirm = b, chReconnected = c,
           q_connected = False, cancelConsume = False, cancelAutoReconnect = False\<rparr>, h))"

text \<open>\<open>init\<close> with the errors of \<open>Channel\<close>, \<open>Confirm\<close> and \<open>QueueDeclare\<close>, if any.\<close>

definition Queue_init ::
    "string option \<Rightarrow> string option \<Rightarrow> string option \<Rightarrow> Queue \<times> chans \<Rightarrow> (rmq_error option \<times> Queue \<times> chans) outcome" where
  "Queue_init channelErr confirmErr declareErr qh =
     (case qh of (c, h) \<Rightarrow>
      if \<not> q_connection c then Ret (Some ConnectionIsNil, c, h)
      else
        (let c = c\<lparr>q_connected := False\<rparr> in
         bind_outcome (close_chan (chNotifyClose c) h) (\<lambda>h.
         bind_outcome (close_chan (chNotifyConfirm c) h) (\<lambda>h.
           (let (a, h) = make_chan h; (b, h) = make_chan h;
                c = c\<lparr>chNotifyClose := a, chNotifyConfirm := b\<rparr>
            in case channelErr of
                 Some err \<Rightarrow> Ret (Some (AmqpErr err), c, h)
               | None \<Rightarrow>
                   (case confirmErr of
                      Some err \<Rightarrow> Ret (Some (AmqpErr err), c, h)
                    | None \<Rightarrow>
                        (case declareErr of
                           Some err \<Rightarrow> Ret (Some (AmqpErr err), c, h)
                         | None \<Rightarrow>
                             (let h = notify (chNotifyClose c) h;
                                  h = notify (chNotifyConfirm c) h
                              in Ret (None, c\<lparr>q_channel := True, q_connected := True\<rparr>, h)))))))))"

text \<open>\<open>open\<close>; its call of \<open>autoReconnect\<close> replaces the goroutine that watches \<open>chNotifyClose\<close>.\<close>

definition Queue_open ::
    "bool \<Rightarrow> string option \<Rightarrow> string option \<Rightarrow> string option \<Rightarrow> Queue \<times> chans \<Rightarrow> (rmq_error option \<times> Queue \<times> chans) outcome" where
  "Queue_open connection channelErr confirmErr declareErr qh =
     (case qh of (c, h) \<Rightarrow>
      bind_outcome (Queue_init channelErr confirmErr declareErr (c\<lparr>q_connection := connection\<rparr>, h)) (\<lambda>(err, c, h).
        case err of
          Some e \<Rightarrow> Ret (Some e, c, h)
        | None \<Rightarrow> Ret (None, c\<lparr>cancelAutoReconnect := True\<rparr>, h)))"

text \<open>The branch of the reconnecting goroutine for a message (or the closing) of \<open>chNotifyClose\<close>: whether
  \<open>chReconnected\<close> was sent to.\<close>

definition reconnect_turn ::
    "string option \<Rightarrow> string option \<Rightarrow> string option \<Rightarrow> Queue \<times> chans \<Rightarrow> (bool \<times> Queue \<times> chans) outcome" where
  "reconnect_turn channelErr confirmErr declareErr qh =
     (case qh of (c, h) \<Rightarrow>
      bind_outcome (Queue_init channelErr confirmErr declareErr (c\<lparr>q_connected := False\<rparr>, h)) (\<lambda>(err, c, h).
        Ret (err = None, c, h)))"

definition Queue_close :: "string option \<Rightarrow> Queue \<times> chans \<Rightarrow> (rmq_error option \<times> Queue \<times> chans) outcome" where
  "Queue_close closeErr qh =
     (case qh of (c, h) \<Rightarrow>
      (let c = c\<lparr>q_connected := False\<rparr>;
           c = (if cancelConsume c then c\<lparr>cancelConsume := False\<rparr> else c);
           c = (if cancelAutoReconnect c then c\<lparr>cancelAutoReconnect := False\<rparr> else c)
       in bind_outcome (close_chan (chNotifyClose c) h) (\<lambda>h.
          bind_outcome (close_chan (chNotifyConfirm c) h) (\<lambda>h.
          bind_outcome (close_chan (chReconnected c) h) (\<lambda>h.
            if \<not> q_channel c then Panic ''nil pointer dereference''
            else case closeErr of
                   Some err \<Rightarrow> Ret (Some (AmqpErr err), c, h)
                 | None \<Rightarrow> Ret (None, c\<lparr>q_channel := False\<rparr>, h))))))"

section \<open>Publishing\<close>

record messageOption =
  msgID :: string
  msgType :: string
  userID :: string
  appID :: string
  retryTimes :: int

definition WithMsgID :: "string \<Rightarrow> messageOption \<Rightarrow> messageOption" where "WithMsgID x opt = opt\<lparr>msgID := x\<rparr>"
definition WithMsgType :: "string \<Rightarrow> messageOption \<Rightarrow> messageOption" where "WithMsgType x opt = opt\<lparr>msgType := x\<rparr>"
definition WithUserID :: "string \<Rightarrow> messageOption \<Rightarrow> messageOption" where "WithUserID x opt = opt\<lparr>userID := x\<rparr>"
definition WithAppID :: "string \<Rightarrow> messageOption \<Rightarrow> messageOption" where "WithAppID x opt = opt\<lparr>appID := x\<rparr>"
definition WithRetry :: "int \<Rightarrow> messageOption \<Rightarrow> messageOption" where
  "WithRetry n opt = opt\<lparr>retryTimes := (if n < 1 then 1 else n)\<rparr>"

text \<open>What an attempt meets: whether the queue is connected, the error of \<open>Publish\<close>, and the confirmation
  received (\<open>None\<close>: none ever comes). A receive from the closed channel gives one that is not an
  acknowledgement.\<close>

record attempt =
  at_connected :: bool
  at_publish :: "string option"
  at_ack :: "bool option"

definition internalPush :: "attempt \<Rightarrow> rmq_error option" where
  "internalPush a = (if \<not> at_connected a then Some errNotConnected else map_option AmqpErr (at_publish a))"

text \<open>The loop of \<open>Push\<close> with the error of the last attempt so far; the result counts the publishings, and
  is \<open>None\<close> when the loop waits for ever.\<close>

fun push_attempts :: "(nat \<Rightarrow> attempt) \<Rightarrow> nat \<Rightarrow> nat \<Rightarrow> rmq_error option \<Rightarrow> nat \<Rightarrow> (rmq_error option \<times> nat) option" where
  "push_attempts at 0 i err sent = Some (err, sent)"
| "push_attempts at (Suc n) i err sent =
     (case internalPush (at i) of
        Some e \<Rightarrow> push_attempts at n (Suc i) (Some e) sent
      | None \<Rightarrow>
          (case at_ack (at i) of
             None \<Rightarrow> None
           | Some True \<Rightarrow> Some (None, Suc sent)
           | Some False \<Rightarrow> push_attempts at n (Suc i) None (Suc sent)))"

definition push_option :: "(messageOption \<Rightarrow> messageOption) list \<Rightarrow> string \<Rightarrow> messageOption" where
  "push_option options uuid =
     (let opt = fold (\<lambda>f. f) options \<lparr>msgID = [], msgType = [], userID = [], appID = [], retryTimes = 0\<rparr>;
          opt = (if length (msgID opt) = 0 then opt\<lparr>msgID := uuid\<rparr> else opt)
      in if retryTimes opt < 1 then opt\<lparr>retryTimes := 1\<rparr> else opt)"

definition Push :: "(nat \<Rightarrow> attempt) \<Rightarrow> string \<Rightarrow> (messageOption \<Rightarrow> messageOption) list \<Rightarrow> (rmq_error option \<times> nat) option" where
  "Push at uuid options = push_attempts at (nat (retryTimes (push_option options uuid))) 0 None 0"

section \<open>Consuming\<close>

text \<open>\<open>Consume\<close> with the errors of \<open>Qos\<close> and of the library's \<open>Consume\<close>: the prefetch count it sets.\<close>

definition Queue_Consume :: "int \<Rightarrow> string option \<Rightarrow> string option \<Rightarrow> Queue \<Rightarrow> (rmq_error + int) \<times> Queue" where
  "Queue_Consume prefetchCount qosErr consumeErr c =
     (if \<not> q_connected c then (Inl errNotConnected, c)
      else
        (let prefetchCount = (if prefetchCount < 1 then 1 else prefetchCount) in
         case qosErr of
           Some err \<Rightarrow> (Inl (AmqpErr err), c)
         | None \<Rightarrow>
             (case consumeErr of
                Some err \<Rightarrow> (Inl (AmqpErr err), c)
              | None \<Rightarrow> (Inr prefetchCount, c\<lparr>cancelConsume := True\<rparr>))))"

text \<open>The consuming goroutine: \<open>del\<close> is the library's channel of deliveries, \<open>None\<close> a nil channel.
  A receive from a closed channel gives the zero delivery, which \<open>None\<close> stands for in what is passed on.\<close>

record 'd consumer =
  cs_del :: "('d list \<times> bool) option"
  cs_out :: "'d option list"
  cs_outClosed :: bool

datatype consume_ready = CtxDone | Delivery | Reconnected

text \<open>The loop over five attempts to consume again: the results of the library's calls.\<close>

fun consume_again :: "nat \<Rightarrow> (nat \<Rightarrow> ('d list \<times> bool) option) \<Rightarrow> nat \<Rightarrow> ('d list \<times> bool) option \<Rightarrow> ('d list \<times> bool) option" where
  "consume_again 0 again i del = del"
| "consume_again (Suc n) again i del =
     (case again i of Some d \<Rightarrow> Some d | None \<Rightarrow> consume_again n again (Suc i) None)"

definition consume_turn ::
    "consume_ready \<Rightarrow> bool \<Rightarrow> (nat \<Rightarrow> ('d list \<times> bool) option) \<Rightarrow> 'd consumer \<Rightarrow> (bool \<times> 'd consumer) option" where
  "consume_turn ready cancelled again s =
     (case ready of
        CtxDone \<Rightarrow> if cancelled then Some (False, s\<lparr>cs_outClosed := True\<rparr>) else None
      | Delivery \<Rightarrow>
          (case cs_del s of
             None \<Rightarrow> None
           | Some (d # q, closed) \<Rightarrow> Some (True, s\<lparr>cs_del := Some (q, closed), cs_out := cs_out s @ [Some d]\<rparr>)
           | Some ([], closed) \<Rightarrow> if closed then Some (True, s\<lparr>cs_out := cs_out s @ [None]\<rparr>) else None)
      | Reconnected \<Rightarrow> Some (True, s\<lparr>cs_del := consume_again 5 again 0 (cs_del s)\<rparr>))"

section \<open>The client\<close>

text \<open>\<open>queues\<close> is a map of pointers: the entry of a name is the queue's state. \<open>cl_watching\<close>: the goroutine
  of \<open>autoReconnect\<close> runs.\<close>

record Client =
  cl_connection :: bool
  chNotifyConnClose :: nat
  chCloseNormal :: nat
  cl_queues :: "(string \<times> Queue) list"
  cl_watching :: bool

definition NewClient :: "chans \<Rightarrow> Client \<times> chans" where
  "NewClient h =
     (let (a, h) = make_chan h; (b, h) = make_chan h
      in (\<lparr>cl_connection = False, chNotifyConnClose = a, chCloseNormal = b, cl_queues = [], cl_watching = False\<rparr>, h))"

text \<open>The loop over the queues in \<open>init\<close>: errors of \<open>open\<close> are ignored.\<close>

fun open_all ::
    "(string \<Rightarrow> string option \<times> string option \<times> string option) \<Rightarrow> (string \<times> Queue) list \<Rightarrow> chans
       \<Rightarrow> ((string \<times> Queue) list \<times> chans) outcome" where
  "open_all errs [] h = Ret ([], h)"
| "open_all errs ((name, queue) # queues) h =
     (case errs name of (e1, e2, e3) \<Rightarrow>
      bind_outcome (Queue_open True e1 e2 e3 (queue, h)) (\<lambda>(_, queue, h).
      bind_outcome (open_all errs queues h) (\<lambda>(queues, h). Ret ((name, queue) # queues, h))))"

definition Client_init ::
    "string option \<Rightarrow> (string \<Rightarrow> string option \<times> string option \<times> string option) \<Rightarrow> Client \<times> chans
       \<Rightarrow> (rmq_error option \<times> Client \<times> chans) outcome" where
  "Client_init dialErr errs ch =
     (case ch of (c, h) \<Rightarrow>
      (let c = c\<lparr>cl_connection := False\<rparr> in
       bind_outcome (close_chan (chNotifyConnClose c) h) (\<lambda>h.
         (let (a, h) = make_chan h;
              c = c\<lparr>chNotifyConnClose := a\<rparr>
          in case dialErr of
               Some err \<Rightarrow> Ret (Some (AmqpErr err), c, h)
             | None \<Rightarrow>
                 (let h = notify (chNotifyConnClose c) h;
                      c = c\<lparr>cl_connection := True\<rparr>
                  in bind_outcome (open_all errs (cl_queues c) h) (\<lambda>(queues, h).
                       Ret (None, c\<lparr>cl_queues := queues\<rparr>, h)))))))"

definition Connect ::
    "string option \<Rightarrow> (string \<Rightarrow> string option \<times> string option \<times> string option) \<Rightarrow> Client \<times> chans
       \<Rightarrow> (rmq_error option \<times> Client \<times> chans) outcome" where
  "Connect dialErr errs ch =
     (case ch of (c, h) \<Rightarrow>
      if cl_connection c then Ret (None, c, h)
      else bind_outcome (Client_init dialErr errs (c, h)) (\<lambda>(err, c, h).
             case err of Some e \<Rightarrow> Ret (Some e, c, h) | None \<Rightarrow> Ret (None, c\<lparr>cl_watching := True\<rparr>, h)))"

definition NewQueue ::
    "string option \<Rightarrow> string option \<Rightarrow> string option \<Rightarrow> string \<Rightarrow> Client \<times> chans
       \<Rightarrow> ((Queue \<times> rmq_error option) \<times> Client \<times> chans) outcome" where
  "NewQueue e1 e2 e3 name ch =
     (case ch of (c, h) \<Rightarrow>
      (case map_of (cl_queues c) name of
         Some q \<Rightarrow> Ret ((q, None), c, h)
       | None \<Rightarrow>
           (let (queue, h) = newQueue name h in
            bind_outcome (Queue_open (cl_connection c) e1 e2 e3 (queue, h)) (\<lambda>(err, queue, h).
              Ret ((queue, err), c\<lparr>cl_queues := (name, queue) # cl_queues c\<rparr>, h)))))"

definition CloseQueue :: "string option \<Rightarrow> string \<Rightarrow> Client \<times> chans \<Rightarrow> (Client \<times> chans) outcome" where
  "CloseQueue closeErr name ch =
     (case ch of (c, h) \<Rightarrow>
      (case map_of (cl_queues c) name of
         None \<Rightarrow> Ret (c, h)
       | Some queue \<Rightarrow>
           bind_outcome (Queue_close closeErr (queue, h)) (\<lambda>(_, _, h).
             Ret (c\<lparr>cl_queues := filter (\<lambda>e. fst e \<noteq> name) (cl_queues c)\<rparr>, h))))"

fun close_all :: "(string \<Rightarrow> string option) \<Rightarrow> (string \<times> Queue) list \<Rightarrow> chans \<Rightarrow> chans outcome" where
  "close_all errs [] h = Ret h"
| "close_all errs ((name, queue) # queues) h =
     bind_outcome (Queue_close (errs name) (queue, h)) (\<lambda>(_, _, h). close_all errs queues h)"

text \<open>\<open>Close\<close> sends on the unbuffered \<open>chCloseNormal\<close>, which only the goroutine of \<open>autoReconnect\<close> receives
  from: \<open>None\<close> is a \<open>Close\<close> that does not return.\<close>

definition Client_Close ::
    "(string \<Rightarrow> string option) \<Rightarrow> string option \<Rightarrow> Client \<times> chans \<Rightarrow> (rmq_error option \<times> Client \<times> chans) outcome option" where
  "Client_Close errs closeErr ch =
     (case ch of (c, h) \<Rightarrow>
      if \<not> cl_watching c then None
      else Some
        (let c = c\<lparr>cl_watching := False\<rparr> in
         bind_outcome (close_chan (chCloseNormal c) h) (\<lambda>h.
         bind_outcome (close_chan (chNotifyConnClose c) h) (\<lambda>h.
         bind_outcome (close_all errs (cl_queues c) h) (\<lambda>h.
           if \<not> cl_connection c then Panic ''nil pointer dereference''
           else Ret (map_option AmqpErr closeErr, c\<lparr>cl_queues := []\<rparr>, h))))))"

section \<open>Lemmas\<close>

definition heap_ok :: "chans \<Rightarrow> bool" where
  "heap_ok h \<longleftrightarrow> (\<forall>a \<in> ch_closed h \<union> ch_registered h. a < ch_next h)"

lemmas chan_defs = make_chan_def close_chan_def notify_def

text \<open>The only panics of \<open>init\<close> are those of closing its two channels again.\<close>

lemma Queue_init_panics:
  assumes "q_connection c" "chNotifyClose c \<noteq> chNotifyConfirm c"
  shows "(\<exists>m. Queue_init e1 e2 e3 (c, h) = Panic m) \<longleftrightarrow> chNotifyClose c \<in> ch_closed h \<or> chNotifyConfirm c \<in> ch_closed h"
  using assms by (auto simp: Queue_init_def chan_defs Let_def split: option.splits)

lemma open_fresh:
  assumes "heap_ok h" "newQueue name h = (q, h0)" "Queue_open True e1 e2 e3 (q, h0) = Ret (err, c, h1)"
  shows "q_connected c \<longleftrightarrow> err = None" "err = None \<longleftrightarrow> e1 = None \<and> e2 = None \<and> e3 = None" "q_name c = name"
    and "q_connection c" "chNotifyClose c \<noteq> chNotifyConfirm c" "err \<noteq> None \<Longrightarrow> \<not> q_channel c"
    and "err = None \<Longrightarrow> chNotifyClose c \<in> ch_registered h1 \<and> chNotifyConfirm c \<in> ch_registered h1"
    and "chNotifyClose c \<notin> ch_closed h1 \<and> chNotifyConfirm c \<notin> ch_closed h1"
proof -
  have n: "a < ch_next h" if "a \<in> ch_closed h" for a using assms(1) that by (simp add: heap_ok_def)
  have f: "ch_next h \<notin> ch_closed h" "Suc (ch_next h) \<notin> ch_closed h" "Suc (Suc (Suc (ch_next h))) \<notin> ch_closed h"
    "Suc (Suc (Suc (Suc (ch_next h)))) \<notin> ch_closed h" using n by (meson not_less_eq less_SucI less_irrefl)+
  show "q_connected c \<longleftrightarrow> err = None" "err = None \<longleftrightarrow> e1 = None \<and> e2 = None \<and> e3 = None" "q_name c = name"
    "q_connection c" "chNotifyClose c \<noteq> chNotifyConfirm c" "err \<noteq> None \<Longrightarrow> \<not> q_channel c"
    "err = None \<Longrightarrow> chNotifyClose c \<in> ch_registered h1 \<and> chNotifyConfirm c \<in> ch_registered h1"
    "chNotifyClose c \<notin> ch_closed h1 \<and> chNotifyConfirm c \<notin> ch_closed h1"
    using assms(2,3) f
    by (auto simp: newQueue_def Queue_open_def Queue_init_def chan_defs Let_def split: option.splits if_splits)
qed

lemma reconnect_after_loss:
  assumes "amqp_closes lost" "q_connection c" "chNotifyClose c \<in> ch_registered h"
  shows "reconnect_turn e1 e2 e3 (c, lost h) = Panic ''close of closed channel''"
proof -
  have "chNotifyClose c \<in> ch_closed (lost h)" using assms(1,3) by (auto simp: amqp_closes_def)
  then show ?thesis using assms(2) by (simp add: reconnect_turn_def Queue_init_def close_chan_def Let_def)
qed

lemma init_client_registered:
  assumes "cl_queues c = []" "Client_init None errs (c, h) = Ret (err, c', h')"
  shows "err = None \<and> chNotifyConnClose c' \<in> ch_registered h' \<and> cl_queues c' = []"
  using assms by (auto simp: Client_init_def chan_defs Let_def split: if_splits)

definition published :: "(nat \<Rightarrow> attempt) \<Rightarrow> nat \<Rightarrow> bool" where "published at i \<longleftrightarrow> internalPush (at i) = None"
definition acked :: "(nat \<Rightarrow> attempt) \<Rightarrow> nat \<Rightarrow> bool" where "acked at i \<longleftrightarrow> published at i \<and> at_ack (at i) = Some True"

text \<open>The attempts that a loop from \<open>i\<close> makes: up to the first acknowledged one.\<close>

definition tried :: "(nat \<Rightarrow> attempt) \<Rightarrow> nat \<Rightarrow> nat \<Rightarrow> nat set" where
  "tried at i n = {j. i \<le> j \<and> j < i + n \<and> (\<forall>k. i \<le> k \<and> k < j \<longrightarrow> \<not> acked at k)}"

lemma tried_Suc:
  "tried at i (Suc n) = insert i (if acked at i then {} else tried at (Suc i) n)"
  by (auto simp: tried_def Suc_le_eq order_le_less) (metis Suc_leI le_neq_implies_less)+

lemma tried_finite [simp]: "finite (tried at i n)"
  by (rule finite_subset [of _ "{i..<i + n}"]) (auto simp: tried_def)

lemma push_attempts_result:
  "push_attempts at n i err sent =
     (if \<exists>j\<in>tried at i n. published at j \<and> at_ack (at j) = None then None
      else Some (if n = 0 then err
                 else if (\<exists>j. i \<le> j \<and> j < i + n \<and> acked at j) then None else internalPush (at (i + n - 1)),
             sent + card {j \<in> tried at i n. published at j}))"
proof (induction n arbitrary: i err sent)
  case 0
  then show ?case by (simp add: tried_def)
next
  case (Suc n)
  have split: "(\<exists>j. i \<le> j \<and> j < i + Suc n \<and> acked at j) \<longleftrightarrow> acked at i \<or> (\<exists>j. Suc i \<le> j \<and> j < Suc i + n \<and> acked at j)"
  proof -
    have "(i \<le> j \<and> j < i + Suc n \<and> acked at j) = (j = i \<and> acked at i \<or> Suc i \<le> j \<and> j < Suc i + n \<and> acked at j)" for j
      by (cases "j = i") auto
    then show ?thesis by (simp only: ex_disj_distrib) simp
  qed
  have i: "i \<notin> tried at (Suc i) n" by (simp add: tried_def)
  have c: "{j \<in> tried at i (Suc n). published at j} =
    (if published at i then insert i (if acked at i then {} else {j \<in> tried at (Suc i) n. published at j})
     else {j \<in> tried at (Suc i) n. published at j})"
    unfolding tried_Suc by (auto simp: acked_def)
  let ?E = "\<exists>j. Suc i \<le> j \<and> j < Suc i + n \<and> acked at j"
  have last: "(if n = 0 then internalPush (at i) else if ?E then None else internalPush (at (Suc i + n - 1)))
      = (if ?E then None else internalPush (at (i + Suc n - 1)))" by (cases n) auto
  show ?case
  proof (cases "internalPush (at i)")
    case (Some e)
    then have p: "\<not> published at i" "\<not> acked at i" by (simp_all add: published_def acked_def)
    have "push_attempts at (Suc n) i err sent = push_attempts at n (Suc i) (internalPush (at i)) sent" using Some by simp
    then have e: "push_attempts at (Suc n) i err sent = (if \<exists>j\<in>tried at (Suc i) n. published at j \<and> at_ack (at j) = None then None
        else Some (if ?E then None else internalPush (at (i + Suc n - 1)), sent + card {j \<in> tried at (Suc i) n. published at j}))"
      unfolding Suc.IH last .
    show ?thesis unfolding split c e unfolding tried_Suc using p by simp
  next
    case None
    then have p: "published at i" by (simp add: published_def)
    show ?thesis
    proof (cases "at_ack (at i)")
      case n: None
      then show ?thesis using None p by (auto simp: tried_Suc)
    next
      case (Some b)
      show ?thesis
      proof (cases b)
        case True
        then have k: "acked at i" using Some p by (simp add: acked_def)
        then show ?thesis unfolding split c unfolding tried_Suc using None Some True p by simp
      next
        case False
        then have k: "\<not> acked at i" using Some by (simp add: acked_def)
        have "push_attempts at (Suc n) i err sent = push_attempts at n (Suc i) (internalPush (at i)) (Suc sent)"
          using None Some False by simp
        then have e: "push_attempts at (Suc n) i err sent = (if \<exists>j\<in>tried at (Suc i) n. published at j \<and> at_ack (at j) = None then None
            else Some (if ?E then None else internalPush (at (i + Suc n - 1)), Suc sent + card {j \<in> tried at (Suc i) n. published at j}))"
          unfolding Suc.IH last .
        show ?thesis unfolding split c e unfolding tried_Suc using p k Some i by simp
      qed
    qed
  qed
qed

section \<open>Properties\<close>

text \<open>C28. Reconnecting always panics, at both levels. The library has closed the notification channels by the
  time the goroutines run \<open>init\<close>, which closes them again: for an opened queue whose AMQP channel was
  lost, and for a connected client whose connection was lost, whatever the server answers then.\<close>

theorem rmq_reconnect_panics:
  assumes "amqp_closes lost" "heap_ok h"
    and "newQueue name h = (q, h0)" "Queue_open True None None None (q, h0) = Ret (err, c, h1)"
    and "NewClient h = (cl, k0)" "Connect None errs (cl, k0) = Ret (err', cl', k1)"
  shows "q_connected c \<and> reconnect_turn e1 e2 e3 (c, lost h1) = Panic ''close of closed channel''
    \<and> cl_connection cl' \<and> Client_init e errs' (cl', lost k1) = Panic ''close of closed channel''"
proof -
  note O = open_fresh [OF assms(2-4)]
  have q: "cl_queues cl = []" "\<not> cl_connection cl" using assms(5) by (auto simp: NewClient_def Let_def split: prod.splits)
  then obtain c' where i: "Client_init None errs (cl, k0) = Ret (None, c', k1)" "cl' = c'\<lparr>cl_watching := True\<rparr>"
    using assms(6) init_client_registered [OF q(1), of errs k0]
    by (cases "Client_init None errs (cl, k0)") (auto simp: Connect_def split: option.splits)
  have "chNotifyConnClose cl' \<in> ch_registered k1" using init_client_registered [OF q(1) i(1)] i(2) by simp
  then have "chNotifyConnClose cl' \<in> ch_closed (lost k1)" using assms(1) by (auto simp: amqp_closes_def)
  then have "Client_init e errs' (cl', lost k1) = Panic ''close of closed channel''"
    by (simp add: Client_init_def close_chan_def Let_def)
  moreover have "cl_connection cl'" using i by (auto simp: Client_init_def bind_outcome_Ret_iff chan_defs Let_def)
  ultimately show ?thesis using O reconnect_after_loss [OF assms(1) O(4)] by simp
qed

lemma rmq_reconnect_panics_witness:
  "\<exists>c h1. Queue_open True None None None (newQueue ''jobs'' \<lparr>ch_next = 0, ch_closed = {}, ch_registered = {}\<rparr>) = Ret (None, c, h1)
     \<and> reconnect_turn None None None (c, h1\<lparr>ch_closed := ch_closed h1 \<union> ch_registered h1\<rparr>) = Panic ''close of closed channel''"
proof -
  let ?h = "\<lparr>ch_next = 0, ch_closed = {}, ch_registered = {}\<rparr>"
  let ?lost = "\<lambda>h. h\<lparr>ch_closed := ch_closed h \<union> ch_registered h\<rparr>"
  obtain q h0 where q: "newQueue ''jobs'' ?h = (q, h0)" by (cases "newQueue ''jobs'' ?h")
  obtain cl k0 where k: "NewClient ?h = (cl, k0)" by (cases "NewClient ?h")
  have "Queue_open True None None None (q, h0) \<noteq> Panic m" for m
    using q by (auto simp: newQueue_def Queue_open_def Queue_init_def chan_defs Let_def)
  then obtain err c h1 where o: "Queue_open True None None None (q, h0) = Ret (err, c, h1)"
    by (cases "Queue_open True None None None (q, h0)") auto
  have "Connect None (\<lambda>_. (None, None, None)) (cl, k0) \<noteq> Panic m" for m
    using k by (auto simp: NewClient_def Connect_def Client_init_def chan_defs Let_def)
  then obtain err' cl' k1 where n: "Connect None (\<lambda>_. (None, None, None)) (cl, k0) = Ret (err', cl', k1)"
    by (cases "Connect None (\<lambda>_. (None, None, None)) (cl, k0)") auto
  have "amqp_closes ?lost" "heap_ok ?h" by (simp_all add: amqp_closes_def heap_ok_def)
  from rmq_reconnect_panics [OF this q o k n, of None None None] open_fresh(1,2) [OF this(2) q o] show ?thesis
    using o by (auto simp: q)
qed

text \<open>C27. What \<open>Push\<close> reports. It waits for ever exactly when an attempt before the first acknowledged one was
  published and gets no confirmation. Otherwise it returns nil exactly when an attempt was
  acknowledged or the last one was published, so also when the server refused every attempt; and the
  message is sent once for every attempt made that could be published.\<close>

theorem push_reports:
  assumes "n = nat (retryTimes (push_option options uuid))"
  shows "1 \<le> n \<and> Push at uuid options =
    (if \<exists>i\<in>tried at 0 n. published at i \<and> at_ack (at i) = None then None
     else Some (if (\<exists>i<n. acked at i) \<or> published at (n - 1) then None else internalPush (at (n - 1)),
            card {i \<in> tried at 0 n. published at i}))"
proof -
  have "1 \<le> retryTimes (push_option options uuid)" by (simp add: push_option_def Let_def)
  then have n: "1 \<le> n" unfolding assms by linarith
  then show ?thesis
    using push_attempts_result [of at n 0 None 0] unfolding Push_def assms [symmetric] by (auto simp: published_def)
qed

lemma push_reports_witness:
  "Push (\<lambda>_. \<lparr>at_connected = True, at_publish = None, at_ack = Some False\<rparr>) ''u'' [WithRetry 2] = Some (None, 2)"
proof -
  let ?at = "\<lambda>_ :: nat. \<lparr>at_connected = True, at_publish = None, at_ack = Some False\<rparr>"
  have n: "2 = nat (retryTimes (push_option [WithRetry 2] ''u''))" by (simp add: push_option_def WithRetry_def)
  have a: "\<not> acked ?at i" "published ?at i" for i by (simp_all add: acked_def published_def internalPush_def)
  have "tried ?at 0 2 = {0, 1}" using a by (auto simp: tried_def)
  then have "card {i \<in> tried ?at 0 2. published ?at i} = card {0, 1 :: nat}" using a by (intro arg_cong [where f = card]) auto
  then show ?thesis using push_reports [OF n, of ?at] a by (simp add: acked_def)
qed

text \<open>A queue whose opening failed stays in the client: asking for it again returns it without an error
  although it is not connected, so that consuming and pushing fail, and closing it panics.\<close>

theorem rmq_failed_queue:
  assumes "heap_ok h" "map_of (cl_queues c) name = None"
    and "NewQueue e1 e2 e3 name (c, h) = Ret ((q, Some err), c', h')"
  shows "NewQueue e1' e2' e3' name (c', h') = Ret ((q, None), c', h') \<and> \<not> q_connected q
    \<and> fst (Queue_Consume k qosErr consumeErr q) = Inl errNotConnected
    \<and> (\<exists>m. CloseQueue closeErr name (c', h') = Panic m)"
proof -
  obtain q0 h0 where q0: "newQueue name h = (q0, h0)" by (cases "newQueue name h")
  obtain h1 where o: "Queue_open (cl_connection c) e1 e2 e3 (q0, h0) = Ret (Some err, q, h1)"
    and c': "c' = c\<lparr>cl_queues := (name, q) # cl_queues c\<rparr>"
    using assms(2,3) q0 by (auto simp: NewQueue_def bind_outcome_Ret_iff)
  have q: "\<not> q_connected q" "\<not> q_channel q"
  proof (atomize (full), cases "cl_connection c")
    case True
    then show "\<not> q_connected q \<and> \<not> q_channel q" using open_fresh(1,6) [OF assms(1) q0] o by auto
  next
    case False
    then show "\<not> q_connected q \<and> \<not> q_channel q" using o q0
      by (auto simp: newQueue_def Queue_open_def Queue_init_def make_chan_def)
  qed
  have "\<exists>m. Queue_close closeErr (q, h') = Panic m"
    using q(2) by (auto simp: Queue_close_def Let_def close_chan_def)
  then show ?thesis using q(1) by (auto simp: NewQueue_def CloseQueue_def c' Queue_Consume_def)
qed

lemma rmq_failed_queue_witness:
  "\<exists>q c' h'. NewQueue (Some ''refused'') None None ''jobs''
      (\<lparr>cl_connection = True, chNotifyConnClose = 0, chCloseNormal = 1, cl_queues = [], cl_watching = True\<rparr>,
       \<lparr>ch_next = 2, ch_closed = {}, ch_registered = {}\<rparr>) = Ret ((q, Some (AmqpErr ''refused'')), c', h')
     \<and> NewQueue None None None ''jobs'' (c', h') = Ret ((q, None), c', h')"
proof -
  let ?c = "\<lparr>cl_connection = True, chNotifyConnClose = 0, chCloseNormal = 1, cl_queues = [], cl_watching = True\<rparr>"
  let ?h = "\<lparr>ch_next = 2, ch_closed = {}, ch_registered = {}\<rparr>"
  obtain q c' h' where n: "NewQueue (Some ''refused'') None None ''jobs'' (?c, ?h) = Ret ((q, Some (AmqpErr ''refused'')), c', h')"
    by (simp add: NewQueue_def newQueue_def Queue_open_def Queue_init_def chan_defs Let_def)
  have "heap_ok ?h" by (simp add: heap_ok_def)
  from rmq_failed_queue [OF this _ n, of None None None] n show ?thesis by auto
qed

text \<open>A consumer whose channel of deliveries was closed passes on a zero delivery at every turn.\<close>

lemma consume_closed_spins:
  "cs_del s = Some ([], True) \<Longrightarrow>
    \<exists>s'. consume_turn Delivery cancelled again s = Some (True, s') \<and> cs_out s' = cs_out s @ [None] \<and> cs_del s' = Some ([], True)"
  by (simp add: consume_turn_def)

text \<open>\<open>Close\<close> of a client that was never connected does not return.\<close>

lemma close_unconnected: "NewClient h = (c, h') \<Longrightarrow> Client_Close errs closeErr (c, h') = None"
  by (auto simp: NewClient_def Client_Close_def Let_def split: prod.splits)

section \<open>The watching goroutines\<close>

text \<open>What the \<open>select\<close> of a watching goroutine finds ready: the cancelled context (for the client, \<open>chCloseNormal\<close>), or the
  channel given to \<open>NotifyClose\<close>. The results say whether the goroutine goes on and, for a queue, whether it sends on
  \<open>chReconnected\<close>.\<close>

datatype watch_ready = Cancelled | Notified

definition queue_watch ::
    "watch_ready \<Rightarrow> string option \<Rightarrow> string option \<Rightarrow> string option \<Rightarrow> Queue \<times> chans \<Rightarrow> (bool \<times> bool \<times> Queue \<times> chans) outcome" where
  "queue_watch ready channelErr confirmErr declareErr qh =
     (case ready of
        Cancelled \<Rightarrow> Ret (False, False, qh)
      | Notified \<Rightarrow>
          bind_outcome (reconnect_turn channelErr confirmErr declareErr qh) (\<lambda>(reconnected, c, h). Ret (True, reconnected, c, h)))"

definition client_watch ::
    "watch_ready \<Rightarrow> string option \<Rightarrow> (string \<Rightarrow> string option \<times> string option \<times> string option) \<Rightarrow> Client \<times> chans
       \<Rightarrow> (bool \<times> Client \<times> chans) outcome" where
  "client_watch ready dialErr errs ch =
     (case ready of
        Cancelled \<Rightarrow> Ret (False, ch)
      | Notified \<Rightarrow> bind_outcome (Client_init dialErr errs ch) (\<lambda>(err, c, h). Ret (True, c, h)))"

text \<open>Even where \<open>init\<close> does not panic, a reconnection that fails is the last one: the goroutine goes on, but the channel it
  then waits on is new, was given to nobody and is not closed, so nothing makes its branch ready again.\<close>

definition never_notified :: "nat \<Rightarrow> chans \<Rightarrow> bool" where
  "never_notified a h \<longleftrightarrow> a \<notin> ch_registered h \<and> a \<notin> ch_closed h"

lemma failed_redial_is_last:
  assumes "heap_ok h" "chNotifyConnClose c < ch_next h" "client_watch Notified (Some err) errs (c, h) = Ret (goes_on, c', h')"
  shows "goes_on \<and> \<not> cl_connection c' \<and> never_notified (chNotifyConnClose c') h'"
proof -
  have n: "ch_next h \<notin> ch_registered h \<and> ch_next h \<notin> ch_closed h" using assms(1) by (auto simp: heap_ok_def)
  show ?thesis
    using assms(2,3) n by (auto simp: client_watch_def Client_init_def chan_defs Let_def never_notified_def split: if_splits)
qed

lemma failed_reopen_is_last:
  assumes "heap_ok h" "q_connection c" "chNotifyClose c < ch_next h" "chNotifyConfirm c < ch_next h"
    and "queue_watch Notified e1 e2 e3 (c, h) = Ret (goes_on, False, c', h')"
  shows "goes_on \<and> \<not> q_connected c' \<and> never_notified (chNotifyClose c') h'"
proof -
  have n: "ch_next h \<notin> ch_registered h \<and> ch_next h \<notin> ch_closed h" using assms(1) by (auto simp: heap_ok_def)
  show ?thesis
    using assms(2-5) n
    by (auto simp: queue_watch_def reconnect_turn_def Queue_init_def chan_defs Let_def never_notified_def bind_outcome_Ret_iff
        split: if_splits option.splits)
qed

end
