(* ===== verification/Times.thy ===== *)
theory Times
  imports Strs
begin

text \<open>
  \<open>pkg/times/time.go\<close>. A \<open>time.Time\<close> is its wall clock: the number of the day, from 1 January of year 1,
  and the nanoseconds since midnight. What the code uses of the standard library (reading the date,
  \<open>time.Date\<close> with its normalisation of months and days, \<open>AddDate\<close>, \<open>Sub\<close>) is written out for the
  proleptic Gregorian calendar. A location only matters for \<open>Sub\<close>: it is a function from wall clocks to
  offsets; wall clocks that a change of the offset skips are left out.
\<close>

section \<open>The calendar\<close>

definition leap :: "int \<Rightarrow> bool" where
  "leap y \<longleftrightarrow> 4 dvd y \<and> (\<not> 100 dvd y \<or> 400 dvd y)"

definition days_before_year :: "int \<Rightarrow> int" where
  "days_before_year y = (let z = y - 1 in 365 * z + z div 4 - z div 100 + z div 400)"

definition days_before_month :: "int \<Rightarrow> int \<Rightarrow> int" where
  "days_before_month y m =
     [0, 31, 59, 90, 120, 151, 181, 212, 243, 273, 304, 334, 365] ! nat (m - 1) + (if leap y \<and> 2 < m then 1 else 0)"

definition days_in_month :: "int \<Rightarrow> int \<Rightarrow> int" where
  "days_in_month y m = days_before_month y (m + 1) - days_before_month y m"

definition year_len :: "int \<Rightarrow> int" where "year_len y = (if leap y then 366 else 365)"

definition day_number :: "int \<Rightarrow> int \<Rightarrow> int \<Rightarrow> int" where
  "day_number y m d = days_before_year y + days_before_month y m + (d - 1)"

definition year_of :: "int \<Rightarrow> int" where
  "year_of n = (let y = 400 * n div 146097 + 1 in if days_before_year (y + 1) \<le> n then y + 1 else y)"

fun month_from :: "nat \<Rightarrow> int \<Rightarrow> int \<Rightarrow> int \<Rightarrow> int" where
  "month_from 0 y m k = m"
| "month_from (Suc i) y m k = (if k < days_before_month y (m + 1) then m else month_from i y (m + 1) k)"

definition month_of :: "int \<Rightarrow> int \<Rightarrow> int" where
  "month_of y k = month_from 11 y 1 k"

section \<open>Times\<close>

record GoTime =
  t_day :: int
  t_nanos :: int

definition time_Year :: "GoTime \<Rightarrow> int" where "time_Year t = year_of (t_day t)"
definition time_Month :: "GoTime \<Rightarrow> int" where
  "time_Month t = month_of (time_Year t) (t_day t - days_before_year (time_Year t))"
definition time_Day :: "GoTime \<Rightarrow> int" where
  "time_Day t = t_day t - days_before_year (time_Year t) - days_before_month (time_Year t) (time_Month t) + 1"

definition clock :: "int \<Rightarrow> int \<Rightarrow> int \<Rightarrow> int \<Rightarrow> int" where
  "clock h mi s ns = ((h * 60 + mi) * 60 + s) * 1000000000 + ns"

definition day_nanos :: int where "day_nanos = 86400000000000"

text \<open>\<open>time.Date\<close> for a clock within the day: months and days may be out of range.\<close>

definition time_Date :: "int \<Rightarrow> int \<Rightarrow> int \<Rightarrow> int \<Rightarrow> GoTime" where
  "time_Date y m d nanos =
     (let y' = y + (m - 1) div 12; m' = (m - 1) mod 12 + 1
      in \<lparr>t_day = day_number y' m' d, t_nanos = nanos\<rparr>)"

definition AddDate :: "int \<Rightarrow> int \<Rightarrow> int \<Rightarrow> GoTime \<Rightarrow> GoTime" where
  "AddDate years months days t = time_Date (time_Year t + years) (time_Month t + months) (time_Day t + days) (t_nanos t)"

definition time_Sub :: "(GoTime \<Rightarrow> int) \<Rightarrow> GoTime \<Rightarrow> GoTime \<Rightarrow> int" where
  "time_Sub loc t u = ((t_day t * day_nanos + t_nanos t) - loc t) - ((t_day u * day_nanos + t_nanos u) - loc u)"

definition time_before :: "GoTime \<Rightarrow> GoTime \<Rightarrow> bool" where
  "time_before t u \<longleftrightarrow> t_day t < t_day u \<or> t_day t = t_day u \<and> t_nanos t < t_nanos u"

section \<open>The package\<close>

definition BeginOfDay :: "GoTime \<Rightarrow> GoTime" where
  "BeginOfDay t = time_Date (time_Year t) (time_Month t) (time_Day t) (clock 0 0 0 0)"
definition EndOfDay :: "GoTime \<Rightarrow> GoTime" where
  "EndOfDay t = time_Date (time_Year t) (time_Month t) (time_Day t) (clock 23 59 59 (1000000000 - 1))"
definition BeginOfMonth :: "GoTime \<Rightarrow> GoTime" where
  "BeginOfMonth t = time_Date (time_Year t) (time_Month t) 1 (clock 0 0 0 0)"
definition EndOfMonth :: "GoTime \<Rightarrow> GoTime" where
  "EndOfMonth t =
     (let nextStart = time_Date (time_Year t) (time_Month t + 1) 1 (clock 0 0 0 0)
      in time_Date (time_Year nextStart) (time_Month nextStart) (time_Day nextStart - 1) (clock 23 59 59 0))"
definition BeginOfYear :: "GoTime \<Rightarrow> GoTime" where
  "BeginOfYear t = time_Date (time_Year t) 1 1 (clock 0 0 0 0)"
definition EndOfYear :: "GoTime \<Rightarrow> GoTime" where
  "EndOfYear t = time_Date (time_Year t) 12 31 (clock 23 59 59 (1000000000 - 1))"

definition LastMonthNow :: "GoTime \<Rightarrow> GoTime" where
  "LastMonthNow t = AddDate 0 (- 1) 0 t"

text \<open>\<open>time_now\<close> is \<open>time.Now()\<close>.\<close>

definition LastMonthFirstDay :: "GoTime \<Rightarrow> GoTime" where
  "LastMonthFirstDay time_now = BeginOfMonth (LastMonthNow time_now)"
definition LastMonthLastDay :: "GoTime \<Rightarrow> GoTime" where
  "LastMonthLastDay time_now = EndOfMonth (LastMonthNow time_now)"
definition ThisMonthFirstDay :: "GoTime \<Rightarrow> GoTime" where
  "ThisMonthFirstDay time_now = BeginOfMonth time_now"

text \<open>A number of hours divided by 24 and truncated; the duration is a whole number of minutes, on which the
  floating point computation is exact enough.\<close>

definition whole_days :: "int \<Rightarrow> int" where
  "whole_days dur = (if 0 \<le> dur then dur div day_nanos else - ((- dur) div day_nanos))"

definition DaysOfMonth :: "(GoTime \<Rightarrow> int) \<Rightarrow> GoTime \<Rightarrow> int" where
  "DaysOfMonth loc t =
     (let nextMonth = time_Date (time_Year t) (time_Month t + 1) 1 (clock 0 0 0 0);
          curMonthStart = time_Date (time_Year t) (time_Month t) 1 (clock 0 0 0 0)
      in whole_days (time_Sub loc nextMonth curMonthStart))"
definition DaysOfThisMonth :: "(GoTime \<Rightarrow> int) \<Rightarrow> GoTime \<Rightarrow> int" where
  "DaysOfThisMonth loc time_now = DaysOfMonth loc time_now"
definition ThisMonthRemainDays :: "(GoTime \<Rightarrow> int) \<Rightarrow> GoTime \<Rightarrow> int" where
  "ThisMonthRemainDays loc time_now = DaysOfMonth loc time_now - time_Day time_now"

definition TimeToYYYYMMDD :: "GoTime \<Rightarrow> string" where
  "TimeToYYYYMMDD t =
     Itoa (time_Year t) @ PadLeftInt (word_of_int (time_Month t)) 2 ''0'' @ PadLeftInt (word_of_int (time_Day t)) 2 ''0''"
definition TimeToYYYYMMDDInt :: "GoTime \<Rightarrow> int option" where
  "TimeToYYYYMMDDInt t = Atoi (TimeToYYYYMMDD t)"

section \<open>The calendar's laws\<close>

lemma div_step: "0 < (k::int) \<Longrightarrow> (z + 1) div k = z div k + (if k dvd z + 1 then 1 else 0)"
proof -
  assume k: "0 < k"
  define q where "q = (z + 1) div k"
  define r where "r = (z + 1) mod k"
  have z: "z + 1 = k * q + r" "0 \<le> r" "r < k" using k by (simp_all add: q_def r_def)
  show ?thesis
  proof (cases "k dvd z + 1")
    case True
    then have "r = 0" by (simp add: r_def dvd_eq_mod_eq_0)
    then have "z = k * q - 1" using z(1) by simp
    then have "z = k * (q - 1) + (k - 1)" by (simp add: right_diff_distrib)
    then have "z div k = q - 1" by (rule int_div_pos_eq) (use k in simp_all)
    then show ?thesis using True by (simp add: q_def)
  next
    case False
    then have "r \<noteq> 0" by (simp add: r_def dvd_eq_mod_eq_0)
    then have "z div k = q" using z by (intro int_div_pos_eq [of z k q "r - 1"]) simp_all
    then show ?thesis using False by (simp add: q_def)
  qed
qed

lemma days_arith:
  fixes p q y a b c A B C L :: int
  shows "p = 365 * y + (a + A) - (b + B) + (c + C) \<Longrightarrow> q = 365 * (y - 1) + a - b + c \<Longrightarrow> A - B + C + 365 = L \<Longrightarrow> p = q + L"
  by presburger

lemma leap_arith:
  "(R \<Longrightarrow> Q) \<Longrightarrow> (Q \<Longrightarrow> P) \<Longrightarrow> (if P then 1 else 0) - (if Q then 1 else 0) + (if R then 1 else 0) + 365
      = (if P \<and> (\<not> Q \<or> R) then 366 else 365 :: int)"
  by (cases P; cases Q; cases R) simp_all

lemma days_before_year_Suc: "days_before_year (y + 1) = days_before_year y + year_len y"
proof -
  have d: "400 dvd y \<Longrightarrow> 100 dvd y" "100 dvd y \<Longrightarrow> 4 dvd y"
    using dvd_trans [of 100 400 y] dvd_trans [of 4 100 y] by simp_all
  have "y div 4 = (y - 1) div 4 + (if 4 dvd y then 1 else 0)" "y div 100 = (y - 1) div 100 + (if 100 dvd y then 1 else 0)"
    "y div 400 = (y - 1) div 400 + (if 400 dvd y then 1 else 0)"
    using div_step [of 4 "y - 1"] div_step [of 100 "y - 1"] div_step [of 400 "y - 1"]
    unfolding diff_add_cancel by (simp_all only: zero_less_numeral simp_thms)
  then have "days_before_year (y + 1) = 365 * y + ((y - 1) div 4 + (if 4 dvd y then 1 else 0))
      - ((y - 1) div 100 + (if 100 dvd y then 1 else 0)) + ((y - 1) div 400 + (if 400 dvd y then 1 else 0))"
    unfolding days_before_year_def Let_def by simp
  moreover have "days_before_year y = 365 * (y - 1) + (y - 1) div 4 - (y - 1) div 100 + (y - 1) div 400"
    by (simp add: days_before_year_def Let_def)
  moreover have "(if 4 dvd y then 1 else 0) - (if 100 dvd y then 1 else 0) + (if 400 dvd y then 1 else 0) + 365 = year_len y"
    unfolding year_len_def leap_def using d by (rule leap_arith)
  ultimately show ?thesis by (rule days_arith)
qed

lemma estimate_arith:
  fixes z :: int
  assumes "z = 4 * a + r" "z = 100 * b + s" "z = 400 * c + t" "0 \<le> r" "r \<le> 3" "0 \<le> s" "s \<le> 99" "0 \<le> t" "t \<le> 399"
  shows "146097 * z - 699 \<le> 400 * (365 * z + a - b + c)" "400 * (365 * z + a - b + c) \<le> 146097 * z + 396"
  using assms by (simp_all add: algebra_simps)

lemma days_before_year_estimate:
  "146097 * (y - 1) - 699 \<le> 400 * days_before_year y" "400 * days_before_year y \<le> 146097 * (y - 1) + 396"
proof -
  define z where "z = y - 1"
  have m: "z mod k \<le> k - 1" if "0 < k" for k :: int using pos_mod_bound [OF that, of z] by simp
  have "z = 4 * (z div 4) + z mod 4" "z = 100 * (z div 100) + z mod 100" "z = 400 * (z div 400) + z mod 400" by simp_all
  note E = estimate_arith [OF this]
  have d: "days_before_year y = 365 * z + z div 4 - z div 100 + z div 400" by (simp add: days_before_year_def z_def Let_def)
  show "146097 * (y - 1) - 699 \<le> 400 * days_before_year y" "400 * days_before_year y \<le> 146097 * (y - 1) + 396"
    unfolding d z_def [symmetric] by (rule E; use m [of 4] m [of 100] m [of 400] in simp)+
qed

lemma estimate_bounds_arith:
  fixes n y :: int
  assumes "400 * n = 146097 * (y - 1) + r" "0 \<le> r" "r < 146097"
  shows "146097 * (y - 1) \<le> 400 * n" "400 * n < 146097 * y"
  using assms by (simp_all add: algebra_simps)

lemma year_of_range: "days_before_year (year_of n) \<le> n" "n < days_before_year (year_of n + 1)"
proof -
  define y where "y = 400 * n div 146097 + 1"
  have "400 * n = 146097 * (y - 1) + 400 * n mod 146097" by (simp add: y_def)
  note b = estimate_bounds_arith [OF this pos_mod_sign pos_mod_bound, simplified]
  have u: "year_of n = (if days_before_year (y + 1) \<le> n then y + 1 else y)" by (simp add: year_of_def y_def Let_def)
  show "days_before_year (year_of n) \<le> n" "n < days_before_year (year_of n + 1)"
    using b days_before_year_estimate(2) [of y] days_before_year_estimate(1) [of "y + 2"] unfolding u
    by (simp_all add: add.commute)
qed

lemma days_before_year_mono: "y \<le> z \<Longrightarrow> days_before_year y \<le> days_before_year z"
proof (induction z rule: int_ge_induct)
  case (step i)
  then show ?case using days_before_year_Suc [of i] by (simp add: year_len_def split: if_splits)
qed simp

lemma year_of_unique: "days_before_year y \<le> n \<Longrightarrow> n < days_before_year (y + 1) \<Longrightarrow> year_of n = y"
  using year_of_range [of n] days_before_year_mono [of "y + 1" "year_of n"] days_before_year_mono [of "year_of n + 1" y] by linarith

text \<open>The twelve months of a year.\<close>

lemma month_tables:
  "days_before_month y 1 = 0" "days_before_month y 2 = 31" "days_before_month y 3 = (if leap y then 60 else 59)"
  "days_before_month y 4 = (if leap y then 91 else 90)" "days_before_month y 5 = (if leap y then 121 else 120)"
  "days_before_month y 6 = (if leap y then 152 else 151)" "days_before_month y 7 = (if leap y then 182 else 181)"
  "days_before_month y 8 = (if leap y then 213 else 212)" "days_before_month y 9 = (if leap y then 244 else 243)"
  "days_before_month y 10 = (if leap y then 274 else 273)" "days_before_month y 11 = (if leap y then 305 else 304)"
  "days_before_month y 12 = (if leap y then 335 else 334)" "days_before_month y 13 = year_len y"
  by (simp_all add: days_before_month_def year_len_def eval_nat_numeral)

lemma month_from_range:
  "days_before_month y m \<le> k \<Longrightarrow> k < days_before_month y (m + int i + 1) \<Longrightarrow>
    m \<le> month_from i y m k \<and> month_from i y m k \<le> m + int i
    \<and> days_before_month y (month_from i y m k) \<le> k \<and> k < days_before_month y (month_from i y m k + 1)"
proof (induction i arbitrary: m)
  case (Suc i)
  show ?case
  proof (cases "k < days_before_month y (m + 1)")
    case False
    then show ?thesis using Suc.IH [of "m + 1"] Suc.prems by (auto simp: add.assoc)
  qed (use Suc.prems in simp)
qed simp

lemma month_of_range:
  assumes "0 \<le> k" "k < year_len y"
  shows "1 \<le> month_of y k" "month_of y k \<le> 12"
    "days_before_month y (month_of y k) \<le> k" "k < days_before_month y (month_of y k + 1)"
  using month_from_range [of y 1 k 11] assms by (simp_all add: month_of_def month_tables)

lemma days_before_month_mono:
  assumes "1 \<le> m" "m \<le> n" "n \<le> 13"
  shows "days_before_month y m \<le> days_before_month y n"
proof -
  have s: "days_before_month y i \<le> days_before_month y (i + 1)" if "1 \<le> i" "i \<le> 12" for i
  proof -
    have "i = 1 + int (nat (i - 1))" "nat (i - 1) \<in> {..<12}" using that by simp_all
    moreover have "\<forall>j\<in>{..<12}. days_before_month y (1 + int j) \<le> days_before_month y (1 + int j + 1)"
      by (simp add: lessThan_nat_numeral lessThan_Suc month_tables year_len_def)
    ultimately show ?thesis by metis
  qed
  show ?thesis using assms(2,3)
  proof (induction n rule: int_ge_induct)
    case (step i)
    then show ?case using s [of i] assms(1) by simp
  qed simp
qed

lemma month_of_unique:
  assumes "1 \<le> m" "m \<le> 12" "days_before_month y m \<le> k" "k < days_before_month y (m + 1)"
  shows "month_of y k = m"
proof -
  have k: "0 \<le> k" "k < year_len y"
    using days_before_month_mono [of 1 m y] days_before_month_mono [of "m + 1" 13 y] assms by (simp_all add: month_tables)
  show ?thesis
    using month_of_range [OF k] days_before_month_mono [of "m + 1" "month_of y k" y]
      days_before_month_mono [of "month_of y k + 1" m y] assms by linarith
qed

definition valid_date :: "int \<Rightarrow> int \<Rightarrow> int \<Rightarrow> bool" where
  "valid_date y m d \<longleftrightarrow> 1 \<le> m \<and> m \<le> 12 \<and> 1 \<le> d \<and> d \<le> days_in_month y m"

text \<open>Reading back the date of a day, and every day has a date.\<close>

lemma date_of_day:
  assumes "valid_date y m d"
  shows "time_Year \<lparr>t_day = day_number y m d, t_nanos = ns\<rparr> = y"
    "time_Month \<lparr>t_day = day_number y m d, t_nanos = ns\<rparr> = m" "time_Day \<lparr>t_day = day_number y m d, t_nanos = ns\<rparr> = d"
proof -
  have m: "1 \<le> m" "m \<le> 12" and d: "days_before_month y m \<le> days_before_month y m + (d - 1)"
    "days_before_month y m + (d - 1) < days_before_month y (m + 1)"
    using assms by (simp_all add: valid_date_def days_in_month_def)
  have "0 \<le> days_before_month y m" "days_before_month y (m + 1) \<le> year_len y"
    using days_before_month_mono [of 1 m y] days_before_month_mono [of "m + 1" 13 y] m by (simp_all add: month_tables)
  then have y: "year_of (day_number y m d) = y"
    using d days_before_year_Suc [of y] by (intro year_of_unique) (simp_all add: day_number_def)
  have mo: "month_of y (day_number y m d - days_before_year y) = m"
    using month_of_unique [OF m d] by (simp add: day_number_def)
  show "time_Year \<lparr>t_day = day_number y m d, t_nanos = ns\<rparr> = y"
    "time_Month \<lparr>t_day = day_number y m d, t_nanos = ns\<rparr> = m" "time_Day \<lparr>t_day = day_number y m d, t_nanos = ns\<rparr> = d"
    by (simp_all add: time_Year_def time_Month_def time_Day_def y mo) (simp add: day_number_def)
qed

lemma day_of_date:
  "valid_date (time_Year t) (time_Month t) (time_Day t)" "day_number (time_Year t) (time_Month t) (time_Day t) = t_day t"
proof -
  let ?y = "time_Year t" and ?k = "t_day t - days_before_year (time_Year t)"
  have k: "0 \<le> ?k" "?k < year_len ?y"
    using year_of_range [of "t_day t"] days_before_year_Suc [of ?y] by (simp_all add: time_Year_def)
  note M = month_of_range [OF k, folded time_Month_def]
  show "valid_date (time_Year t) (time_Month t) (time_Day t)"
    using M by (simp add: valid_date_def time_Day_def days_in_month_def)
  show "day_number (time_Year t) (time_Month t) (time_Day t) = t_day t" by (simp add: day_number_def time_Day_def)
qed

section \<open>Months\<close>

lemma days_in_month_pos: "1 \<le> m \<Longrightarrow> m \<le> 12 \<Longrightarrow> 28 \<le> days_in_month y m \<and> days_in_month y m \<le> 31"
proof -
  assume "1 \<le> m" "m \<le> 12"
  then have "m = 1 + int (nat (m - 1))" "nat (m - 1) \<in> {..<12}" by simp_all
  moreover have "\<forall>j\<in>{..<12}. 28 \<le> days_in_month y (1 + int j) \<and> days_in_month y (1 + int j) \<le> 31"
    by (simp add: lessThan_nat_numeral lessThan_Suc month_tables year_len_def days_in_month_def)
  ultimately show ?thesis by metis
qed

definition next_month :: "int \<Rightarrow> int \<Rightarrow> int \<times> int" where
  "next_month y m = (if m = 12 then (y + 1, 1) else (y, m + 1))"
definition prev_month :: "int \<Rightarrow> int \<Rightarrow> int \<times> int" where
  "prev_month y m = (if m = 1 then (y - 1, 12) else (y, m - 1))"

lemma time_Date_in: "1 \<le> m \<Longrightarrow> m \<le> 12 \<Longrightarrow> time_Date y m d ns = \<lparr>t_day = day_number y m d, t_nanos = ns\<rparr>"
  by (simp add: time_Date_def Let_def)

lemma time_Date_next: "1 \<le> m \<Longrightarrow> m \<le> 12 \<Longrightarrow>
    time_Date y (m + 1) d ns = \<lparr>t_day = day_number (fst (next_month y m)) (snd (next_month y m)) d, t_nanos = ns\<rparr>"
  by (cases "m = 12") (simp_all add: time_Date_def next_month_def Let_def)

lemma time_Date_prev: "1 \<le> m \<Longrightarrow> m \<le> 12 \<Longrightarrow>
    time_Date y (m - 1) d ns = \<lparr>t_day = day_number (fst (prev_month y m)) (snd (prev_month y m)) d, t_nanos = ns\<rparr>"
  by (cases "m = 1") (simp_all add: time_Date_def prev_month_def Let_def)

lemma next_month_start: "1 \<le> m \<Longrightarrow> m \<le> 12 \<Longrightarrow>
    day_number (fst (next_month y m)) (snd (next_month y m)) 1 = day_number y m 1 + days_in_month y m"
  using days_before_year_Suc [of y] by (cases "m = 12") (simp_all add: next_month_def day_number_def days_in_month_def month_tables)

lemma next_month_valid: "1 \<le> m \<Longrightarrow> m \<le> 12 \<Longrightarrow> valid_date (fst (next_month y m)) (snd (next_month y m)) 1"
  using days_in_month_pos [of "snd (next_month y m)" "fst (next_month y m)"] by (auto simp: next_month_def valid_date_def)

lemma prev_next: "1 \<le> m \<Longrightarrow> m \<le> 12 \<Longrightarrow>
    next_month (fst (prev_month y m)) (snd (prev_month y m)) = (y, m) \<and> 1 \<le> snd (prev_month y m) \<and> snd (prev_month y m) \<le> 12"
  by (auto simp: prev_month_def next_month_def)

lemma month_range: "1 \<le> time_Month t" "time_Month t \<le> 12" "1 \<le> time_Day t"
  "time_Day t \<le> days_in_month (time_Year t) (time_Month t)"
  using day_of_date(1) [of t] by (simp_all add: valid_date_def)

lemma BeginOfMonth_day: "BeginOfMonth t = \<lparr>t_day = day_number (time_Year t) (time_Month t) 1, t_nanos = 0\<rparr>"
  using month_range [of t] by (simp add: BeginOfMonth_def time_Date_in clock_def)

lemma EndOfMonth_day: "EndOfMonth t =
    \<lparr>t_day = day_number (time_Year t) (time_Month t) (days_in_month (time_Year t) (time_Month t)), t_nanos = day_nanos - 1000000000\<rparr>"
proof -
  let ?n = "next_month (time_Year t) (time_Month t)"
  note r = month_range [of t]
  note D = date_of_day [OF next_month_valid [OF r(1,2)], of "time_Year t"]
  have v: "1 \<le> snd ?n" "snd ?n \<le> 12" using next_month_valid [OF r(1,2), of "time_Year t"] by (simp_all add: valid_date_def)
  have "day_number (fst ?n) (snd ?n) (1 - 1) = day_number (fst ?n) (snd ?n) 1 - 1" by (simp add: day_number_def)
  also have "\<dots> = day_number (time_Year t) (time_Month t) (days_in_month (time_Year t) (time_Month t))"
    unfolding next_month_start [OF r(1,2)] by (simp add: day_number_def)
  finally show ?thesis
    unfolding EndOfMonth_def Let_def time_Date_next [OF r(1,2)] D time_Date_in [OF v] by (simp add: clock_def day_nanos_def)
qed

lemma same_month_iff:
  "time_Year u = time_Year t \<and> time_Month u = time_Month t \<longleftrightarrow>
    day_number (time_Year t) (time_Month t) 1 \<le> t_day u \<and>
    t_day u < day_number (time_Year t) (time_Month t) 1 + days_in_month (time_Year t) (time_Month t)"
  (is "?same \<longleftrightarrow> ?from \<and> ?until")
proof
  assume ?same
  then show "?from \<and> ?until"
    using day_of_date(2) [of u] month_range(3,4) [of u] by (simp add: day_number_def)
next
  assume b: "?from \<and> ?until"
  define d where "d = t_day u - day_number (time_Year t) (time_Month t) 1 + 1"
  have "valid_date (time_Year t) (time_Month t) d" using b month_range(1,2) [of t] by (simp add: valid_date_def d_def)
  from date_of_day(1,2) [OF this, of "t_nanos u"] have "time_Year \<lparr>t_day = t_day u, t_nanos = t_nanos u\<rparr> = time_Year t"
    "time_Month \<lparr>t_day = t_day u, t_nanos = t_nanos u\<rparr> = time_Month t"
    by (simp_all add: d_def day_number_def)
  moreover have "\<lparr>t_day = t_day u, t_nanos = t_nanos u\<rparr> = u" by simp
  ultimately show ?same by (simp only: simp_thms)
qed

lemma prev_month_day:
  defines "p \<equiv> \<lambda>t. prev_month (time_Year t) (time_Month t)"
  assumes "time_Day t \<le> days_in_month (fst (p t)) (snd (p t))"
  shows "time_Year (LastMonthNow t) = fst (p t)" "time_Month (LastMonthNow t) = snd (p t)"
proof -
  note r = month_range [of t]
  have "valid_date (fst (p t)) (snd (p t)) (time_Day t)"
    using prev_next [OF r(1,2), of "time_Year t"] assms(2) r(3) by (simp add: valid_date_def p_def)
  note D = date_of_day [OF this, of "t_nanos t"]
  show "time_Year (LastMonthNow t) = fst (p t)" "time_Month (LastMonthNow t) = snd (p t)"
    using D time_Date_prev [OF r(1,2), of "time_Year t" "time_Day t" "t_nanos t"]
    by (simp_all add: LastMonthNow_def AddDate_def p_def)
qed

lemma prev_month_overflow:
  defines "p \<equiv> \<lambda>t. prev_month (time_Year t) (time_Month t)"
  assumes "\<not> time_Day t \<le> days_in_month (fst (p t)) (snd (p t))"
  shows "time_Year (LastMonthNow t) = time_Year t" "time_Month (LastMonthNow t) = time_Month t"
proof -
  note r = month_range [of t]
  let ?y = "fst (p t)" and ?m = "snd (p t)"
  define d where "d = time_Day t - days_in_month ?y ?m"
  have pn: "next_month ?y ?m = (time_Year t, time_Month t)" "1 \<le> ?m" "?m \<le> 12"
    using prev_next [OF r(1,2), of "time_Year t"] by (simp_all add: p_def)
  have "28 \<le> days_in_month ?y ?m" "28 \<le> days_in_month (time_Year t) (time_Month t)" "days_in_month (time_Year t) (time_Month t) \<le> 31"
    using days_in_month_pos pn(2,3) r(1,2) by blast+
  then have v: "valid_date (time_Year t) (time_Month t) d" using assms(2) r by (simp add: valid_date_def d_def)
  have "day_number ?y ?m (time_Day t) = day_number (time_Year t) (time_Month t) 1 + (d - 1)"
    using next_month_start [OF pn(2,3), of ?y] by (simp add: pn(1) day_number_def d_def)
  then have n: "day_number ?y ?m (time_Day t) = day_number (time_Year t) (time_Month t) d" by (simp add: day_number_def)
  note D = date_of_day [OF v, of "t_nanos t", folded n]
  show "time_Year (LastMonthNow t) = time_Year t" "time_Month (LastMonthNow t) = time_Month t"
    using D time_Date_prev [OF r(1,2), of "time_Year t" "time_Day t" "t_nanos t"]
    by (simp_all add: LastMonthNow_def AddDate_def p_def)
qed

section \<open>Properties\<close>

text \<open>C29. \<open>BeginOfMonth\<close> and \<open>EndOfMonth\<close> are the bounds of the month: a time lies in the month of \<open>t\<close> exactly
  when it is not before the first and less than a second after the second one, so times in the last
  second of a month are after its end.\<close>

theorem month_bounds:
  assumes "0 \<le> t_nanos u" "t_nanos u < day_nanos"
  shows "(time_Year u = time_Year t \<and> time_Month u = time_Month t) \<longleftrightarrow>
    \<not> time_before u (BeginOfMonth t) \<and> time_before u ((EndOfMonth t)\<lparr>t_nanos := t_nanos (EndOfMonth t) + 1000000000\<rparr>)"
  unfolding same_month_iff using assms
  by (auto simp: BeginOfMonth_day EndOfMonth_day time_before_def day_number_def)

lemma month_bounds_witness:
  "\<not> time_before \<lparr>t_day = 739000, t_nanos = 5\<rparr> (BeginOfMonth \<lparr>t_day = 739000, t_nanos = 5\<rparr>)"
  using month_bounds [of "\<lparr>t_day = 739000, t_nanos = 5\<rparr>" "\<lparr>t_day = 739000, t_nanos = 5\<rparr>"] by (simp add: day_nanos_def)

text \<open>\<open>LastMonthFirstDay\<close> and \<open>LastMonthLastDay\<close> are the first and the last day of the month before
  only if that month has the day of the month it is today; on the other days (29 to 31) they are the
  first and last day of the current month.\<close>

theorem last_month_days:
  assumes "p = prev_month (time_Year time_now) (time_Month time_now)"
    and "q = (if time_Day time_now \<le> days_in_month (fst p) (snd p) then p else (time_Year time_now, time_Month time_now))"
  shows "LastMonthFirstDay time_now = \<lparr>t_day = day_number (fst q) (snd q) 1, t_nanos = 0\<rparr>
    \<and> LastMonthLastDay time_now = \<lparr>t_day = day_number (fst q) (snd q) (days_in_month (fst q) (snd q)), t_nanos = day_nanos - 1000000000\<rparr>"
proof -
  have "time_Year (LastMonthNow time_now) = fst q \<and> time_Month (LastMonthNow time_now) = snd q"
    using prev_month_day [of time_now] prev_month_overflow [of time_now] assms by auto
  then show ?thesis by (simp add: LastMonthFirstDay_def LastMonthLastDay_def BeginOfMonth_day EndOfMonth_day)
qed

lemma last_month_days_witness:
  "LastMonthFirstDay (time_Date 2025 3 31 0) = time_Date 2025 3 1 0"
proof -
  have d: "time_Date 2025 3 31 0 = \<lparr>t_day = day_number 2025 3 31, t_nanos = 0\<rparr>" "\<not> leap 2025"
    by (simp_all add: time_Date_in leap_def)
  have v: "valid_date 2025 3 31" using d(2) by (simp add: valid_date_def days_in_month_def month_tables)
  note D = date_of_day [OF v, of 0]
  let ?t = "time_Date 2025 3 31 0" and ?p = "(2025 :: int, 2 :: int)"
  have "(2025, 3) = (if time_Day ?t \<le> days_in_month (fst ?p) (snd ?p) then ?p else (time_Year ?t, time_Month ?t))"
    using d(2) D by (simp add: d(1) days_in_month_def month_tables)
  moreover have "?p = prev_month (time_Year ?t) (time_Month ?t)" using D by (simp add: d(1) prev_month_def)
  ultimately have "LastMonthFirstDay ?t = \<lparr>t_day = day_number (fst (2025 :: int, 3 :: int)) (snd (2025 :: int, 3 :: int)) 1, t_nanos = 0\<rparr>"
    using last_month_days [of ?p ?t "(2025, 3)"] by (simp only: simp_thms)
  then show ?thesis by (simp add: time_Date_in)
qed

text \<open>The number of days that \<open>DaysOfMonth\<close> computes, for the offsets at the two beginnings of months: it is one
  less than the length of the month when the offset grows in between.\<close>

lemma days_of_month:
  assumes "o1 = loc (BeginOfMonth t)"
    and "o2 = loc \<lparr>t_day = day_number (time_Year t) (time_Month t) 1 + days_in_month (time_Year t) (time_Month t), t_nanos = 0\<rparr>"
    and "\<bar>o2 - o1\<bar> < day_nanos"
  shows "DaysOfMonth loc t = days_in_month (time_Year t) (time_Month t) - (if o1 < o2 then 1 else 0)"
proof -
  note r = month_range [of t]
  let ?L = "days_in_month (time_Year t) (time_Month t)"
  have L: "28 \<le> ?L" using days_in_month_pos [OF r(1,2)] by simp
  have s: "time_Sub loc (time_Date (time_Year t) (time_Month t + 1) 1 (clock 0 0 0 0)) (time_Date (time_Year t) (time_Month t) 1 (clock 0 0 0 0))
      = ?L * day_nanos - (o2 - o1)"
    unfolding time_Date_next [OF r(1,2)] next_month_start [OF r(1,2)] time_Date_in [OF r(1,2)] assms(1,2) BeginOfMonth_day
    by (simp add: time_Sub_def clock_def algebra_simps)
  have n: "0 < day_nanos" by (simp add: day_nanos_def)
  then have "day_nanos * 1 \<le> day_nanos * ?L" using L by (intro mult_left_mono) simp_all
  then have p: "0 \<le> ?L * day_nanos - (o2 - o1)" using assms(3) by (simp add: algebra_simps)
  have "(?L * day_nanos - (o2 - o1)) div day_nanos = ?L - (if o1 < o2 then 1 else 0)"
  proof (cases "o1 < o2")
    case True
    have "?L * day_nanos - (o2 - o1) = day_nanos * (?L - 1) + (day_nanos - (o2 - o1))" by (simp add: algebra_simps)
    from int_div_pos_eq [OF this] show ?thesis using True assms(3) by simp
  next
    case False
    have "?L * day_nanos - (o2 - o1) = day_nanos * ?L + (o1 - o2)" by (simp add: algebra_simps)
    from int_div_pos_eq [OF this] show ?thesis using False assms(3) by simp
  qed
  then show ?thesis using p by (simp add: DaysOfMonth_def Let_def s whole_days_def)
qed

section \<open>Formatting\<close>

lemma Itoa_small:
  "0 \<le> n \<Longrightarrow> n < 10 \<Longrightarrow> Itoa n = [char_of (48 + nat n)]"
  by (simp add: Itoa_def nat_digits.simps)

lemma Itoa_two: "10 \<le> n \<Longrightarrow> n < 100 \<Longrightarrow> Itoa n = [char_of (48 + nat n div 10), char_of (48 + nat n mod 10)]"
proof -
  assume n: "10 \<le> n" "n < 100"
  then have "\<not> nat n < 10" "nat n div 10 < 10" by linarith+
  then have "nat_digits (nat n) = [char_of (48 + nat n div 10), char_of (48 + nat n mod 10)]"
    by (subst nat_digits.simps, subst nat_digits.simps) simp
  then show ?thesis using n by (simp add: Itoa_def)
qed

lemma two_digits:
  assumes "1 \<le> n" "n < 100"
  shows "PadLeftInt (word_of_int n) 2 ''0'' = [char_of (48 + nat n div 10), char_of (48 + nat n mod 10)]"
proof -
  have s: "sint (word_of_int n :: int64) = n" by (rule sint_word_of_int_64) (use assms in simp_all)
  show ?thesis
  proof (cases "n < 10")
    case True
    then have "nat n < 10" by simp
    moreover have "char_of (48 :: nat) = CHR ''0''" by (simp add: char_of_def bit_0)
    ultimately show ?thesis using True assms by (simp add: PadLeftInt_def s Itoa_small Repeat_def)
  next
    case False
    then show ?thesis using assms by (simp add: PadLeftInt_def s Itoa_two)
  qed
qed

lemma two_digits_val:
  assumes "k < 100"
  shows "list_all is_digit [char_of (48 + k div 10), char_of (48 + k mod 10)]"
    "digits_val a [char_of (48 + k div 10), char_of (48 + k mod 10)] = 100 * a + k"
proof -
  have "k div 10 < 10" using assms by linarith
  then show "list_all is_digit [char_of (48 + k div 10), char_of (48 + k mod 10)]"
    "digits_val a [char_of (48 + k div 10), char_of (48 + k mod 10)] = 100 * a + k" by simp_all
qed

text \<open>The integer form of a date of year 0 or later is \<open>YYYYMMDD\<close> as a decimal number, for every year the
  int64 range allows, so it orders days as the calendar does.\<close>

theorem yyyymmdd_int:
  assumes "0 \<le> time_Year t" "time_Year t < 10 ^ 14"
  shows "TimeToYYYYMMDDInt t = Some (10000 * time_Year t + 100 * time_Month t + time_Day t)"
proof -
  note r = month_range [of t]
  have d: "time_Day t \<le> 31" using days_in_month_pos [OF r(1,2), of "time_Year t"] r(4) by simp
  let ?y = "nat (time_Year t)" and ?m = "nat (time_Month t)" and ?d = "nat (time_Day t)"
  let ?md = "[char_of (48 + ?m div 10), char_of (48 + ?m mod 10)] @ [char_of (48 + ?d div 10), char_of (48 + ?d mod 10)]"
  have s: "TimeToYYYYMMDD t = nat_digits ?y @ ?md"
    using assms(1) r d by (simp add: TimeToYYYYMMDD_def two_digits Itoa_def)
  have md: "?m < 100" "?d < 100" using r d by linarith+
  obtain c cs where c: "nat_digits ?y = c # cs" "is_digit c" using nat_digits_digits [of ?y] by (cases "nat_digits ?y") auto
  have "parse_digits (nat_digits ?y @ ?md) = Some (100 * (100 * ?y + ?m) + ?d)"
    using nat_digits_digits [of ?y] two_digits_val(1) [OF md(1)] two_digits_val(1) [OF md(2)]
    unfolding parse_digits_def digits_val_append two_digits_val(2) [OF md(1)] two_digits_val(2) [OF md(2)] digits_val_nat_digits
    by (simp add: list_all_append)
  then have "parse_digits (c # cs @ ?md) = Some (100 * (100 * ?y + ?m) + ?d)" by (simp add: c(1))
  moreover have "c \<noteq> CHR ''-''" "c \<noteq> CHR ''+''" using c(2) by auto
  moreover have "int (100 * (100 * ?y + ?m) + ?d) = 10000 * time_Year t + 100 * time_Month t + time_Day t"
    using assms(1) r by simp
  ultimately show ?thesis
    using assms r d by (simp add: TimeToYYYYMMDDInt_def s c(1) Atoi_def int64_range_def)
qed

lemma yyyymmdd_int_witness: "TimeToYYYYMMDDInt \<lparr>t_day = day_number 2025 3 31, t_nanos = 0\<rparr> = Some 20250331"
proof -
  have "valid_date 2025 3 31" by (simp add: valid_date_def days_in_month_def month_tables)
  note D = date_of_day [OF this, of 0]
  show ?thesis using yyyymmdd_int [of "\<lparr>t_day = day_number 2025 3 31, t_nanos = 0\<rparr>"] by (simp add: D)
qed

end
