(* ===== verification/CacheClient.thy ===== *)
theory CacheClient
  imports Redis
begin

text \<open>
  \<open>pkg/cache/cache.go\<close>: the cache over a Redis master and an optional replica. A client of the library is
  an address in \<open>world\<close>, which says whether it was closed and which server it talks to; \<open>NewCache\<close> without
  options of a replica stores the master's client twice. What a server does with a command is the parameter
  \<open>sv_exec\<close>, and what \<open>Exec\<close> of a transaction answers is \<open>sv_tx\<close>. The JSON codec is a parameter.
\<close>

section \<open>Commands and replies\<close>

datatype (plugins only: ) redis_cmd =
    CDel "string list" | CExists "string list" | CExpire string int | CExpireAt string int
  | CDecrBy string int64 | CIncrBy string int64 | CIncrByFloat string string
  | CGet string | CSet string string int | CSetNX string string int | CGetSet string string | CGetEx string int
  | CGetDel string | CMGet "string list" | CMSet "(string \<times> string) list" | CMSetNX "(string \<times> string) list"
  | CHSetNX string string string | CHIncrBy string string int64 | CHIncrByFloat string string string
  | CHGet string string | CHSet string "(string \<times> string) list" | CHDel string "string list"
  | CHExists string string | CHGetAll string | CHKeys string | CHLen string | CHMGet string "string list"
  | CHMSet string "(string \<times> string) list" | CHVals string
  | CSAdd string "string list" | CSIsMember string string | CSMIsMember string "string list" | CSMembers string
  | CSRem string "string list" | CPing

datatype reply =
    RNil | RErr string | RStatus string | RInt int | RBool bool | RStr string | RFloat string
  | RStrs "string list" | RAnys "string option list" | RMap "(string \<times> string) list" | RBools "bool list"

text \<open>The error of a command's \<open>Result\<close>: a nil reply is the error \<open>redis.Nil\<close>.\<close>

definition cmd_result :: "reply \<Rightarrow> string + reply" where
  "cmd_result r = (case r of RNil \<Rightarrow> Inl ''redis: nil'' | RErr e \<Rightarrow> Inl e | _ \<Rightarrow> Inr r)"

text \<open>The kinds of commands \<open>getCmdResult\<close> lists, and the ones it does not.\<close>

datatype (plugins only: ) cmd_kind =
    KCmd | KString | KSlice | KStringSlice | KMapStringString | KKeyValueSlice | KMapStringInt | KIntSlice
  | KBool | KBoolSlice | KInt | KFloat | KFloatSlice | KStatus | KTime | KDuration | KStringStructMap
  | KXMessageSlice | KXStreamSlice | KXPending | KXPendingExt | KZSlice | KZWithKey | KCommandsInfo
  | KGeoLocation | KGeoPos | KMapStringInterface | KMapStringStringSlice | KOther string

section \<open>Clients\<close>

record 's server =
  sv_exec :: "redis_cmd \<Rightarrow> 's \<Rightarrow> reply \<times> 's"
  sv_tx :: "redis_cmd list \<Rightarrow> 's \<Rightarrow> (string option \<times> (cmd_kind \<times> reply) list) \<times> 's"
  sv_close :: "bool \<Rightarrow> string option" \<comment> \<open>the error of closing a client, given whether it is closed\<close>

record 's world =
  wd_closed :: "nat \<Rightarrow> bool"
  wd_addr :: "nat \<Rightarrow> string"
  wd_next :: nat
  wd_srv :: "string \<Rightarrow> 's"

record Cache =
  master :: "nat option"
  slave :: "nat option"

definition errClosed :: string where "errClosed = ''redis: client is closed''"

text \<open>A command through a client: \<open>None\<close> is the nil pointer.\<close>

definition client_call ::
    "'s server \<Rightarrow> net \<Rightarrow> nat option \<Rightarrow> redis_cmd \<Rightarrow> 's world \<Rightarrow> ((string + reply) \<times> 's world) outcome" where
  "client_call S n cl cmd w =
     (case cl of
        None \<Rightarrow> Panic ''nil pointer dereference''
      | Some a \<Rightarrow>
          if wd_closed w a then Ret (Inl errClosed, w)
          else
            (let (res, s') = call_redis n (sv_exec S cmd) (wd_srv w (wd_addr w a));
                 w' = w\<lparr>wd_srv := (wd_srv w)(wd_addr w a := s')\<rparr>
             in Ret (case res of Inl e \<Rightarrow> Inl e | Inr r \<Rightarrow> cmd_result r, w')))"

definition redis_client :: "string \<Rightarrow> 's world \<Rightarrow> nat \<times> 's world" where
  "redis_client addr w =
     (wd_next w, w\<lparr>wd_closed := (wd_closed w)(wd_next w := False), wd_addr := (wd_addr w)(wd_next w := addr),
                   wd_next := Suc (wd_next w)\<rparr>)"

definition NewCache ::
    "'s server \<Rightarrow> net \<Rightarrow> net \<Rightarrow> string \<Rightarrow> string option \<Rightarrow> 's world \<Rightarrow> ((string + Cache) \<times> 's world) outcome" where
  "NewCache S n1 n2 masterOpt slaveOpt w =
     (let (masterDb, w) = redis_client masterOpt w in
      bind_outcome (client_call S n1 (Some masterDb) CPing w) (\<lambda>(pong, w).
        case pong of
          Inl err \<Rightarrow> Ret (Inl err, w)
        | Inr _ \<Rightarrow>
            (let c = \<lparr>master = Some masterDb, slave = Some masterDb\<rparr> in
             case slaveOpt of
               None \<Rightarrow> Ret (Inr c, w)
             | Some opt \<Rightarrow>
                 (let (slaveDb, w) = redis_client opt w in
                  bind_outcome (client_call S n2 (Some slaveDb) CPing w) (\<lambda>(pong, w).
                    case pong of
                      Inl err \<Rightarrow> Ret (Inl err, w)
                    | Inr _ \<Rightarrow> Ret (Inr (c\<lparr>slave := Some slaveDb\<rparr>), w))))))"

definition NewCacheWithAddr ::
    "'s server \<Rightarrow> net \<Rightarrow> net \<Rightarrow> string \<Rightarrow> string \<Rightarrow> 's world \<Rightarrow> ((string + Cache) \<times> 's world) outcome" where
  "NewCacheWithAddr S n1 n2 addr slaveAddr w =
     NewCache S n1 n2 addr (if 0 < length slaveAddr then Some slaveAddr else None) w"

definition close_client :: "'s server \<Rightarrow> nat \<Rightarrow> 's world \<Rightarrow> string option \<times> 's world" where
  "close_client S a w = (sv_close S (wd_closed w a), w\<lparr>wd_closed := (wd_closed w)(a := True)\<rparr>)"

definition Cache_Close :: "'s server \<Rightarrow> Cache \<Rightarrow> 's world \<Rightarrow> string option \<times> Cache \<times> 's world" where
  "Cache_Close S c w =
     (let close_slave = (\<lambda>c w.
            case slave c of
              None \<Rightarrow> (None, c, w)
            | Some client \<Rightarrow>
                (let c = c\<lparr>slave := None\<rparr>; (err, w) = close_client S client w in (err, c, w)))
      in case master c of
           None \<Rightarrow> close_slave c w
         | Some client \<Rightarrow>
             (let c = c\<lparr>master := None\<rparr>; (err, w) = close_client S client w in
              if err \<noteq> None then (err, c, w) else close_slave c w))"

section \<open>Transactions\<close>

definition kind_listed :: "cmd_kind \<Rightarrow> bool" where
  "kind_listed k = (case k of KOther _ \<Rightarrow> False | _ \<Rightarrow> True)"

text \<open>The two maps of \<open>getCmdResult\<close>; an entry of the second may be the nil error.\<close>

fun cmd_results ::
    "nat \<Rightarrow> (cmd_kind \<times> reply) list \<Rightarrow> (nat \<rightharpoonup> reply) \<times> (nat \<rightharpoonup> string option)
       \<Rightarrow> (nat \<rightharpoonup> reply) \<times> (nat \<rightharpoonup> string option)" where
  "cmd_results idx [] maps = maps"
| "cmd_results idx ((k, r) # cmders) (strMap, errMap) =
     cmd_results (Suc idx) cmders
       (if kind_listed k
        then (strMap(idx \<mapsto> r), errMap(idx \<mapsto> (case cmd_result r of Inl e \<Rightarrow> Some e | Inr _ \<Rightarrow> None)))
        else (strMap, errMap))"

text \<open>A nil map is \<open>None\<close>.\<close>

definition getCmdResult ::
    "(cmd_kind \<times> reply) list \<Rightarrow> (nat \<rightharpoonup> reply) option \<times> (nat \<rightharpoonup> string option) option" where
  "getCmdResult cmders =
     (if length cmders \<le> 0 then (None, None)
      else (let (strMap, errMap) = cmd_results 0 cmders (Map.empty, Map.empty) in (Some strMap, Some errMap)))"

text \<open>\<open>cmds\<close> is what \<open>f\<close> puts into the pipe.\<close>

definition Batch ::
    "'s server \<Rightarrow> net \<Rightarrow> Cache \<Rightarrow> redis_cmd list \<Rightarrow> 's world
       \<Rightarrow> (((nat \<rightharpoonup> reply) option \<times> (nat \<rightharpoonup> string option) option) \<times> 's world) outcome" where
  "Batch S n c cmds w =
     (case master c of
        None \<Rightarrow> Panic ''nil pointer dereference''
      | Some a \<Rightarrow>
          (let (res, w) =
             (if wd_closed w a then (Inl errClosed, w)
              else (let (res, s') = call_redis n (sv_tx S cmds) (wd_srv w (wd_addr w a))
                    in (res, w\<lparr>wd_srv := (wd_srv w)(wd_addr w a := s')\<rparr>)))
           in case res of
                Inl err \<Rightarrow> Ret ((None, Some [0 \<mapsto> Some err]), w)
              | Inr (Some err, _) \<Rightarrow> Ret ((None, Some [0 \<mapsto> Some err]), w)
              | Inr (None, cmders) \<Rightarrow>
                  if length cmders < 1
                  then Ret ((None, Some [0 \<mapsto> Some ''cmders must be greater than or equal to 1'']), w)
                  else Ret (getCmdResult cmders, w)))"

section \<open>Methods\<close>

text \<open>Commands that go through the master.\<close>

type_synonym 's cache_call = "'s world \<Rightarrow> ((string + reply) \<times> 's world) outcome"

definition Cache_KeyDel :: "'s server \<Rightarrow> net \<Rightarrow> Cache \<Rightarrow> string list \<Rightarrow> 's cache_call" where
  "Cache_KeyDel S n c keys = client_call S n (master c) (CDel keys)"

definition Cache_KeyExpire :: "'s server \<Rightarrow> net \<Rightarrow> Cache \<Rightarrow> string \<Rightarrow> int \<Rightarrow> 's cache_call" where
  "Cache_KeyExpire S n c key expiry = client_call S n (master c) (CExpire key expiry)"

definition Cache_KeyExpireAt :: "'s server \<Rightarrow> net \<Rightarrow> Cache \<Rightarrow> string \<Rightarrow> int \<Rightarrow> 's cache_call" where
  "Cache_KeyExpireAt S n c key expiry = client_call S n (master c) (CExpireAt key expiry)"

definition Cache_DecrBy :: "'s server \<Rightarrow> net \<Rightarrow> Cache \<Rightarrow> string \<Rightarrow> int64 \<Rightarrow> 's cache_call" where
  "Cache_DecrBy S n c key decrement = client_call S n (master c) (CDecrBy key decrement)"

definition Cache_IncrBy :: "'s server \<Rightarrow> net \<Rightarrow> Cache \<Rightarrow> string \<Rightarrow> int64 \<Rightarrow> 's cache_call" where
  "Cache_IncrBy S n c key decrement = client_call S n (master c) (CIncrBy key decrement)"

definition Cache_IncrByFloat :: "'s server \<Rightarrow> net \<Rightarrow> Cache \<Rightarrow> string \<Rightarrow> string \<Rightarrow> 's cache_call" where
  "Cache_IncrByFloat S n c key decrement = client_call S n (master c) (CIncrByFloat key decrement)"

definition Cache_Set :: "'s server \<Rightarrow> net \<Rightarrow> Cache \<Rightarrow> string \<Rightarrow> string \<Rightarrow> int \<Rightarrow> 's cache_call" where
  "Cache_Set S n c key val expiry = client_call S n (master c) (CSet key val expiry)"

definition Cache_SetNX :: "'s server \<Rightarrow> net \<Rightarrow> Cache \<Rightarrow> string \<Rightarrow> string \<Rightarrow> int \<Rightarrow> 's cache_call" where
  "Cache_SetNX S n c key val expiry = client_call S n (master c) (CSetNX key val expiry)"

definition Cache_GetSet :: "'s server \<Rightarrow> net \<Rightarrow> Cache \<Rightarrow> string \<Rightarrow> string \<Rightarrow> 's cache_call" where
  "Cache_GetSet S n c key val = client_call S n (master c) (CGetSet key val)"

definition Cache_GetExpire :: "'s server \<Rightarrow> net \<Rightarrow> Cache \<Rightarrow> string \<Rightarrow> int \<Rightarrow> 's cache_call" where
  "Cache_GetExpire S n c key expiration = client_call S n (master c) (CGetEx key expiration)"

definition Cache_GetDel :: "'s server \<Rightarrow> net \<Rightarrow> Cache \<Rightarrow> string \<Rightarrow> 's cache_call" where
  "Cache_GetDel S n c key = client_call S n (master c) (CGetDel key)"

definition Cache_MultiSet :: "'s server \<Rightarrow> net \<Rightarrow> Cache \<Rightarrow> (string \<times> string) list \<Rightarrow> 's cache_call" where
  "Cache_MultiSet S n c maps = client_call S n (master c) (CMSet maps)"

definition Cache_MultiSetNX :: "'s server \<Rightarrow> net \<Rightarrow> Cache \<Rightarrow> (string \<times> string) list \<Rightarrow> 's cache_call" where
  "Cache_MultiSetNX S n c maps = client_call S n (master c) (CMSetNX maps)"

definition Cache_HSetNX :: "'s server \<Rightarrow> net \<Rightarrow> Cache \<Rightarrow> string \<Rightarrow> string \<Rightarrow> string \<Rightarrow> 's cache_call" where
  "Cache_HSetNX S n c key field val = client_call S n (master c) (CHSetNX key field val)"

definition Cache_HIncrBy :: "'s server \<Rightarrow> net \<Rightarrow> Cache \<Rightarrow> string \<Rightarrow> string \<Rightarrow> int64 \<Rightarrow> 's cache_call" where
  "Cache_HIncrBy S n c key field incr = client_call S n (master c) (CHIncrBy key field incr)"

definition Cache_HIncrByFloat :: "'s server \<Rightarrow> net \<Rightarrow> Cache \<Rightarrow> string \<Rightarrow> string \<Rightarrow> string \<Rightarrow> 's cache_call" where
  "Cache_HIncrByFloat S n c key field incr = client_call S n (master c) (CHIncrByFloat key field incr)"

definition Cache_HSet :: "'s server \<Rightarrow> net \<Rightarrow> Cache \<Rightarrow> string \<Rightarrow> (string \<times> string) list \<Rightarrow> 's cache_call" where
  "Cache_HSet S n c key vals = client_call S n (master c) (CHSet key vals)"

definition Cache_HExists :: "'s server \<Rightarrow> net \<Rightarrow> Cache \<Rightarrow> string \<Rightarrow> string \<Rightarrow> 's cache_call" where
  "Cache_HExists S n c key field = client_call S n (master c) (CHExists key field)"

definition Cache_HMSet :: "'s server \<Rightarrow> net \<Rightarrow> Cache \<Rightarrow> string \<Rightarrow> (string \<times> string) list \<Rightarrow> 's cache_call" where
  "Cache_HMSet S n c key vals = client_call S n (master c) (CHMSet key vals)"

definition Cache_SAdd :: "'s server \<Rightarrow> net \<Rightarrow> Cache \<Rightarrow> string \<Rightarrow> string list \<Rightarrow> 's cache_call" where
  "Cache_SAdd S n c key members = client_call S n (master c) (CSAdd key members)"

definition Cache_SRemove :: "'s server \<Rightarrow> net \<Rightarrow> Cache \<Rightarrow> string \<Rightarrow> string list \<Rightarrow> 's cache_call" where
  "Cache_SRemove S n c key members = client_call S n (master c) (CSRem key members)"

text \<open>Commands that go through the replica.\<close>

definition Cache_KeyExists :: "'s server \<Rightarrow> net \<Rightarrow> Cache \<Rightarrow> string list \<Rightarrow> 's cache_call" where
  "Cache_KeyExists S n c keys = client_call S n (slave c) (CExists keys)"

definition Cache_Get :: "'s server \<Rightarrow> net \<Rightarrow> Cache \<Rightarrow> string \<Rightarrow> 's cache_call" where
  "Cache_Get S n c key = client_call S n (slave c) (CGet key)"

definition Cache_MultiGet :: "'s server \<Rightarrow> net \<Rightarrow> Cache \<Rightarrow> string list \<Rightarrow> 's cache_call" where
  "Cache_MultiGet S n c keys = client_call S n (slave c) (CMGet keys)"

definition Cache_HGet :: "'s server \<Rightarrow> net \<Rightarrow> Cache \<Rightarrow> string \<Rightarrow> string \<Rightarrow> 's cache_call" where
  "Cache_HGet S n c key field = client_call S n (slave c) (CHGet key field)"

definition Cache_HGetAll :: "'s server \<Rightarrow> net \<Rightarrow> Cache \<Rightarrow> string \<Rightarrow> 's cache_call" where
  "Cache_HGetAll S n c key = client_call S n (slave c) (CHGetAll key)"

definition Cache_HKeys :: "'s server \<Rightarrow> net \<Rightarrow> Cache \<Rightarrow> string \<Rightarrow> 's cache_call" where
  "Cache_HKeys S n c key = client_call S n (slave c) (CHKeys key)"

definition Cache_HLen :: "'s server \<Rightarrow> net \<Rightarrow> Cache \<Rightarrow> string \<Rightarrow> 's cache_call" where
  "Cache_HLen S n c key = client_call S n (slave c) (CHLen key)"

definition Cache_HMGet :: "'s server \<Rightarrow> net \<Rightarrow> Cache \<Rightarrow> string \<Rightarrow> string list \<Rightarrow> 's cache_call" where
  "Cache_HMGet S n c key flds = client_call S n (slave c) (CHMGet key flds)"

definition Cache_HVals :: "'s server \<Rightarrow> net \<Rightarrow> Cache \<Rightarrow> string \<Rightarrow> 's cache_call" where
  "Cache_HVals S n c key = client_call S n (slave c) (CHVals key)"

definition Cache_SIsMember :: "'s server \<Rightarrow> net \<Rightarrow> Cache \<Rightarrow> string \<Rightarrow> string \<Rightarrow> 's cache_call" where
  "Cache_SIsMember S n c key member = client_call S n (slave c) (CSIsMember key member)"

definition Cache_SMultiIsMember :: "'s server \<Rightarrow> net \<Rightarrow> Cache \<Rightarrow> string \<Rightarrow> string list \<Rightarrow> 's cache_call" where
  "Cache_SMultiIsMember S n c key members = client_call S n (slave c) (CSMIsMember key members)"

definition Cache_SMembers :: "'s server \<Rightarrow> net \<Rightarrow> Cache \<Rightarrow> string \<Rightarrow> 's cache_call" where
  "Cache_SMembers S n c key = client_call S n (slave c) (CSMembers key)"

text \<open>Methods that do more than one command. The sleep between the two deletions is \<open>meanwhile\<close>, what others
  do to the world in that time.\<close>

definition Cache_KeyDelayDoubleDel ::
    "'s server \<Rightarrow> net \<Rightarrow> net \<Rightarrow> Cache \<Rightarrow> ('s world \<Rightarrow> 's world) \<Rightarrow> string list \<Rightarrow> 's cache_call" where
  "Cache_KeyDelayDoubleDel S n1 n2 c meanwhile keys w =
     bind_outcome (client_call S n1 (master c) (CDel keys) w) (\<lambda>(res, w).
       case res of
         Inl err \<Rightarrow> Ret (Inl err, w)
       | Inr _ \<Rightarrow> client_call S n2 (master c) (CDel keys) (meanwhile w))"

text \<open>\<open>unjson\<close> is \<open>json.Unmarshal\<close> into the caller's variable.\<close>

definition from_json :: "(string \<Rightarrow> 'v option) \<Rightarrow> string + reply \<Rightarrow> string + 'v" where
  "from_json unjson res =
     (case res of
        Inl err \<Rightarrow> Inl err
      | Inr r \<Rightarrow> (case (case r of RStr jsonStr \<Rightarrow> unjson jsonStr | _ \<Rightarrow> None) of
                   None \<Rightarrow> Inl ''json'' | Some v \<Rightarrow> Inr v))"

definition Cache_GetJson ::
    "'s server \<Rightarrow> net \<Rightarrow> Cache \<Rightarrow> (string \<Rightarrow> 'v option) \<Rightarrow> string \<Rightarrow> 's world \<Rightarrow> ((string + 'v) \<times> 's world) outcome" where
  "Cache_GetJson S n c unjson key w =
     bind_outcome (client_call S n (slave c) (CGet key) w) (\<lambda>(res, w). Ret (from_json unjson res, w))"

definition Cache_SetJson ::
    "'s server \<Rightarrow> net \<Rightarrow> Cache \<Rightarrow> ('v \<Rightarrow> string option) \<Rightarrow> string \<Rightarrow> 'v \<Rightarrow> int \<Rightarrow> 's cache_call" where
  "Cache_SetJson S n c json key val expiry w =
     (case json val of
        None \<Rightarrow> Ret (Inl ''json'', w)
      | Some jsonStr \<Rightarrow> client_call S n (master c) (CSet key jsonStr expiry) w)"

definition Cache_HGetJson ::
    "'s server \<Rightarrow> net \<Rightarrow> Cache \<Rightarrow> (string \<Rightarrow> 'v option) \<Rightarrow> string \<Rightarrow> string \<Rightarrow> 's world
       \<Rightarrow> ((string + 'v) \<times> 's world) outcome" where
  "Cache_HGetJson S n c unjson key field w =
     bind_outcome (client_call S n (slave c) (CHGet key field) w) (\<lambda>(res, w). Ret (from_json unjson res, w))"

definition Cache_HSetJson ::
    "'s server \<Rightarrow> net \<Rightarrow> Cache \<Rightarrow> ('v \<Rightarrow> string option) \<Rightarrow> string \<Rightarrow> string \<Rightarrow> 'v \<Rightarrow> 's cache_call" where
  "Cache_HSetJson S n c json key field val w =
     (case json val of
        None \<Rightarrow> Ret (Inl ''json'', w)
      | Some jsonStr \<Rightarrow> client_call S n (master c) (CHSet key [(field, jsonStr)]) w)"

definition Cache_HDel ::
    "'s server \<Rightarrow> net \<Rightarrow> Cache \<Rightarrow> string \<Rightarrow> string list \<Rightarrow> 's world \<Rightarrow> ((string + bool) \<times> 's world) outcome" where
  "Cache_HDel S n c key flds w =
     bind_outcome (client_call S n (master c) (CHDel key flds) w) (\<lambda>(res, w).
       Ret (case res of Inl err \<Rightarrow> Inl err | Inr v \<Rightarrow> Inr (case v of RInt k \<Rightarrow> 0 < k | _ \<Rightarrow> False), w))"

text \<open>The loop over the map of errors returns one that is not nil; which one, if there are several, is
  Go's choice: the least index here.\<close>

definition first_error :: "(nat \<rightharpoonup> string option) option \<Rightarrow> nat \<Rightarrow> string option" where
  "first_error errMap k =
     (case errMap of
        None \<Rightarrow> None
      | Some m \<Rightarrow> (case filter (\<lambda>i. m i \<noteq> None \<and> m i \<noteq> Some None) [0..<k] of
                     [] \<Rightarrow> None
                   | i # _ \<Rightarrow> the (m i)))"

definition Cache_HMSetAndExpiry ::
    "'s server \<Rightarrow> net \<Rightarrow> Cache \<Rightarrow> string \<Rightarrow> (string \<times> string) list \<Rightarrow> int \<Rightarrow> 's world
       \<Rightarrow> ((string + bool) \<times> 's world) outcome" where
  "Cache_HMSetAndExpiry S n c key vals expiry w =
     bind_outcome (Batch S n c [CHMSet key vals, CExpire key expiry] w) (\<lambda>((_, errMap), w).
       Ret (case first_error errMap 2 of Some v \<Rightarrow> Inl v | None \<Rightarrow> Inr True, w))"

section \<open>Laws of the server\<close>

text \<open>\<open>g s k\<close> is the string a server in state \<open>s\<close> keeps under \<open>k\<close>. A command that answers an error has no
  effect; \<open>GET\<close> has none at all.\<close>

definition server_laws :: "'s server \<Rightarrow> ('s \<Rightarrow> string \<Rightarrow> string option) \<Rightarrow> bool" where
  "server_laws S g \<longleftrightarrow>
     (\<forall>k s. snd (sv_exec S (CGet k) s) = s) \<and>
     (\<forall>k v s. g s k = Some v \<longrightarrow> fst (sv_exec S (CGet k) s) = RStr v) \<and>
     (\<forall>k s. g s k = None \<longrightarrow> (\<exists>e. cmd_result (fst (sv_exec S (CGet k) s)) = Inl e)) \<and>
     (\<forall>k v t s. g (snd (sv_exec S (CSet k v t) s)) =
        (case cmd_result (fst (sv_exec S (CSet k v t) s)) of Inl _ \<Rightarrow> g s | Inr _ \<Rightarrow> (g s)(k \<mapsto> v))) \<and>
     (\<forall>ks s. g (snd (sv_exec S (CDel ks) s)) =
        (case cmd_result (fst (sv_exec S (CDel ks) s)) of
           Inl _ \<Rightarrow> g s | Inr _ \<Rightarrow> (\<lambda>k. if k \<in> set ks then None else g s k)))"

lemma server_laws_dest:
  assumes "server_laws S g"
  shows "snd (sv_exec S (CGet k) s) = s"
    and "g s k = Some v \<Longrightarrow> fst (sv_exec S (CGet k) s) = RStr v"
    and "g s k = None \<Longrightarrow> \<exists>e. cmd_result (fst (sv_exec S (CGet k) s)) = Inl e"
    and "cmd_result (fst (sv_exec S (CSet k v t) s)) = Inr r \<Longrightarrow> g (snd (sv_exec S (CSet k v t) s)) = (g s)(k \<mapsto> v)"
    and "cmd_result (fst (sv_exec S (CSet k v t) s)) = Inl e \<Longrightarrow> g (snd (sv_exec S (CSet k v t) s)) = g s"
    and "cmd_result (fst (sv_exec S (CDel ks) s)) = Inr r \<Longrightarrow>
      g (snd (sv_exec S (CDel ks) s)) = (\<lambda>k. if k \<in> set ks then None else g s k)"
    and "cmd_result (fst (sv_exec S (CDel ks) s)) = Inl e \<Longrightarrow> g (snd (sv_exec S (CDel ks) s)) = g s"
  using assms unfolding server_laws_def by simp_all

text \<open>A server of strings without expiry; it refuses every other command. Its transactions run the
  commands in order and answer the first error.\<close>

definition map_exec :: "redis_cmd \<Rightarrow> (string \<Rightarrow> string option) \<Rightarrow> reply \<times> (string \<Rightarrow> string option)" where
  "map_exec cmd s =
     (case cmd of
        CGet k \<Rightarrow> (case s k of None \<Rightarrow> RNil | Some v \<Rightarrow> RStr v, s)
      | CSet k v t \<Rightarrow> (RStatus ''OK'', s(k \<mapsto> v))
      | CDel ks \<Rightarrow> (RInt (int (length ks)), \<lambda>k. if k \<in> set ks then None else s k)
      | CPing \<Rightarrow> (RStatus ''PONG'', s)
      | _ \<Rightarrow> (RErr ''unknown command'', s))"

fun map_tx :: "redis_cmd list \<Rightarrow> (string \<Rightarrow> string option)
    \<Rightarrow> (string option \<times> (cmd_kind \<times> reply) list) \<times> (string \<Rightarrow> string option)" where
  "map_tx [] s = ((None, []), s)"
| "map_tx (cmd # cmds) s =
     (let (r, s1) = map_exec cmd s; ((err, rs), s2) = map_tx cmds s1
      in ((case cmd_result r of Inl e \<Rightarrow> Some e | Inr _ \<Rightarrow> err, (KString, r) # rs), s2))"

definition map_server :: "(string \<Rightarrow> string option) server" where
  "map_server = \<lparr>sv_exec = map_exec, sv_tx = map_tx, sv_close = (\<lambda>closed. if closed then Some errClosed else None)\<rparr>"

lemma map_exec_simps [simp]:
  "map_exec (CGet k) s = (case s k of None \<Rightarrow> RNil | Some v \<Rightarrow> RStr v, s)"
  "map_exec (CSet k v t) s = (RStatus ''OK'', s(k \<mapsto> v))"
  "map_exec (CDel ks) s = (RInt (int (length ks)), \<lambda>k. if k \<in> set ks then None else s k)"
  "map_exec CPing s = (RStatus ''PONG'', s)"
  by (simp_all add: map_exec_def)

lemma map_server_simps [simp]:
  "sv_exec map_server = map_exec" "sv_tx map_server = map_tx"
  "sv_close map_server closed = (if closed then Some errClosed else None)"
  by (simp_all add: map_server_def)

lemma cmd_result_simps [simp]:
  "cmd_result RNil = Inl ''redis: nil''" "cmd_result (RErr e) = Inl e" "cmd_result (RStr v) = Inr (RStr v)"
  "cmd_result (RStatus v) = Inr (RStatus v)" "cmd_result (RInt i) = Inr (RInt i)"
  by (simp_all add: cmd_result_def)

lemma map_server_laws: "server_laws map_server (\<lambda>s. s)"
  unfolding server_laws_def by simp

section \<open>Calls\<close>

lemma bind_pair_Ret:
  assumes "bind_outcome m (\<lambda>(r, w). f r w) = Ret y"
  obtains r w where "m = Ret (r, w)" "f r w = Ret y"
  using assms by (auto simp: bind_outcome_Ret_iff)

text \<open>A call through an open client that answered changed the server it talks to and nothing else.\<close>

lemma client_call_open:
  assumes "\<not> wd_closed w a"
  shows "client_call S Reply (Some a) cmd w =
    Ret (cmd_result (fst (sv_exec S cmd (wd_srv w (wd_addr w a)))),
         w\<lparr>wd_srv := (wd_srv w)(wd_addr w a := snd (sv_exec S cmd (wd_srv w (wd_addr w a))))\<rparr>)"
  using assms by (simp add: client_call_def call_redis_def Let_def)

lemma client_call_world:
  assumes "client_call S n cl cmd w = Ret (res, w')"
  shows "wd_closed w' = wd_closed w" "wd_addr w' = wd_addr w" "wd_next w' = wd_next w"
  using assms by (auto simp: client_call_def Let_def split: option.splits if_splits prod.splits)

lemma client_call_Inr:
  assumes "client_call S n cl cmd w = Ret (Inr r, w')"
  obtains a where "cl = Some a" "\<not> wd_closed w a"
    and "cmd_result (fst (sv_exec S cmd (wd_srv w (wd_addr w a)))) = Inr r"
    and "w' = w\<lparr>wd_srv := (wd_srv w)(wd_addr w a := snd (sv_exec S cmd (wd_srv w (wd_addr w a))))\<rparr>"
  using assms
  by (auto simp: client_call_def call_redis_def Let_def split: option.splits if_splits net.splits)

lemma client_call_get:
  assumes "server_laws S g" "\<not> wd_closed w a"
  shows "client_call S Reply (Some a) (CGet k) w = Ret (cmd_result (fst (sv_exec S (CGet k) (wd_srv w (wd_addr w a)))), w)"
  by (simp add: client_call_open [OF assms(2)] server_laws_dest(1) [OF assms(1)])

section \<open>Properties\<close>

text \<open>Whatever other clients write while \<open>KeyDelayDoubleDel\<close> sleeps: when it returns without an error, the
  master keeps none of the keys.\<close>

theorem cache_double_delete:
  assumes "server_laws S g"
    and "Cache_KeyDelayDoubleDel S n1 n2 c meanwhile keys w = Ret (Inr r, w')"
  shows "\<exists>a. master c = Some a \<and> (\<forall>k\<in>set keys. g (wd_srv w' (wd_addr w' a)) k = None)"
proof -
  obtain v w1 where "client_call S n1 (master c) (CDel keys) w = Ret (v, w1)" and v: "(case v of Inl err \<Rightarrow> Ret (Inl err, w1)
      | Inr _ \<Rightarrow> client_call S n2 (master c) (CDel keys) (meanwhile w1)) = Ret (Inr r, w')"
    using assms(2) unfolding Cache_KeyDelayDoubleDel_def by (rule bind_pair_Ret)
  from v have "client_call S n2 (master c) (CDel keys) (meanwhile w1) = Ret (Inr r, w')" by (cases v) auto
  from client_call_Inr [OF this] obtain a where "master c = Some a"
    and r: "cmd_result (fst (sv_exec S (CDel keys) (wd_srv (meanwhile w1) (wd_addr (meanwhile w1) a)))) = Inr r"
    and w': "w' = (meanwhile w1)\<lparr>wd_srv := (wd_srv (meanwhile w1))(wd_addr (meanwhile w1) a :=
        snd (sv_exec S (CDel keys) (wd_srv (meanwhile w1) (wd_addr (meanwhile w1) a))))\<rparr>" by blast
  with server_laws_dest(6) [OF assms(1) r] show ?thesis by simp
qed

definition demo_world :: "(string \<Rightarrow> string option) world" where
  "demo_world = \<lparr>wd_closed = (\<lambda>_. False), wd_addr = (\<lambda>a. if a = 0 then ''m'' else ''r''), wd_next = 2,
     wd_srv = (\<lambda>_. Map.empty)\<rparr>"

lemma cache_double_delete_witness:
  "\<exists>w'. Cache_KeyDelayDoubleDel map_server Reply Reply \<lparr>master = Some 0, slave = Some 0\<rparr>
      (\<lambda>w. w\<lparr>wd_srv := \<lambda>_. [''k'' \<mapsto> ''old'']\<rparr>) [''k''] demo_world = Ret (Inr (RInt 1), w')
    \<and> (\<exists>a. a = 0 \<and> (\<forall>k\<in>{''k''}. wd_srv w' (wd_addr w' a) k = None))"
proof -
  let ?w = "demo_world\<lparr>wd_srv := (\<lambda>_. [''k'' \<mapsto> ''old''])(''m'' := \<lambda>k. if k = ''k'' then None else [''k'' \<mapsto> ''old''] k)\<rparr>"
  have e: "Cache_KeyDelayDoubleDel map_server Reply Reply \<lparr>master = Some 0, slave = Some 0\<rparr>
      (\<lambda>w. w\<lparr>wd_srv := \<lambda>_. [''k'' \<mapsto> ''old'']\<rparr>) [''k''] demo_world = Ret (Inr (RInt 1), ?w)"
    by (simp add: Cache_KeyDelayDoubleDel_def client_call_def call_redis_def demo_world_def)
  from cache_double_delete [OF map_server_laws e] e show ?thesis by auto
qed

text \<open>A value stored with \<open>SetJson\<close> is what \<open>GetJson\<close> returns next when the replica's client talks to the
  master's server; with a replica of its own, \<open>GetJson\<close> returns what it would have returned before.\<close>

theorem cache_json_set_get:
  assumes "server_laws S g" "\<And>v s. json v = Some s \<Longrightarrow> unjson s = Some v"
    and "slave c = Some b" "\<not> wd_closed w b" "master c = Some a"
    and "Cache_SetJson S n c json key val expiry w = Ret (Inr r, w')"
  shows "Cache_GetJson S Reply c unjson key w' =
    (if wd_addr w a = wd_addr w b then Ret (Inr val, w')
     else bind_outcome (Cache_GetJson S Reply c unjson key w) (\<lambda>(old, _). Ret (old, w')))"
proof -
  obtain s where s: "json val = Some s" and c: "client_call S n (master c) (CSet key s expiry) w = Ret (Inr r, w')"
    using assms(6) by (auto simp: Cache_SetJson_def split: option.splits)
  from client_call_Inr [OF c] assms(5)
  have r: "cmd_result (fst (sv_exec S (CSet key s expiry) (wd_srv w (wd_addr w a)))) = Inr r"
    and w': "w' = w\<lparr>wd_srv := (wd_srv w)(wd_addr w a := snd (sv_exec S (CSet key s expiry) (wd_srv w (wd_addr w a))))\<rparr>"
    by auto
  have o: "\<not> wd_closed w' b" using assms(4) by (simp add: w')
  show ?thesis
  proof (cases "wd_addr w a = wd_addr w b")
    case True
    then have "g (wd_srv w' (wd_addr w' b)) key = Some s"
      using server_laws_dest(4) [OF assms(1) r] by (simp add: w')
    then have "client_call S Reply (Some b) (CGet key) w' = Ret (Inr (RStr s), w')"
      using client_call_get [OF assms(1) o] server_laws_dest(2) [OF assms(1)] by simp
    then show ?thesis using True assms(2) [OF s] by (simp add: Cache_GetJson_def assms(3) from_json_def)
  next
    case False
    then have "wd_srv w' (wd_addr w' b) = wd_srv w (wd_addr w b)" by (simp add: w')
    then show ?thesis
      using False client_call_get [OF assms(1) o, of key] client_call_get [OF assms(1,4), of key]
      by (simp add: Cache_GetJson_def assms(3))
  qed
qed

lemma cache_json_set_get_witness:
  "\<exists>w'. Cache_GetJson map_server Reply \<lparr>master = Some 0, slave = Some 1\<rparr> Some ''k'' w' = Ret (Inl ''redis: nil'', w')"
proof -
  let ?c = "\<lparr>master = Some 0, slave = Some 1\<rparr>"
  let ?w = "demo_world\<lparr>wd_srv := (\<lambda>_. Map.empty)(''m'' := [''k'' \<mapsto> ''v''])\<rparr>"
  have e: "Cache_SetJson map_server Reply ?c Some ''k'' ''v'' 60 demo_world = Ret (Inr (RStatus ''OK''), ?w)"
    by (simp add: Cache_SetJson_def client_call_def call_redis_def demo_world_def)
  have g: "Cache_GetJson map_server Reply ?c Some ''k'' demo_world = Ret (Inl ''redis: nil'' :: string + string, demo_world)"
    by (simp add: Cache_GetJson_def client_call_def call_redis_def demo_world_def from_json_def fun_upd_idem)
  have "Cache_GetJson map_server Reply ?c Some ''k'' ?w =
      bind_outcome (Cache_GetJson map_server Reply ?c Some ''k'' demo_world) (\<lambda>(old, _). Ret (old, ?w))"
    using cache_json_set_get [OF map_server_laws _ _ _ _ e, of Some 1 0] by (simp add: demo_world_def)
  with g show ?thesis by auto
qed

text \<open>A cache made without a replica closes its only client twice: \<open>Close\<close> reports that the client is closed,
  although everything was released, and every later call panics.\<close>

theorem cache_close_shared:
  assumes "NewCache S n1 n2 masterOpt None w = Ret (Inr c, w1)"
    and "sv_close S False = None" "sv_close S True = Some errClosed"
    and "Cache_Close S c w1 = (err, c', w2)"
  shows "err = Some errClosed \<and> c' = \<lparr>master = None, slave = None\<rparr> \<and> wd_closed w2 (the (master c))
    \<and> Cache_Get S n c' key w2 = Panic ''nil pointer dereference''"
proof -
  let ?a = "wd_next w"
  obtain pong w0 where p: "client_call S n1 (Some ?a) CPing (snd (redis_client masterOpt w)) = Ret (pong, w0)"
    and p2: "(case pong of Inl err \<Rightarrow> Ret (Inl err, w0)
      | Inr _ \<Rightarrow> Ret (Inr \<lparr>master = Some ?a, slave = Some ?a\<rparr>, w0)) = Ret (Inr c, w1)"
    using assms(1) unfolding NewCache_def redis_client_def Let_def prod.case option.case snd_conv by (rule bind_pair_Ret)
  from p2 have c: "c = \<lparr>master = Some ?a, slave = Some ?a\<rparr>" and "w1 = w0" by (auto split: sum.splits)
  with client_call_world(1) [OF p] have o: "\<not> wd_closed w1 ?a" by (simp add: redis_client_def)
  with c have "Cache_Close S c w1 = (Some errClosed, \<lparr>master = None, slave = None\<rparr>, w1\<lparr>wd_closed := (wd_closed w1)(?a := True)\<rparr>)"
    by (simp add: Cache_Close_def close_client_def assms(2,3))
  with assms(4) c show ?thesis
    by (auto simp: Cache_Get_def client_call_def)
qed

lemma cache_close_shared_witness:
  "\<exists>c w1 err c' w2. NewCache map_server Reply Reply ''m'' None demo_world = Ret (Inr c, w1)
    \<and> Cache_Close map_server c w1 = (err, c', w2) \<and> err = Some errClosed"
proof -
  obtain c w1 where e: "NewCache map_server Reply Reply ''m'' None demo_world = Ret (Inr c, w1)"
    by (simp add: NewCache_def redis_client_def client_call_def call_redis_def demo_world_def)
  obtain err c' w2 where cl: "Cache_Close map_server c w1 = (err, c', w2)" by (metis prod_cases3)
  have "err = Some errClosed" using cache_close_shared [OF e _ _ cl] by simp
  with e cl show ?thesis by blast
qed

section \<open>What a transaction reports\<close>

definition reply_error :: "reply \<Rightarrow> string option" where
  "reply_error r = (case cmd_result r of Inl e \<Rightarrow> Some e | Inr _ \<Rightarrow> None)"

text \<open>The entries of the two maps: one per listed command, under its position.\<close>

lemma cmd_results_entries:
  "cmd_results idx cs (sm, em) =
    (\<lambda>j. if idx \<le> j \<and> j < idx + length cs \<and> kind_listed (fst (cs ! (j - idx)))
         then Some (snd (cs ! (j - idx))) else sm j,
     \<lambda>j. if idx \<le> j \<and> j < idx + length cs \<and> kind_listed (fst (cs ! (j - idx)))
         then Some (reply_error (snd (cs ! (j - idx)))) else em j)"
proof (induction cs arbitrary: idx sm em)
  case (Cons x cs)
  obtain k r where x: "x = (k, r)" by (cases x)
  have nth: "((k, r) # cs) ! (j - idx) = (if j = idx then (k, r) else cs ! (j - Suc idx))" if "idx \<le> j" for j
  proof (cases "j = idx")
    case False
    with that have "j - idx = Suc (j - Suc idx)" by arith
    with False show ?thesis by simp
  qed simp
  show ?case
    unfolding x
    by (auto simp: Cons.IH fun_eq_iff nth reply_error_def Suc_le_eq)
qed (auto simp: fun_eq_iff)

text \<open>What the library's documentation says of \<open>Exec\<close>: it returns the error of the first failed command.\<close>

definition tx_first_error :: "'s server \<Rightarrow> bool" where
  "tx_first_error S \<longleftrightarrow>
     (\<forall>cmds s. case sv_tx S cmds s of ((err, cmders), _) \<Rightarrow>
        length cmders = length cmds \<and>
        err = (case filter (\<lambda>(_, r). reply_error r \<noteq> None) cmders of [] \<Rightarrow> None | (_, r) # _ \<Rightarrow> reply_error r))"

lemma map_tx_first_error: "tx_first_error map_server"
proof -
  have "case map_tx cmds s of ((err, cmders), _) \<Rightarrow>
        length cmders = length cmds \<and>
        err = (case filter (\<lambda>(_, r). reply_error r \<noteq> None) cmders of [] \<Rightarrow> None | (_, r) # _ \<Rightarrow> reply_error r)"
    for cmds s
    by (induction cmds s rule: map_tx.induct) (auto simp: reply_error_def split: prod.splits sum.splits)
  then show ?thesis by (simp add: tx_first_error_def)
qed

text \<open>\<open>Batch\<close> is all or nothing in what it reports: either every command succeeded, there is no error and
  every listed command has its value under its position, or there are no values at all and one error under
  position 0. So one key that is missing (a nil reply) loses the values of all the others.\<close>

theorem batch_all_or_error:
  assumes "tx_first_error S" "Batch S n c cmds w = Ret ((vals, errs), w')"
  shows "(\<exists>e. vals = None \<and> errs = Some [0 \<mapsto> Some e])
    \<or> (\<exists>cmders. length cmders = length cmds \<and> (\<forall>(k, r)\<in>set cmders. reply_error r = None)
        \<and> vals = Some (\<lambda>i. if i < length cmds \<and> kind_listed (fst (cmders ! i)) then Some (snd (cmders ! i)) else None)
        \<and> errs = Some (\<lambda>i. if i < length cmds \<and> kind_listed (fst (cmders ! i)) then Some None else None))"
proof -
  have n: "\<not> length cmders \<le> 0 \<Longrightarrow> (\<forall>(k, r)\<in>set cmders. reply_error r = None) \<Longrightarrow> getCmdResult cmders =
      (Some (\<lambda>i. if i < length cmders \<and> kind_listed (fst (cmders ! i)) then Some (snd (cmders ! i)) else None),
       Some (\<lambda>i. if i < length cmders \<and> kind_listed (fst (cmders ! i)) then Some None else None))" for cmders
    by (auto simp: getCmdResult_def cmd_results_entries fun_eq_iff split_beta)
  obtain a where a: "master c = Some a" using assms(2) by (auto simp: Batch_def split: option.splits)
  show ?thesis
  proof (cases "wd_closed w a")
    case False
    let ?s = "wd_srv w (wd_addr w a)"
    obtain err cmders s' where tx: "sv_tx S cmds ?s = ((err, cmders), s')" by (metis prod.exhaust)
    have l: "length cmders = length cmds"
      and e: "err = (case filter (\<lambda>(_, r). reply_error r \<noteq> None) cmders of [] \<Rightarrow> None | (_, r) # _ \<Rightarrow> reply_error r)"
      using assms(1) tx unfolding tx_first_error_def by (auto split: prod.splits dest!: spec [of _ cmds] spec [of _ ?s])
    show ?thesis
    proof (cases "\<exists>e. vals = None \<and> errs = Some [0 \<mapsto> Some e]")
      case ok: False
      have r: "err = None" "\<not> length cmders \<le> 0" "getCmdResult cmders = (vals, errs)"
        using assms(2) a tx ok False
        by (auto simp: Batch_def call_redis_def Let_def split: net.splits option.splits if_splits)
      have "filter (\<lambda>(_, r). reply_error r \<noteq> None) cmders = []"
      proof (cases "filter (\<lambda>(_, r). reply_error r \<noteq> None) cmders")
        case (Cons x xs)
        then have "reply_error (snd x) \<noteq> None" using Cons_eq_filterD [OF Cons [symmetric]] by auto
        with Cons e r(1) show ?thesis by (cases x) simp
      qed
      then have "\<forall>(k, r)\<in>set cmders. reply_error r = None" by (auto simp: filter_empty_conv)
      with n [OF r(2)] r(3) l show ?thesis by auto
    qed auto
  qed (use assms(2) a in \<open>auto simp: Batch_def\<close>)
qed

lemma batch_all_or_error_witness:
  "\<exists>vals errs w'. Batch map_server Reply \<lparr>master = Some 0, slave = Some 0\<rparr> [CSet ''k'' ''v'' 0, CGet ''none'', CGet ''k''] demo_world
     = Ret ((vals, errs), w') \<and> vals = None"
proof -
  obtain vals errs w' where e: "Batch map_server Reply \<lparr>master = Some 0, slave = Some 0\<rparr>
      [CSet ''k'' ''v'' 0, CGet ''none'', CGet ''k''] demo_world = Ret ((vals, errs), w')"
    and m: "errs = Some [0 \<mapsto> Some ''redis: nil'']"
    by (auto simp: Batch_def call_redis_def demo_world_def)
  from batch_all_or_error [OF map_tx_first_error e] m have "vals = None"
    by (auto simp: fun_eq_iff dest!: spec [of _ "0::nat"] split: if_splits)
  with e show ?thesis by blast
qed

end
