(* ===== verification/DbValues.thy ===== *)
theory DbValues
  imports MapX IdTypes
begin

text \<open>
  \<open>pkg/db\<close>: values stored as JSON in a column (\<open>marshaler.go\<close>: \<open>List\<close> and \<open>Object\<close>; \<open>json.go\<close>: \<open>JSON\<close>) and
  the errors of the database (\<open>bun.go\<close>). The JSON codec of the element type is a parameter; a database hands a
  column to \<open>Scan\<close> as NULL, bytes or a string (\<open>dbval\<close> of \<open>IdTypes\<close>). \<open>Scan\<close> and \<open>UnmarshalJSON\<close> write the
  receiver, so they take its old value.
\<close>

section \<open>Errors of the database\<close>

text \<open>\<open>PgErr\<close> has the fields of a PostgreSQL error by their byte; \<open>Wrapped\<close> is an error around another.\<close>

datatype db_error = PgErr "char \<Rightarrow> string" | ErrNoRows | DbErr string | Wrapped string db_error

definition ToPGError :: "db_error option \<Rightarrow> (char \<Rightarrow> string) option \<times> bool" where
  "ToPGError err =
     (case err of
        None \<Rightarrow> (None, False)
      | Some (PgErr fld) \<Rightarrow> (Some fld, True)
      | Some _ \<Rightarrow> (Some (\<lambda>_. []), False))"

definition IsPGErrorCode :: "db_error option \<Rightarrow> string \<Rightarrow> bool" where
  "IsPGErrorCode err code =
     (let (er, ok) = ToPGError err in
      if \<not> ok then False else (case er of None \<Rightarrow> False | Some fld \<Rightarrow> fld CHR ''C'' = code))"

definition IsPGInvalidTransactionState :: "db_error option \<Rightarrow> bool" where
  "IsPGInvalidTransactionState err = IsPGErrorCode err ''25000''"

section \<open>Codecs\<close>

definition bytes_of :: "string \<Rightarrow> byte list" where "bytes_of s = map of_char s"
definition string_of :: "byte list \<Rightarrow> string" where "string_of bs = map (\<lambda>b. char_of (unat b)) bs"

text \<open>\<open>json.Marshal\<close>, and \<open>json.Unmarshal\<close> into a fresh variable: its error and what the variable holds then.\<close>

record 'a codec =
  cd_marshal :: "'a \<Rightarrow> string option"
  cd_unmarshal :: "string \<Rightarrow> string option \<times> 'a"

definition codec_law :: "'a codec \<Rightarrow> bool" where
  "codec_law C \<longleftrightarrow> (\<forall>x s. cd_marshal C x = Some s \<longrightarrow> cd_unmarshal C s = (None, x) \<and> s \<noteq> [])"

text \<open>The type switch of the \<open>Scan\<close> methods: a value of another type leaves the bytes nil.\<close>

definition raw_bytes :: "dbval \<Rightarrow> string" where
  "raw_bytes v = (case v of DBytes b \<Rightarrow> string_of b | DString s \<Rightarrow> s | _ \<Rightarrow> [])"

section \<open>List\<close>

definition List_Scan :: "'a list codec \<Rightarrow> dbval \<Rightarrow> 'a list \<Rightarrow> string option \<times> 'a list" where
  "List_Scan C v old =
     (if v = DNull then (None, old)
      else
        (let rawBytes = raw_bytes v in
         if length rawBytes = 0 \<or> rawBytes = ''null'' then (None, old)
         else case cd_unmarshal C rawBytes of
             (Some err, _) \<Rightarrow> (Some err, old)
           | (None, temp) \<Rightarrow> (None, temp)))"

definition List_Value :: "'a list codec \<Rightarrow> 'a list \<Rightarrow> string + dbval" where
  "List_Value C j =
     (if length j = 0 then Inr DNull
      else case cd_marshal C j of None \<Rightarrow> Inl ''json'' | Some data \<Rightarrow> Inr (DBytes (bytes_of data)))"

section \<open>Object\<close>

text \<open>The pointer \<open>Target\<close>.\<close>

type_synonym 'a Object = "'a option"

definition Object_Scan :: "'a codec \<Rightarrow> dbval \<Rightarrow> 'a Object \<Rightarrow> string option \<times> 'a Object" where
  "Object_Scan C v old =
     (if v = DNull then (None, None)
      else
        (let rawBytes = raw_bytes v in
         if length rawBytes = 0 \<or> rawBytes = ''null'' then (None, None)
         else case cd_unmarshal C rawBytes of
             (Some err, _) \<Rightarrow> (Some err, None)
           | (None, temp) \<Rightarrow> (None, Some temp)))"

definition Object_Value :: "'a codec \<Rightarrow> 'a Object \<Rightarrow> string + dbval" where
  "Object_Value C j =
     (case j of
        None \<Rightarrow> Inr DNull
      | Some target \<Rightarrow> (case cd_marshal C target of None \<Rightarrow> Inl ''json'' | Some data \<Rightarrow> Inr (DBytes (bytes_of data))))"

definition Object_MarshalJSON :: "'a codec \<Rightarrow> 'a Object \<Rightarrow> string option" where
  "Object_MarshalJSON C j = (case j of None \<Rightarrow> Some ''null'' | Some target \<Rightarrow> cd_marshal C target)"

definition Object_UnmarshalJSON :: "'a codec \<Rightarrow> string \<Rightarrow> 'a Object \<Rightarrow> string option \<times> 'a Object" where
  "Object_UnmarshalJSON C b old =
     (if length b = 0 \<or> b = ''null'' \<or> b = ''NULL'' then (None, None)
      else
        (let (err, target) =
           (if 2 \<le> length b \<and> hd b = quote then cd_unmarshal C (butlast (tl b)) else cd_unmarshal C b)
         in (err, Some target)))"

text \<open>\<open>GormDBDataType\<close> of all three types.\<close>

definition GormDBDataType :: "string \<Rightarrow> string" where
  "GormDBDataType dialector =
     (if dialector = ''sqlite'' then ''JSON'' else if dialector = ''mysql'' then ''JSON''
      else if dialector = ''postgres'' then ''JSONB'' else if dialector = ''sqlserver'' then ''NVARCHAR(MAX)''
      else [])"

section \<open>JSON\<close>

text \<open>\<open>JSON\<close> is \<open>MapX\<close>; the decoder of the standard library takes whether \<open>UseNumber\<close> is on.\<close>

type_synonym JSON = MapX

record map_codec =
  mc_marshal :: "(string \<times> jval) list \<Rightarrow> string option"
  mc_decode :: "bool \<Rightarrow> string \<Rightarrow> string option \<times> (string \<times> jval) list option"

definition JSON_GetValue :: "JSON \<Rightarrow> string \<Rightarrow> jval option" where "JSON_GetValue j path = GetValue j path"
definition JSON_GetBool :: "JSON \<Rightarrow> string \<Rightarrow> bool \<Rightarrow> bool" where "JSON_GetBool j path d = GetBool j path d"
definition JSON_GetString :: "JSON \<Rightarrow> string \<Rightarrow> string \<Rightarrow> string" where "JSON_GetString j path d = GetString j path d"
definition JSON_GetInt64 :: "JSON \<Rightarrow> string \<Rightarrow> int64 \<Rightarrow> int64" where "JSON_GetInt64 j path d = GetInt64 j path d"
definition JSON_GetInt :: "JSON \<Rightarrow> string \<Rightarrow> int64 \<Rightarrow> int64" where "JSON_GetInt j path d = GetInt j path d"
definition JSON_GetInt32 :: "JSON \<Rightarrow> string \<Rightarrow> int32 \<Rightarrow> int32" where "JSON_GetInt32 j path d = GetInt32 j path d"
definition JSON_SetValue :: "JSON \<Rightarrow> string \<Rightarrow> jval \<Rightarrow> map_error option \<times> JSON" where
  "JSON_SetValue j path v = SetValue j path v"
definition JSON_Delete :: "string \<Rightarrow> JSON \<Rightarrow> JSON" where "JSON_Delete key j = MapX_Delete key j"
definition JSON_Clear :: "JSON \<Rightarrow> JSON" where "JSON_Clear j = MapX_Clear j"
definition JSON_Len :: "JSON \<Rightarrow> int" where "JSON_Len j = MapX_Len j"
definition JSON_IsEmpty :: "JSON \<Rightarrow> bool" where "JSON_IsEmpty j = (JSON_Len j = 0)"

text \<open>\<open>MarshalJSON\<close> and \<open>UnmarshalJSON\<close> of \<open>MapX\<close>, which \<open>JSON\<close> calls.\<close>

definition MapX_MarshalJSON :: "map_codec \<Rightarrow> MapX \<Rightarrow> string option" where
  "MapX_MarshalJSON C m = (case m of None \<Rightarrow> Some ''null'' | Some t \<Rightarrow> mc_marshal C t)"

definition MapX_UnmarshalJSON :: "map_codec \<Rightarrow> string \<Rightarrow> MapX \<Rightarrow> string option \<times> MapX" where
  "MapX_UnmarshalJSON C b old = mc_decode C False b"

definition JSON_MarshalJSON :: "map_codec \<Rightarrow> JSON \<Rightarrow> string option" where
  "JSON_MarshalJSON C j = MapX_MarshalJSON C j"

definition JSON_UnmarshalJSON :: "map_codec \<Rightarrow> string \<Rightarrow> JSON \<Rightarrow> string option \<times> JSON" where
  "JSON_UnmarshalJSON C b old = MapX_UnmarshalJSON C b old"

definition JSON_Value :: "map_codec \<Rightarrow> JSON \<Rightarrow> string + dbval" where
  "JSON_Value C j =
     (if j = None then Inr DNull
      else case JSON_MarshalJSON C j of None \<Rightarrow> Inl ''json'' | Some ba \<Rightarrow> Inr (DBytes (bytes_of ba)))"

definition JSON_Scan :: "map_codec \<Rightarrow> dbval \<Rightarrow> JSON \<Rightarrow> string option \<times> JSON" where
  "JSON_Scan C val old =
     (let scan = (\<lambda>ba. if length ba = 0 \<or> ba = ''null'' then (None, Some []) else mc_decode C True ba)
      in case val of
           DNull \<Rightarrow> (None, Some [])
         | DBytes v \<Rightarrow> scan (string_of v)
         | DString v \<Rightarrow> scan v
         | _ \<Rightarrow> (Some ''Failed to unmarshal JSONB value'', old))"

text \<open>The expression of \<open>GormValue\<close>; \<open>mysqlVersion\<close> is the server's version when the dialector is mysql's.\<close>

datatype sql_expr = SqlNull | SqlCast string | SqlBytes "byte list" | SqlText string

definition JSON_GormValue :: "map_codec \<Rightarrow> string \<Rightarrow> string option \<Rightarrow> JSON \<Rightarrow> sql_expr" where
  "JSON_GormValue C dialector mysqlVersion jm =
     (if jm = None then SqlNull
      else
        (let data = (case JSON_MarshalJSON C jm of None \<Rightarrow> [] | Some data \<Rightarrow> data) in
         if EqualFold data ''null'' then SqlNull
         else if dialector = ''mysql'' then
           (case mysqlVersion of
              None \<Rightarrow> SqlText data
            | Some v \<Rightarrow> if \<not> Contains v ''MariaDB'' then SqlCast data else SqlText data)
         else if dialector = ''postgres'' then SqlBytes (bytes_of data)
         else SqlText data))"

section \<open>Lemmas\<close>

lemma string_of_bytes_of [simp]: "string_of (bytes_of s) = s"
proof (induction s)
  case (Cons c s)
  have "(of_char c :: byte) = of_nat (of_char c)" by (simp add: of_nat_of_char)
  then have "unat (of_char c :: byte) = of_char c" by (simp add: unsigned_of_nat take_bit_nat_eq_self)
  with Cons show ?case by (simp add: string_of_def bytes_of_def)
qed (simp add: string_of_def bytes_of_def)

lemma raw_bytes_of [simp]: "raw_bytes (DBytes (bytes_of s)) = s"
  by (simp add: raw_bytes_def)

text \<open>Documents decoded by the standard library: a number is a float or a \<open>json.Number\<close>, never an int.\<close>

fun no_ints :: "jval \<Rightarrow> bool" where
  "no_ints (JInt _ _) = False"
| "no_ints (JArr xs) = list_all no_ints xs"
| "no_ints (JMap m) = list_all (\<lambda>kv. no_ints (snd kv)) m"
| "no_ints _ = True"

definition decodes_no_ints :: "map_codec \<Rightarrow> bool" where
  "decodes_no_ints C \<longleftrightarrow> (\<forall>b s. no_ints (JMap (MapX_elems (snd (mc_decode C b s)))))"

lemma get_step_no_ints:
  assumes "no_ints v" "get_step key v = Some c"
  shows "no_ints c"
  using assms by (auto simp: get_step_def list_all_iff split: option.splits jval.splits if_splits dest!: map_of_SomeD)

lemma get_path_no_ints: "no_ints v \<Longrightarrow> get_path ks v = Some c \<Longrightarrow> no_ints c"
  by (induction ks v rule: get_path.induct) (auto split: option.splits dest: get_step_no_ints)

lemma GetValue_no_ints:
  assumes "no_ints (JMap (MapX_elems e))" "GetValue e path = Some v"
  shows "no_ints v"
  using assms get_path_no_ints [OF assms(1)] by (auto simp: GetValue_def split: if_splits)

lemma GetInt_no_ints:
  assumes "no_ints (JMap (MapX_elems e))"
  shows "GetInt e path d = (if GetValue e path = None then d else 0)"
  using GetValue_no_ints [OF assms, of path] by (auto simp: GetInt_def split: option.splits jval.splits)

section \<open>Properties\<close>

text \<open>What \<open>Value\<close> writes to the column, \<open>Scan\<close> reads back, whatever the receiver held before, for every
  \<open>Object\<close> whose encoding is not null and every list with an element. An empty list is stored as NULL, and NULL
  leaves the receiver of \<open>List.Scan\<close> as it was, while it resets the receiver of \<open>Object.Scan\<close>.\<close>

theorem column_roundtrip:
  assumes "codec_law C" "codec_law CL"
    and "Object_Value C obj = Inr v" "\<And>x. obj = Some x \<Longrightarrow> cd_marshal C x \<noteq> Some ''null''"
    and "List_Value CL xs = Inr vl" "cd_marshal CL xs \<noteq> Some ''null''"
  shows "Object_Scan C v old = (None, obj) \<and> List_Scan CL vl oldl = (None, if xs = [] then oldl else xs)"
proof (intro conjI)
  show "Object_Scan C v old = (None, obj)"
  proof (cases obj)
    case None
    then show ?thesis using assms(3) by (simp add: Object_Value_def Object_Scan_def)
  next
    case (Some x)
    then obtain s where s: "cd_marshal C x = Some s" "v = DBytes (bytes_of s)"
      using assms(3) by (auto simp: Object_Value_def split: option.splits)
    moreover have "cd_unmarshal C s = (None, x)" "s \<noteq> []" using assms(1) s(1) by (auto simp: codec_law_def)
    ultimately show ?thesis using assms(4) [OF Some] by (simp add: Object_Scan_def Some Let_def)
  qed
  show "List_Scan CL vl oldl = (None, if xs = [] then oldl else xs)"
  proof (cases "xs = []")
    case False
    then obtain s where s: "cd_marshal CL xs = Some s" "vl = DBytes (bytes_of s)"
      using assms(5) by (auto simp: List_Value_def split: option.splits)
    moreover have "cd_unmarshal CL s = (None, xs)" "s \<noteq> []" using assms(2) s(1) by (auto simp: codec_law_def)
    ultimately show ?thesis using assms(6) False by (simp add: List_Scan_def Let_def)
  qed (use assms(5) in \<open>simp add: List_Value_def List_Scan_def\<close>)
qed

text \<open>A codec of lists of flags, and one of names.\<close>

definition flags_codec :: "bool list codec" where
  "flags_codec = \<lparr>cd_marshal = (\<lambda>xs. Some (''['' @ map (\<lambda>b. if b then CHR ''1'' else CHR ''0'') xs @ '']'')),
     cd_unmarshal = (\<lambda>s. (None, map (\<lambda>c. c = CHR ''1'') (butlast (tl s))))\<rparr>"

lemma flags_codec_law: "codec_law flags_codec"
  by (simp add: codec_law_def flags_codec_def comp_def)

definition name_codec :: "string codec" where
  "name_codec = \<lparr>cd_marshal = (\<lambda>x. Some ([quote] @ x @ [quote])),
     cd_unmarshal = (\<lambda>s. if 2 \<le> length s \<and> hd s = quote \<and> last s = quote then (None, butlast (tl s))
                          else (Some ''invalid character'', []))\<rparr>"

lemma name_codec_law: "codec_law name_codec"
  by (simp add: codec_law_def name_codec_def)

lemma column_roundtrip_witness:
  "Object_Scan name_codec (DBytes (bytes_of [quote, CHR ''x'', quote])) (Some ''y'') = (None, Some ''x'')
   \<and> List_Scan flags_codec DNull [True] = (None, [True])"
  using column_roundtrip [OF name_codec_law flags_codec_law, where obj = "Some ''x''" and xs = "[]" and vl = DNull
      and v = "DBytes (bytes_of [quote, CHR ''x'', quote])" and old = "Some ''y''" and oldl = "[True]"]
  by (simp add: Object_Value_def List_Value_def name_codec_def flags_codec_def quote_def)

text \<open>\<open>Object\<close> in JSON: an encoding that is not a JSON string is read back; of a JSON string
  \<open>UnmarshalJSON\<close> decodes what is between the quotes, which is not JSON unless the string holds JSON.\<close>

theorem object_json_roundtrip:
  assumes "codec_law C" "Object_MarshalJSON C obj = Some b"
    and "\<And>x. obj = Some x \<Longrightarrow> b \<noteq> ''null'' \<and> b \<noteq> ''NULL''"
  shows "Object_UnmarshalJSON C b old =
    (if 2 \<le> length b \<and> hd b = quote then (let (err, x) = cd_unmarshal C (butlast (tl b)) in (err, Some x))
     else (None, obj))"
proof (cases obj)
  case None
  then show ?thesis using assms(2) by (auto simp: Object_MarshalJSON_def Object_UnmarshalJSON_def quote_def)
next
  case (Some x)
  then have "cd_unmarshal C b = (None, x)" "b \<noteq> []"
    using assms(1,2) by (auto simp: Object_MarshalJSON_def codec_law_def)
  with Some assms(3) [OF Some] show ?thesis by (simp add: Object_UnmarshalJSON_def)
qed

lemma object_json_roundtrip_witness:
  "Object_UnmarshalJSON flags_codec ''[10]'' (Some []) = (None, Some [True, False])
   \<and> fst (Object_UnmarshalJSON name_codec [quote, CHR ''x'', quote] None) = Some ''invalid character''"
  using object_json_roundtrip [OF flags_codec_law, of "Some [True, False]" "''[10]''" "Some []"]
    object_json_roundtrip [OF name_codec_law, of "Some ''x''" "[quote, CHR ''x'', quote]" None]
  by (simp add: Object_MarshalJSON_def flags_codec_def name_codec_def quote_def)

text \<open>The integer readers of a \<open>JSON\<close> that came from the database or from a document give 0 for every
  value that is there, whatever its number: the decoder makes floats or \<open>json.Number\<close>, and \<open>GetInt\<close> looks for
  Go's integer types only.\<close>

theorem decoded_numbers_read_zero:
  assumes "decodes_no_ints C"
    and "JSON_Scan C v old = (None, j) \<or> JSON_UnmarshalJSON C doc old = (None, j)"
  shows "JSON_GetInt j path d = (if JSON_GetValue j path = None then d else 0)
    \<and> JSON_GetInt64 j path d = (if JSON_GetValue j path = None then d else 0)"
proof -
  have "no_ints (JMap (MapX_elems j))"
    using assms
    by (auto simp: decodes_no_ints_def JSON_Scan_def JSON_UnmarshalJSON_def MapX_UnmarshalJSON_def MapX_elems_def Let_def
        split: dbval.splits if_splits dest: spec [of _ True] spec [of _ False])
      (metis MapX_elems_def option.simps(4,5) snd_conv)+
  then show ?thesis
    using GetInt_no_ints by (simp_all add: JSON_GetInt_def JSON_GetValue_def JSON_GetInt64_def GetInt64_def)
qed

lemma decoded_numbers_read_zero_witness:
  "JSON_GetInt (Some [(''n'', JOther ''7'')]) ''n'' 5 = 0"
proof -
  define C where "C = \<lparr>mc_marshal = (\<lambda>_. None), mc_decode = (\<lambda>_ s. (None, Some [(''n'', JOther s)]))\<rparr>"
  have l: "decodes_no_ints C" by (simp add: C_def decodes_no_ints_def MapX_elems_def)
  have s: "JSON_Scan C (DString ''7'') None = (None, Some [(''n'', JOther ''7'')])"
    by (simp add: C_def JSON_Scan_def)
  have "JSON_GetValue (Some [(''n'', JOther ''7'')]) ''n'' = Some (JOther ''7'')" by code_simp
  with decoded_numbers_read_zero [OF l disjI1 [OF s], of "''n''" 5] show ?thesis by simp
qed

section \<open>Column types\<close>

text \<open>The column types of \<open>JSON\<close> and of \<open>Object\<close> by the dialect's name.\<close>

definition JSON_GormDataType :: string where "JSON_GormDataType = ''db.JSON''"

definition JSON_GormDBDataType :: "string \<Rightarrow> string" where
  "JSON_GormDBDataType dialect =
     (if dialect = ''sqlite'' then ''JSON''
      else if dialect = ''mysql'' then ''JSON''
      else if dialect = ''postgres'' then ''JSONB''
      else if dialect = ''sqlserver'' then ''NVARCHAR(MAX)''
      else [])"

definition Object_GormDBDataType :: "string \<Rightarrow> string" where
  "Object_GormDBDataType dialect =
     (if dialect = ''sqlite'' then ''JSON''
      else if dialect = ''mysql'' then ''JSON''
      else if dialect = ''postgres'' then ''JSONB''
      else if dialect = ''sqlserver'' then ''NVARCHAR(MAX)''
      else [])"

lemma same_column_type: "Object_GormDBDataType = JSON_GormDBDataType"
  by (simp add: fun_eq_iff Object_GormDBDataType_def JSON_GormDBDataType_def)

end
