(* ===== verification/Users.thy ===== *)
theory Users
  imports CacheClient DbValues Auth
begin

text \<open>
  \<open>internal/app/features/users\<close> and the hooks of \<open>internal/app/models\<close>: the user store, which keeps rows of
  the database in the cache, and the service on it. The database is a parameter (\<open>users_db\<close>); the cache is
  the one of \<open>CacheClient\<close>. A user is the record of \<open>Auth\<close> with its other columns.
\<close>

section \<open>Models\<close>

record UserModel = User +
  um_Name :: string
  um_Password :: string
  um_Role :: int32
  um_Profiles :: "string Object" \<comment> \<open>the avatar\<close>
  um_Invite :: "(UID \<times> int \<times> int) Object"
  um_CreatedAt :: int
  um_UpdatedAt :: int
  um_DeletedAt :: int

record UserIP =
  ip_ID :: UID
  ip_Register :: string
  ip_Latest :: string
  ip_CreatedAt :: int
  ip_UpdatedAt :: int

record UserAccountBinding =
  ab_ID :: UID
  ab_AccountType :: int32
  ab_Account :: string
  ab_UserID :: UID
  ab_CreatedAt :: int
  ab_UpdatedAt :: int

datatype bun_query = InsertQuery | UpdateQuery | OtherQuery

text \<open>The hooks read the clock once per field.\<close>

definition User_BeforeAppendModel :: "int \<Rightarrow> int \<Rightarrow> bun_query \<Rightarrow> UserModel \<Rightarrow> UserModel" where
  "User_BeforeAppendModel t1 t2 query u =
     (case query of
        InsertQuery \<Rightarrow> u\<lparr>um_CreatedAt := t1, um_UpdatedAt := t2\<rparr>
      | UpdateQuery \<Rightarrow> u\<lparr>um_UpdatedAt := t1\<rparr>
      | OtherQuery \<Rightarrow> u)"

definition UserIP_BeforeAppendModel :: "int \<Rightarrow> int \<Rightarrow> bun_query \<Rightarrow> UserIP \<Rightarrow> UserIP" where
  "UserIP_BeforeAppendModel t1 t2 query u =
     (case query of
        InsertQuery \<Rightarrow> u\<lparr>ip_CreatedAt := t1, ip_UpdatedAt := t2\<rparr>
      | UpdateQuery \<Rightarrow> u\<lparr>ip_UpdatedAt := t1\<rparr>
      | OtherQuery \<Rightarrow> u)"

definition UserAccountBinding_BeforeAppendModel ::
    "int \<Rightarrow> int \<Rightarrow> bun_query \<Rightarrow> UserAccountBinding \<Rightarrow> UserAccountBinding" where
  "UserAccountBinding_BeforeAppendModel t1 t2 query u =
     (case query of
        InsertQuery \<Rightarrow> u\<lparr>ab_CreatedAt := t1, ab_UpdatedAt := t2\<rparr>
      | UpdateQuery \<Rightarrow> u\<lparr>ab_UpdatedAt := t1\<rparr>
      | OtherQuery \<Rightarrow> u)"

section \<open>Parameters\<close>

text \<open>The statements of the store: insert a user, select one by phone or id, delete one, insert or update the
  latest address, select it.\<close>

record 'd users_db =
  ud_insert :: "UserModel \<Rightarrow> 'd \<Rightarrow> db_error option \<times> 'd"
  ud_by_phone :: "string \<Rightarrow> 'd \<Rightarrow> db_error + UserModel"
  ud_by_id :: "UID \<Rightarrow> 'd \<Rightarrow> db_error + UserModel"
  ud_delete :: "UID \<Rightarrow> 'd \<Rightarrow> db_error option \<times> 'd"
  ud_upsert_ip :: "UserIP \<Rightarrow> string \<Rightarrow> int \<Rightarrow> 'd \<Rightarrow> db_error option \<times> 'd"
  ud_latest :: "UID \<Rightarrow> 'd \<Rightarrow> db_error + string"

record ('s, 'd) users_env =
  ue_server :: "'s server"
  ue_cache :: Cache
  ue_db :: "'d users_db"
  ue_json :: "UserModel \<Rightarrow> string option"
  ue_unjson :: "string \<Rightarrow> UserModel option"

section \<open>UserStore\<close>

definition user_key :: "UID \<Rightarrow> string" where "user_key userId = ''user:'' @ UID_String userId"
definition latestip_key :: "UID \<Rightarrow> string" where "latestip_key userId = ''latestip:'' @ UID_String userId"

definition hour :: int where "hour = 3600 * 1000000000"

text \<open>\<open>phone[3:6] + "****" + phone[10:]\<close>.\<close>

definition display_name :: "string \<Rightarrow> string outcome" where
  "display_name phone =
     (if length phone < 6 then Panic ''slice bounds out of range''
      else if length phone < 10 then Panic ''slice bounds out of range''
      else Ret (take 3 (drop 3 phone) @ ''****'' @ drop 10 phone))"

definition ip_write :: "('s, 'd) users_env \<Rightarrow> int \<Rightarrow> UID \<Rightarrow> string \<Rightarrow> 'd \<Rightarrow> db_error option \<times> 'd" where
  "ip_write E now userID ip d =
     (let ipInfo = UserIP_BeforeAppendModel now now InsertQuery
            \<lparr>ip_ID = userID, ip_Register = ip, ip_Latest = ip, ip_CreatedAt = 0, ip_UpdatedAt = 0\<rparr>
      in ud_upsert_ip (ue_db E) ipInfo ip now d)"

definition UpsertLatestIP ::
    "('s, 'd) users_env \<Rightarrow> net \<Rightarrow> net \<Rightarrow> ('s world \<Rightarrow> 's world) \<Rightarrow> int \<Rightarrow> UID \<Rightarrow> string \<Rightarrow> 'd \<Rightarrow> 's world
       \<Rightarrow> (db_error option \<times> 'd \<times> 's world) outcome" where
  "UpsertLatestIP E n1 n2 meanwhile now userID ip d w =
     (let (err, d) = ip_write E now userID ip d in
      if err = None then
        bind_outcome (Cache_KeyDelayDoubleDel (ue_server E) n1 n2 (ue_cache E) meanwhile [latestip_key userID] w)
          (\<lambda>(_, w). Ret (None, d, w))
      else Ret (err, d, w))"

text \<open>The nets are those of the four deletions.\<close>

definition UpsertUser ::
    "('s, 'd) users_env \<Rightarrow> (nat \<Rightarrow> net) \<Rightarrow> ('s world \<Rightarrow> 's world) \<Rightarrow> ('s world \<Rightarrow> 's world) \<Rightarrow> int \<Rightarrow> UID
       \<Rightarrow> string \<Rightarrow> string \<Rightarrow> 'd \<Rightarrow> 's world \<Rightarrow> ((db_error + UserModel) \<times> 'd \<times> 's world) outcome" where
  "UpsertUser E n meanwhile1 meanwhile2 now uid phone ip d w =
     bind_outcome (display_name phone) (\<lambda>name.
       let user = User_BeforeAppendModel now now InsertQuery
             \<lparr>us_ID = uid, us_Phone = phone, us_banned = False, um_Name = name, um_Password = [], um_Role = 0,
              um_Profiles = None, um_Invite = None, um_CreatedAt = 0, um_UpdatedAt = 0, um_DeletedAt = 0\<rparr>;
           (err, d) = ud_insert (ue_db E) user d
       in if err \<noteq> None \<and> \<not> IsPGErrorCode err ''23505'' then Ret (Inl (the err), d, w)
          else
            (case ud_by_phone (ue_db E) phone d of
               Inl err \<Rightarrow> Ret (Inl err, d, w)
             | Inr user \<Rightarrow>
                 bind_outcome (Cache_KeyDelayDoubleDel (ue_server E) (n 0) (n 1) (ue_cache E) meanwhile1
                                 [user_key (us_ID user)] w) (\<lambda>(_, w).
                   bind_outcome (UpsertLatestIP E (n 2) (n 3) meanwhile2 now (us_ID user) ip d w) (\<lambda>(_, d, w).
                     Ret (Inr user, d, w)))))"

definition DeleteByID ::
    "('s, 'd) users_env \<Rightarrow> net \<Rightarrow> UID \<Rightarrow> 'd \<Rightarrow> 's world \<Rightarrow> (db_error option \<times> 'd \<times> 's world) outcome" where
  "DeleteByID E n userId d w =
     (let (err, d) = ud_delete (ue_db E) userId d in
      if err = None then
        bind_outcome (Cache_KeyDel (ue_server E) n (ue_cache E) [user_key userId, latestip_key userId] w)
          (\<lambda>(_, w). Ret (err, d, w))
      else Ret (err, d, w))"

text \<open>\<open>GetByID\<close> up to the answer of the database: a user and whether it came from the cache; then what follows
  a miss.\<close>

definition get_load ::
    "('s, 'd) users_env \<Rightarrow> net \<Rightarrow> UID \<Rightarrow> 'd \<Rightarrow> 's world \<Rightarrow> ((db_error + bool \<times> UserModel) \<times> 's world) outcome" where
  "get_load E n userId d w =
     bind_outcome (Cache_GetJson (ue_server E) n (ue_cache E) (ue_unjson E) (user_key userId) w) (\<lambda>(res, w).
       case res of
         Inr user \<Rightarrow> Ret (Inr (True, user), w)
       | Inl _ \<Rightarrow>
           (case ud_by_id (ue_db E) userId d of
              Inl err \<Rightarrow> Ret (Inl err, w)
            | Inr user \<Rightarrow> Ret (Inr (False, user), w)))"

definition get_store ::
    "('s, 'd) users_env \<Rightarrow> net \<Rightarrow> UID \<Rightarrow> UserModel \<Rightarrow> 's world \<Rightarrow> 's world outcome" where
  "get_store E n userId user w =
     bind_outcome (Cache_SetJson (ue_server E) n (ue_cache E) (ue_json E) (user_key userId) user hour w)
       (\<lambda>(_, w). Ret w)"

definition GetByID ::
    "('s, 'd) users_env \<Rightarrow> net \<Rightarrow> net \<Rightarrow> UID \<Rightarrow> 'd \<Rightarrow> 's world \<Rightarrow> ((db_error + UserModel) \<times> 's world) outcome" where
  "GetByID E n1 n2 userId d w =
     bind_outcome (get_load E n1 userId d w) (\<lambda>(res, w).
       case res of
         Inl err \<Rightarrow> Ret (Inl err, w)
       | Inr (cached, user) \<Rightarrow>
           if cached then Ret (Inr user, w)
           else bind_outcome (get_store E n2 userId user w) (\<lambda>w. Ret (Inr user, w)))"

text \<open>The string of \<open>ip, _ := cache.Get\<close>: empty when there is an error.\<close>

definition got_string :: "string + reply \<Rightarrow> string" where
  "got_string res = (case res of Inr (RStr s) \<Rightarrow> s | _ \<Rightarrow> [])"

lemma got_string_simps [simp]: "got_string (Inl e) = []" "got_string (Inr (RStr s)) = s"
  by (simp_all add: got_string_def)

text \<open>\<open>GetLatestIP\<close> in the same two parts; the answer of a miss is \<open>None\<close> when the database has none.\<close>

definition latest_load ::
    "('s, 'd) users_env \<Rightarrow> net \<Rightarrow> UID \<Rightarrow> 'd \<Rightarrow> 's world \<Rightarrow> ((bool \<times> string) option \<times> 's world) outcome" where
  "latest_load E n userId d w =
     bind_outcome (Cache_Get (ue_server E) n (ue_cache E) (latestip_key userId) w) (\<lambda>(res, w).
       let ip = got_string res in
       if length ip \<noteq> 0 then Ret (Some (True, ip), w)
       else (case ud_latest (ue_db E) userId d of
               Inl err \<Rightarrow> Ret (None, w)
             | Inr latest \<Rightarrow> Ret (Some (False, latest), w)))"

definition latest_store :: "('s, 'd) users_env \<Rightarrow> net \<Rightarrow> UID \<Rightarrow> string \<Rightarrow> 's world \<Rightarrow> 's world outcome" where
  "latest_store E n userId latest w =
     bind_outcome (Cache_Set (ue_server E) n (ue_cache E) (latestip_key userId) latest hour w) (\<lambda>(_, w). Ret w)"

definition GetLatestIP ::
    "('s, 'd) users_env \<Rightarrow> net \<Rightarrow> net \<Rightarrow> UID \<Rightarrow> 'd \<Rightarrow> 's world \<Rightarrow> (string \<times> 's world) outcome" where
  "GetLatestIP E n1 n2 userId d w =
     bind_outcome (latest_load E n1 userId d w) (\<lambda>(res, w).
       case res of
         None \<Rightarrow> Ret ([], w)
       | Some (cached, ip) \<Rightarrow>
           if cached then Ret (ip, w)
           else bind_outcome (latest_store E n2 userId ip w) (\<lambda>w. Ret (ip, w)))"

section \<open>UserService\<close>

record GetUserInfoResponse =
  gu_Id :: UID
  gu_Name :: string
  gu_AvatarUrl :: string
  gu_Role :: int32
  gu_IpLatest :: string

fun is_no_rows :: "db_error \<Rightarrow> bool" where
  "is_no_rows ErrNoRows = True"
| "is_no_rows (Wrapped _ e) = is_no_rows e"
| "is_no_rows _ = False"

text \<open>A response, a nil response without an error, or an error.\<close>

definition GetSelfInfo ::
    "('s, 'd) users_env \<Rightarrow> (nat \<Rightarrow> net) \<Rightarrow> gin_ctx \<Rightarrow> 'd \<Rightarrow> 's world
       \<Rightarrow> ((db_error + GetUserInfoResponse option) \<times> gin_ctx \<times> 's world) outcome" where
  "GetSelfInfo E n c d w =
     (case GetClaims c of
        None \<Rightarrow> Ret (Inl (DbErr ''not found''), c, w)
      | Some cc \<Rightarrow>
          bind_outcome (GetByID E (n 0) (n 1) (cl_UserId cc) d w) (\<lambda>(res, w).
            case res of
              Inl err \<Rightarrow> if is_no_rows err then Ret (Inr None, abort_with 401 c, w) else Ret (Inl err, c, w)
            | Inr user \<Rightarrow>
                bind_outcome (GetLatestIP E (n 2) (n 3) (us_ID user) d w) (\<lambda>(ip, w).
                  let avatar = (case um_Profiles user of None \<Rightarrow> [] | Some avatar \<Rightarrow> avatar) in
                  Ret (Inr (Some \<lparr>gu_Id = us_ID user, gu_Name = um_Name user, gu_AvatarUrl = avatar,
                                  gu_Role = um_Role user, gu_IpLatest = ip\<rparr>), c, w))))"

text \<open>The handler: the body of a 200 response, if any, and the context.\<close>

definition handleGetSelfUserInfo ::
    "('s, 'd) users_env \<Rightarrow> (nat \<Rightarrow> net) \<Rightarrow> gin_ctx \<Rightarrow> 'd \<Rightarrow> 's world
       \<Rightarrow> (GetUserInfoResponse option option \<times> gin_ctx \<times> 's world) outcome" where
  "handleGetSelfUserInfo E n c d w =
     bind_outcome (GetSelfInfo E n c d w) (\<lambda>(user, c, w).
       if cx_aborted c \<noteq> None then Ret (None, c, w)
       else case user of
           Inl err \<Rightarrow> Ret (None, abort_with 500 c, w)
         | Inr user \<Rightarrow> Ret (Some user, c, w))"

end
