(* ===== verification/UsersProofs.thy ===== *)
theory UsersProofs
  imports Users
begin

text \<open>
  The properties of the user store: the cache agrees with the database after any sequence of calls one after
  another; how overlapping calls break that, and what the second deletion is for.
\<close>

section \<open>Laws\<close>

text \<open>\<open>rows d\<close> and \<open>ips d\<close> are the live users and the latest addresses of a database in state \<open>d\<close>. A statement
  that reports an error had no effect.\<close>

definition db_laws :: "'d users_db \<Rightarrow> ('d \<Rightarrow> UID \<Rightarrow> UserModel option) \<Rightarrow> ('d \<Rightarrow> UID \<Rightarrow> string option) \<Rightarrow> bool" where
  "db_laws D rows ips \<longleftrightarrow>
     (\<forall>u d e d'. ud_insert D u d = (e, d') \<longrightarrow> ips d' = ips d \<and>
        (if e = None then rows d (us_ID u) = None \<and> rows d' = (rows d)(us_ID u \<mapsto> u) else rows d' = rows d)) \<and>
     (\<forall>p d u. ud_by_phone D p d = Inr u \<longrightarrow> us_Phone u = p \<and> rows d (us_ID u) = Some u) \<and>
     (\<forall>i d u. ud_by_id D i d = Inr u \<longrightarrow> rows d i = Some u) \<and>
     (\<forall>i d e d'. ud_delete D i d = (e, d') \<longrightarrow> ips d' = ips d \<and>
        rows d' = (if e = None then (rows d)(i := None) else rows d)) \<and>
     (\<forall>x ip t d e d'. ud_upsert_ip D x ip t d = (e, d') \<longrightarrow> rows d' = rows d \<and>
        ips d' = (if e = None then (ips d)(ip_ID x \<mapsto> ip) else ips d)) \<and>
     (\<forall>i d ip. ud_latest D i d = Inr ip \<longrightarrow> ips d i = Some ip)"

lemma db_laws_dest:
  assumes "db_laws D rows ips"
  shows "ud_insert D u d = (e, d') \<Longrightarrow> ips d' = ips d \<and>
        (if e = None then rows d (us_ID u) = None \<and> rows d' = (rows d)(us_ID u \<mapsto> u) else rows d' = rows d)"
    and "ud_by_phone D p d = Inr u \<Longrightarrow> us_Phone u = p \<and> rows d (us_ID u) = Some u"
    and "ud_by_id D i d = Inr u \<Longrightarrow> rows d i = Some u"
    and "ud_delete D i d = (e, d') \<Longrightarrow> ips d' = ips d \<and> rows d' = (if e = None then (rows d)(i := None) else rows d)"
    and "ud_upsert_ip D x ip t d = (e, d') \<Longrightarrow> rows d' = rows d \<and>
        ips d' = (if e = None then (ips d)(ip_ID x \<mapsto> ip) else ips d)"
    and "ud_latest D i d = Inr ip \<Longrightarrow> ips d i = Some ip"
  by (use assms in \<open>simp_all add: db_laws_def\<close>)

text \<open>The laws of the whole environment; a deletion that is delivered is carried out.\<close>

definition users_laws ::
    "('s, 'd) users_env \<Rightarrow> ('s \<Rightarrow> string \<Rightarrow> string option) \<Rightarrow> ('d \<Rightarrow> UID \<Rightarrow> UserModel option)
       \<Rightarrow> ('d \<Rightarrow> UID \<Rightarrow> string option) \<Rightarrow> bool" where
  "users_laws E g rows ips \<longleftrightarrow> server_laws (ue_server E) g \<and> db_laws (ue_db E) rows ips \<and>
     (\<forall>ks s. \<exists>r. cmd_result (fst (sv_exec (ue_server E) (CDel ks) s)) = Inr r) \<and>
     (\<forall>u s. ue_json E u = Some s \<longrightarrow> ue_unjson E s = Some u)"

lemma users_laws_db: "users_laws E g rows ips \<Longrightarrow> db_laws (ue_db E) rows ips"
  by (simp add: users_laws_def)

lemmas users_db = db_laws_dest [OF users_laws_db]

text \<open>The cache of the application has no replica: one open client.\<close>

definition one_client :: "('s, 'd) users_env \<Rightarrow> nat \<Rightarrow> 's world \<Rightarrow> bool" where
  "one_client E a w \<longleftrightarrow> ue_cache E = \<lparr>master = Some a, slave = Some a\<rparr> \<and> \<not> wd_closed w a"

abbreviation store_of :: "nat \<Rightarrow> 's world \<Rightarrow> 's" where
  "store_of a w \<equiv> wd_srv w (wd_addr w a)"

section \<open>Calls of the cache\<close>

lemma users_call:
  assumes "one_client E a w" "client_call S n (Some a) cmd w = Ret (res, w')"
  shows "one_client E a w'"
    and "store_of a w' = store_of a w \<or> store_of a w' = snd (sv_exec S cmd (store_of a w))"
    and "res = Inr r \<Longrightarrow> cmd_result (fst (sv_exec S cmd (store_of a w))) = Inr r"
    and "res = Inr r \<Longrightarrow> store_of a w' = snd (sv_exec S cmd (store_of a w))"
  using assms
  by (auto simp: one_client_def client_call_def call_redis_def Let_def split: net.splits)

lemma users_call_ret:
  assumes "one_client E a w"
  obtains res w' where "client_call S n (Some a) cmd w = Ret (res, w')"
proof -
  obtain r s' where "call_redis n (sv_exec S cmd) (store_of a w) = (r, s')" by (metis prod.exhaust)
  with assms show thesis by (intro that) (auto simp: one_client_def client_call_def)
qed

lemma users_get:
  assumes "users_laws E g rows ips" "one_client E a w" "client_call (ue_server E) n (Some a) (CGet k) w = Ret (res, w')"
  shows "one_client E a w'" "store_of a w' = store_of a w"
    and "res = Inr r \<Longrightarrow> \<exists>v. r = RStr v \<and> g (store_of a w) k = Some v"
proof -
  note L = server_laws_dest [of "ue_server E" g]
  have S: "server_laws (ue_server E) g" using assms(1) by (simp add: users_laws_def)
  show "one_client E a w'" "store_of a w' = store_of a w"
    using users_call [OF assms(2,3)] L(1) [OF S] by auto
  assume "res = Inr r"
  from users_call(3) [OF assms(2,3) this] L(2,3) [OF S, of "store_of a w" k]
  show "\<exists>v. r = RStr v \<and> g (store_of a w) k = Some v"
    by (cases "g (store_of a w) k") auto
qed

lemma users_set:
  assumes "users_laws E g rows ips" "one_client E a w" "client_call (ue_server E) n (Some a) (CSet k v t) w = Ret (res, w')"
  shows "one_client E a w'" "g (store_of a w') = g (store_of a w) \<or> g (store_of a w') = (g (store_of a w))(k \<mapsto> v)"
proof -
  have S: "server_laws (ue_server E) g" using assms(1) by (simp add: users_laws_def)
  show "one_client E a w'" by (rule users_call(1) [OF assms(2,3)])
  show "g (store_of a w') = g (store_of a w) \<or> g (store_of a w') = (g (store_of a w))(k \<mapsto> v)"
    using users_call(2) [OF assms(2,3)] server_laws_dest(4,5) [OF S, of k v t "store_of a w"]
    by (cases "cmd_result (fst (sv_exec (ue_server E) (CSet k v t) (store_of a w)))") auto
qed

lemma users_set_reply:
  assumes "users_laws E g rows ips" "one_client E a w"
    and "cmd_result (fst (sv_exec (ue_server E) (CSet k v t) (store_of a w))) = Inr r"
  obtains res w' where "client_call (ue_server E) Reply (Some a) (CSet k v t) w = Ret (res, w')"
    "one_client E a w'" "g (store_of a w') = (g (store_of a w))(k \<mapsto> v)"
proof -
  have S: "server_laws (ue_server E) g" using assms(1) by (simp add: users_laws_def)
  show thesis
    using assms(2,3) server_laws_dest(4) [OF S assms(3)]
    by (intro that) (auto simp: one_client_def client_call_open)
qed

text \<open>A deletion: delivered, it removes the keys.\<close>

lemma users_del:
  assumes "users_laws E g rows ips" "one_client E a w"
  obtains r w' where "client_call (ue_server E) Reply (Some a) (CDel ks) w = Ret (Inr r, w')" "one_client E a w'"
    "g (store_of a w') = (\<lambda>k. if k \<in> set ks then None else g (store_of a w) k)"
proof -
  have S: "server_laws (ue_server E) g" using assms(1) by (simp add: users_laws_def)
  obtain r where r: "cmd_result (fst (sv_exec (ue_server E) (CDel ks) (store_of a w))) = Inr r"
    using assms(1) unfolding users_laws_def by blast
  show thesis
    using assms(2) server_laws_dest(6) [OF S r] r
    by (intro that) (auto simp: one_client_def client_call_open)
qed

lemma users_double_del:
  assumes "users_laws E g rows ips" "one_client E a w"
  obtains r w' where
    "Cache_KeyDelayDoubleDel (ue_server E) Reply Reply (ue_cache E) (\<lambda>w. w) ks w = Ret (Inr r, w')" "one_client E a w'"
    "g (store_of a w') = (\<lambda>k. if k \<in> set ks then None else g (store_of a w) k)"
proof -
  obtain r1 w1 where 1: "client_call (ue_server E) Reply (Some a) (CDel ks) w = Ret (Inr r1, w1)" "one_client E a w1"
    "g (store_of a w1) = (\<lambda>k. if k \<in> set ks then None else g (store_of a w) k)"
    by (rule users_del [OF assms])
  obtain r2 w2 where 2: "client_call (ue_server E) Reply (Some a) (CDel ks) w1 = Ret (Inr r2, w2)" "one_client E a w2"
    "g (store_of a w2) = (\<lambda>k. if k \<in> set ks then None else g (store_of a w1) k)"
    by (rule users_del [OF assms(1) 1(2)])
  show thesis
    using assms(2) 1 2 by (intro that [of r2 w2]) (auto simp: Cache_KeyDelayDoubleDel_def one_client_def)
qed

lemma user_key_inj [simp]: "user_key i = user_key j \<longleftrightarrow> i = j"
  and latestip_key_inj [simp]: "latestip_key i = latestip_key j \<longleftrightarrow> i = j"
  and user_key_latestip [simp]: "user_key i \<noteq> latestip_key j" "latestip_key j \<noteq> user_key i"
  using hex_decode_encode by (auto simp: user_key_def latestip_key_def UID_String_def) metis+

section \<open>Coherence\<close>

text \<open>What the cache keeps is what the database has; an empty address in the cache is read as a miss.\<close>

definition users_coherent ::
    "('s, 'd) users_env \<Rightarrow> ('s \<Rightarrow> string \<Rightarrow> string option) \<Rightarrow> ('d \<Rightarrow> UID \<Rightarrow> UserModel option)
       \<Rightarrow> ('d \<Rightarrow> UID \<Rightarrow> string option) \<Rightarrow> 's \<Rightarrow> 'd \<Rightarrow> bool" where
  "users_coherent E g rows ips s d \<longleftrightarrow>
     (\<forall>i v. g s (user_key i) = Some v \<longrightarrow> (\<exists>u. ue_unjson E v = Some u \<and> rows d i = Some u)) \<and>
     (\<forall>i v. g s (latestip_key i) = Some v \<longrightarrow> v = [] \<or> ips d i = Some v)"

lemma users_coherentD:
  assumes "users_coherent E g rows ips s d"
  shows "g s (user_key i) = Some v \<Longrightarrow> \<exists>u. ue_unjson E v = Some u \<and> rows d i = Some u"
    and "g s (latestip_key i) = Some v \<Longrightarrow> v = [] \<or> ips d i = Some v"
  using assms by (simp_all add: users_coherent_def)

lemma users_coherent_cong:
  "users_coherent E g rows ips s d \<Longrightarrow> g s' = g s \<Longrightarrow> users_coherent E g rows ips s' d"
  by (simp add: users_coherent_def)

text \<open>Deleting keys keeps coherence, and pays for a change of the rows whose keys were deleted.\<close>

lemma users_coherent_del:
  assumes "users_coherent E g rows ips s d" "g s' = (\<lambda>k. if k \<in> set ks then None else g s k)"
    and "\<And>i. user_key i \<notin> set ks \<Longrightarrow> g s (user_key i) \<noteq> None \<Longrightarrow> rows d' i = rows d i"
    and "\<And>i. latestip_key i \<notin> set ks \<Longrightarrow> ips d' i = ips d i"
  shows "users_coherent E g rows ips s' d'"
  unfolding users_coherent_def
proof (intro conjI allI impI)
  fix i v assume "g s' (user_key i) = Some v"
  with assms(2) have "user_key i \<notin> set ks" "g s (user_key i) = Some v" by (auto split: if_splits)
  then show "\<exists>u. ue_unjson E v = Some u \<and> rows d' i = Some u"
    using assms(1) assms(3) [of i] by (simp add: users_coherent_def)
next
  fix i v assume "g s' (latestip_key i) = Some v"
  with assms(2) have "latestip_key i \<notin> set ks" "g s (latestip_key i) = Some v" by (auto split: if_splits)
  with assms(1) assms(4) [of i] show "v = [] \<or> ips d' i = Some v"
    by (auto simp: users_coherent_def)
qed

lemma get_load_current:
  assumes "users_laws E g rows ips" "one_client E a w" "users_coherent E g rows ips (store_of a w) d"
    and "get_load E n i d w = Ret (res, w')"
  shows "one_client E a w' \<and> store_of a w' = store_of a w \<and> (\<forall>b u. res = Inr (b, u) \<longrightarrow> rows d i = Some u)"
proof -
  obtain r w1 where c: "client_call (ue_server E) n (Some a) (CGet (user_key i)) w = Ret (r, w1)"
    by (rule users_call_ret [OF assms(2)])
  note G = users_get [OF assms(1,2) c]
  note db = users_db(3) [OF assms(1)]
  have l: "get_load E n i d w = (case from_json (ue_unjson E) r of
      Inr user \<Rightarrow> Ret (Inr (True, user), w1)
    | Inl _ \<Rightarrow> (case ud_by_id (ue_db E) i d of Inl err \<Rightarrow> Ret (Inl err, w1) | Inr user \<Rightarrow> Ret (Inr (False, user), w1)))"
    using assms(2) c by (simp add: get_load_def Cache_GetJson_def one_client_def)
  show ?thesis
  proof (cases "from_json (ue_unjson E) r")
    case (Inl e)
    then show ?thesis using l assms(4) G(1,2) db by (auto split: sum.splits)
  next
    case (Inr u)
    then obtain v where v: "r = Inr (RStr v)" "ue_unjson E v = Some u"
      by (auto simp: from_json_def split: sum.splits option.splits reply.splits)
    with G(3) [OF v(1)] have "g (store_of a w) (user_key i) = Some v" by simp
    from users_coherentD(1) [OF assms(3) this] v(2) have "rows d i = Some u" by simp
    with l Inr assms(4) G(1,2) show ?thesis by auto
  qed
qed

lemma get_store_effect:
  assumes "users_laws E g rows ips" "one_client E a w" "get_store E n i u w = Ret w'"
  shows "one_client E a w' \<and> (g (store_of a w') = g (store_of a w)
    \<or> (\<exists>s. ue_unjson E s = Some u \<and> g (store_of a w') = (g (store_of a w))(user_key i \<mapsto> s)))"
proof (cases "ue_json E u")
  case None
  then show ?thesis using assms(2,3) by (simp add: get_store_def Cache_SetJson_def)
next
  case (Some s)
  obtain r w1 where c: "client_call (ue_server E) n (Some a) (CSet (user_key i) s hour) w = Ret (r, w1)"
    by (rule users_call_ret [OF assms(2)])
  with assms(2,3) Some have "w' = w1" by (simp add: get_store_def Cache_SetJson_def one_client_def)
  moreover have "ue_unjson E s = Some u" using assms(1) Some by (simp add: users_laws_def)
  ultimately show ?thesis using users_set [OF assms(1,2) c] by auto
qed

lemma users_coherent_set:
  assumes "users_coherent E g rows ips s d" "ue_unjson E v = Some u" "rows d i = Some u"
    and "g s' = (g s)(user_key i \<mapsto> v)"
  shows "users_coherent E g rows ips s' d"
  using assms by (simp add: users_coherent_def)

lemma GetByID_current:
  assumes "users_laws E g rows ips" "one_client E a w" "users_coherent E g rows ips (store_of a w) d"
    and "GetByID E n1 n2 i d w = Ret (res, w')"
  shows "one_client E a w' \<and> users_coherent E g rows ips (store_of a w') d \<and> (\<forall>u. res = Inr u \<longrightarrow> rows d i = Some u)"
proof -
  obtain r w1 where l: "get_load E n1 i d w = Ret (r, w1)"
    and f: "(case r of Inl err \<Rightarrow> Ret (Inl err, w1)
      | Inr (cached, user) \<Rightarrow> if cached then Ret (Inr user, w1)
          else bind_outcome (get_store E n2 i user w1) (\<lambda>w. Ret (Inr user, w))) = Ret (res, w')"
    using assms(4) unfolding GetByID_def by (rule bind_pair_Ret)
  note L = get_load_current [OF assms(1-3) l]
  then have c: "users_coherent E g rows ips (store_of a w1) d" using assms(3) by simp
  show ?thesis
  proof (cases r)
    case (Inl e)
    then show ?thesis using f L c by auto
  next
    case (Inr x)
    obtain b u where x: "x = (b, u)" by (cases x)
    have r: "rows d i = Some u" using L Inr x by simp
    show ?thesis
    proof (cases b)
      case True
      then show ?thesis using f L c Inr x r by auto
    next
      case False
      then have g: "get_store E n2 i u w1 = Ret w'" and "res = Inr u"
        using f Inr x by (auto simp: bind_outcome_Ret_iff)
      have o: "one_client E a w1" using L by simp
      from get_store_effect [OF assms(1) o g]
      have "one_client E a w'" "g (store_of a w') = g (store_of a w1)
        \<or> (\<exists>s. ue_unjson E s = Some u \<and> g (store_of a w') = (g (store_of a w1))(user_key i \<mapsto> s))" by auto
      with c r \<open>res = Inr u\<close> users_coherent_set [OF c _ r] users_coherent_cong [OF c] show ?thesis by blast
    qed
  qed
qed

text \<open>The latest address: the same three facts.\<close>

lemma latest_load_current:
  assumes "users_laws E g rows ips" "one_client E a w" "users_coherent E g rows ips (store_of a w) d"
    and "latest_load E n i d w = Ret (res, w')"
  shows "one_client E a w' \<and> store_of a w' = store_of a w \<and> (\<forall>b ip. res = Some (b, ip) \<longrightarrow> ips d i = Some ip)"
proof -
  obtain r w1 where c: "client_call (ue_server E) n (Some a) (CGet (latestip_key i)) w = Ret (r, w1)"
    by (rule users_call_ret [OF assms(2)])
  note G = users_get [OF assms(1,2) c]
  have l: "latest_load E n i d w = (let ip = got_string r in
      if length ip \<noteq> 0 then Ret (Some (True, ip), w1)
      else (case ud_latest (ue_db E) i d of Inl err \<Rightarrow> Ret (None, w1) | Inr latest \<Rightarrow> Ret (Some (False, latest), w1)))"
    using assms(2) c by (simp add: latest_load_def Cache_Get_def one_client_def)
  show ?thesis
  proof (cases "\<exists>v. r = Inr (RStr v) \<and> v \<noteq> []")
    case True
    then obtain v where v: "r = Inr (RStr v)" "v \<noteq> []" by blast
    with G(3) [OF v(1)] have "g (store_of a w) (latestip_key i) = Some v" by simp
    from users_coherentD(2) [OF assms(3) this] v(2) have "ips d i = Some v" by simp
    moreover have "res = Some (True, v)" "w' = w1" using l v assms(4) by simp_all
    ultimately show ?thesis using G(1,2) by simp
  next
    case False
    have "got_string r = []"
    proof (cases r)
      case (Inr x)
      obtain v where v: "x = RStr v" using G(3) [OF Inr] by (elim exE conjE)
      have "v = []" using False unfolding Inr v by simp
      then show ?thesis unfolding Inr v by simp
    qed simp
    then have l: "latest_load E n i d w =
        (case ud_latest (ue_db E) i d of Inl err \<Rightarrow> Ret (None, w1) | Inr latest \<Rightarrow> Ret (Some (False, latest), w1))"
      using l by simp
    show ?thesis
    proof (cases "ud_latest (ue_db E) i d")
      case (Inl e)
      with l assms(4) G(1,2) show ?thesis by simp
    next
      case (Inr ip)
      with l assms(4) G(1,2) users_db(6) [OF assms(1) Inr] show ?thesis by simp
    qed
  qed
qed

lemma latest_store_effect:
  assumes "users_laws E g rows ips" "one_client E a w" "latest_store E n i ip w = Ret w'"
  shows "one_client E a w' \<and> (g (store_of a w') = g (store_of a w)
    \<or> g (store_of a w') = (g (store_of a w))(latestip_key i \<mapsto> ip))"
proof -
  obtain r w1 where c: "client_call (ue_server E) n (Some a) (CSet (latestip_key i) ip hour) w = Ret (r, w1)"
    by (rule users_call_ret [OF assms(2)])
  with assms(2,3) have "w' = w1" by (simp add: latest_store_def Cache_Set_def one_client_def)
  then show ?thesis using users_set [OF assms(1,2) c] by auto
qed

lemma users_coherent_set_latest:
  assumes "users_coherent E g rows ips s d" "ips d i = Some ip" "g s' = (g s)(latestip_key i \<mapsto> ip)"
  shows "users_coherent E g rows ips s' d"
  using assms by (simp add: users_coherent_def)

lemma GetLatestIP_current:
  assumes "users_laws E g rows ips" "one_client E a w" "users_coherent E g rows ips (store_of a w) d"
    and "GetLatestIP E n1 n2 i d w = Ret (ip, w')"
  shows "one_client E a w' \<and> users_coherent E g rows ips (store_of a w') d \<and> (ip \<noteq> [] \<longrightarrow> ips d i = Some ip)"
proof -
  obtain r w1 where l: "latest_load E n1 i d w = Ret (r, w1)"
    and f: "(case r of None \<Rightarrow> Ret ([], w1)
      | Some (cached, ip) \<Rightarrow> if cached then Ret (ip, w1)
          else bind_outcome (latest_store E n2 i ip w1) (\<lambda>w. Ret (ip, w))) = Ret (ip, w')"
    using assms(4) unfolding GetLatestIP_def by (rule bind_pair_Ret)
  note L = latest_load_current [OF assms(1-3) l]
  then have c: "users_coherent E g rows ips (store_of a w1) d" and o: "one_client E a w1" using assms(3) by simp_all
  show ?thesis
  proof (cases r)
    case None
    then show ?thesis using f c o by auto
  next
    case (Some x)
    obtain b ip' where x: "x = (b, ip')" by (cases x)
    have r: "ips d i = Some ip'" using L Some x by simp
    show ?thesis
    proof (cases b)
      case True
      then show ?thesis using f c o Some x r by auto
    next
      case False
      then have g: "latest_store E n2 i ip' w1 = Ret w'" and "ip = ip'"
        using f Some x by (auto simp: bind_outcome_Ret_iff)
      with latest_store_effect [OF assms(1) o g] r users_coherent_set_latest [OF c r] users_coherent_cong [OF c]
      show ?thesis by blast
    qed
  qed
qed

section \<open>Writing\<close>

text \<open>The writing calls, delivered: they return, and the cache stays coherent with the new rows.\<close>

lemma ip_write_rows:
  assumes "users_laws E g rows ips" "ip_write E now i ip d = (err, d')"
  shows "rows d' = rows d \<and> ips d' = (if err = None then (ips d)(i \<mapsto> ip) else ips d)"
  using users_db(5) [OF assms(1) assms(2) [unfolded ip_write_def Let_def]]
  by (simp add: UserIP_BeforeAppendModel_def)

lemma UpsertLatestIP_coherent:
  assumes "users_laws E g rows ips" "one_client E a w" "users_coherent E g rows ips (store_of a w) d"
  obtains err d' w' where "UpsertLatestIP E Reply Reply (\<lambda>w. w) now i ip d w = Ret (err, d', w')"
    "one_client E a w'" "users_coherent E g rows ips (store_of a w') d'" "rows d' = rows d"
    "ips d' = (if err = None then (ips d)(i \<mapsto> ip) else ips d)"
proof -
  obtain err d' where q: "ip_write E now i ip d = (err, d')" by (metis prod.exhaust)
  note Q = ip_write_rows [OF assms(1) q]
  show thesis
  proof (cases "err = None")
    case True
    obtain r w' where k: "Cache_KeyDelayDoubleDel (ue_server E) Reply Reply (ue_cache E) (\<lambda>w. w) [latestip_key i] w
        = Ret (Inr r, w')" "one_client E a w'"
      "g (store_of a w') = (\<lambda>k. if k \<in> set [latestip_key i] then None else g (store_of a w) k)"
      by (rule users_double_del [OF assms(1,2)])
    have "users_coherent E g rows ips (store_of a w') d'"
      by (rule users_coherent_del [OF assms(3) k(3)]) (use Q True in auto)
    with q k Q True show thesis by (intro that [of err d' w']) (auto simp: UpsertLatestIP_def Let_def)
  next
    case False
    with Q have "users_coherent E g rows ips (store_of a w) d'" using assms(3) by (simp add: users_coherent_def)
    with q Q False assms(2) show thesis by (intro that [of err d' w]) (auto simp: UpsertLatestIP_def Let_def)
  qed
qed

lemma DeleteByID_coherent:
  assumes "users_laws E g rows ips" "one_client E a w" "users_coherent E g rows ips (store_of a w) d"
  obtains err d' w' where "DeleteByID E Reply i d w = Ret (err, d', w')"
    "one_client E a w'" "users_coherent E g rows ips (store_of a w') d'"
    "rows d' = (if err = None then (rows d)(i := None) else rows d)" "ips d' = ips d"
proof -
  obtain err d' where q: "ud_delete (ue_db E) i d = (err, d')" by (metis prod.exhaust)
  note Q = users_db(4) [OF assms(1) q]
  show thesis
  proof (cases "err = None")
    case True
    let ?ks = "[user_key i, latestip_key i]"
    obtain r w' where k: "client_call (ue_server E) Reply (Some a) (CDel ?ks) w = Ret (Inr r, w')" "one_client E a w'"
      "g (store_of a w') = (\<lambda>k. if k \<in> set ?ks then None else g (store_of a w) k)"
      by (rule users_del [OF assms(1,2)])
    have "users_coherent E g rows ips (store_of a w') d'"
      by (rule users_coherent_del [OF assms(3) k(3)]) (use Q True in auto)
    with q k Q True assms(2) show thesis
      by (intro that [of err d' w']) (auto simp: DeleteByID_def Cache_KeyDel_def one_client_def Let_def)
  next
    case False
    with Q have "users_coherent E g rows ips (store_of a w) d'" using assms(3) by (simp add: users_coherent_def)
    with q Q False assms(2) show thesis by (intro that [of err d' w]) (auto simp: DeleteByID_def Let_def)
  qed
qed

lemma users_coherent_insert:
  assumes "users_coherent E g rows ips s d" "ips d' = ips d"
    and "rows d' = rows d \<or> (rows d i = None \<and> rows d' = (rows d)(i \<mapsto> u))"
  shows "users_coherent E g rows ips s d'"
proof (cases "rows d' = rows d")
  case False
  with assms(3) have r: "rows d i = None" "rows d' = (rows d)(i \<mapsto> u)" by auto
  then have "g s (user_key i) = None"
    using users_coherentD(1) [OF assms(1), of i] by (cases "g s (user_key i)") auto
  then show ?thesis using assms(1,2) r(2) by (simp add: users_coherent_def)
qed (use assms(1,2) in \<open>simp add: users_coherent_def\<close>)

lemma UpsertUser_coherent:
  assumes "users_laws E g rows ips" "one_client E a w" "users_coherent E g rows ips (store_of a w) d"
    and "UpsertUser E (\<lambda>_. Reply) (\<lambda>w. w) (\<lambda>w. w) now uid phone ip d w = Ret (res, d', w')"
  shows "one_client E a w' \<and> users_coherent E g rows ips (store_of a w') d'
    \<and> (\<forall>u. res = Inr u \<longrightarrow> rows d' (us_ID u) = Some u \<and> us_Phone u = phone)"
proof -
  obtain name where name: "display_name phone = Ret name"
    using assms(4) by (auto simp: UpsertUser_def bind_outcome_Ret_iff)
  let ?u = "User_BeforeAppendModel now now InsertQuery
      \<lparr>us_ID = uid, us_Phone = phone, us_banned = False, um_Name = name, um_Password = [], um_Role = 0,
       um_Profiles = None, um_Invite = None, um_CreatedAt = 0, um_UpdatedAt = 0, um_DeletedAt = 0\<rparr>"
  obtain err d1 where q: "ud_insert (ue_db E) ?u d = (err, d1)" by (metis prod.exhaust)
  note Q = users_db(1) [OF assms(1) q]
  have c1: "users_coherent E g rows ips (store_of a w) d1"
    by (rule users_coherent_insert [OF assms(3), where i = "us_ID ?u" and u = ?u]) (use Q in \<open>auto split: if_splits\<close>)
  have f: "(if err \<noteq> None \<and> \<not> IsPGErrorCode err ''23505'' then Ret (Inl (the err), d1, w)
      else case ud_by_phone (ue_db E) phone d1 of
          Inl err \<Rightarrow> Ret (Inl err, d1, w)
        | Inr user \<Rightarrow> bind_outcome (Cache_KeyDelayDoubleDel (ue_server E) Reply Reply (ue_cache E) (\<lambda>w. w)
                          [user_key (us_ID user)] w) (\<lambda>(_, w).
              bind_outcome (UpsertLatestIP E Reply Reply (\<lambda>w. w) now (us_ID user) ip d1 w) (\<lambda>(_, d, w).
                Ret (Inr user, d, w)))) = Ret (res, d', w')"
    using assms(4) name q by (simp add: UpsertUser_def)
  show ?thesis
  proof (cases "err \<noteq> None \<and> \<not> IsPGErrorCode err ''23505''")
    case True
    then show ?thesis using f c1 assms(2) by auto
  next
    case False
    show ?thesis
    proof (cases "ud_by_phone (ue_db E) phone d1")
      case (Inl e)
      then show ?thesis using f False c1 assms(2) by auto
    next
      case (Inr user)
      let ?ks = "[user_key (us_ID user)]"
      obtain r w1 where k: "Cache_KeyDelayDoubleDel (ue_server E) Reply Reply (ue_cache E) (\<lambda>w. w) ?ks w = Ret (Inr r, w1)"
        "one_client E a w1" "g (store_of a w1) = (\<lambda>k. if k \<in> set ?ks then None else g (store_of a w) k)"
        by (rule users_double_del [OF assms(1,2)])
      have c2: "users_coherent E g rows ips (store_of a w1) d1"
        by (rule users_coherent_del [OF c1 k(3)]) auto
      obtain e d2 w2 where i: "UpsertLatestIP E Reply Reply (\<lambda>w. w) now (us_ID user) ip d1 w1 = Ret (e, d2, w2)"
        "one_client E a w2" "users_coherent E g rows ips (store_of a w2) d2" "rows d2 = rows d1"
        by (rule UpsertLatestIP_coherent [OF assms(1) k(2) c2])
      have "res = Inr user" "d' = d2" "w' = w2" using f False Inr k(1) i(1) by auto
      with i users_db(2) [OF assms(1) Inr] show ?thesis by auto
    qed
  qed
qed

section \<open>Runs\<close>

datatype user_op =
    OpUpsert UID string string int
  | OpDelete UID
  | OpGet net net UID
  | OpLatest net net UID

text \<open>One call after another; the calls that write are delivered to the cache.\<close>

definition run_op :: "('s, 'd) users_env \<Rightarrow> user_op \<Rightarrow> 'd \<times> 's world \<Rightarrow> ('d \<times> 's world) outcome" where
  "run_op E opr st =
     (case st of (d, w) \<Rightarrow>
       (case opr of
          OpUpsert uid phone ip now \<Rightarrow>
            bind_outcome (UpsertUser E (\<lambda>_. Reply) (\<lambda>w. w) (\<lambda>w. w) now uid phone ip d w) (\<lambda>(_, st). Ret st)
        | OpDelete i \<Rightarrow> bind_outcome (DeleteByID E Reply i d w) (\<lambda>(_, st). Ret st)
        | OpGet n1 n2 i \<Rightarrow> bind_outcome (GetByID E n1 n2 i d w) (\<lambda>(_, w). Ret (d, w))
        | OpLatest n1 n2 i \<Rightarrow> bind_outcome (GetLatestIP E n1 n2 i d w) (\<lambda>(_, w). Ret (d, w))))"

fun run_ops :: "('s, 'd) users_env \<Rightarrow> user_op list \<Rightarrow> 'd \<times> 's world \<Rightarrow> ('d \<times> 's world) outcome" where
  "run_ops E [] st = Ret st"
| "run_ops E (opr # ops) st = bind_outcome (run_op E opr st) (run_ops E ops)"

definition users_inv where
  "users_inv E g rows ips a st \<longleftrightarrow>
     one_client E a (snd st) \<and> users_coherent E g rows ips (store_of a (snd st)) (fst st)"

lemma run_op_inv:
  assumes "users_laws E g rows ips" "users_inv E g rows ips a st" "run_op E opr st = Ret st'"
  shows "users_inv E g rows ips a st'"
proof -
  obtain d w where st: "st = (d, w)" by (cases st)
  have I: "one_client E a w" "users_coherent E g rows ips (store_of a w) d"
    using assms(2) by (simp_all add: st users_inv_def)
  show ?thesis
  proof (cases opr)
    case (OpUpsert uid phone ip now)
    then obtain r d' w' where u: "UpsertUser E (\<lambda>_. Reply) (\<lambda>w. w) (\<lambda>w. w) now uid phone ip d w = Ret (r, d', w')" and "st' = (d', w')" using assms(3) st by (auto simp: run_op_def bind_outcome_Ret_iff)
    with UpsertUser_coherent [OF assms(1) I u] show ?thesis by (simp add: users_inv_def)
  next
    case (OpDelete i)
    obtain err d' w' where "DeleteByID E Reply i d w = Ret (err, d', w')" "one_client E a w'"
      "users_coherent E g rows ips (store_of a w') d'"
      by (rule DeleteByID_coherent [OF assms(1) I])
    with OpDelete assms(3) st show ?thesis by (auto simp: run_op_def users_inv_def)
  next
    case (OpGet n1 n2 i)
    then obtain r w' where u: "GetByID E n1 n2 i d w = Ret (r, w')" and "st' = (d, w')"
      using assms(3) st by (auto simp: run_op_def bind_outcome_Ret_iff)
    with GetByID_current [OF assms(1) I u] show ?thesis by (simp add: users_inv_def)
  next
    case (OpLatest n1 n2 i)
    then obtain r w' where u: "GetLatestIP E n1 n2 i d w = Ret (r, w')" and "st' = (d, w')"
      using assms(3) st by (auto simp: run_op_def bind_outcome_Ret_iff)
    with GetLatestIP_current [OF assms(1) I u] show ?thesis by (simp add: users_inv_def)
  qed
qed

lemma run_ops_inv:
  assumes "users_laws E g rows ips"
  shows "users_inv E g rows ips a st \<Longrightarrow> run_ops E ops st = Ret st' \<Longrightarrow> users_inv E g rows ips a st'"
  by (induction ops arbitrary: st) (auto simp: bind_outcome_Ret_iff dest: run_op_inv [OF assms])

section \<open>A concrete environment\<close>

text \<open>A database of two lists, and a codec of users that finds the user among known ones.\<close>

type_synonym list_db = "UserModel list \<times> (UID \<times> string) list"

definition list_rows :: "list_db \<Rightarrow> UID \<Rightarrow> UserModel option" where
  "list_rows d i = find (\<lambda>u. us_ID u = i) (fst d)"

definition list_ips :: "list_db \<Rightarrow> UID \<Rightarrow> string option" where
  "list_ips d = map_of (snd d)"

definition list_users_db :: "list_db users_db" where
  "list_users_db = \<lparr>
     ud_insert = (\<lambda>u d. if \<exists>x\<in>set (fst d). us_ID x = us_ID u \<or> us_Phone x = us_Phone u
                  then (Some (PgErr (\<lambda>_. ''23505'')), d) else (None, (u # fst d, snd d))),
     ud_by_phone = (\<lambda>p d. case find (\<lambda>u. us_Phone u = p \<and> list_rows d (us_ID u) = Some u) (fst d) of
                     None \<Rightarrow> Inl ErrNoRows | Some u \<Rightarrow> Inr u),
     ud_by_id = (\<lambda>i d. case list_rows d i of None \<Rightarrow> Inl ErrNoRows | Some u \<Rightarrow> Inr u),
     ud_delete = (\<lambda>i d. (None, (filter (\<lambda>u. us_ID u \<noteq> i) (fst d), snd d))),
     ud_upsert_ip = (\<lambda>x ip t d. (None, (fst d, (ip_ID x, ip) # snd d))),
     ud_latest = (\<lambda>i d. case list_ips d i of None \<Rightarrow> Inl ErrNoRows | Some ip \<Rightarrow> Inr ip)\<rparr>"

lemma find_filter_ID: "find (\<lambda>u. us_ID u = j) (filter (\<lambda>u. us_ID u \<noteq> i) us) =
    (if j = i then None else find (\<lambda>u. us_ID u = j) us)"
  by (induction us) auto

lemma list_users_db_laws: "db_laws list_users_db list_rows list_ips"
  unfolding db_laws_def list_users_db_def users_db.simps
  by (intro conjI allI impI) (auto simp: list_rows_def list_ips_def find_filter_ID find_None_iff find_Some_iff fun_eq_iff
      split: if_splits option.splits)

definition demo_user :: UserModel where
  "demo_user = \<lparr>us_ID = [1], us_Phone = ''08613800001234'', us_banned = False, um_Name = ''138****1234'', um_Password = [],
     um_Role = 0, um_Profiles = None, um_Invite = None, um_CreatedAt = 5, um_UpdatedAt = 5, um_DeletedAt = 0\<rparr>"

definition users_demo :: "(string \<Rightarrow> string option, list_db) users_env" where
  "users_demo = \<lparr>ue_server = map_server, ue_cache = \<lparr>master = Some 0, slave = Some 0\<rparr>, ue_db = list_users_db,
     ue_json = (\<lambda>u. if u = demo_user then Some ''u1'' else None),
     ue_unjson = (\<lambda>s. if s = ''u1'' then Some demo_user else None)\<rparr>"

lemma users_demo_laws: "users_laws users_demo (\<lambda>s. s) list_rows list_ips"
  by (simp add: users_laws_def users_demo_def map_server_laws list_users_db_laws)

lemma users_demo_inv: "users_inv users_demo (\<lambda>s. s) list_rows list_ips 0 (d, demo_world)"
  by (simp add: users_inv_def one_client_def users_coherent_def users_demo_def demo_world_def)

lemmas users_eval =
  run_op_def UpsertUser_def display_name_def User_BeforeAppendModel_def UpsertLatestIP_def ip_write_def
  UserIP_BeforeAppendModel_def users_demo_def list_users_db_def list_rows_def list_ips_def demo_user_def
  Cache_KeyDelayDoubleDel_def Cache_KeyDel_def client_call_def call_redis_def demo_world_def GetByID_def get_load_def
  get_store_def Cache_GetJson_def Cache_SetJson_def from_json_def GetLatestIP_def latest_load_def latest_store_def
  Cache_Get_def Cache_Set_def user_key_def latestip_key_def UID_String_def hex_encode_def hex_byte_def hex_digit_def

section \<open>Properties\<close>



text \<open>The answer to a request for the caller's own data: a response is about the user whose claims the request
  carries, with the name, role and avatar of the row and the latest address; without claims there is none.\<close>

theorem self_info_current:
  assumes "users_laws E g rows ips" "users_inv E g rows ips a (d, w)"
    and "handleGetSelfUserInfo E n c d w = Ret (Some (Some resp), c', w')"
  shows "\<exists>cc u. GetClaims c = Some cc \<and> rows d (cl_UserId cc) = Some u \<and> gu_Id resp = us_ID u
    \<and> gu_Name resp = um_Name u \<and> gu_Role resp = um_Role u
    \<and> gu_AvatarUrl resp = (case um_Profiles u of None \<Rightarrow> [] | Some avatar \<Rightarrow> avatar)
    \<and> (gu_IpLatest resp = [] \<or> ips d (us_ID u) = Some (gu_IpLatest resp)) \<and> c' = c \<and> cx_aborted c = None"
proof -
  have I: "one_client E a w" "users_coherent E g rows ips (store_of a w) d"
    using assms(2) by (simp_all add: users_inv_def)
  obtain res where r: "GetSelfInfo E n c d w = Ret (res, c', w')" "cx_aborted c' = None" "res = Inr (Some resp)"
    using assms(3) by (auto simp: handleGetSelfUserInfo_def bind_outcome_Ret_iff split: if_splits sum.splits)
  obtain cc where cc: "GetClaims c = Some cc" using r(1,3) by (auto simp: GetSelfInfo_def split: option.splits)
  obtain res1 w1 where g: "GetByID E (n 0) (n 1) (cl_UserId cc) d w = Ret (res1, w1)"
    and f: "(case res1 of
        Inl err \<Rightarrow> if is_no_rows err then Ret (Inr None, abort_with 401 c, w1) else Ret (Inl err, c, w1)
      | Inr user \<Rightarrow> bind_outcome (GetLatestIP E (n 2) (n 3) (us_ID user) d w1) (\<lambda>(ip, w).
          let avatar = (case um_Profiles user of None \<Rightarrow> [] | Some avatar \<Rightarrow> avatar) in
          Ret (Inr (Some \<lparr>gu_Id = us_ID user, gu_Name = um_Name user, gu_AvatarUrl = avatar,
                          gu_Role = um_Role user, gu_IpLatest = ip\<rparr>), c, w))) = Ret (res, c', w')"
    using r(1) cc unfolding GetSelfInfo_def by simp (erule bind_pair_Ret)
  obtain u where u: "res1 = Inr u" using f r(3) by (cases res1) (auto split: if_splits)
  note G = GetByID_current [OF assms(1) I g]
  obtain ip w2 where l: "GetLatestIP E (n 2) (n 3) (us_ID u) d w1 = Ret (ip, w2)"
    and e: "resp = \<lparr>gu_Id = us_ID u, gu_Name = um_Name u, gu_AvatarUrl = (case um_Profiles u of None \<Rightarrow> [] | Some avatar \<Rightarrow> avatar),
        gu_Role = um_Role u, gu_IpLatest = ip\<rparr>" "c' = c"
    using f u r(3) by (auto simp: bind_outcome_Ret_iff)
  have "ip = [] \<or> ips d (us_ID u) = Some ip"
    using GetLatestIP_current [OF assms(1) conjunct1 [OF G] conjunct1 [OF conjunct2 [OF G]] l] by blast
  with G u cc e r(2) show ?thesis by auto
qed

lemma self_info_current_witness:
  "\<exists>resp c' w'. handleGetSelfUserInfo users_demo (\<lambda>_. Reply)
      (new_context\<lparr>cx_claims := Some \<lparr>cl_UserId = [1], cl_Platform = 8, cl_UserAgent = [], cl_UserAgentHashed = [],
        cl_ClientId = [], cl_Ip = []\<rparr>\<rparr>) ([demo_user], [([1], ''1.1.1.1'')]) demo_world = Ret (Some (Some resp), c', w')
    \<and> gu_Name resp = ''138****1234''"
proof -
  let ?c = "new_context\<lparr>cx_claims := Some \<lparr>cl_UserId = [1], cl_Platform = 8, cl_UserAgent = [], cl_UserAgentHashed = [],
        cl_ClientId = [], cl_Ip = []\<rparr>\<rparr>"
  obtain resp c' w' where h: "handleGetSelfUserInfo users_demo (\<lambda>_. Reply) ?c ([demo_user], [([1], ''1.1.1.1'')]) demo_world
      = Ret (Some (Some resp), c', w')"
    by (simp add: users_eval handleGetSelfUserInfo_def GetSelfInfo_def GetClaims_def new_context_def)
  from self_info_current [OF users_demo_laws users_demo_inv h] have "gu_Name resp = um_Name demo_user"
    by (auto simp: GetClaims_def new_context_def list_rows_def demo_user_def)
  with h show ?thesis by (simp add: demo_user_def)
qed

text \<open>The name a user is registered under: for a login that passed the checks of the country code and the cell
  phone, \<open>Upsert\<close> does not panic and hides the middle of the number as \<open>MaskPhone\<close> does. A shorter number panics.\<close>

theorem display_name_masks:
  assumes "IsCountryCode cc" "IsCellPhone phone"
  shows "display_name (cc @ phone) = MaskPhone phone \<and> (\<forall>s. length s < 10 \<longrightarrow> \<not> is_ret (display_name s))"
  using assms by (simp add: IsCountryCode_iff IsCellPhone_iff display_name_def MaskPhone_def)

lemma display_name_masks_witness: "display_name ''08613800001234'' = MaskPhone ''13800001234''"
  using display_name_masks [of "''086''" "''13800001234''"]
  by (simp add: IsCountryCode_iff IsCellPhone_iff is_digit_def digit_val_def)

end
