(* ===== verification/UsersRaces.thy ===== *)
theory UsersRaces
  imports UsersProofs
begin

text \<open>
  Overlapping calls of the user store. A reader is between its select and its write to the cache; a writer of the
  latest address is between its statement and its two deletions. \<open>deleted_user_served\<close> is the run the single
  deletion of \<open>DeleteByID\<close> allows; \<open>ip_step\<close> is the step relation of readers and a writer of addresses, on the
  parts \<open>latest_load\<close>, \<open>latest_store\<close>, \<open>ip_write\<close> and \<open>Cache_KeyDel\<close> of the calls.
\<close>

section \<open>A reader that overlaps a deletion\<close>

text \<open>A reader that selected a user before \<open>DeleteByID\<close> and stores it afterwards: the user is gone from the
  database and from the cache, and then \<open>GetByID\<close> returns the user again, from the cache, for the hour the entry lives.\<close>

theorem deleted_user_served:
  assumes "users_laws E g rows ips" "one_client E a w" "users_coherent E g rows ips (store_of a w) d"
    and "get_load E n i d w = Ret (Inr (False, u), w1)"
    and "DeleteByID E Reply i d w1 = Ret (None, d', w2)"
    and "ue_json E u = Some s" "cmd_result (fst (sv_exec (ue_server E) (CSet (user_key i) s hour) (store_of a w2))) = Inr r"
    and "get_store E Reply i u w2 = Ret w3"
  shows "rows d' i = None \<and> g (store_of a w2) (user_key i) = None
    \<and> (\<exists>w4. GetByID E Reply n2 i d' w3 = Ret (Inr u, w4))"
proof -
  note L = get_load_current [OF assms(1-4)]
  then have o1: "one_client E a w1" and "users_coherent E g rows ips (store_of a w1) d" using assms(3) by simp_all
  note D = users_db(4) [OF assms(1)]
  obtain e dx where q: "ud_delete (ue_db E) i d = (e, dx)" by (metis prod.exhaust)
  have e: "e = None" "dx = d'"
    using assms(5) q by (auto simp: DeleteByID_def bind_outcome_Ret_iff split: if_splits)
  let ?ks = "[user_key i, latestip_key i]"
  obtain r0 wx where k: "client_call (ue_server E) Reply (Some a) (CDel ?ks) w1 = Ret (Inr r0, wx)" "one_client E a wx"
    "g (store_of a wx) = (\<lambda>k. if k \<in> set ?ks then None else g (store_of a w1) k)"
    by (rule users_del [OF assms(1) o1])
  have "wx = w2" using assms(5) q e k(1) o1 by (simp add: DeleteByID_def Cache_KeyDel_def one_client_def)
  with k have o2: "one_client E a w2" and n: "g (store_of a w2) (user_key i) = None" by simp_all
  obtain res wy where c: "client_call (ue_server E) Reply (Some a) (CSet (user_key i) s hour) w2 = Ret (res, wy)"
    "one_client E a wy" "g (store_of a wy) = (g (store_of a w2))(user_key i \<mapsto> s)"
    by (rule users_set_reply [OF assms(1) o2 assms(7)])
  have "wy = w3" using assms(6,8) c(1) o2 by (simp add: get_store_def Cache_SetJson_def one_client_def)
  with c have o3: "one_client E a w3" and v: "g (store_of a w3) (user_key i) = Some s" by simp_all
  have S: "server_laws (ue_server E) g" and "ue_unjson E s = Some u" using assms(1,6) by (simp_all add: users_laws_def)
  with o3 have "GetByID E Reply n2 i d' w3 = Ret (Inr u, w3)"
    using client_call_get [OF S, of w3 a "user_key i"] server_laws_dest(2) [OF S v]
    by (simp add: GetByID_def get_load_def Cache_GetJson_def one_client_def from_json_def)
  with D [OF q] e n show ?thesis by auto
qed

lemma deleted_user_served_witness:
  "\<exists>w4. GetByID users_demo Reply Reply [1] ([], []) (demo_world\<lparr>wd_srv := (\<lambda>_. Map.empty)(''m'' := [user_key [1] \<mapsto> ''u1''])\<rparr>)
     = Ret (Inr demo_user, w4)"
proof -
  let ?d = "([demo_user], []) :: list_db"
  let ?w2 = "demo_world\<lparr>wd_srv := (\<lambda>_. Map.empty)(''m'' := \<lambda>_. None)\<rparr>"
  let ?w3 = "demo_world\<lparr>wd_srv := (\<lambda>_. Map.empty)(''m'' := [user_key [1] \<mapsto> ''u1''])\<rparr>"
  have I: "one_client users_demo 0 demo_world" "users_coherent users_demo (\<lambda>s. s) list_rows list_ips (store_of 0 demo_world) ?d"
    using users_demo_inv by (simp_all add: users_inv_def)
  have l: "get_load users_demo Reply [1] ?d demo_world = Ret (Inr (False, demo_user), demo_world)"
    by (simp add: users_eval fun_upd_idem)
  have d: "DeleteByID users_demo Reply [1] ?d demo_world = Ret (None, ([], []), ?w2)"
    by (simp add: users_eval DeleteByID_def fun_eq_iff)
  have j: "ue_json users_demo demo_user = Some ''u1''" by (simp add: users_demo_def)
  have c: "cmd_result (fst (sv_exec (ue_server users_demo) (CSet (user_key [1]) ''u1'' hour) (store_of 0 ?w2))) = Inr (RStatus ''OK'')"
    by (simp add: users_demo_def)
  have s: "get_store users_demo Reply [1] demo_user ?w2 = Ret ?w3"
    by (simp add: get_store_def Cache_SetJson_def users_demo_def client_call_def call_redis_def demo_world_def)
  from deleted_user_served [OF users_demo_laws I l d j c s] show ?thesis by simp
qed

section \<open>Readers and a writer of addresses\<close>

text \<open>\<open>KeyDelayDoubleDel\<close> is two deletions of the master with a sleep between them.\<close>

lemma double_del_steps:
  "Cache_KeyDelayDoubleDel S n1 n2 c meanwhile keys w =
    bind_outcome (Cache_KeyDel S n1 c keys w) (\<lambda>(res, w).
      case res of Inl err \<Rightarrow> Ret (Inl err, w) | Inr _ \<Rightarrow> Cache_KeyDel S n2 c keys (meanwhile w))"
  unfolding Cache_KeyDelayDoubleDel_def Cache_KeyDel_def ..

datatype ip_writer = NoWriter | Written UID | DeletedOnce UID

record ('s, 'd) ip_state =
  st_db :: 'd
  st_world :: "'s world"
  st_readers :: "(UID \<times> string) list" \<comment> \<open>selected and not yet stored\<close>
  st_writer :: ip_writer

text \<open>The second deletion comes when the readers that selected before the statement have stored: they have the time
  of the sleep for it.\<close>

inductive ip_step ::
    "('s, 'd) users_env \<Rightarrow> ('d \<Rightarrow> UID \<Rightarrow> string option) \<Rightarrow> ('s, 'd) ip_state \<Rightarrow> ('s, 'd) ip_state \<Rightarrow> bool"
  for E ips where
  load_done: "latest_load E n i (st_db x) (st_world x) = Ret (res, w') \<Longrightarrow> (\<And>v. res \<noteq> Some (False, v)) \<Longrightarrow>
    ip_step E ips x (x\<lparr>st_world := w'\<rparr>)"
| load_miss: "latest_load E n i (st_db x) (st_world x) = Ret (Some (False, v), w') \<Longrightarrow>
    ip_step E ips x (x\<lparr>st_world := w', st_readers := (i, v) # st_readers x\<rparr>)"
| store: "(i, v) \<in> set (st_readers x) \<Longrightarrow> latest_store E n i v (st_world x) = Ret w' \<Longrightarrow>
    ip_step E ips x (x\<lparr>st_world := w', st_readers := remove1 (i, v) (st_readers x)\<rparr>)"
| ip_written: "st_writer x = NoWriter \<Longrightarrow> ip_write E now i ip (st_db x) = (None, d') \<Longrightarrow>
    ip_step E ips x (x\<lparr>st_db := d', st_writer := Written i\<rparr>)"
| delete1: "st_writer x = Written i \<Longrightarrow>
    Cache_KeyDel (ue_server E) Reply (ue_cache E) [latestip_key i] (st_world x) = Ret (Inr r, w') \<Longrightarrow>
    ip_step E ips x (x\<lparr>st_world := w', st_writer := DeletedOnce i\<rparr>)"
| delete2: "st_writer x = DeletedOnce i \<Longrightarrow>
    Cache_KeyDel (ue_server E) Reply (ue_cache E) [latestip_key i] (st_world x) = Ret (Inr r, w') \<Longrightarrow>
    (\<And>v. (i, v) \<in> set (st_readers x) \<Longrightarrow> ips (st_db x) i = Some v) \<Longrightarrow>
    ip_step E ips x (x\<lparr>st_world := w', st_writer := NoWriter\<rparr>)"

text \<open>What may be stale: only what belongs to the user whose address is being written.\<close>

definition writing :: "UID \<Rightarrow> ip_writer \<Rightarrow> bool" where
  "writing i ph \<longleftrightarrow> ph = Written i \<or> ph = DeletedOnce i"

definition ip_inv where
  "ip_inv E g ips a x \<longleftrightarrow> one_client E a (st_world x) \<and>
     (\<forall>i v. g (store_of a (st_world x)) (latestip_key i) = Some v \<longrightarrow>
        v = [] \<or> ips (st_db x) i = Some v \<or> writing i (st_writer x)) \<and>
     (\<forall>i v. (i, v) \<in> set (st_readers x) \<longrightarrow> ips (st_db x) i = Some v \<or> writing i (st_writer x))"

lemma ip_invD:
  assumes "ip_inv E g ips a x"
  shows "one_client E a (st_world x)"
    and "g (store_of a (st_world x)) (latestip_key i) = Some v \<Longrightarrow> v = [] \<or> ips (st_db x) i = Some v \<or> writing i (st_writer x)"
    and "(i, v) \<in> set (st_readers x) \<Longrightarrow> ips (st_db x) i = Some v \<or> writing i (st_writer x)"
  using assms by (simp_all add: ip_inv_def)

lemma users_KeyDel:
  assumes "users_laws E g rows ips" "one_client E a w"
    and "Cache_KeyDel (ue_server E) Reply (ue_cache E) ks w = Ret (Inr r, w')"
  shows "one_client E a w' \<and> g (store_of a w') = (\<lambda>k. if k \<in> set ks then None else g (store_of a w) k)"
proof -
  obtain r0 wx where k: "client_call (ue_server E) Reply (Some a) (CDel ks) w = Ret (Inr r0, wx)" "one_client E a wx"
    "g (store_of a wx) = (\<lambda>k. if k \<in> set ks then None else g (store_of a w) k)"
    by (rule users_del [OF assms(1,2)])
  then have "wx = w'" using assms(2,3) by (simp add: Cache_KeyDel_def one_client_def)
  with k show ?thesis by simp
qed

text \<open>A read of the cache of another key, or of the same key when it is not being written, is current.\<close>

lemma latest_load_fresh:
  assumes "users_laws E g rows ips" "one_client E a w" "latest_load E n i d w = Ret (res, w')"
  shows "one_client E a w' \<and> store_of a w' = store_of a w \<and> (\<forall>v. res = Some (False, v) \<longrightarrow> ips d i = Some v)"
proof -
  obtain r w1 where c: "client_call (ue_server E) n (Some a) (CGet (latestip_key i)) w = Ret (r, w1)"
    by (rule users_call_ret [OF assms(2)])
  have l: "latest_load E n i d w = (if got_string r \<noteq> [] then Ret (Some (True, got_string r), w1)
      else (case ud_latest (ue_db E) i d of Inl err \<Rightarrow> Ret (None, w1) | Inr latest \<Rightarrow> Ret (Some (False, latest), w1)))"
    using assms(2) c by (simp add: latest_load_def Cache_Get_def one_client_def)
  have "w' = w1 \<and> (\<forall>v. res = Some (False, v) \<longrightarrow> ips d i = Some v)"
  proof (cases "got_string r = []")
    case True
    with l assms(3) users_db(6) [OF assms(1)] show ?thesis
      by (cases "ud_latest (ue_db E) i d") auto
  next
    case False
    with l assms(3) show ?thesis by simp
  qed
  with users_get(1,2) [OF assms(1,2) c] show ?thesis by simp
qed

lemma ip_step_inv:
  assumes "users_laws E g rows ips" "ip_step E ips x y" "ip_inv E g ips a x"
  shows "ip_inv E g ips a y"
  using assms(2)
proof cases
  case (load_done n i res w')
  with latest_load_fresh [OF assms(1) ip_invD(1) [OF assms(3)]] assms(3)
  show ?thesis by (auto simp: ip_inv_def)
next
  case (load_miss n i v w')
  with latest_load_fresh [OF assms(1) ip_invD(1) [OF assms(3)] load_miss(2)] assms(3)
  show ?thesis by (auto simp: ip_inv_def)
next
  case (store i v n w')
  have s: "one_client E a w'" "g (store_of a w') = g (store_of a (st_world x))
    \<or> g (store_of a w') = (g (store_of a (st_world x)))(latestip_key i \<mapsto> v)"
    using latest_store_effect [OF assms(1) ip_invD(1) [OF assms(3)] store(3)] by auto
  have v: "ips (st_db x) i = Some v \<or> writing i (st_writer x)" by (rule ip_invD(3) [OF assms(3) store(2)])
  have "w = [] \<or> ips (st_db x) j = Some w \<or> writing j (st_writer x)"
    if "g (store_of a w') (latestip_key j) = Some w" for j w
  proof (cases "g (store_of a (st_world x)) (latestip_key j) = Some w")
    case True
    then show ?thesis by (rule ip_invD(2) [OF assms(3)])
  next
    case False
    with s(2) that have "j = i" "w = v" by (auto split: if_splits)
    with v show ?thesis by simp
  qed
  moreover have "(j, w) \<in> set (st_readers x)" if "(j, w) \<in> set (remove1 (i, v) (st_readers x))" for j w
    using that set_remove1_subset by fast
  ultimately show ?thesis using s(1) ip_invD(3) [OF assms(3)] store(1) by (simp add: ip_inv_def)
next
  case (ip_written now i ip d')
  have r: "ips d' = (ips (st_db x))(i \<mapsto> ip)" using ip_write_rows [OF assms(1) ip_written(3)] by simp
  have "writing j (Written i) \<longleftrightarrow> j = i" "\<not> writing j NoWriter" for j by (auto simp: writing_def)
  with assms(3) ip_written(1,2) r show ?thesis by (auto simp: ip_inv_def)
next
  case (delete1 i r w')
  note k = users_KeyDel [OF assms(1) ip_invD(1) [OF assms(3)] delete1(3)]
  have "writing j (DeletedOnce i) \<longleftrightarrow> j = i" "writing j (Written i) \<longleftrightarrow> j = i" for j by (auto simp: writing_def)
  with k assms(3) delete1(1,2) show ?thesis by (auto simp: ip_inv_def)
next
  case (delete2 i r w')
  note k = users_KeyDel [OF assms(1) ip_invD(1) [OF assms(3)] delete2(3)]
  have "writing j (DeletedOnce i) \<longleftrightarrow> j = i" "\<not> writing j NoWriter" for j by (auto simp: writing_def)
  moreover have "ips (st_db x) j = Some v" if "(j, v) \<in> set (st_readers x)" for j v
    using ip_invD(3) [OF assms(3) that] delete2(2,4) that by (cases "j = i") (auto simp: writing_def)
  ultimately show ?thesis using k assms(3) delete2(1,2) by (auto simp: ip_inv_def split: if_splits)
qed


definition demo_ip_state :: "(string \<Rightarrow> string option, list_db) ip_state" where
  "demo_ip_state = \<lparr>st_db = ([], []), st_world = demo_world, st_readers = [], st_writer = NoWriter\<rparr>"


end
