(* ===== verification/Limiter.thy ===== *)
theory Limiter
  imports GoStrings
begin

text \<open>
  \<open>pkg/httpex/ip.go\<close> and \<open>rate-limter.go\<close>: the client's address of a request, and the middleware that keeps a
  rate limiter for every address. What is used of Go's \<open>net\<close> package (\<open>ParseIP\<close>, \<open>SplitHostPort\<close>) is written out;
  the limiters of \<open>golang.org/x/time/rate\<close> are a parameter, reached through pointers.
\<close>

section \<open>Addresses\<close>

text \<open>An IPv4 address: four decimal fields from 0 to 255 without leading zeros.\<close>

definition ipv4_field :: "string \<Rightarrow> bool" where
  "ipv4_field s \<longleftrightarrow> s \<noteq> [] \<and> list_all is_digit s \<and> digits_val 0 s \<le> 255 \<and> (length s = 1 \<or> hd s \<noteq> CHR ''0'')"

definition parse_ipv4 :: "string \<Rightarrow> bool" where
  "parse_ipv4 s \<longleftrightarrow> (let fs = Split s ''.'' in length fs = 4 \<and> list_all ipv4_field fs)"

definition is_hex_digit :: "char \<Rightarrow> bool" where
  "is_hex_digit c \<longleftrightarrow> (let n = (of_char c :: nat) in
     (48 \<le> n \<and> n \<le> 57) \<or> (65 \<le> n \<and> n \<le> 70) \<or> (97 \<le> n \<and> n \<le> 102))"

text \<open>An IPv6 address: \<open>n\<close> groups of 16 bits are left, \<open>ell\<close> says whether \<open>::\<close> was read. The last two groups may be
  an IPv4 address.\<close>

fun ipv6_groups :: "nat \<Rightarrow> bool \<Rightarrow> string \<Rightarrow> bool" where
  "ipv6_groups 0 ell s = False" \<comment> \<open>more than eight groups\<close>
| "ipv6_groups (Suc n) ell s =
     (let ds = takeWhile is_hex_digit s; r = dropWhile is_hex_digit s in
      if length ds = 0 \<or> 4 < length ds then False
      else case r of
          [] \<Rightarrow> (if n = 0 then \<not> ell else ell)
        | c # r1 \<Rightarrow>
            if c = CHR ''.'' then
              (if \<not> ell \<and> n \<noteq> 1 then False
               else if n = 0 then False
               else parse_ipv4 s \<and> (if n = 1 then \<not> ell else ell))
            else if c \<noteq> CHR '':'' then False
            else (case r1 of
                [] \<Rightarrow> False
              | c2 # r2 \<Rightarrow>
                  if c2 = CHR '':'' then
                    (if ell then False else if r2 = [] then 0 < n else ipv6_groups n True r2)
                  else ipv6_groups n ell r1))"

definition parse_ipv6 :: "string \<Rightarrow> bool" where
  "parse_ipv6 s \<longleftrightarrow> \<not> CHR ''%'' \<in> set s \<and>
     (if HasPrefix s ''::'' then (if length s = 2 then True else ipv6_groups 8 True (drop 2 s))
      else ipv6_groups 8 False s)"

text \<open>\<open>net.ParseIP(s) != nil\<close>: the first of dot, colon and percent decides.\<close>

definition ParseIP :: "string \<Rightarrow> bool" where
  "ParseIP s \<longleftrightarrow>
     (case dropWhile (\<lambda>c. c \<notin> {CHR ''.'', CHR '':'', CHR ''%''}) s of
        [] \<Rightarrow> False
      | c # _ \<Rightarrow> if c = CHR ''.'' then parse_ipv4 s else if c = CHR '':'' then parse_ipv6 s else False)"

text \<open>The host of \<open>net.SplitHostPort\<close>, \<open>None\<close> for its errors.\<close>

definition SplitHost :: "string \<Rightarrow> string option" where
  "SplitHost hostport =
     (if \<not> CHR '':'' \<in> set hostport then None
      else
        (let port = rev (takeWhile (\<lambda>c. c \<noteq> CHR '':'') (rev hostport));
             i = length hostport - length port - 1
         in if hd hostport = CHR ''['' then
              (if \<not> CHR '']'' \<in> set hostport then None
               else
                 (let end = length (takeWhile (\<lambda>c. c \<noteq> CHR '']'') hostport) in
                  if end + 1 \<noteq> i then None
                  else if CHR ''['' \<in> set (drop 1 hostport) \<or> CHR '']'' \<in> set (drop (end + 1) hostport) then None
                  else Some (drop 1 (take end hostport))))
            else
              (let host = take i hostport in
               if CHR '':'' \<in> set host then None
               else if CHR ''['' \<in> set hostport \<or> CHR '']'' \<in> set hostport then None
               else Some host)))"

record ip_request =
  ir_header :: "string \<Rightarrow> string"
  ir_remote :: string

fun first_ip :: "string list \<Rightarrow> string option" where
  "first_ip [] = None"
| "first_ip (ip # ips) = (if ParseIP ip then Some ip else first_ip ips)"

definition GetClientIp :: "ip_request \<Rightarrow> string" where
  "GetClientIp r =
     (let ip = ir_header r ''X-Real-IP'' in
      if ParseIP ip then ip
      else case first_ip (Split (ir_header r ''X-Forwarded-For'') '','') of
          Some ip \<Rightarrow> ip
        | None \<Rightarrow>
            (case SplitHost (ir_remote r) of
               None \<Rightarrow> []
             | Some ip \<Rightarrow> if ParseIP ip then ip else []))"

section \<open>Limiters\<close>

text \<open>\<open>rl_new\<close> makes a limiter from the interval and the burst, \<open>rl_allow\<close> is \<open>Allow\<close> at a time.\<close>

record 'l limiters =
  rl_new :: "int \<Rightarrow> int \<Rightarrow> 'l"
  rl_allow :: "int \<Rightarrow> 'l \<Rightarrow> bool \<times> 'l"

text \<open>The package's variable \<open>ipLimiter\<close>: the map from addresses to pointers, and the limiters they point to.\<close>

record 'l ipRateLimiter =
  ips :: "string \<rightharpoonup> nat"
  rl_limit :: int
  rl_b :: int
  rl_heap :: "nat \<Rightarrow> 'l"
  rl_free :: nat

definition limiter_init :: "int \<Rightarrow> int \<Rightarrow> 'l ipRateLimiter \<Rightarrow> 'l ipRateLimiter" where
  "limiter_init limitInterval cnt l = l\<lparr>ips := Map.empty, rl_limit := limitInterval, rl_b := cnt\<rparr>"

definition addIp :: "'l limiters \<Rightarrow> string \<Rightarrow> 'l ipRateLimiter \<Rightarrow> nat \<times> 'l ipRateLimiter" where
  "addIp L ip l =
     (let p = rl_free l in
      (p, l\<lparr>ips := (ips l)(ip \<mapsto> p), rl_heap := (rl_heap l)(p := rl_new L (rl_limit l) (rl_b l)), rl_free := Suc p\<rparr>))"

definition limiter_get :: "'l limiters \<Rightarrow> string \<Rightarrow> 'l ipRateLimiter \<Rightarrow> nat \<times> 'l ipRateLimiter" where
  "limiter_get L ip l = (case ips l ip of Some lm \<Rightarrow> (lm, l) | None \<Rightarrow> addIp L ip l)"

definition limiter_allow :: "'l limiters \<Rightarrow> int \<Rightarrow> nat \<Rightarrow> 'l ipRateLimiter \<Rightarrow> bool \<times> 'l ipRateLimiter" where
  "limiter_allow L now p l =
     (let (ok, lm) = rl_allow L now (rl_heap l p) in (ok, l\<lparr>rl_heap := (rl_heap l)(p := lm)\<rparr>))"

text \<open>What the middleware does to a request: the status it sets, if any, and whether the chain is aborted. gin runs
  the rest of the chain unless it is.\<close>

record verdict =
  vd_status :: "nat option"
  vd_aborted :: bool

definition RateLimit_handle :: "'l limiters \<Rightarrow> int \<Rightarrow> ip_request \<Rightarrow> 'l ipRateLimiter \<Rightarrow> verdict \<times> 'l ipRateLimiter" where
  "RateLimit_handle L now r l =
     (let ip = GetClientIp r in
      if ip = [] then (\<lparr>vd_status = Some 400, vd_aborted = False\<rparr>, l)
      else
        (let (lm, l) = limiter_get L ip l;
             (ok, l) = limiter_allow L now lm l
         in if ok then (\<lparr>vd_status = None, vd_aborted = False\<rparr>, l)
            else (\<lparr>vd_status = Some 429, vd_aborted = True\<rparr>, l)))"

text \<open>Requests one after another, with their times: which of them reach the handlers.\<close>

fun serve :: "'l limiters \<Rightarrow> (int \<times> ip_request) list \<Rightarrow> 'l ipRateLimiter \<Rightarrow> bool list \<times> 'l ipRateLimiter" where
  "serve L [] l = ([], l)"
| "serve L ((now, r) # rs) l =
     (let (v, l) = RateLimit_handle L now r l; (oks, l) = serve L rs l in ((\<not> vd_aborted v) # oks, l))"

section \<open>What the limiters promise\<close>

fun run_allow :: "'l limiters \<Rightarrow> int list \<Rightarrow> 'l \<Rightarrow> bool list" where
  "run_allow L [] lm = []"
| "run_allow L (t # ts) lm = (let (ok, lm) = rl_allow L t lm in ok # run_allow L ts lm)"

text \<open>A limiter admits the burst at once, and in a time at most the burst and one event per interval.\<close>

definition bucket_laws :: "'l limiters \<Rightarrow> bool" where
  "bucket_laws L \<longleftrightarrow>
     (\<forall>\<delta> b t. 1 \<le> b \<longrightarrow> fst (rl_allow L t (rl_new L \<delta> b))) \<and>
     (\<forall>\<delta> b ts t0 t1. 0 < \<delta> \<and> 0 \<le> b \<and> sorted ts \<and> (\<forall>t\<in>set ts. t0 \<le> t \<and> t \<le> t1) \<and> t0 \<le> t1 \<longrightarrow>
        int (length (filter id (run_allow L ts (rl_new L \<delta> b)))) * \<delta> \<le> b * \<delta> + (t1 - t0))"

text \<open>A limiter that admits the burst and nothing after it.\<close>

definition once_limiters :: "int limiters" where
  "once_limiters = \<lparr>rl_new = (\<lambda>\<delta> b. b), rl_allow = (\<lambda>t left. (1 \<le> left, left - 1))\<rparr>"

lemma once_limiters_run: "0 \<le> b \<Longrightarrow> int (length (filter id (run_allow once_limiters ts b))) \<le> b"
  and once_limiters_empty: "b \<le> 0 \<Longrightarrow> filter id (run_allow once_limiters ts b) = []"
proof (induction ts arbitrary: b)
  case (Cons t ts)
  {
    case 1
    then show ?case using Cons(1) [of "b - 1"] Cons(2) [of "b - 1"] by (cases "1 \<le> b") (auto simp: once_limiters_def)
  next
    case 2
    then show ?case using Cons(2) [of "b - 1"] by (auto simp: once_limiters_def)
  }
qed simp_all

lemma once_limiters_laws: "bucket_laws once_limiters"
proof -
  have "int (length (filter id (run_allow once_limiters ts b))) * \<delta> \<le> b * \<delta> + (t1 - t0)"
    if "0 < \<delta>" "0 \<le> b" "t0 \<le> t1" for ts \<delta> b t0 t1
    using mult_right_mono [OF once_limiters_run [OF that(2), of ts], of \<delta>] that by linarith
  then show ?thesis by (simp add: bucket_laws_def) (simp add: once_limiters_def)
qed

section \<open>The table\<close>

text \<open>Different addresses have different limiters.\<close>

definition table_ok :: "'l ipRateLimiter \<Rightarrow> bool" where
  "table_ok l \<longleftrightarrow> (\<forall>ip p. ips l ip = Some p \<longrightarrow> p < rl_free l) \<and>
     (\<forall>ip jp p. ips l ip = Some p \<and> ips l jp = Some p \<longrightarrow> ip = jp)"

text \<open>The limiter an address has or would get.\<close>

definition limiter_of :: "'l limiters \<Rightarrow> 'l ipRateLimiter \<Rightarrow> string \<Rightarrow> 'l" where
  "limiter_of L l ip = (case ips l ip of Some p \<Rightarrow> rl_heap l p | None \<Rightarrow> rl_new L (rl_limit l) (rl_b l))"

lemma limiter_get_ok:
  assumes "table_ok l" "limiter_get L ip l = (p, l')"
  shows "table_ok l' \<and> ips l' ip = Some p \<and> rl_limit l' = rl_limit l \<and> rl_b l' = rl_b l \<and> limiter_of L l' = limiter_of L l"
proof (cases "ips l ip")
  case None
  then have l': "p = rl_free l" "l' = snd (addIp L ip l)"
    using assms(2) by (auto simp: limiter_get_def addIp_def Let_def)
  have "limiter_of L l' jp = limiter_of L l jp" for jp
    using None assms(1) unfolding l' by (auto simp: limiter_of_def addIp_def table_ok_def Let_def split: option.splits)
  moreover have "table_ok l'"
    using assms(1) unfolding l' table_ok_def addIp_def Let_def by (auto simp: less_Suc_eq)
  ultimately show ?thesis unfolding l' by (auto simp: addIp_def Let_def)
qed (use assms in \<open>auto simp: limiter_get_def\<close>)

lemma limiter_allow_ok:
  assumes "table_ok l" "ips l ip = Some p" "limiter_allow L now p l = (ok, l')"
  shows "table_ok l' \<and> rl_limit l' = rl_limit l \<and> rl_b l' = rl_b l \<and> (ok, limiter_of L l' ip) = rl_allow L now (limiter_of L l ip)
    \<and> (\<forall>jp. jp \<noteq> ip \<longrightarrow> limiter_of L l' jp = limiter_of L l jp)"
proof -
  obtain lm where a: "rl_allow L now (rl_heap l p) = (ok, lm)" and l': "l' = l\<lparr>rl_heap := (rl_heap l)(p := lm)\<rparr>"
    using assms(3) by (auto simp: limiter_allow_def split: prod.splits)
  have "limiter_of L l' jp = limiter_of L l jp" if "jp \<noteq> ip" for jp
    using assms(1,2) that unfolding l' by (auto simp: limiter_of_def table_ok_def split: option.splits)
  then show ?thesis using assms(1,2) a by (auto simp: l' table_ok_def limiter_of_def)
qed

text \<open>One request: an address's limiter is asked once, the others are not touched.\<close>

lemma RateLimit_handle_ok:
  assumes "table_ok l" "RateLimit_handle L now r l = (v, l')"
  shows "table_ok l' \<and> rl_limit l' = rl_limit l \<and> rl_b l' = rl_b l
    \<and> (GetClientIp r = [] \<longrightarrow> \<not> vd_aborted v)
    \<and> (GetClientIp r \<noteq> [] \<longrightarrow> (\<not> vd_aborted v, limiter_of L l' (GetClientIp r)) = rl_allow L now (limiter_of L l (GetClientIp r)))
    \<and> (\<forall>jp. jp \<noteq> GetClientIp r \<or> jp = [] \<longrightarrow> limiter_of L l' jp = limiter_of L l jp)"
proof (cases "GetClientIp r = []")
  case False
  obtain p l1 ok l2 where g: "limiter_get L (GetClientIp r) l = (p, l1)" and a: "limiter_allow L now p l1 = (ok, l2)"
    by (metis prod.exhaust)
  note G = limiter_get_ok [OF assms(1) g]
  then have "table_ok l1" "ips l1 (GetClientIp r) = Some p" by simp_all
  note A = limiter_allow_ok [OF this a]
  have "l' = l2" "vd_aborted v = (\<not> ok)"
    using assms(2) False g a by (auto simp: RateLimit_handle_def split: if_splits)
  with G A False show ?thesis by simp
qed (use assms in \<open>auto simp: RateLimit_handle_def\<close>)

text \<open>Of many: the requests of one address reach the handlers as its limiter decides.\<close>

definition admitted :: "string \<Rightarrow> (int \<times> ip_request) list \<Rightarrow> bool list \<Rightarrow> bool list" where
  "admitted ip rs oks = map snd (filter (\<lambda>((_, r), _). GetClientIp r = ip) (zip rs oks))"

definition times_of :: "string \<Rightarrow> (int \<times> ip_request) list \<Rightarrow> int list" where
  "times_of ip rs = map fst (filter (\<lambda>(_, r). GetClientIp r = ip) rs)"

lemma serve_admitted:
  assumes "ip \<noteq> []"
  shows "table_ok l \<Longrightarrow> serve L rs l = (oks, l') \<Longrightarrow> admitted ip rs oks = run_allow L (times_of ip rs) (limiter_of L l ip)"
proof (induction rs arbitrary: l oks)
  case (Cons x rs)
  obtain now r where x: "x = (now, r)" by (cases x)
  obtain v l1 oks1 where h: "RateLimit_handle L now r l = (v, l1)" and s: "serve L rs l1 = (oks1, l')"
    and o: "oks = (\<not> vd_aborted v) # oks1"
    using Cons.prems(2) x by (auto split: prod.splits)
  note H = RateLimit_handle_ok [OF Cons.prems(1) h]
  have I: "admitted ip rs oks1 = run_allow L (times_of ip rs) (limiter_of L l1 ip)" using H by (intro Cons.IH [OF _ s]) simp
  show ?case
  proof (cases "GetClientIp r = ip")
    case True
    then have "rl_allow L now (limiter_of L l ip) = (\<not> vd_aborted v, limiter_of L l1 ip)" using H assms by simp
    with I True show ?thesis by (simp add: x o admitted_def times_of_def)
  next
    case False
    with H have "limiter_of L l1 ip = limiter_of L l ip" by simp
    with I False show ?thesis by (simp add: x o admitted_def times_of_def)
  qed
qed (simp add: admitted_def times_of_def)

lemma init_table:
  "table_ok (limiter_init \<delta> b l)" "limiter_of L (limiter_init \<delta> b l) ip = rl_new L \<delta> b"
  by (simp_all add: table_ok_def limiter_init_def limiter_of_def)

section \<open>Properties\<close>

text \<open>Every address \<open>GetClientIp\<close> returns is one, and it is what the request says: the header \<open>X-Real-IP\<close> when
  that is an address, else an entry of \<open>X-Forwarded-For\<close> (as it stands, so one with a space is skipped), else the
  host of the connection; it is empty only when none of them is an address.\<close>

theorem client_ip_sources:
  "if ParseIP (ir_header r ''X-Real-IP'') then GetClientIp r = ir_header r ''X-Real-IP''
   else if \<exists>ip\<in>set (Split (ir_header r ''X-Forwarded-For'') '',''). ParseIP ip
   then ParseIP (GetClientIp r) \<and> GetClientIp r \<in> set (Split (ir_header r ''X-Forwarded-For'') '','')
   else GetClientIp r = (case SplitHost (ir_remote r) of None \<Rightarrow> [] | Some ip \<Rightarrow> if ParseIP ip then ip else [])"
proof -
  have "first_ip ips = (if \<exists>ip\<in>set ips. ParseIP ip then first_ip ips else None)
      \<and> (\<forall>ip. first_ip ips = Some ip \<longrightarrow> ParseIP ip \<and> ip \<in> set ips) \<and> ((\<exists>ip\<in>set ips. ParseIP ip) \<longrightarrow> first_ip ips \<noteq> None)" for ips
    by (induction ips) auto
  from this [of "Split (ir_header r ''X-Forwarded-For'') '',''"] show ?thesis
    by (auto simp: GetClientIp_def split: option.splits)
qed


text \<open>Who writes the headers is not limited: requests that name different addresses in \<open>X-Real-IP\<close> all reach the
  handlers, whatever connection they come from, and so does every request without any address, with the status 400
  set but the chain not aborted.\<close>

theorem rate_limit_by_header:
  assumes "bucket_laws L" "1 \<le> b"
    and "\<forall>(t, r)\<in>set rs. ParseIP (ir_header r ''X-Real-IP'') \<or> GetClientIp r = []"
    and "distinct (map (\<lambda>(t, r). ir_header r ''X-Real-IP'') (filter (\<lambda>(t, r). GetClientIp r \<noteq> []) rs))"
  shows "fst (serve L rs (limiter_init \<delta> b l)) = replicate (length rs) True"
proof -
  have fresh: "fst (rl_allow L t (rl_new L \<delta> b))" for t using assms(1,2) by (simp add: bucket_laws_def)
  have "fst (serve L rs l) = replicate (length rs) True"
    if "table_ok l" "\<forall>(t, r)\<in>set rs. GetClientIp r \<noteq> [] \<longrightarrow> limiter_of L l (ir_header r ''X-Real-IP'') = rl_new L \<delta> b" for l
    using that assms(3,4)
  proof (induction rs arbitrary: l)
    case (Cons x rs)
    obtain now r where x: "x = (now, r)" by (cases x)
    obtain v l1 where h: "RateLimit_handle L now r l = (v, l1)" by fastforce
    note H = RateLimit_handle_ok [OF Cons.prems(1) h]
    have ip: "GetClientIp r = (if GetClientIp r = [] then [] else ir_header r ''X-Real-IP'')"
      using Cons.prems(3) x by (auto simp: GetClientIp_def)
    have v: "\<not> vd_aborted v"
    proof (cases "GetClientIp r = []")
      case False
      with ip have "GetClientIp r = ir_header r ''X-Real-IP''" by simp
      with H False Cons.prems(2) fresh [of now] x show ?thesis by (auto dest: arg_cong [of _ _ fst])
    qed (use H in simp)
    have "limiter_of L l1 (ir_header r' ''X-Real-IP'') = rl_new L \<delta> b"
      if "(t', r') \<in> set rs" "GetClientIp r' \<noteq> []" for t' r'
    proof -
      have "GetClientIp r = [] \<or> ir_header r' ''X-Real-IP'' \<noteq> GetClientIp r"
        using Cons.prems(4) that ip x by (cases "GetClientIp r = []") force+
      then have "limiter_of L l1 (ir_header r' ''X-Real-IP'') = limiter_of L l (ir_header r' ''X-Real-IP'')"
        using H by (cases "GetClientIp r = []") auto
      also have "\<dots> = rl_new L \<delta> b" using Cons.prems(2) that by auto
      finally show ?thesis .
    qed
    then have "fst (serve L rs l1) = replicate (length rs) True"
      using H Cons.prems(3,4) x by (intro Cons.IH) (auto split: if_splits)
    with v h x show ?case by (auto split: prod.splits)
  qed simp
  from this [OF init_table(1)] show ?thesis by (simp add: init_table(2))
qed

definition demo_ip_request :: "string \<Rightarrow> ip_request" where
  "demo_ip_request ip = \<lparr>ir_header = (\<lambda>n. if n = ''X-Real-IP'' then ip else []), ir_remote = ''10.0.0.1:5000''\<rparr>"

definition demo_table :: "int ipRateLimiter" where
  "demo_table = \<lparr>ips = Map.empty, rl_limit = 0, rl_b = 0, rl_heap = (\<lambda>_. 0), rl_free = 0\<rparr>"


lemma rate_limit_by_header_witness:
  "fst (serve once_limiters [(0, demo_ip_request ''1.1.1.1''), (0, demo_ip_request ''1.1.1.2'')] (limiter_init 10 1 demo_table))
     = [True, True]"
proof -
  have p: "ParseIP ''1.1.1.1''" "ParseIP ''1.1.1.2''" by code_simp+
  show ?thesis
    using rate_limit_by_header [OF once_limiters_laws, of 1
        "[(0, demo_ip_request ''1.1.1.1''), (0, demo_ip_request ''1.1.1.2'')]" 10 demo_table] p
    by (simp add: demo_ip_request_def GetClientIp_def numeral_2_eq_2)
qed

text \<open>Two first requests of an address that overlap: both find no limiter, each makes its own, and each is admitted
  although the burst may be one.\<close>

lemma limiter_race:
  assumes "bucket_laws L" "1 \<le> rl_b l" "ips l ip = None" "addIp L ip l = (p1, l1)" "addIp L ip l1 = (p2, l2)"
    and "limiter_allow L t1 p1 l2 = (ok1, l3)" "limiter_allow L t2 p2 l3 = (ok2, l4)"
  shows "ok1 \<and> ok2"
proof -
  have fresh: "fst (rl_allow L t (rl_new L (rl_limit l) (rl_b l)))" for t using assms(1,2) by (simp add: bucket_laws_def)
  show ?thesis
    using assms(4-7) fresh [of t1] fresh [of t2]
    by (auto simp: addIp_def limiter_allow_def Let_def split: prod.splits)
qed

end
