(* ===== verification/HttpClients.thy ===== *)
theory HttpClients
  imports GoStrings
begin

text \<open>
  \<open>pkg/httpex/http.go\<close> and \<open>pkg/scrapers\<close>: HTTP calls, retries, the wait between visits of a host, content types
  and page titles. What the network answers to an attempt, what the browser does on a page, parsing of URLs, the JSON
  codec and sniffing of contents are parameters. Times are nanoseconds.
\<close>

section \<open>Calls of \<open>httpex\<close>\<close>

text \<open>A response: status, content length (-1 when it is unknown), headers, and what reading the body gives.\<close>

record http_response =
  rs_status :: int
  rs_length :: int
  rs_header :: "string \<Rightarrow> string"
  rs_body :: "string \<times> string option"

record HttpOptions =
  ho_headers :: "(string \<times> string) list"
  ho_timeout :: int

definition second :: int where "second = 1000000000"

definition NewHttpOptions :: "(string \<times> string) list \<Rightarrow> HttpOptions" where
  "NewHttpOptions headers = \<lparr>ho_headers = headers, ho_timeout = 30 * second\<rparr>"

definition NewEmptyHttpOptions :: HttpOptions where
  "NewEmptyHttpOptions = \<lparr>ho_headers = [], ho_timeout = 0\<rparr>"

definition NewHttpOptionsJson :: "string \<Rightarrow> HttpOptions" where
  "NewHttpOptionsJson authorization =
     \<lparr>ho_headers = [(''Authorization'', authorization), (''Content-Type'', ''application/json'')], ho_timeout = 30 * second\<rparr>"

text \<open>\<open>new_request\<close> is the error of \<open>http.NewRequest\<close>, \<open>answer\<close> what the client's \<open>Do\<close> returns. The result has the
  bytes, if any, and the error.\<close>

definition status_error :: "int \<Rightarrow> string" where
  "status_error code = ''status code:'' @ Itoa code"

definition HttpPost :: "string option \<Rightarrow> string + http_response \<Rightarrow> string option \<times> string option" where
  "HttpPost new_request answer =
     (case new_request of
        Some err \<Rightarrow> (None, Some err)
      | None \<Rightarrow>
          (case answer of
             Inl err \<Rightarrow> (None, Some err)
           | Inr resp \<Rightarrow>
               if rs_status resp \<noteq> 200 then
                 (if 0 < rs_length resp then (Some (fst (rs_body resp)), Some (status_error (rs_status resp)))
                  else (None, Some (status_error (rs_status resp))))
               else (Some (fst (rs_body resp)), snd (rs_body resp))))"

definition HttpGet :: "string option \<Rightarrow> string + http_response \<Rightarrow> string option \<times> string option" where
  "HttpGet new_request answer =
     (case new_request of
        Some err \<Rightarrow> (None, Some err)
      | None \<Rightarrow>
          (case answer of
             Inl err \<Rightarrow> (None, Some err)
           | Inr resp \<Rightarrow>
               if rs_status resp \<noteq> 200 then (None, Some (status_error (rs_status resp)))
               else (Some (fst (rs_body resp)), snd (rs_body resp))))"

text \<open>\<open>unjson\<close> decodes into the caller's variable.\<close>

definition decode_answer :: "(string \<Rightarrow> 'v option) \<Rightarrow> string option \<times> string option \<Rightarrow> string + 'v" where
  "decode_answer unjson res =
     (case res of
        (_, Some err) \<Rightarrow> Inl err
      | (bytes, None) \<Rightarrow>
          (case unjson (case bytes of None \<Rightarrow> [] | Some b \<Rightarrow> b) of None \<Rightarrow> Inl ''json'' | Some v \<Rightarrow> Inr v))"

definition HttpPostJson :: "('a \<Rightarrow> string option) \<Rightarrow> (string \<Rightarrow> 'v option) \<Rightarrow> 'a \<Rightarrow> string option
    \<Rightarrow> (string \<Rightarrow> string + http_response) \<Rightarrow> string + 'v" where
  "HttpPostJson json unjson data new_request answer =
     (case json data of
        None \<Rightarrow> Inl ''json''
      | Some jsonBytes \<Rightarrow> decode_answer unjson (HttpPost new_request (answer jsonBytes)))"

definition HttpGetJson :: "(string \<Rightarrow> 'v option) \<Rightarrow> string option \<Rightarrow> string + http_response \<Rightarrow> string + 'v" where
  "HttpGetJson unjson new_request answer = decode_answer unjson (HttpGet new_request answer)"

section \<open>Content types\<close>

definition NewMineType :: "string \<Rightarrow> string" where
  "NewMineType val =
     (let segs = Split val '';'' in if 0 < length segs then TrimSpace (hd segs) else val)"

definition IsPdf :: "string \<Rightarrow> bool" where "IsPdf c \<longleftrightarrow> c = ''application/pdf''"
definition IsHtml :: "string \<Rightarrow> bool" where "IsHtml c = EqualFold c ''text/html''"
definition IsPlainText :: "string \<Rightarrow> bool" where "IsPlainText c = EqualFold c ''text/plain''"
definition IsJpeg :: "string \<Rightarrow> bool" where "IsJpeg c = EqualFold c ''image/jpeg''"
definition IsPng :: "string \<Rightarrow> bool" where "IsPng c = EqualFold c ''image/png''"
definition IsGif :: "string \<Rightarrow> bool" where "IsGif c = EqualFold c ''image/gif''"
definition IsWebp :: "string \<Rightarrow> bool" where "IsWebp c = EqualFold c ''image/webp''"
definition IsBmp :: "string \<Rightarrow> bool" where "IsBmp c = EqualFold c ''image/bmp''"
definition IsPPTX :: "string \<Rightarrow> bool" where
  "IsPPTX c = EqualFold c ''application/vnd.openxmlformats-officedocument.presentationml.presentation''"
definition IsPPT2003 :: "string \<Rightarrow> bool" where "IsPPT2003 c = EqualFold c ''application/vnd.ms-powerpoint''"

section \<open>Waiting between visits\<close>

text \<open>\<open>linkLockManager\<close>: when each host was last visited. A visit reads the clock when it makes the host's entry,
  when it compares, and after its sleep; \<open>rnd\<close> is \<open>localRand.Intn(4)\<close>. The result says how long it slept, if at all.\<close>

record visit_clock =
  vc_made :: int
  vc_since :: int
  vc_after :: int

type_synonym visits = "string \<rightharpoonup> int"

definition getLinkLock :: "int \<Rightarrow> string \<Rightarrow> visits \<Rightarrow> int \<times> visits" where
  "getLinkLock now host m = (case m host of Some t \<Rightarrow> (t, m) | None \<Rightarrow> (now, m(host \<mapsto> now)))"

text \<open>\<open>url_host\<close> is the host of the parsed link, \<open>None\<close> when it does not parse.\<close>

definition waitIfNeededBeforeVisit ::
    "(string \<Rightarrow> string option) \<Rightarrow> visit_clock \<Rightarrow> int \<Rightarrow> string \<Rightarrow> visits \<Rightarrow> int option \<times> visits" where
  "waitIfNeededBeforeVisit url_host c rnd link m =
     (case url_host link of
        None \<Rightarrow> (None, m)
      | Some h \<Rightarrow>
          (let host = TrimSpace (map to_lower h) in
           if length host = 0 then (None, m)
           else
             (let (lastVisitTime, m) = getLinkLock (vc_made c) host m;
                  diff = vc_since c - lastVisitTime
              in if diff < 3 * second then
                   (let sleepDur = (rnd + 2) * second in (Some sleepDur, m(host \<mapsto> vc_after c)))
                 else (None, m))))"

section \<open>Requests of the scraper\<close>

record userAgentConfig =
  ua_userAgent :: string
  ua_chromeVersion :: string
  ua_secChUa :: string
  ua_secChUaPlatform :: string
  ua_acceptEncoding :: string
  ua_acceptLanguage :: string

text \<open>A header is a list of values per name; \<open>Set\<close> replaces them, \<open>Add\<close> appends one. Names are in canonical form.\<close>

type_synonym http_header = "string \<Rightarrow> string list"

definition header_set :: "string \<Rightarrow> string \<Rightarrow> http_header \<Rightarrow> http_header" where
  "header_set k v h = h(k := [v])"

definition header_add :: "string \<Rightarrow> string \<Rightarrow> http_header \<Rightarrow> http_header" where
  "header_add k v h = h(k := h k @ [v])"

definition header_get :: "http_header \<Rightarrow> string \<Rightarrow> string" where
  "header_get h k = (case h k of [] \<Rightarrow> [] | v # _ \<Rightarrow> v)"

definition scraper_defaults :: "userAgentConfig \<Rightarrow> string \<Rightarrow> (string \<times> string) option \<Rightarrow> (string \<times> string) list" where
  "scraper_defaults ua link parsed =
     [(''Accept'', ''text/html,application/xhtml+xml,application/xml;q=0.9,image/avif,image/webp,image/apng,*/*;q=0.8,application/signed-exchange;v=b3;q=0.7''),
      (''User-Agent'', ua_userAgent ua), (''Accept-Encoding'', ua_acceptEncoding ua), (''Accept-Language'', ua_acceptLanguage ua),
      (''Connection'', ''keep-alive''), (''Cache-Control'', ''max-age=0''), (''Upgrade-Insecure-Requests'', ''1''),
      (''Sec-Fetch-Dest'', ''document''), (''Sec-Fetch-Mode'', ''navigate''), (''Sec-Fetch-Site'', ''none''),
      (''Sec-Fetch-User'', ''?1''), (''Sec-Ch-Ua'', ua_secChUa ua), (''Sec-Ch-Ua-Mobile'', ''?0''),
      (''Sec-Ch-Ua-Platform'', ua_secChUaPlatform ua), (''Referer'', link)]
     @ (case parsed of None \<Rightarrow> [] | Some (scheme, host) \<Rightarrow> [(''Origin'', scheme @ ''://'' @ host @ ''/'')])"

text \<open>\<open>custom\<close> is the scraper's own header, in the order the map is visited.\<close>

definition request_header ::
    "userAgentConfig \<Rightarrow> string \<Rightarrow> (string \<times> string) option \<Rightarrow> (string \<times> string list) list \<Rightarrow> http_header" where
  "request_header ua link parsed custom =
     fold (\<lambda>(k, vs) h. fold (\<lambda>v. header_add k v) vs h) custom
       (fold (\<lambda>(k, v). header_set k v) (scraper_defaults ua link parsed) (\<lambda>_. []))"

text \<open>The loop of \<open>DoRequest\<close>: \<open>at i\<close> is what attempt \<open>i\<close> gives, with its error's text and whether it is \<open>io.EOF\<close>.
  The result is the response and the error as the variables hold them, the number of attempts, and the sleep.\<close>

definition retryable :: "string \<times> bool \<Rightarrow> bool" where
  "retryable err \<longleftrightarrow> snd err \<or> Contains (fst err) ''idle HTTP channel''"

fun request_loop ::
    "(nat \<Rightarrow> (string \<times> bool) + http_response) \<Rightarrow> nat \<Rightarrow> nat \<Rightarrow> nat \<Rightarrow> (string + http_response) option \<Rightarrow> int
       \<Rightarrow> (string + http_response) option \<times> nat \<times> int" where
  "request_loop at maxReqCount 0 i cur slept = (cur, i, slept)"
| "request_loop at maxReqCount (Suc n) i cur slept =
     (case at i of
        Inr response \<Rightarrow> (Some (Inr response), Suc i, slept)
      | Inl err \<Rightarrow>
          if retryable err then
            (if i = maxReqCount
             then (Some (Inl (''after '' @ Itoa (int maxReqCount) @ '' retries: '' @ fst err)), Suc i, slept)
             else request_loop at maxReqCount n (Suc i) (Some (Inl (fst err))) (slept + int (Suc i) * 100))
          else (Some (Inl (fst err)), Suc i, slept))"

text \<open>A panic anywhere is the error \<open>painc\<close>; \<open>None\<close> is a nil response without an error.\<close>

definition DoRequest ::
    "string option \<Rightarrow> int \<Rightarrow> ((nat \<Rightarrow> (string \<times> bool) + http_response) outcome) \<Rightarrow> (string + http_response) option" where
  "DoRequest new_request maxRetries attempts =
     (case new_request of
        Some err \<Rightarrow> Some (Inl err)
      | None \<Rightarrow>
          (case attempts of
             Panic r \<Rightarrow> Some (Inl (''painc:'' @ r))
           | Ret at \<Rightarrow> (let maxReqCount = nat (maxRetries + 1) in fst (request_loop at maxReqCount maxReqCount 0 None 0))))"

definition DoHead :: "(string + http_response) option \<Rightarrow> (string + (string \<Rightarrow> string)) outcome" where
  "DoHead answer =
     (case answer of
        None \<Rightarrow> Panic ''nil pointer dereference''
      | Some (Inl err) \<Rightarrow> Ret (Inl err)
      | Some (Inr resp) \<Rightarrow>
          if rs_status resp \<noteq> 200 then Ret (Inl (''StatusCode: '' @ Itoa (rs_status resp))) else Ret (Inr (rs_header resp)))"

text \<open>\<open>sniff\<close> is \<open>http.DetectContentType\<close>; the body's error is of the read of its first bytes.\<close>

definition checkMineTypeByContent ::
    "(string \<Rightarrow> string) \<Rightarrow> (string + http_response) option \<Rightarrow> (string + string) outcome" where
  "checkMineTypeByContent sniff answer =
     (case answer of
        None \<Rightarrow> Panic ''nil pointer dereference''
      | Some (Inl err) \<Rightarrow> Ret (Inl err)
      | Some (Inr resp) \<Rightarrow>
          if rs_status resp \<noteq> 200 then Ret (Inl (''StatusCode: '' @ Itoa (rs_status resp)))
          else
            (let contentType = rs_header resp ''Content-Type'' in
             if length contentType = 0 then
               (case rs_body resp of
                  (buffer, None) \<Rightarrow> Ret (Inr (sniff (take 512 buffer)))
                | (buffer, Some err) \<Rightarrow> if err \<noteq> ''EOF'' then Ret (Inl err) else Ret (Inr (sniff (take 512 buffer))))
             else Ret (Inr contentType)))"

definition GetMineType :: "(string \<Rightarrow> string) \<Rightarrow> (string + http_response) option \<Rightarrow> (string + string) outcome" where
  "GetMineType sniff answer =
     bind_outcome (checkMineTypeByContent sniff answer) (\<lambda>res.
       case res of
         Inl err \<Rightarrow>
           if HasPrefix err ''StatusCode:'' then Ret (Inl err)
           else if Contains err ''deadline exceeded'' then Ret (Inl ''Timeout'')
           else Ret (Inl err)
       | Inr mineType \<Rightarrow> Ret (Inr (NewMineType mineType)))"

section \<open>Pages\<close>

text \<open>What the listener counts of the page's lifecycle events.\<close>

record load_state =
  hasInit :: bool
  loadCount :: int

definition on_lifecycle :: "string \<Rightarrow> load_state \<Rightarrow> load_state" where
  "on_lifecycle name st =
     (if EqualFold name ''InteractiveTime'' then
        (if hasInit st then st\<lparr>loadCount := loadCount st + 1\<rparr> else st)
      else if EqualFold name ''firstMeaningfulPaint'' \<or> EqualFold name ''firstContentfulPaint''
      then st\<lparr>hasInit := True\<rparr> else st)"

text \<open>\<open>waitForLoadAndIdle\<close>: every round sees the context's error, if it is done, and the count. \<open>None\<close> is a call
  that is still waiting when the rounds end.\<close>

fun waitForLoadAndIdle :: "(string option \<times> int) list \<Rightarrow> string option option" where
  "waitForLoadAndIdle [] = None"
| "waitForLoadAndIdle ((ctx_err, cnt) # rounds) =
     (if ctx_err \<noteq> None then Some ctx_err else if 0 < cnt then Some None else waitForLoadAndIdle rounds)"

definition page_link :: "string \<Rightarrow> string" where
  "page_link link =
     (let link = TrimSpace link in if \<not> Contains link ''://'' then ''https://'' @ link else link)"

text \<open>The variables the actions fill in, and the browser: what it leaves in them and how the run ends.\<close>

record page_vars =
  pg_html :: string
  pg_title :: string
  pg_ogTitle :: string
  pg_twitterTitle :: string
  pg_iframes :: string

definition no_page :: page_vars where
  "no_page = \<lparr>pg_html = [], pg_title = [], pg_ogTitle = [], pg_twitterTitle = [], pg_iframes = []\<rparr>"

text \<open>The deferred \<open>recover\<close> prints, and the unnamed result stays nil.\<close>

definition RunActionsOnPage :: "(string \<Rightarrow> page_vars \<times> string option outcome) \<Rightarrow> string \<Rightarrow> page_vars \<times> string option" where
  "RunActionsOnPage browser link =
     (case browser (page_link link) of
        (vars, Panic _) \<Rightarrow> (vars, None)
      | (vars, Ret err) \<Rightarrow> (vars, err))"

definition GetPageHtml :: "(string \<Rightarrow> page_vars \<times> string option outcome) \<Rightarrow> string \<Rightarrow> string + string \<times> string" where
  "GetPageHtml browser link =
     (case RunActionsOnPage browser link of
        (vars, Some err) \<Rightarrow> Inl err
      | (vars, None) \<Rightarrow>
          (let iframes = TrimSpace (pg_iframes vars);
               html = (if 0 < length iframes then pg_html vars @ [CHR 0x0A, CHR 0x0A] @ iframes else pg_html vars);
               ogTitle = TrimSpace (pg_ogTitle vars);
               twitterTitle = TrimSpace (pg_twitterTitle vars);
               title = (if 0 < length ogTitle then ogTitle
                        else if 0 < length twitterTitle then twitterTitle else pg_title vars)
           in Inr (TrimSpace title, TrimSpace html)))"

section \<open>Visits one after another\<close>

fun visit_run ::
    "(string \<Rightarrow> string option) \<Rightarrow> string \<Rightarrow> (visit_clock \<times> int) list \<Rightarrow> visits \<Rightarrow> int option list" where
  "visit_run url_host link [] m = []"
| "visit_run url_host link ((c, rnd) # cs) m =
     (let (slept, m) = waitIfNeededBeforeVisit url_host c rnd link m in slept # visit_run url_host link cs m)"

text \<open>The clock does not go back.\<close>

fun clocks_ok :: "int \<Rightarrow> (visit_clock \<times> int) list \<Rightarrow> bool" where
  "clocks_ok t [] = True"
| "clocks_ok t ((c, rnd) # cs) \<longleftrightarrow>
     t \<le> vc_made c \<and> vc_made c \<le> vc_since c \<and> vc_since c \<le> vc_after c \<and> clocks_ok (vc_after c) cs"

lemma clocks_ok_later: "clocks_ok t cs \<Longrightarrow> x \<in> set cs \<Longrightarrow> t \<le> vc_since (fst x)"
  by (induction t cs rule: clocks_ok.induct) force+

lemma length_visit_run [simp]: "length (visit_run u link cs m) = length cs"
  by (induction u link cs m rule: visit_run.induct) (auto split: prod.splits)

text \<open>\<open>host_of u link\<close> is the key of a link's entry.\<close>

definition host_of :: "(string \<Rightarrow> string option) \<Rightarrow> string \<Rightarrow> string" where
  "host_of u link = (case u link of None \<Rightarrow> [] | Some h \<Rightarrow> TrimSpace (map to_lower h))"

lemma wait_cases:
  assumes "host = host_of u link" "host \<noteq> []"
  shows "waitIfNeededBeforeVisit u c rnd link m =
     (let t = (case m host of Some t \<Rightarrow> t | None \<Rightarrow> vc_made c) in
      if vc_since c - t < 3 * second then (Some ((rnd + 2) * second), m(host \<mapsto> vc_after c)) else (None, m(host \<mapsto> t)))"
  using assms by (auto simp: host_of_def waitIfNeededBeforeVisit_def getLinkLock_def Let_def split: option.splits)

lemma visits_quiet:
  assumes host: "host = host_of u link" "host \<noteq> []" and "m host = Some t" "\<forall>x\<in>set cs. 3 * second \<le> vc_since (fst x) - t"
  shows "visit_run u link cs m = replicate (length cs) None"
  using assms(3,4)
proof (induction cs arbitrary: m)
  case (Cons x cs)
  obtain c rnd where x: "x = (c, rnd)" by (cases x)
  have "waitIfNeededBeforeVisit u c rnd link m = (None, m)"
    using Cons.prems x by (auto simp: wait_cases [OF host] Let_def)
  with Cons x show ?case by simp
qed simp

lemma visits_stop_waiting:
  assumes host: "host = host_of u link" "host \<noteq> []" and "clocks_ok t cs" "\<forall>s. m host = Some s \<longrightarrow> s \<le> t"
  shows "\<exists>n\<le>length cs. (\<forall>i<n. visit_run u link cs m ! i = Some ((snd (cs ! i) + 2) * second))
    \<and> (\<forall>i. n \<le> i \<and> i < length cs \<longrightarrow> visit_run u link cs m ! i = None)"
  using assms(3,4)
proof (induction cs arbitrary: t m)
  case (Cons x cs)
  obtain c rnd where x: "x = (c, rnd)" by (cases x)
  let ?s = "case m host of Some s \<Rightarrow> s | None \<Rightarrow> vc_made c"
  have later: "clocks_ok (vc_after c) cs" and le: "vc_since c \<le> vc_after c" using Cons.prems(1) x by auto
  show ?case
  proof (cases "vc_since c - ?s < 3 * second")
    case True
    then have w: "waitIfNeededBeforeVisit u c rnd link m = (Some ((rnd + 2) * second), m(host \<mapsto> vc_after c))"
      by (simp add: wait_cases [OF host])
    have "\<forall>s. (m(host \<mapsto> vc_after c)) host = Some s \<longrightarrow> s \<le> vc_after c" by simp
    from Cons.IH [where m = "m(host \<mapsto> vc_after c)", OF later this] obtain n where "n \<le> length cs"
      "\<forall>i<n. visit_run u link cs (m(host \<mapsto> vc_after c)) ! i = Some ((snd (cs ! i) + 2) * second)"
      "\<forall>i. n \<le> i \<and> i < length cs \<longrightarrow> visit_run u link cs (m(host \<mapsto> vc_after c)) ! i = None"
      by blast
    then show ?thesis
      by (intro exI [of _ "Suc n"]) (auto simp: x w nth_Cons split: nat.splits)
  next
    case False
    then have w: "waitIfNeededBeforeVisit u c rnd link m = (None, m(host \<mapsto> ?s))"
      by (simp add: wait_cases [OF host])
    have "visit_run u link cs (m(host \<mapsto> ?s)) = replicate (length cs) None"
      using clocks_ok_later [OF later] le False by (intro visits_quiet [OF host, of _ ?s]) fastforce+
    then show ?thesis by (intro exI [of _ 0]) (auto simp: x w nth_Cons split: nat.splits)
  qed
qed simp

section \<open>Retries\<close>

definition transient :: "(string \<times> bool) + http_response \<Rightarrow> bool" where
  "transient r \<longleftrightarrow> (case r of Inl err \<Rightarrow> retryable err | Inr _ \<Rightarrow> False)"

definition plain :: "(string \<times> bool) + http_response \<Rightarrow> string + http_response" where
  "plain r = (case r of Inl err \<Rightarrow> Inl (fst err) | Inr resp \<Rightarrow> Inr resp)"

lemma request_loop_step:
  assumes "i < M"
  shows "request_loop at M (Suc n) i cur slept =
    (if transient (at i) then request_loop at M n (Suc i) (Some (plain (at i))) (slept + int (Suc i) * 100)
     else (Some (plain (at i)), Suc i, slept))"
  using assms by (auto simp: transient_def plain_def split: sum.splits)

declare request_loop.simps(2) [simp del]

lemma request_loop_first:
  assumes "i + n \<le> M" "i \<le> k" "k < i + n" "\<forall>j. i \<le> j \<and> j < k \<longrightarrow> transient (at j)" "\<not> transient (at k)"
  shows "request_loop at M n i cur slept = (Some (plain (at k)), Suc k, slept + 50 * (int k * (int k + 1) - int i * (int i + 1)))"
  using assms
proof (induction n arbitrary: i cur slept)
  case (Suc n)
  have i: "i < M" using Suc.prems(1) by simp
  show ?case
  proof (cases "k = i")
    case True
    with Suc.prems(5) show ?thesis by (simp add: request_loop_step [OF i])
  next
    case False
    with Suc.prems have "transient (at i)" "Suc i \<le> k" by auto
    moreover have "\<forall>j. Suc i \<le> j \<and> j < k \<longrightarrow> transient (at j)" using Suc.prems(4) by simp
    ultimately show ?thesis
      using Suc.IH [of "Suc i" "Some (plain (at i))" "slept + int (Suc i) * 100"] Suc.prems
      by (simp add: request_loop_step [OF i] algebra_simps)
  qed
qed simp

lemma request_loop_exhausted:
  assumes "i + n \<le> M" "\<forall>j. i \<le> j \<and> j < i + n \<longrightarrow> transient (at j)"
  shows "request_loop at M n i cur slept =
    (if n = 0 then cur else Some (plain (at (i + n - 1))), i + n,
     slept + 50 * (int (i + n) * (int (i + n) + 1) - int i * (int i + 1)))"
  using assms
proof (induction n arbitrary: i cur slept)
  case (Suc n)
  have i: "i < M" "transient (at i)" using Suc.prems by auto
  have "\<forall>j. Suc i \<le> j \<and> j < Suc i + n \<longrightarrow> transient (at j)" using Suc.prems(2) by simp
  then show ?case
    using Suc.IH [of "Suc i" "Some (plain (at i))" "slept + int (Suc i) * 100"] Suc.prems(1) i(2)
    by (simp add: request_loop_step [OF i(1)] algebra_simps)
qed simp

section \<open>Properties\<close>

text \<open>Visits of one host, the clock not going back: the first ones each wait two to five seconds, and from the first
  one that comes three seconds or more after the end of the last wait, no visit ever waits again, however close they are.\<close>

theorem visit_waits_end:
  assumes "host_of u link \<noteq> []" "clocks_ok t cs" "\<forall>s. m (host_of u link) = Some s \<longrightarrow> s \<le> t"
    and "\<forall>x\<in>set cs. 0 \<le> snd x \<and> snd x < 4"
  shows "\<exists>n\<le>length cs. (\<forall>i<n. \<exists>d. visit_run u link cs m ! i = Some d \<and> 2 * second \<le> d \<and> d \<le> 5 * second)
    \<and> (\<forall>i. n \<le> i \<and> i < length cs \<longrightarrow> visit_run u link cs m ! i = None)"
proof -
  obtain n where n: "n \<le> length cs" "\<forall>i<n. visit_run u link cs m ! i = Some ((snd (cs ! i) + 2) * second)"
    "\<forall>i. n \<le> i \<and> i < length cs \<longrightarrow> visit_run u link cs m ! i = None"
    using visits_stop_waiting [OF refl assms(1,2), of m] assms(3) by blast
  have "2 * second \<le> (snd (cs ! i) + 2) * second \<and> (snd (cs ! i) + 2) * second \<le> 5 * second" if "i < n" for i
  proof -
    have "cs ! i \<in> set cs" using that n(1) by simp
    with assms(4) have "0 \<le> snd (cs ! i)" "snd (cs ! i) < 4" by blast+
    then show ?thesis by (simp add: second_def)
  qed
  with n show ?thesis by (intro exI [of _ n]) auto
qed

lemma visit_waits_end_witness:
  "\<exists>n\<le>3. \<forall>i. n \<le> i \<and> i < 3 \<longrightarrow> visit_run Some ''h'' [(\<lparr>vc_made = 0, vc_since = 1, vc_after = 2 * second + 1\<rparr>, 0),
      (\<lparr>vc_made = 6 * second, vc_since = 6 * second, vc_after = 6 * second\<rparr>, 0),
      (\<lparr>vc_made = 6 * second + 1, vc_since = 6 * second + 1, vc_after = 6 * second + 1\<rparr>, 0)] Map.empty ! i = None"
proof -
  let ?cs = "[(\<lparr>vc_made = 0, vc_since = 1, vc_after = 2 * second + 1\<rparr>, 0),
      (\<lparr>vc_made = 6 * second, vc_since = 6 * second, vc_after = 6 * second\<rparr>, 0),
      (\<lparr>vc_made = 6 * second + 1, vc_since = 6 * second + 1, vc_after = 6 * second + 1\<rparr>, 0)] :: (visit_clock \<times> int) list"
  have h: "host_of Some ''h'' \<noteq> []" by (simp add: host_of_def TrimSpace_def is_space_def to_lower_def)
  have c: "clocks_ok 0 ?cs" by (simp add: second_def)
  from visit_waits_end [OF h c, of Map.empty] show ?thesis by (auto simp: numeral_3_eq_3)
qed

text \<open>\<open>DoRequest\<close>'s loop with \<open>r\<close> retries: it stops at the first attempt that is not a transient failure, with its
  response or its error; when all \<open>r + 1\<close> attempts are transient failures it returns the last error as it stands (never the
  one that counts the retries), after one more sleep. Before attempt \<open>k\<close> it has slept 50 k (k + 1) milliseconds.\<close>

theorem request_retries:
  "let N = nat (r + 1); res = request_loop at N N 0 None 0 in
   (\<exists>k<N. (\<forall>i<k. transient (at i)) \<and> \<not> transient (at k) \<and> res = (Some (plain (at k)), Suc k, 50 * (int k * (int k + 1))))
   \<or> (\<forall>i<N. transient (at i)) \<and> res = (if N = 0 then None else Some (plain (at (N - 1))), N, 50 * (int N * (int N + 1)))"
proof -
  let ?N = "nat (r + 1)"
  show ?thesis
  proof (cases "\<exists>k<?N. \<not> transient (at k)")
    case True
    then have "\<exists>k. k < ?N \<and> \<not> transient (at k)" by blast
    then obtain k where k: "k < ?N" "\<not> transient (at k)" and least: "\<forall>j<k. \<not> (j < ?N \<and> \<not> transient (at j))"
      unfolding exists_least_iff [of "\<lambda>k. k < ?N \<and> \<not> transient (at k)"] by blast
    have before: "\<forall>i<k. transient (at i)"
    proof (intro allI impI)
      fix i assume "i < k"
      with least k(1) show "transient (at i)" by (meson order.strict_trans)
    qed
    have "request_loop at ?N ?N 0 None 0 = (Some (plain (at k)), Suc k, 50 * (int k * (int k + 1)))"
      using request_loop_first [of 0 ?N ?N k at None 0] k before by simp
    with before k show ?thesis
      unfolding Let_def by (intro disjI1 exI [of _ k] conjI) assumption+
  next
    case False
    then have a: "\<forall>i<?N. transient (at i)" by blast
    then have "request_loop at ?N ?N 0 None 0 =
        (if ?N = 0 then None else Some (plain (at (?N - 1))), ?N, 50 * (int ?N * (int ?N + 1)))"
      using request_loop_exhausted [of 0 ?N ?N at None 0] by simp
    with a show ?thesis unfolding Let_def by (intro disjI2 conjI) assumption+
  qed
qed

lemma request_retries_witness:
  "request_loop (\<lambda>_. Inl (''read tcp: i/o timeout'', True)) 3 3 0 None 0 = (Some (Inl ''read tcp: i/o timeout''), 3, 600)"
proof -
  let ?at = "\<lambda>_ :: nat. Inl (''read tcp: i/o timeout'', True)"
  have t: "transient (?at i)" for i by (simp add: transient_def retryable_def)
  from request_retries [of 2 ?at] t show ?thesis by (simp add: Let_def plain_def)
qed

text \<open>A header set on the scraper does not replace the default of the same name: the default stays the value a server
  reads, and the scraper's value comes after it.\<close>

theorem custom_header_appended:
  assumes "(k, v) \<in> set (scraper_defaults ua link parsed)" "distinct (map fst custom)" "(k, vs) \<in> set custom"
  shows "header_get (request_header ua link parsed custom) k = v \<and> request_header ua link parsed custom k = v # vs"
proof -
  let ?app = "\<lambda>(k, vs) (h :: http_header). h(k := h k @ vs)"
  have "fold (\<lambda>v. header_add k v) vs h = h(k := h k @ vs)" for k vs and h :: http_header
    by (induction vs arbitrary: h) (auto simp: header_add_def)
  then have app: "(\<lambda>(k, vs) h. fold (\<lambda>v. header_add k v) vs h) = ?app" by (simp add: fun_eq_iff)
  have skip: "k \<notin> fst ` set cs \<Longrightarrow> fold ?app cs h k = h k" for cs h
    by (induction cs arbitrary: h) auto
  have one: "distinct (map fst cs) \<Longrightarrow> (k, vs) \<in> set cs \<Longrightarrow> fold ?app cs h k = h k @ vs" for cs h
  proof (induction cs arbitrary: h)
    case (Cons c cs)
    show ?case
    proof (cases "c = (k, vs)")
      case True
      with Cons.prems(1) have "k \<notin> fst ` set cs" by auto
      from skip [OF this, of "h(k := h k @ vs)"] show ?thesis
        unfolding True fold_simps prod.case by (simp only: fun_upd_same)
    next
      case False
      with Cons.prems obtain k' vs' where "c = (k', vs')" "k' \<noteq> k" "(k, vs) \<in> set cs"
        by (cases c) (auto simp: image_iff)
      with Cons.IH Cons.prems(1) show ?thesis by simp
    qed
  qed simp
  have d: "distinct (map fst (scraper_defaults ua link parsed))"
    by (simp add: scraper_defaults_def split: option.splits)
  have unset: "k \<notin> fst ` set ds \<Longrightarrow> fold (\<lambda>(k, v). header_set k v) ds h k = h k" for ds and h :: http_header
    by (induction ds arbitrary: h) (simp, auto simp: header_set_def)
  have "distinct (map fst ds) \<Longrightarrow> (k, v) \<in> set ds \<Longrightarrow> fold (\<lambda>(k, v). header_set k v) ds h k = [v]" for ds and h :: http_header
  proof (induction ds arbitrary: h)
    case (Cons c ds)
    show ?case
    proof (cases "c = (k, v)")
      case True
      with Cons.prems(1) have "k \<notin> fst ` set ds" by auto
      from unset [OF this, of "header_set k v h"] show ?thesis
        unfolding True fold_simps prod.case by (simp add: header_set_def)
    next
      case False
      with Cons.prems obtain k' v' where "c = (k', v')" "(k, v) \<in> set ds" by (cases c) auto
      with Cons.IH Cons.prems(1) show ?thesis by simp
    qed
  qed simp
  from this [OF d assms(1)] one [OF assms(2,3)] show ?thesis by (simp add: request_header_def app header_get_def)
qed

lemma custom_header_appended_witness:
  "header_get (request_header \<lparr>ua_userAgent = ''browser'', ua_chromeVersion = [], ua_secChUa = [], ua_secChUaPlatform = [], ua_acceptEncoding = [],
      ua_acceptLanguage = []\<rparr> ''l'' None [(''User-Agent'', [''mine''])]) ''User-Agent'' = ''browser''"
  using custom_header_appended [of "''User-Agent''" "''browser''" "\<lparr>ua_userAgent = ''browser'', ua_chromeVersion = [], ua_secChUa = [],
      ua_secChUaPlatform = [], ua_acceptEncoding = [], ua_acceptLanguage = []\<rparr>" "''l''" None
      "[(''User-Agent'', [''mine''])]" "[''mine'']"]
  by (simp add: scraper_defaults_def)

text \<open>A panic of the browser library is reported as success: \<open>GetPageHtml\<close> returns no error, and an empty title and
  page when the panic came before the actions had filled them.\<close>

theorem page_panic_is_success:
  assumes "browser (page_link link) = (no_page, Panic msg)"
  shows "GetPageHtml browser link = Inr ([], [])"
  using assms by (simp add: GetPageHtml_def RunActionsOnPage_def no_page_def TrimSpace_def)

lemma page_panic_is_success_witness: "GetPageHtml (\<lambda>_. (no_page, Panic ''boom'')) ''a'' = Inr ([], [])"
  by (rule page_panic_is_success [where msg = "''boom''"]) simp

text \<open>The parameters of a content type are cut off.\<close>

lemma NewMineType_parameters: "CHR '';'' \<notin> set v \<Longrightarrow> NewMineType (v @ CHR '';'' # params) = TrimSpace v"
proof -
  assume v: "CHR '';'' \<notin> set v"
  have "\<exists>rest. split_from '';'' 0 cur (v @ CHR '';'' # params) = (rev cur @ v) # rest" for cur
    using v
  proof (induction v arbitrary: cur)
    case (Cons c v)
    then have "\<not> HasPrefix (c # v @ CHR '';'' # params) '';''" by (auto simp: HasPrefix_def)
    with Cons show ?case by (metis append_Cons append.assoc append_Nil list.set_intros(2) rev.simps(2) split_from.simps(3))
  qed (auto simp: HasPrefix_def)
  from this [of "[]"] show ?thesis by (auto simp: NewMineType_def Split_def)
qed

section \<open>The scraper\<close>

text \<open>Its settings. The transport, which accepts every certificate, and the cookie jar are not settings of these calls and are
  left out; durations are nanoseconds.\<close>

record HttpScraper =
  hs_headTimeout :: int
  hs_timeout :: int
  hs_header :: "(string \<times> string list) list"
  hs_maxRetries :: int
  hs_limitReqFrequence :: bool

definition NewHttpScraper :: HttpScraper where
  "NewHttpScraper = (let timeout = 30 * second in
     \<lparr>hs_headTimeout = timeout, hs_timeout = timeout, hs_header = [], hs_maxRetries = 2, hs_limitReqFrequence = True\<rparr>)"

definition SetHeadTimeout :: "int \<Rightarrow> HttpScraper \<Rightarrow> HttpScraper" where "SetHeadTimeout timeout s = s\<lparr>hs_headTimeout := timeout\<rparr>"
definition SetTimeout :: "int \<Rightarrow> HttpScraper \<Rightarrow> HttpScraper" where "SetTimeout timeout s = s\<lparr>hs_timeout := timeout\<rparr>"
definition SetLimitReqFrequence :: "bool \<Rightarrow> HttpScraper \<Rightarrow> HttpScraper" where
  "SetLimitReqFrequence lim s = s\<lparr>hs_limitReqFrequence := lim\<rparr>"

definition values_of :: "(string \<times> string list) list \<Rightarrow> string \<Rightarrow> string list" where
  "values_of h k = (case map_of h k of None \<Rightarrow> [] | Some vs \<Rightarrow> vs)"

definition put_values :: "string \<Rightarrow> string list \<Rightarrow> (string \<times> string list) list \<Rightarrow> (string \<times> string list) list" where
  "put_values k vs h = filter (\<lambda>e. fst e \<noteq> k) h @ [(k, vs)]"

definition SetHeader :: "string \<Rightarrow> string \<Rightarrow> HttpScraper \<Rightarrow> HttpScraper" where
  "SetHeader key v s = s\<lparr>hs_header := put_values key [v] (hs_header s)\<rparr>"

definition AddHeader :: "string \<Rightarrow> string \<Rightarrow> HttpScraper \<Rightarrow> HttpScraper" where
  "AddHeader key v s = s\<lparr>hs_header := put_values key (values_of (hs_header s) key @ [v]) (hs_header s)\<rparr>"

text \<open>What a call of \<open>DoRequest\<close> is made with; \<open>request\<close> is the method with the scraper as receiver.\<close>

record scraper_call =
  sc_method :: string
  sc_link :: string
  sc_body :: "string option"
  sc_timeout :: int

definition DoGet :: "(HttpScraper \<Rightarrow> scraper_call \<Rightarrow> 'a) \<Rightarrow> HttpScraper \<Rightarrow> string \<Rightarrow> 'a" where
  "DoGet request s url = request s \<lparr>sc_method = ''GET'', sc_link = url, sc_body = None, sc_timeout = hs_timeout s\<rparr>"

definition DoPost :: "(HttpScraper \<Rightarrow> scraper_call \<Rightarrow> 'a) \<Rightarrow> HttpScraper \<Rightarrow> string \<Rightarrow> string option \<Rightarrow> 'a" where
  "DoPost request s url body = request s \<lparr>sc_method = ''POST'', sc_link = url, sc_body = body, sc_timeout = hs_timeout s\<rparr>"

text \<open>The method on the model of its parts: \<open>new_request\<close> is the error of \<open>http.NewRequest\<close>, \<open>parse\<close> gives scheme and host, and
  \<open>net\<close> is what a client with this timeout answers to a request with this header, attempt by attempt.\<close>

definition scraper_request ::
    "(string \<Rightarrow> string \<Rightarrow> string option) \<Rightarrow> (string \<Rightarrow> (string \<times> string) option) \<Rightarrow> userAgentConfig
       \<Rightarrow> (scraper_call \<Rightarrow> http_header \<Rightarrow> (nat \<Rightarrow> (string \<times> bool) + http_response) outcome)
       \<Rightarrow> HttpScraper \<Rightarrow> scraper_call \<Rightarrow> (string + http_response) option" where
  "scraper_request new_request parse ua net s call =
     DoRequest (new_request (sc_method call) (sc_link call)) (hs_maxRetries s)
       (net call (request_header ua (sc_link call) (parse (sc_link call)) (hs_header s)))"

text \<open>The scraper's header holds what was set last and everything added since.\<close>

lemma scraper_header:
  "values_of (hs_header (SetHeader k v s)) j = (if j = k then [v] else values_of (hs_header s) j)"
  "values_of (hs_header (AddHeader k v s)) j = (if j = k then values_of (hs_header s) k @ [v] else values_of (hs_header s) j)"
proof -
  have "values_of (put_values k vs h) j = (if j = k then vs else values_of h j)" for vs h
    by (induction h) (auto simp: values_of_def put_values_def map_add_def split: option.splits)
  then show "values_of (hs_header (SetHeader k v s)) j = (if j = k then [v] else values_of (hs_header s) j)"
    "values_of (hs_header (AddHeader k v s)) j = (if j = k then values_of (hs_header s) k @ [v] else values_of (hs_header s) j)"
    by (simp_all add: SetHeader_def AddHeader_def)
qed

text \<open>A new scraper answers a page that fails twice for a passing reason with the third attempt, and a fourth is never made.\<close>

lemma new_scraper_tries_three:
  assumes "new_request ''GET'' url = None"
    and "\<And>call h. net call h = Ret (\<lambda>i. if i < n then Inl (''EOF'', True) else Inr resp)"
  shows "DoGet (scraper_request new_request parse ua net) NewHttpScraper url = (if n < 3 then Some (Inr resp) else Some (Inl ''EOF''))"
  using assms(1)
  by (simp add: DoGet_def scraper_request_def NewHttpScraper_def DoRequest_def assms(2) Let_def retryable_def numeral_3_eq_3 less_Suc_eq request_loop.simps)

end
