(* ===== verification/SitePages.thy ===== *)
theory SitePages
  imports HttpClients
begin

text \<open>
  \<open>pkg/scrapers/site.go\<close> and \<open>options.go\<close> beyond theory \<open>HttpClients\<close>: the browser's options, the user agents, and
  what \<open>RunActionsOnPage\<close> asks of the browser, task by task, with the listener's counters shared between the page's
  lifecycle events and the waiting loop. The browser itself is an argument: how it carries out a task.
\<close>

section \<open>Options\<close>

datatype exec_option = NoFirstRun | NoDefaultBrowserCheck | DisableGPU | Headless
  | FlagS string string | FlagB string bool | UserAgent string

record SiteScraper =
  sc_timeout :: int
  sc_options :: "exec_option list"
  sc_enableLifecycleEventLog :: bool

definition NewSiteScraper :: "int \<Rightarrow> bool \<Rightarrow> SiteScraper" where
  "NewSiteScraper timeout headless =
    (let options = [
    NoFirstRun, NoDefaultBrowserCheck, DisableGPU, FlagS ''blink-settings'' ''imagesEnabled=false'',
     FlagB ''ignore-certificate-errors'' True, FlagB ''disable-web-security'' True, FlagB ''disable-extensions'' True,
     FlagB ''disable-default-apps'' True, FlagB ''hide-scrollbars'' True, FlagB ''mute-audio'' True,
     FlagB ''no-sandbox'' True, FlagB ''no-default-browser-check'' True, FlagB ''incognito'' True,
     FlagB ''disable-infobars'' True, FlagB ''disable-background-networking'' False,
     FlagS ''enable-features'' ''NetworkService,NetworkServiceInProcess'',
     FlagB ''disable-background-timer-throttling'' True, FlagB ''disable-backgrounding-occluded-windows'' True,
     FlagB ''disable-breakpad'' True, FlagB ''disable-client-side-phishing-detection'' True,
     FlagB ''disable-default-apps'' True, FlagB ''disable-dev-shm-usage'' True,
     FlagS ''disable-features'' ''site-per-process,Translate,BlinkGenPropertyTrees'',
     FlagB ''disable-hang-monitor'' True, FlagB ''disable-ipc-flooding-protection'' True,
     FlagB ''disable-popup-blocking'' True, FlagB ''disable-prompt-on-repost'' True,
     FlagB ''disable-renderer-backgrounding'' True, FlagB ''disable-sync'' True,
     FlagS ''force-color-profile'' ''srgb'', FlagB ''metrics-recording-only'' True,
     FlagB ''safebrowsing-disable-auto-update'' True, FlagB ''enable-automation'' False,
     FlagS ''password-store'' ''basic'', FlagB ''use-mock-keychain'' True];
         options = (if headless then options @ [Headless] else options)
     in \<lparr>sc_timeout = timeout, sc_options = options, sc_enableLifecycleEventLog = False\<rparr>)"

definition NewLinkScraperHeadless :: "int \<Rightarrow> SiteScraper" where
  "NewLinkScraperHeadless timeout = NewSiteScraper timeout True"

definition EnableLifecycleEventLog :: "SiteScraper \<Rightarrow> SiteScraper" where
  "EnableLifecycleEventLog s = s\<lparr>sc_enableLifecycleEventLog := True\<rparr>"

definition DisableLifecycleEventLog :: "SiteScraper \<Rightarrow> SiteScraper" where
  "DisableLifecycleEventLog s = s\<lparr>sc_enableLifecycleEventLog := False\<rparr>"

section \<open>User agents\<close>

definition userAgentsConfigs :: "userAgentConfig list" where
  "userAgentsConfigs = [
    \<lparr>ua_userAgent = ''Mozilla/5.0 (Windows NT 10.0; Win64; x64) AppleWebKit/537.36 (KHTML, like Gecko) Chrome/140.0.0.0 Safari/537.36'',
      ua_chromeVersion = ''140.0.0.0'',
      ua_secChUa = ''\"Google Chrome\";v=\"140\", \"Not?A_Brand\";v=\"8\", \"Chromium\";v=\"140\"'',
      ua_secChUaPlatform = ''\"Windows\"'',
      ua_acceptEncoding = ''gzip, deflate, br, zstd'',
      ua_acceptLanguage = ''zh-CN,zh;q=0.9,en;q=0.8,en-US;q=0.7''\<rparr>,
    \<lparr>ua_userAgent = ''Mozilla/5.0 (Windows NT 10.0; Win64; x64) AppleWebKit/537.36 (KHTML, like Gecko) Chrome/141.0.0.0 Safari/537.36'',
      ua_chromeVersion = ''141.0.0.0'',
      ua_secChUa = ''\"Google Chrome\";v=\"141\", \"Not?A_Brand\";v=\"8\", \"Chromium\";v=\"141\"'',
      ua_secChUaPlatform = ''\"Windows\"'',
      ua_acceptEncoding = ''gzip, deflate, br, zstd'',
      ua_acceptLanguage = ''zh-CN,zh;q=0.9,en;q=0.8,en-US;q=0.7''\<rparr>,
    \<lparr>ua_userAgent = ''Mozilla/5.0 (Windows NT 10.0; Win64; x64) AppleWebKit/537.36 (KHTML, like Gecko) Chrome/139.0.0.0 Safari/537.36 Edg/139.0.0.0'',
      ua_chromeVersion = ''139.0.0.0'',
      ua_secChUa = ''\"Microsoft Edge\";v=\"139\", \"Not?A_Brand\";v=\"8\", \"Chromium\";v=\"139\"'',
      ua_secChUaPlatform = ''\"Windows\"'',
      ua_acceptEncoding = ''gzip, deflate, br, zsdch, zstd'',
      ua_acceptLanguage = ''zh-CN,zh;q=0.9,en;q=0.8,en-GB;q=0.7,en-US;q=0.6''\<rparr>,
    \<lparr>ua_userAgent = ''Mozilla/5.0 (Windows NT 10.0; Win64; x64) AppleWebKit/537.36 (KHTML, like Gecko) Chrome/141.0.0.0 Safari/537.36 Edg/141.0.0.0'',
      ua_chromeVersion = ''141.0.0.0'',
      ua_secChUa = ''\"Microsoft Edge\";v=\"141\", \"Not?A_Brand\";v=\"8\", \"Chromium\";v=\"141\"'',
      ua_secChUaPlatform = ''\"Windows\"'',
      ua_acceptEncoding = ''gzip, deflate, br, zsdch, zstd'',
      ua_acceptLanguage = ''zh-CN,zh;q=0.9,en;q=0.8,en-GB;q=0.7,en-US;q=0.6''\<rparr>,
    \<lparr>ua_userAgent = ''Mozilla/5.0 (Windows NT 10.0; Win64; x64) AppleWebKit/537.36 (KHTML, like Gecko) Chrome/123.0.0.0 Safari/537.36'',
      ua_chromeVersion = ''123.0.0.0'',
      ua_secChUa = ''\"Google Chrome\";v=\"123\", \"Not?A_Brand\";v=\"8\", \"Chromium\";v=\"123\"'',
      ua_secChUaPlatform = ''\"Windows\"'',
      ua_acceptEncoding = ''gzip, deflate, br, zstd'',
      ua_acceptLanguage = ''zh-CN,zh;q=0.9,en;q=0.8,en-US;q=0.7''\<rparr>,
    \<lparr>ua_userAgent = ''Mozilla/5.0 (Windows NT 10.0; Win64; x64) AppleWebKit/537.36 (KHTML, like Gecko) Chrome/123.0.0.0 Safari/537.36 Edg/123.0.2420.81'',
      ua_chromeVersion = ''123.0.2420.81'',
      ua_secChUa = ''\"Microsoft Edge\";v=\"123\",\"Not?A_Brand\";v=\"8\",\"Chromium\";v=\"123\"'',
      ua_secChUaPlatform = ''\"Windows\"'',
      ua_acceptEncoding = ''gzip, deflate, br, zsdch, zstd'',
      ua_acceptLanguage = ''zh-CN,zh;q=0.9,en;q=0.8,en-GB;q=0.7,en-US;q=0.6''\<rparr>]"

text \<open>\<open>index\<close> is \<open>localRand.Intn(len(userAgentsConfigs))\<close>.\<close>

definition randomUserAgentConfig :: "int \<Rightarrow> userAgentConfig" where
  "randomUserAgentConfig index =
     (if index < 0 \<or> int (length userAgentsConfigs) \<le> index then userAgentsConfigs ! 0
      else userAgentsConfigs ! nat index)"

definition page_options :: "SiteScraper \<Rightarrow> userAgentConfig \<Rightarrow> exec_option list" where
  "page_options s agent = sc_options s @ [UserAgent (ua_userAgent agent)]"

definition ReplaceAll :: "string \<Rightarrow> string \<Rightarrow> string \<Rightarrow> string" where
  "ReplaceAll s old new = Join (Split s old) new"

section \<open>Tasks\<close>

datatype 'a page_task = RunScript string | Navigate string | WaitForLoadAndIdle | Action 'a

definition page_tasks :: "string \<Rightarrow> userAgentConfig \<Rightarrow> string \<Rightarrow> 'a list \<Rightarrow> 'a page_task list" where
  "page_tasks firstRunScript agent link actions =
     (let firstScript = ReplaceAll firstRunScript ''CHROME_VERSION'' (ua_chromeVersion agent);
          tasks = [RunScript firstScript, Navigate link, RunScript firstScript, WaitForLoadAndIdle]
      in if 0 < length actions then tasks @ map Action actions else tasks)"

text \<open>\<open>chromedp.Run\<close> carries out tasks in their order and stops at the first that fails.\<close>

fun chrome_run :: "('t \<Rightarrow> 's \<Rightarrow> 's \<times> string option) \<Rightarrow> 't list \<Rightarrow> 's \<Rightarrow> 's \<times> string option" where
  "chrome_run carry_out [] st = (st, None)"
| "chrome_run carry_out (t # ts) st =
     (case carry_out t st of
        (st, Some err) \<Rightarrow> (st, Some err)
      | (st, None) \<Rightarrow> chrome_run carry_out ts st)"

text \<open>The waiting loop looks at the clock and at the counter every 200 milliseconds; \<open>evs\<close> holds the events that
  arrive before each look, and the state is what the listener has counted before the first of them.\<close>

fun wait_rounds :: "int \<Rightarrow> int \<Rightarrow> string list list \<Rightarrow> load_state \<Rightarrow> (string option \<times> int) list" where
  "wait_rounds timeout now [] st = []"
| "wait_rounds timeout now (es # evs) st =
     (let st = fold on_lifecycle es st in
      (if timeout \<le> now then Some ''context deadline exceeded'' else None, loadCount st)
        # wait_rounds timeout (now + second div 5) evs st)"

definition no_events :: load_state where "no_events = \<lparr>hasInit = False, loadCount = 0\<rparr>"

text \<open>The state of a run: the page's variables and the listener's counters. \<open>br_before t\<close> are the events while a task
  other than the wait is carried out, \<open>br_rounds i\<close> those between two looks of the wait, and \<open>br_elapsed\<close> what the
  tasks before the wait took: the context of the whole run has the same timeout as the wait's own and began earlier,
  so it is the one that ends the wait. The time is up at one of the first \<open>wait_looks\<close> looks.\<close>

definition wait_looks :: "int \<Rightarrow> nat" where
  "wait_looks timeout = nat (timeout div (second div 5)) + 2"

record 'a browser =
  br_do :: "'a page_task \<Rightarrow> page_vars \<Rightarrow> page_vars \<times> string option"
  br_before :: "'a page_task \<Rightarrow> string list"
  br_rounds :: "nat \<Rightarrow> string list"
  br_elapsed :: int

definition carry_out ::
    "'a browser \<Rightarrow> int \<Rightarrow> 'a page_task \<Rightarrow> page_vars \<times> load_state \<Rightarrow> (page_vars \<times> load_state) \<times> string option" where
  "carry_out B timeout t st =
     (case st of (vars, ls) \<Rightarrow>
        (case t of
           WaitForLoadAndIdle \<Rightarrow>
             (case waitForLoadAndIdle (wait_rounds timeout (br_elapsed B) (map (br_rounds B) [0..<wait_looks timeout]) ls) of
                None \<Rightarrow> ((vars, ls), Some ''context deadline exceeded'')
              | Some err \<Rightarrow> ((vars, ls), err))
         | _ \<Rightarrow> (case br_do B t vars of (vars, err) \<Rightarrow> ((vars, fold on_lifecycle (br_before B t) ls), err))))"

text \<open>\<open>RunActionsOnPage\<close> with a browser that does not panic, as the browser of theory \<open>HttpClients\<close>.\<close>

definition page_browser ::
    "'a browser \<Rightarrow> SiteScraper \<Rightarrow> string \<Rightarrow> userAgentConfig \<Rightarrow> 'a list \<Rightarrow> string \<Rightarrow> page_vars \<times> string option outcome" where
  "page_browser B s script agent actions link =
     (case chrome_run (carry_out B (sc_timeout s)) (page_tasks script agent link actions) (no_page, no_events) of
        ((vars, ls), err) \<Rightarrow> (vars, Ret err))"

section \<open>Lemmas\<close>

definition interactive :: "string \<Rightarrow> bool" where "interactive e = EqualFold e ''InteractiveTime''"
definition paint :: "string \<Rightarrow> bool" where
  "paint e \<longleftrightarrow> EqualFold e ''firstMeaningfulPaint'' \<or> EqualFold e ''firstContentfulPaint''"

lemma interactive_no_paint: "interactive e \<Longrightarrow> \<not> paint e"
  by (auto simp: interactive_def paint_def EqualFold_def to_lower_def)

lemma on_lifecycle_cases:
  "on_lifecycle e st = (if interactive e then (if hasInit st then st\<lparr>loadCount := loadCount st + 1\<rparr> else st)
     else if paint e then st\<lparr>hasInit := True\<rparr> else st)"
  by (simp add: on_lifecycle_def interactive_def paint_def)

text \<open>An interactive event behind a paint.\<close>

fun loaded :: "bool \<Rightarrow> string list \<Rightarrow> bool" where
  "loaded painted [] \<longleftrightarrow> False"
| "loaded painted (e # es) \<longleftrightarrow> interactive e \<and> painted \<or> loaded (painted \<or> paint e) es"

lemma loaded_iff: "loaded painted es \<longleftrightarrow> (\<exists>xs e ys. es = xs @ e # ys \<and> interactive e \<and> (painted \<or> list_ex paint xs))"
proof (induction es arbitrary: painted)
  case (Cons e es)
  show ?case
  proof
    assume "loaded painted (e # es)"
    then consider "interactive e" "painted" | "loaded (painted \<or> paint e) es" by auto
    then show "\<exists>xs x ys. e # es = xs @ x # ys \<and> interactive x \<and> (painted \<or> list_ex paint xs)"
    proof cases
      case 1
      then show ?thesis by (intro exI [of _ "[]"] exI [of _ e] exI [of _ es]) simp
    next
      case 2
      then obtain xs x ys where "es = xs @ x # ys" "interactive x" "(painted \<or> paint e) \<or> list_ex paint xs"
        unfolding Cons.IH by blast
      then show ?thesis by (intro exI [of _ "e # xs"] exI [of _ x] exI [of _ ys]) auto
    qed
  next
    assume "\<exists>xs x ys. e # es = xs @ x # ys \<and> interactive x \<and> (painted \<or> list_ex paint xs)"
    then obtain xs x ys where x: "e # es = xs @ x # ys" "interactive x" "painted \<or> list_ex paint xs" by blast
    show "loaded painted (e # es)"
    proof (cases xs)
      case Nil
      with x show ?thesis by simp
    next
      case (Cons e' xs')
      with x have "es = xs' @ x # ys" "(painted \<or> paint e) \<or> list_ex paint xs'" by auto
      with x(2) have "loaded (painted \<or> paint e) es" unfolding Cons.IH by blast
      then show ?thesis by simp
    qed
  qed
qed simp

lemma listener_counts:
  "0 \<le> loadCount st \<Longrightarrow> hasInit (fold on_lifecycle es st) = (hasInit st \<or> list_ex paint es)
    \<and> 0 \<le> loadCount (fold on_lifecycle es st)
    \<and> (0 < loadCount (fold on_lifecycle es st)) = (0 < loadCount st \<or> loaded (hasInit st) es)"
proof (induction es arbitrary: st)
  case (Cons e es)
  have "0 \<le> loadCount (on_lifecycle e st)" using Cons.prems by (simp add: on_lifecycle_cases)
  from Cons.IH [OF this] show ?case
    using interactive_no_paint [of e] Cons.prems by (auto simp: on_lifecycle_cases)
qed simp

text \<open>The wait ends at the first look at which the time is up or an interactive event has followed a paint; with the
  looks 200 milliseconds apart it has ended once the time is up.\<close>

lemma find_map: "find P (map f xs) = map_option f (find (\<lambda>x. P (f x)) xs)"
  by (induction xs) auto

lemma wait_rounds_first:
  assumes "0 \<le> loadCount st"
  shows "waitForLoadAndIdle (wait_rounds timeout now evs st) =
    (case find (\<lambda>i. timeout \<le> now + int i * (second div 5) \<or> 0 < loadCount (fold on_lifecycle (concat (take (Suc i) evs)) st))
            [0..<length evs] of
       None \<Rightarrow> None
     | Some i \<Rightarrow> Some (if timeout \<le> now + int i * (second div 5) then Some ''context deadline exceeded'' else None))"
  using assms
proof (induction evs arbitrary: now st)
  case (Cons es evs)
  let ?P = "\<lambda>now evs st i. timeout \<le> now + int i * (second div 5)
    \<or> 0 < loadCount (fold on_lifecycle (concat (take (Suc i) evs)) st)"
  have up: "[0..<length (es # evs)] = 0 # map Suc [0..<length evs]" by (simp add: map_Suc_upt upt_conv_Cons del: upt_Suc)
  have shift: "?P now (es # evs) st (Suc i) = ?P (now + second div 5) evs (fold on_lifecycle es st) i" for i
    by (simp add: algebra_simps)
  have "find (?P now (es # evs) st) (map Suc [0..<n]) =
      map_option Suc (find (?P (now + second div 5) evs (fold on_lifecycle es st)) [0..<n])" for n
    unfolding find_map by (simp only: shift)
  moreover have "0 \<le> loadCount (fold on_lifecycle es st)" using listener_counts [OF Cons.prems, of es] by simp
  ultimately show ?case
    using Cons.IH [of "fold on_lifecycle es st" "now + second div 5"] unfolding up
    by (auto simp: Let_def algebra_simps split: option.splits)
qed simp

lemma find_upt_Some: "find P [0..<n] = Some k \<Longrightarrow> P k \<and> (\<forall>j<k. \<not> P j)"
  by (auto simp: find_Some_iff)

lemma find_upt_ex: "i < n \<Longrightarrow> P i \<Longrightarrow> \<exists>k. find P [0..<n] = Some k"
  by (cases "find P [0..<n]") (auto simp: find_None_iff)

lemma wait_ends:
  assumes "0 \<le> loadCount ls" "0 \<le> e"
  shows "waitForLoadAndIdle (wait_rounds timeout e (map f [0..<wait_looks timeout]) ls) =
    Some (if \<exists>i. e + int i * (second div 5) < timeout \<and> 0 < loadCount (fold on_lifecycle (concat (map f [0..<Suc i])) ls)
          then None else Some ''context deadline exceeded'')"
proof -
  let ?n = "wait_looks timeout"
  let ?up = "\<lambda>i. timeout \<le> e + int i * (second div 5)"
  let ?seen = "\<lambda>i. 0 < loadCount (fold on_lifecycle (concat (map f [0..<Suc i])) ls)"
  have same: "(?up i \<or> 0 < loadCount (fold on_lifecycle (concat (take (Suc i) (map f [0..<?n]))) ls)) = (?up i \<or> ?seen i)"
    if "i < ?n" for i
  proof -
    have "take (Suc i) (map f [0..<?n]) = map f [0..<Suc i]" using that by (simp add: take_map del: upt_Suc)
    then show ?thesis by simp
  qed
  have d: "(0 :: int) < second div 5" by (simp add: second_def)
  have last: "?up (?n - 1)"
  proof -
    have "timeout mod (second div 5) < second div 5" using d by simp
    then have "timeout < (timeout div (second div 5) + 1) * (second div 5)"
      using div_mult_mod_eq [of timeout "second div 5"] unfolding distrib_right by linarith
    also have "\<dots> \<le> int (?n - 1) * (second div 5)"
      using d by (intro mult_right_mono) (auto simp: wait_looks_def)
    finally show ?thesis using assms(2) by simp
  qed
  have n: "?n - 1 < ?n" by (simp add: wait_looks_def)
  have looks: "find (\<lambda>i. ?up i \<or> 0 < loadCount (fold on_lifecycle (concat (take (Suc i) (map f [0..<?n]))) ls)) [0..<?n] =
      find (\<lambda>i. ?up i \<or> ?seen i) [0..<?n]"
    using same by (intro find_cong) (simp_all del: upt_Suc)
  obtain k where k: "find (\<lambda>i. ?up i \<or> ?seen i) [0..<?n] = Some k"
    using find_upt_ex [OF n, of "\<lambda>i. ?up i \<or> ?seen i"] last by blast
  from find_upt_Some [OF this] have kp: "?up k \<or> ?seen k" and least: "\<forall>j<k. \<not> ?up j \<and> \<not> ?seen j" by blast+
  have "?up k \<longleftrightarrow> \<not> (\<exists>i. e + int i * (second div 5) < timeout \<and> ?seen i)"
  proof
    assume up: "?up k"
    show "\<not> (\<exists>i. e + int i * (second div 5) < timeout \<and> ?seen i)"
    proof
      assume "\<exists>i. e + int i * (second div 5) < timeout \<and> ?seen i"
      then obtain i where i: "e + int i * (second div 5) < timeout" "?seen i" by blast
      have "i < k"
      proof (rule ccontr)
        assume "\<not> i < k"
        then have "int k * (second div 5) \<le> int i * (second div 5)" using d by (intro mult_right_mono) auto
        with i(1) up show False by simp
      qed
      with least i(2) show False by blast
    qed
  next
    assume "\<not> (\<exists>i. e + int i * (second div 5) < timeout \<and> ?seen i)"
    with kp show "?up k" by (meson not_le)
  qed
  then show ?thesis using wait_rounds_first [OF assms(1), of timeout e "map f [0..<?n]"] k
    unfolding length_map length_upt diff_zero looks by (simp del: upt_Suc)
qed

lemma chrome_run_append:
  "chrome_run d (ts @ us) st = (case chrome_run d ts st of (st, Some err) \<Rightarrow> (st, Some err) | (st, None) \<Rightarrow> chrome_run d us st)"
  by (induction ts arbitrary: st) (auto split: prod.split option.split)

lemma run_actions:
  "\<exists>ls'. chrome_run (carry_out B timeout) (map Action as) (v, ls) =
    ((fst (chrome_run (br_do B) (map Action as) v), ls'), snd (chrome_run (br_do B) (map Action as) v))"
proof (induction as arbitrary: v ls)
  case (Cons a as)
  obtain v' err where d: "br_do B (Action a) v = (v', err)" by fastforce
  show ?case
  proof (cases err)
    case None
    with Cons.IH [of v' "fold on_lifecycle (br_before B (Action a)) ls"] show ?thesis by (simp add: carry_out_def d)
  qed (simp add: carry_out_def d)
qed simp

section \<open>Properties\<close>


text \<open>A page that becomes interactive before its first paint, and then stays quiet: the run ends with the deadline.\<close>

definition early_page :: "string browser" where
  "early_page = \<lparr>br_do = (\<lambda>t v. (v, None)), br_before = (\<lambda>t. if t = Navigate ''https://a.cn''
     then [''InteractiveTime'', ''firstContentfulPaint''] else []), br_rounds = (\<lambda>_. []), br_elapsed = second\<rparr>"


text \<open>Every user agent names the version that the first script gives to the page.\<close>

lemma user_agents_consistent:
  "list_all (\<lambda>ua. Contains (ua_userAgent ua) (''/'' @ ua_chromeVersion ua)) userAgentsConfigs"
  by code_simp

end
