(* ===== verification/Cryptos.thy ===== *)
theory Cryptos
  imports IdTypes
begin

text \<open>
  \<open>pkg/cryptos\<close>: ciphers, signers and encodings over the standard library. The primitives (RSA, AES-GCM, X25519,
  Ed25519, HMAC, hashes, base64, the random source) are the fields of \<open>std_crypto\<close>; \<open>aead_laws\<close> and \<open>signer_laws\<close> are
  what their documentation promises. Strings and byte slices are lists of bytes; text is a string.
\<close>

section \<open>The library\<close>

datatype 'k parsed_key = RsaKey 'k | OtherKey

record 'k std_crypto =
  cl_pem :: "byte list \<Rightarrow> byte list option"
  cl_parse_public :: "byte list \<Rightarrow> string + 'k parsed_key"
  cl_parse_private :: "byte list \<Rightarrow> string + 'k parsed_key"
  cl_rsa_encrypt :: "'k \<Rightarrow> byte list \<Rightarrow> string + byte list"
  cl_rsa_decrypt :: "'k \<Rightarrow> byte list \<Rightarrow> string + byte list"
  cl_aes_key :: "byte list \<Rightarrow> string option" \<comment> \<open>the error of \<open>aes.NewCipher\<close>\<close>
  cl_seal :: "byte list \<Rightarrow> byte list \<Rightarrow> byte list \<Rightarrow> byte list"
  cl_open :: "byte list \<Rightarrow> byte list \<Rightarrow> byte list \<Rightarrow> byte list option"
  cl_x25519 :: "byte list \<Rightarrow> byte list \<Rightarrow> string + byte list"
  cl_basepoint :: "byte list"
  cl_sign :: "byte list \<Rightarrow> byte list \<Rightarrow> byte list"
  cl_verify :: "byte list \<Rightarrow> byte list \<Rightarrow> byte list \<Rightarrow> bool"
  cl_hmac :: "byte list \<Rightarrow> byte list \<Rightarrow> byte list"
  cl_md5 :: "byte list \<Rightarrow> byte list"
  cl_sha256 :: "byte list \<Rightarrow> byte list"
  cl_b64enc :: "byte list \<Rightarrow> string"
  cl_b64dec :: "string \<Rightarrow> byte list option"

section \<open>Encodings\<close>

text \<open>\<open>rnd n\<close> is \<open>mrand.Intn(n)\<close>, which panics for a bound that is not positive.\<close>

definition Random :: "(int \<Rightarrow> int) \<Rightarrow> int \<Rightarrow> int \<Rightarrow> int outcome" where
  "Random rnd lo hi = (if hi - lo \<le> 0 then Panic ''invalid argument to Intn'' else Ret (rnd (hi - lo) + lo))"

definition HashMd5 :: "'k std_crypto \<Rightarrow> byte list \<Rightarrow> string" where "HashMd5 L str = hex_encode (cl_md5 L str)"
definition HashSha256 :: "'k std_crypto \<Rightarrow> byte list \<Rightarrow> string" where "HashSha256 L str = hex_encode (cl_sha256 L str)"

text \<open>\<open>src\<close> is what the random source delivers: \<open>None\<close> is its error.\<close>

definition SecureBytes :: "(nat \<Rightarrow> byte list option) \<Rightarrow> int \<Rightarrow> string + byte list" where
  "SecureBytes src keyLenInBytes =
     (if keyLenInBytes \<le> 0 then Inl ''keyLenInBytes must be >= 0''
      else case src (nat keyLenInBytes) of None \<Rightarrow> Inl ''rand'' | Some bytes \<Rightarrow> Inr bytes)"

definition Base64Encode :: "'k std_crypto \<Rightarrow> byte list \<Rightarrow> string" where "Base64Encode L data = cl_b64enc L data"
definition Base64Decode :: "'k std_crypto \<Rightarrow> string \<Rightarrow> string + byte list" where
  "Base64Decode L data = (case cl_b64dec L data of None \<Rightarrow> Inl ''base64'' | Some d \<Rightarrow> Inr d)"

section \<open>RSA\<close>

record RsaCryptor =
  PublicKey :: "byte list"
  PrivateKey :: "byte list"

definition Rsa_Encrypt :: "'k std_crypto \<Rightarrow> RsaCryptor \<Rightarrow> byte list \<Rightarrow> (string + byte list) outcome" where
  "Rsa_Encrypt L r rawData =
     (case cl_pem L (PublicKey r) of
        None \<Rightarrow> Ret (Inl ''public key error'')
      | Some block \<Rightarrow>
          (case cl_parse_public L block of
             Inl err \<Rightarrow> Ret (Inl err)
           | Inr OtherKey \<Rightarrow> Panic ''interface conversion''
           | Inr (RsaKey pub) \<Rightarrow> Ret (cl_rsa_encrypt L pub rawData)))"

definition Rsa_Decrypt :: "'k std_crypto \<Rightarrow> RsaCryptor \<Rightarrow> byte list \<Rightarrow> (string + byte list) outcome" where
  "Rsa_Decrypt L r ciphertext =
     (case cl_pem L (PrivateKey r) of
        None \<Rightarrow> Ret (Inl ''private key error'')
      | Some block \<Rightarrow>
          (case cl_parse_private L block of
             Inl err \<Rightarrow> Ret (Inl ''parse error'')
           | Inr OtherKey \<Rightarrow> Panic ''interface conversion''
           | Inr (RsaKey priv) \<Rightarrow> Ret (cl_rsa_decrypt L priv ciphertext)))"

text \<open>The text forms of both ciphers.\<close>

definition to_text :: "'k std_crypto \<Rightarrow> (string + byte list) outcome \<Rightarrow> (string + string) outcome" where
  "to_text L res =
     bind_outcome res (\<lambda>r. Ret (case r of Inl err \<Rightarrow> Inl err | Inr cipherBytes \<Rightarrow> Inr (Base64Encode L cipherBytes)))"

definition from_text :: "'k std_crypto \<Rightarrow> (byte list \<Rightarrow> (string + byte list) outcome) \<Rightarrow> string \<Rightarrow> (string + byte list) outcome" where
  "from_text L decrypt ciphertext =
     (case Base64Decode L ciphertext of Inl err \<Rightarrow> Ret (Inl err) | Inr data \<Rightarrow> decrypt data)"

definition Rsa_EncryptToString :: "'k std_crypto \<Rightarrow> RsaCryptor \<Rightarrow> byte list \<Rightarrow> (string + string) outcome" where
  "Rsa_EncryptToString L r rawData = to_text L (Rsa_Encrypt L r rawData)"

definition Rsa_DecryptFromString :: "'k std_crypto \<Rightarrow> RsaCryptor \<Rightarrow> string \<Rightarrow> (string + byte list) outcome" where
  "Rsa_DecryptFromString L r ciphertext = from_text L (Rsa_Decrypt L r) ciphertext"

section \<open>AES-GCM with an agreed key\<close>

text \<open>\<open>Ed25519Cryptor\<close> is its shared key. \<open>Seal\<close> appends to the nonce.\<close>

definition nonceSize :: nat where "nonceSize = 12"

definition Box_Encrypt :: "'k std_crypto \<Rightarrow> (nat \<Rightarrow> byte list option) \<Rightarrow> byte list \<Rightarrow> byte list \<Rightarrow> string + byte list" where
  "Box_Encrypt L src sharedKey rawData =
     (case cl_aes_key L sharedKey of
        Some err \<Rightarrow> Inl err
      | None \<Rightarrow>
          (case SecureBytes src (int nonceSize) of
             Inl err \<Rightarrow> Inl err
           | Inr nonce \<Rightarrow> Inr (nonce @ cl_seal L sharedKey nonce rawData)))"

definition Box_Decrypt :: "'k std_crypto \<Rightarrow> byte list \<Rightarrow> byte list \<Rightarrow> (string + byte list) outcome" where
  "Box_Decrypt L sharedKey rawData =
     (case cl_aes_key L sharedKey of
        Some err \<Rightarrow> Ret (Inl err)
      | None \<Rightarrow>
          if length rawData < nonceSize then Panic ''slice bounds out of range''
          else
            (let nonce = take nonceSize rawData; cipherData = drop nonceSize rawData in
             case cl_open L sharedKey nonce cipherData of
               None \<Rightarrow> Ret (Inl ''message authentication failed'')
             | Some outData \<Rightarrow> Ret (Inr outData)))"

definition Box_EncryptToString ::
    "'k std_crypto \<Rightarrow> (nat \<Rightarrow> byte list option) \<Rightarrow> byte list \<Rightarrow> byte list \<Rightarrow> (string + string) outcome" where
  "Box_EncryptToString L src sharedKey rawData = to_text L (Ret (Box_Encrypt L src sharedKey rawData))"

definition Box_DecryptFromString :: "'k std_crypto \<Rightarrow> byte list \<Rightarrow> string \<Rightarrow> (string + byte list) outcome" where
  "Box_DecryptFromString L sharedKey ciphertext = from_text L (Box_Decrypt L sharedKey) ciphertext"

definition NewEd25519Cryptor :: "'k std_crypto \<Rightarrow> string \<Rightarrow> string + byte list" where
  "NewEd25519Cryptor L sharedKey = Base64Decode L sharedKey"

definition NewEd25519CryptorByNegotiate :: "'k std_crypto \<Rightarrow> byte list \<Rightarrow> byte list \<Rightarrow> string + byte list" where
  "NewEd25519CryptorByNegotiate L remotePublicKey selfPrivateKey = cl_x25519 L selfPrivateKey remotePublicKey"

definition clamp :: "byte list \<Rightarrow> byte list" where
  "clamp p =
     (let p = p[0 := p ! 0 AND 248]; p = p[31 := p ! 31 AND 127] in p[31 := p ! 31 OR 64])"

definition NewEd25519CryptorKeyPair :: "'k std_crypto \<Rightarrow> (nat \<Rightarrow> byte list option) \<Rightarrow> string + byte list \<times> byte list" where
  "NewEd25519CryptorKeyPair L src =
     (case SecureBytes src 32 of
        Inl err \<Rightarrow> Inl err
      | Inr rnd \<Rightarrow>
          (let priv = clamp rnd in
           case cl_x25519 L priv (cl_basepoint L) of
             Inl err \<Rightarrow> Inl err
           | Inr pub \<Rightarrow> Inr (pub, priv)))"

section \<open>Signers\<close>

definition Hmac_Sign :: "'k std_crypto \<Rightarrow> byte list \<Rightarrow> byte list \<Rightarrow> byte list" where
  "Hmac_Sign L secretKey data = cl_hmac L secretKey data"

definition Hmac_Verify :: "'k std_crypto \<Rightarrow> byte list \<Rightarrow> byte list \<Rightarrow> byte list \<Rightarrow> bool" where
  "Hmac_Verify L secretKey dataToSign signature \<longleftrightarrow> cl_hmac L secretKey dataToSign = signature"

record Ed25519Signer =
  RemotePublicKey :: "byte list"
  SelfPrivateKey :: "byte list"

text \<open>\<open>ed25519.Sign\<close> panics unless the key has 64 bytes, \<open>Verify\<close> unless it has 32.\<close>

definition ed25519_sign :: "'k std_crypto \<Rightarrow> byte list \<Rightarrow> byte list \<Rightarrow> byte list outcome" where
  "ed25519_sign L key msg = (if length key \<noteq> 64 then Panic ''ed25519: bad private key length'' else Ret (cl_sign L key msg))"

definition Ed25519_Sign :: "'k std_crypto \<Rightarrow> Ed25519Signer \<Rightarrow> byte list \<Rightarrow> byte list outcome" where
  "Ed25519_Sign L e rawData = ed25519_sign L (SelfPrivateKey e) rawData"

definition Ed25519_Verify :: "'k std_crypto \<Rightarrow> Ed25519Signer \<Rightarrow> byte list \<Rightarrow> byte list \<Rightarrow> bool outcome" where
  "Ed25519_Verify L e utf8Bytes signature =
     (if length (RemotePublicKey e) \<noteq> 32 then Panic ''ed25519: bad public key length''
      else Ret (cl_verify L (RemotePublicKey e) utf8Bytes signature))"

definition NewEd25519SignerFromString :: "'k std_crypto \<Rightarrow> string \<Rightarrow> string \<Rightarrow> string + Ed25519Signer" where
  "NewEd25519SignerFromString L remotePublicKey selfPrivateKey =
     (case Base64Decode L remotePublicKey of
        Inl err \<Rightarrow> Inl err
      | Inr remote \<Rightarrow>
          (case Base64Decode L selfPrivateKey of
             Inl err \<Rightarrow> Inl err
           | Inr self \<Rightarrow> Inr \<lparr>RemotePublicKey = remote, SelfPrivateKey = self\<rparr>))"

record Ed25519SignKey =
  sk_Pri :: string
  sk_Pub :: string
  sk_priKey :: "byte list"

definition getPrivateKey :: "'k std_crypto \<Rightarrow> Ed25519SignKey \<Rightarrow> string + byte list" where
  "getPrivateKey L sk =
     (case cl_b64dec L (sk_Pri sk) of
        None \<Rightarrow> Inl ''base64''
      | Some priBytes \<Rightarrow>
          (case cl_b64dec L (sk_Pub sk) of
             None \<Rightarrow> Inl ''base64''
           | Some pubBytes \<Rightarrow> Inr (priBytes @ pubBytes)))"

definition NewEd25519SignKey :: "'k std_crypto \<Rightarrow> string \<Rightarrow> string \<Rightarrow> string + Ed25519SignKey" where
  "NewEd25519SignKey L pri pub =
     (let tmp = \<lparr>sk_Pri = pri, sk_Pub = pub, sk_priKey = []\<rparr> in
      case getPrivateKey L tmp of Inl err \<Rightarrow> Inl err | Inr k \<Rightarrow> Inr (tmp\<lparr>sk_priKey := k\<rparr>))"

definition SignKey_Sign :: "'k std_crypto \<Rightarrow> Ed25519SignKey \<Rightarrow> byte list \<Rightarrow> byte list outcome" where
  "SignKey_Sign L sk message = ed25519_sign L (sk_priKey sk) message"

definition SignKey_SignString :: "'k std_crypto \<Rightarrow> Ed25519SignKey \<Rightarrow> byte list \<Rightarrow> string outcome" where
  "SignKey_SignString L sk message =
     bind_outcome (ed25519_sign L (sk_priKey sk) message) (\<lambda>data. Ret (cl_b64enc L data))"

section \<open>Laws\<close>

text \<open>Sealed data is opened with the same key and nonce, and base64 text is decoded to what it encodes; the random source
  delivers as many bytes as asked for.\<close>

definition aead_laws :: "'k std_crypto \<Rightarrow> (nat \<Rightarrow> byte list option) \<Rightarrow> bool" where
  "aead_laws L src \<longleftrightarrow> (\<forall>k n m. cl_open L k n (cl_seal L k n m) = Some m) \<and> (\<forall>d. cl_b64dec L (cl_b64enc L d) = Some d)
     \<and> (\<forall>n b. src n = Some b \<longrightarrow> length b = n)"

text \<open>A library without secrets: the cipher appends the key, base64 is a string of the bytes.\<close>

definition plain_lib :: "unit std_crypto" where
  "plain_lib = \<lparr>cl_pem = Some, cl_parse_public = (\<lambda>_. Inr (RsaKey ())), cl_parse_private = (\<lambda>_. Inr (RsaKey ())),
     cl_rsa_encrypt = (\<lambda>_. Inr), cl_rsa_decrypt = (\<lambda>_. Inr),
     cl_aes_key = (\<lambda>k. if length k \<in> {16, 24, 32} then None else Some ''invalid key size''),
     cl_seal = (\<lambda>k n m. m @ k), cl_open = (\<lambda>k n c. if drop (length c - length k) c = k then Some (take (length c - length k) c) else None),
     cl_x25519 = (\<lambda>k p. Inr k), cl_basepoint = [], cl_sign = (\<lambda>k m. m), cl_verify = (\<lambda>k m s. m = s), cl_hmac = (\<lambda>k m. k @ m),
     cl_md5 = (\<lambda>_. replicate 16 0), cl_sha256 = (\<lambda>_. replicate 32 0),
     cl_b64enc = (\<lambda>d. map (\<lambda>b. char_of (unat b)) d), cl_b64dec = (\<lambda>s. Some (map of_char s))\<rparr>"

lemma plain_lib_laws: "aead_laws plain_lib (\<lambda>n. Some (replicate n 0))"
proof -
  have "(of_char (char_of (unat b)) :: byte) = b" for b
  proof -
    have "unat b < 256" using unsigned_less [of b, where ?'a = nat] by simp
    then have "of_nat (of_char (char_of (unat b)) :: nat) = b" by simp
    then show ?thesis by (metis of_nat_of_char)
  qed
  then show ?thesis by (simp add: aead_laws_def plain_lib_def comp_def)
qed

section \<open>Properties\<close>

text \<open>What \<open>EncryptToString\<close> of the shared-key cipher gives, \<open>DecryptFromString\<close> turns back, for every key AES accepts and
  every nonce drawn; the ciphertext begins with the nonce. Input shorter than a nonce is not an error but a panic.\<close>

theorem box_roundtrip:
  assumes "aead_laws L src" "Box_EncryptToString L src key raw = Ret (Inr enc)"
  shows "Box_DecryptFromString L key enc = Ret (Inr raw)
    \<and> (\<forall>short. length short < 12 \<longrightarrow> Box_Decrypt L key short = Panic ''slice bounds out of range'')"
proof -
  obtain n where k: "cl_aes_key L key = None" and n: "src 12 = Some n"
    and t: "enc = cl_b64enc L (n @ cl_seal L key n raw)"
    using assms(2)
    by (auto simp: Box_EncryptToString_def to_text_def Box_Encrypt_def SecureBytes_def nonceSize_def Base64Encode_def
        split: option.splits)
  have "length n = 12" using assms(1) n by (simp add: aead_laws_def)
  with k t assms(1) show ?thesis
    by (simp add: Box_DecryptFromString_def from_text_def Base64Decode_def Box_Decrypt_def nonceSize_def aead_laws_def)
qed

lemma plain_box: "src 12 = Some n \<Longrightarrow> length key = 16 \<Longrightarrow>
    Box_EncryptToString plain_lib src key raw = Ret (Inr (cl_b64enc plain_lib (n @ raw @ key)))"
  by (simp add: Box_EncryptToString_def to_text_def Box_Encrypt_def SecureBytes_def nonceSize_def Base64Encode_def plain_lib_def)

lemma box_roundtrip_witness:
  "Box_DecryptFromString plain_lib (replicate 16 1)
     (cl_b64enc plain_lib (replicate 12 0 @ [7, 8] @ replicate 16 1)) = Ret (Inr [7, 8])"
  by (rule box_roundtrip [OF plain_lib_laws plain_box, THEN conjunct1]) (simp_all only: length_replicate)

lemma clamp_first: "unat (b AND 248) mod 8 = 0" for b :: byte
proof -
  have "take_bit 3 (b AND 248) = 0" by (simp add: take_bit_and)
  from arg_cong [OF this, of unat] have "take_bit 3 (unat (b AND 248)) = 0"
    by (simp only: unsigned_take_bit_eq unsigned_0)
  then have "unat (b AND 248) mod 2 ^ 3 = 0" by (simp only: take_bit_eq_mod)
  then show ?thesis by simp
qed

lemma clamp_last: "64 \<le> unat ((b AND 127) OR 64) \<and> unat ((b AND 127) OR 64) < 128" for b :: byte
proof -
  have div64: "64 \<le> m \<and> m < 128" if "m div 64 = 1" for m :: nat
    using that div_mult_mod_eq [of m 64] mod_less_divisor [of 64 m] by simp
  have "drop_bit 6 ((b AND 127) OR 64) = 1" by (simp add: drop_bit_and drop_bit_or)
  from arg_cong [OF this, of unat] have "drop_bit 6 (unat ((b AND 127) OR 64)) = 1"
    by (simp only: unsigned_drop_bit_eq unsigned_1 take_bit_nat_eq_self [OF unsigned_less])
  then have "unat ((b AND 127) OR 64) div 2 ^ 6 = 1" by (simp only: drop_bit_eq_div)
  then show ?thesis by (intro div64) simp
qed

lemma clamp_twice: "(b AND 248) AND 248 = b AND 248" "(((b AND 127) OR 64) AND 127) OR 64 = (b AND 127) OR 64" for b :: byte
  by (simp_all add: and.assoc bit.conj_disj_distrib2 or.assoc)

lemmas clamp_bytes = clamp_first clamp_last clamp_twice

text \<open>A generated private key is a scalar X25519 accepts as it is: its first byte is a multiple of eight, its last is from
  64 to 127, and the other bytes are the random ones; the public key is computed from it.\<close>

theorem key_pair_clamped:
  assumes "\<And>n b. src n = Some b \<Longrightarrow> length b = n" "NewEd25519CryptorKeyPair L src = Inr (pub, priv)"
  shows "\<exists>rnd. src 32 = Some rnd \<and> length priv = 32 \<and> unat (priv ! 0) mod 8 = 0 \<and> 64 \<le> unat (priv ! 31) \<and> unat (priv ! 31) < 128
    \<and> (\<forall>i. 0 < i \<and> i < 31 \<longrightarrow> priv ! i = rnd ! i) \<and> cl_x25519 L priv (cl_basepoint L) = Inr pub \<and> clamp priv = priv"
proof -
  obtain rnd where r: "src 32 = Some rnd" "priv = clamp rnd" "cl_x25519 L priv (cl_basepoint L) = Inr pub"
    using assms(2) by (auto simp: NewEd25519CryptorKeyPair_def SecureBytes_def Let_def split: option.splits sum.splits)
  have l: "length rnd = 32" using assms(1) r(1) by simp
  have p: "length priv = 32" "priv ! 0 = rnd ! 0 AND 248" "priv ! 31 = (rnd ! 31 AND 127) OR 64"
    "\<And>i. 0 < i \<Longrightarrow> i < 31 \<Longrightarrow> priv ! i = rnd ! i"
    using l by (simp_all add: r(2) clamp_def Let_def)
  have "clamp priv = priv"
  proof (rule nth_equalityI)
    fix i assume "i < length (clamp priv)"
    then have "i < 32" using p(1) by (simp add: clamp_def Let_def)
    then show "clamp priv ! i = priv ! i"
      using p(1) clamp_bytes by (cases "i = 0"; cases "i = 31") (simp_all add: clamp_def Let_def p(2,3))
  qed (simp add: clamp_def Let_def)
  with r p clamp_bytes show ?thesis by (intro exI [of _ rnd]) (simp add: p(2,3))
qed

lemma key_pair_clamped_witness:
  "\<exists>pub priv. NewEd25519CryptorKeyPair plain_lib (\<lambda>n. Some (replicate n 255)) = Inr (pub, priv)
    \<and> unat (priv ! 0) mod 8 = 0 \<and> unat (priv ! 31) < 128"
proof -
  obtain pub priv where e: "NewEd25519CryptorKeyPair plain_lib (\<lambda>n. Some (replicate n 255)) = Inr (pub, priv)"
    by (simp add: NewEd25519CryptorKeyPair_def SecureBytes_def plain_lib_def Let_def)
  show ?thesis using key_pair_clamped [OF _ e] e by auto
qed

text \<open>Signatures: an HMAC signer accepts exactly its own signature. A signing key made from two base64 texts signs when the
  decoded parts have 64 bytes together and panics otherwise, although making it reports no error; so it panics for a pair
  as \<open>NewEd25519SignerKeyPair\<close> gives, whose private key of 64 bytes already ends with the public one.\<close>

theorem sign_key_length:
  assumes "cl_b64dec L pri = Some p" "cl_b64dec L pub = Some q"
  shows "\<exists>sk. NewEd25519SignKey L pri pub = Inr sk
    \<and> SignKey_Sign L sk msg = (if length p + length q = 64 then Ret (cl_sign L (p @ q) msg) else Panic ''ed25519: bad private key length'')
    \<and> (length p = 64 \<and> length q = 32 \<longrightarrow> \<not> is_ret (SignKey_SignString L sk msg))
    \<and> (Hmac_Verify L k msg s \<longleftrightarrow> s = Hmac_Sign L k msg)"
  using assms
  by (auto simp: NewEd25519SignKey_def getPrivateKey_def SignKey_Sign_def SignKey_SignString_def ed25519_sign_def
      Hmac_Verify_def Hmac_Sign_def)

lemma sign_key_length_witness:
  "\<exists>sk. NewEd25519SignKey plain_lib (replicate 64 CHR ''a'') (replicate 32 CHR ''b'') = Inr sk
    \<and> \<not> is_ret (SignKey_SignString plain_lib sk [])"
  using sign_key_length [of plain_lib "replicate 64 CHR ''a''" "replicate 64 (of_char CHR ''a'')" "replicate 32 CHR ''b''"
      "replicate 32 (of_char CHR ''b'')" "[]"]
  by (auto simp: plain_lib_def)

end
