(* ===== verification/Server.thy ===== *)
theory Server
  imports AuthProofs Sign
begin

text \<open>
  The request path of the application: the middleware of \<open>cmd/app/main.go\<close> in their order, around a handler, and the
  handlers of \<open>authes/auth_handler.go\<close>. The CORS, compression, logging and recovery middleware are libraries that do
  not look at the request's credentials and are left out.
\<close>

section \<open>Chains\<close>

record 's web_server =
  sv_auth :: "'s auth_env"
  sv_crypto :: crypto_lib
  sv_b64 :: "string \<Rightarrow> byte list option"
  sv_negotiate :: "byte list \<Rightarrow> byte list option"
  sv_keyPair :: "string \<times> string"
  sv_enableCrypto :: bool
  sv_pathsNotAuth :: "string list"
  sv_pathsNeedAuth :: "string list"
  sv_pathsNotCrypt :: "string list"
  sv_pathsNeedCrypt :: "string list"

text \<open>What one request meets: its time, the answers of its two Redis calls, and what is drawn and measured for its
  response; \<open>ce_rtype\<close> is the content type the handler sets.\<close>

record call_env =
  ce_now :: int64
  ce_replay :: net
  ce_auth :: net
  ce_nonce :: string
  ce_stamp :: string
  ce_rnd :: "byte list option"
  ce_rtype :: string

text \<open>gin runs the next handler unless the context is aborted.\<close>

definition next_mw :: "(gin_ctx \<Rightarrow> response outcome) \<Rightarrow> gin_ctx \<Rightarrow> response outcome" where
  "next_mw k c = (case cx_aborted c of Some st \<Rightarrow> Ret (stop_with st c) | None \<Rightarrow> k c)"

definition with_auth :: "'s web_server \<Rightarrow> call_env \<Rightarrow> request \<Rightarrow> 's \<Rightarrow> gin_ctx \<Rightarrow> gin_ctx" where
  "with_auth S e r s c =
     AuthMiddleware (sv_auth S) (ce_auth e) (sv_pathsNotAuth S) (sv_pathsNeedAuth S)
       (SaveClientKeys (sv_b64 S) (sv_enableCrypto S) (sv_negotiate S) r) r s c"

text \<open>The routes under \<open>/v1\<close>. The store is the one the replay check leaves; what the handler does to it is not followed.\<close>

definition v1_serve ::
    "'s web_server \<Rightarrow> call_env \<Rightarrow> (request \<Rightarrow> gin_ctx \<Rightarrow> response outcome) \<Rightarrow> request \<Rightarrow> 's \<Rightarrow> response outcome \<times> 's" where
  "v1_serve S e handler r s =
     (let (c, s) = ReplayMiddleware (sv_auth S) (ce_replay e) (ce_now e) r new_context s;
          crypto = CryptoMiddleware (sv_crypto S) (sv_enableCrypto S) (sv_pathsNotCrypt S) (sv_pathsNeedCrypt S) (ce_rnd e)
            handler (ce_rtype e) r;
          sign = SignMiddleware (sv_crypto S) (sv_keyPair S) (ce_nonce e) (ce_stamp e) crypto r
      in (next_mw (\<lambda>c. next_mw sign (with_auth S e r s c)) c, s))"

text \<open>The routes under \<open>/hub\<close> and \<open>/sse\<close>.\<close>

definition hub_serve ::
    "'s web_server \<Rightarrow> call_env \<Rightarrow> (request \<Rightarrow> gin_ctx \<Rightarrow> response outcome) \<Rightarrow> request \<Rightarrow> 's \<Rightarrow> response outcome" where
  "hub_serve S e handler r s = next_mw (handler r) (with_auth S e r s new_context)"

section \<open>What each stage lets through\<close>

text \<open>The data the replay middleware saves.\<close>

definition extend_of :: "request \<Rightarrow> RequestExtendData" where
  "extend_of r = \<lparr>ed_Nonce = GetTrimmedHeader r ''X-Nonce'', ed_Timestamp = GetTrimmedHeader r ''X-Timestamp'',
     ed_Platform = GetPlatform r, ed_Signature = GetTrimmedHeader r ''X-Signature'', ed_SessionId = GetSessionId r\<rparr>"

definition complete :: "request \<Rightarrow> bool" where
  "complete r \<longleftrightarrow> GetTrimmedHeader r ''X-Nonce'' \<noteq> [] \<and> GetTrimmedHeader r ''X-Timestamp'' \<noteq> []
     \<and> GetTrimmedHeader r ''X-Signature'' \<noteq> [] \<and> GetSessionId r \<noteq> [] \<and> Platform_IsValid (GetPlatform r)"

lemma next_mw_simps [simp]:
  "cx_aborted c = None \<Longrightarrow> next_mw k c = k c"
  "cx_aborted c = Some st \<Longrightarrow> next_mw k c = Ret (stop_with st c)"
  by (simp_all add: next_mw_def)

lemma new_context_simps [simp]:
  "cx_aborted new_context = None" "cx_claims new_context = None" "cx_keys new_context = None" "cx_extend new_context = None"
  by (simp_all add: new_context_def)

lemma replay_stage:
  "ReplayMiddleware E n now r new_context s =
     (if \<not> complete r then (abort_with 400 new_context, s)
      else (case IsReplayRequest E n now (GetTrimmedHeader r ''X-Nonce'') (GetTrimmedHeader r ''X-Timestamp'') s of
              (True, s') \<Rightarrow> (abort_with 400 new_context, s')
            | (False, s') \<Rightarrow> (new_context\<lparr>cx_extend := Some (extend_of r)\<rparr>, s')))"
  by (auto simp: ReplayMiddleware_def complete_def SaveExtendData_def extend_of_def Let_def split: prod.splits bool.splits)

lemma not_replay:
  assumes "cache_laws (ae_cache E)" "IsReplayRequest E n now nonce ts s = (False, s')"
  shows "\<exists>v. Atoi ts = Some v \<and> \<not> ae_replay_max E <s now - word_of_int v
    \<and> (n = Reply \<longrightarrow> ca_get (ae_cache E) s (''handled_requests:'' @ nonce) = None)"
  using assms(2) cache_laws_simps(3) [OF assms(1)]
  by (auto simp: IsReplayRequest_def SaveHandledRequest_def Let_def split: option.splits if_splits)

lemma keys_stage:
  assumes "cx_aborted (SaveClientKeys b64 enable negotiate r c) = None"
  shows "\<exists>raw share. b64 (GetSessionId r) = Some raw \<and> length raw = 88
    \<and> (enable \<longrightarrow> share = negotiate (drop 56 (unmask raw))) \<and> (enable = (share \<noteq> None))
    \<and> SaveClientKeys b64 enable negotiate r c = c\<lparr>cx_keys := Some \<lparr>ck_SignPubKey = take 32 (drop 24 (unmask raw)),
        ck_BoxPubKey = drop 56 (unmask raw), ck_ShareKey = share\<rparr>\<rparr>"
  using assms by (auto simp: SaveClientKeys_def Let_def abort_with_def split: option.splits if_splits)

lemma keys_keep:
  "cx_claims (SaveClientKeys b64 enable negotiate r c) = cx_claims c"
  "cx_extend (SaveClientKeys b64 enable negotiate r c) = cx_extend c"
  by (simp_all add: SaveClientKeys_def Let_def abort_with_def split: option.split)

lemma sign_stage:
  assumes "GetClientKeys c = Some keys" "GetExtendData c = Some ed"
    and "SignMiddleware L kp nonce stamp chain r c \<noteq> SignMiddleware L kp nonce stamp chain' r c"
  shows "VerifySignMap L (ck_SignPubKey keys) (data_to_verify ed r) (ed_Signature ed) = Ret (Inr True) \<and> chain c \<noteq> chain' c"
proof
  show "VerifySignMap L (ck_SignPubKey keys) (data_to_verify ed r) (ed_Signature ed) = Ret (Inr True)"
  proof (rule ccontr)
    assume "VerifySignMap L (ck_SignPubKey keys) (data_to_verify ed r) (ed_Signature ed) \<noteq> Ret (Inr True)"
    with assms show False
      by (cases "VerifySignMap L (ck_SignPubKey keys) (data_to_verify ed r) (ed_Signature ed)")
         (auto simp: SignMiddleware_def split: sum.splits)
  qed
  show "chain c \<noteq> chain' c"
  proof
    assume "chain c = chain' c"
    then have "SignMiddleware L kp nonce stamp chain r c = SignMiddleware L kp nonce stamp chain' r c"
      by (simp only: SignMiddleware_def)
    with assms(3) show False by simp
  qed
qed

lemma crypto_stage:
  assumes "CryptoMiddleware L enabled pn pd rnd h rtype r c \<noteq> CryptoMiddleware L enabled pn pd rnd h' rtype r c"
  shows "if isPathNeedCrypto pn pd (rq_path r) \<and> enabled
    then \<exists>keys r'. GetClientKeys c = Some keys \<and> decrypt_request L keys r = Ret (Inr r') \<and> h r' c \<noteq> h' r' c
    else h r c \<noteq> h' r c"
proof (cases "isPathNeedCrypto pn pd (rq_path r) \<and> enabled")
  case True
  with assms obtain keys where k: "GetClientKeys c = Some keys"
    by (auto simp: CryptoMiddleware_def split: option.splits)
  show ?thesis
  proof (cases "\<exists>r'. decrypt_request L keys r = Ret (Inr r')")
    case d: True
    then obtain r' where r': "decrypt_request L keys r = Ret (Inr r')" by blast
    have "h r' c \<noteq> h' r' c"
    proof
      assume "h r' c = h' r' c"
      with True k r' have "CryptoMiddleware L enabled pn pd rnd h rtype r c = CryptoMiddleware L enabled pn pd rnd h' rtype r c"
        by (simp add: CryptoMiddleware_def)
      with assms show False by simp
    qed
    with True k r' show ?thesis by auto
  next
    case False
    with True k assms show ?thesis
      by (cases "decrypt_request L keys r") (auto simp: CryptoMiddleware_def split: sum.splits)
  qed
qed (use assms in \<open>auto simp: CryptoMiddleware_def\<close>)

lemma auth_ctx:
  assumes "cx_aborted (with_auth S e r s c) = None"
  shows "\<exists>found raw share. with_auth S e r s c = (SaveClaims found c)\<lparr>cx_keys := Some \<lparr>ck_SignPubKey = take 32 (drop 24 (unmask raw)),
        ck_BoxPubKey = drop 56 (unmask raw), ck_ShareKey = share\<rparr>\<rparr>
    \<and> (isPathNeedAuth (sv_pathsNotAuth S) (sv_pathsNeedAuth S) (rq_path r) \<longrightarrow> found \<noteq> None)
    \<and> (\<forall>cl. found = Some cl \<longrightarrow> claims_of (sv_auth S) r s cl)
    \<and> sv_b64 S (GetSessionId r) = Some raw \<and> length raw = 88 \<and> (sv_enableCrypto S = (share \<noteq> None))
    \<and> (sv_enableCrypto S \<longrightarrow> share = sv_negotiate S (drop 56 (unmask raw)))"
proof -
  let ?keys = "SaveClientKeys (sv_b64 S) (sv_enableCrypto S) (sv_negotiate S) r"
  obtain found where f: "with_auth S e r s c = ?keys (SaveClaims found c)"
    "isPathNeedAuth (sv_pathsNotAuth S) (sv_pathsNeedAuth S) (rq_path r) \<longrightarrow> found \<noteq> None"
    "\<forall>cl. found = Some cl \<longrightarrow> claims_of (sv_auth S) r s cl"
    using auth_stage [OF assms [unfolded with_auth_def]] by (elim exE conjE) (rule that, unfold with_auth_def, assumption+)
  then have "cx_aborted (?keys (SaveClaims found c)) = None" using assms by simp
  from keys_stage [OF this] obtain raw share where k: "sv_b64 S (GetSessionId r) = Some raw" "length raw = 88"
    "sv_enableCrypto S \<longrightarrow> share = sv_negotiate S (drop 56 (unmask raw))" "sv_enableCrypto S = (share \<noteq> None)"
    "?keys (SaveClaims found c) = (SaveClaims found c)\<lparr>cx_keys := Some \<lparr>ck_SignPubKey = take 32 (drop 24 (unmask raw)),
        ck_BoxPubKey = drop 56 (unmask raw), ck_ShareKey = share\<rparr>\<rparr>" by (elim exE conjE) (rule that)
  from f(2,3) k(1-4) show ?thesis
    unfolding f(1) k(5) by (intro exI [of _ found] exI [of _ raw] exI [of _ share] conjI refl)
qed

section \<open>Properties\<close>

text \<open>The text the client signs and the key of the session it sends.\<close>

definition session_sign_key :: "'s web_server \<Rightarrow> request \<Rightarrow> byte list option" where
  "session_sign_key S r =
     (case sv_b64 S (GetSessionId r) of
        None \<Rightarrow> None
      | Some raw \<Rightarrow> if length raw \<noteq> 88 then None else Some (take 32 (drop 24 (unmask raw))))"


text \<open>A nonce is used up by the replay check itself: within the interval every request with the same nonce is answered with
  400 and no handler runs, whatever the first request was answered, so a request refused for its token or its
  signature cannot be repeated, and who sends a nonce first takes it from its owner.\<close>

theorem v1_nonce_once:
  assumes "cache_laws (ae_cache (sv_auth S))" "0 < sint (ae_replay_max (sv_auth S))"
    and "ce_replay e = Reply" "ce_replay e' = Reply"
    and "cx_aborted (fst (ReplayMiddleware (sv_auth S) Reply (ce_now e) r new_context s)) = None"
    and "v1_serve S e h r s = (res, s')" "d < sint (ae_replay_max (sv_auth S))"
    and "GetTrimmedHeader r' ''X-Nonce'' = GetTrimmedHeader r ''X-Nonce''"
  shows "fst (v1_serve S e' h' r' (ca_tick (ae_cache (sv_auth S)) d s')) = Ret (stop_with 400 (abort_with 400 new_context))"
proof -
  let ?C = "ae_cache (sv_auth S)" and ?k = "''handled_requests:'' @ GetTrimmedHeader r ''X-Nonce''"
  let ?m = "sint (ae_replay_max (sv_auth S))"
  note C = cache_laws_simps [OF assms(1)]
  have I: "IsReplayRequest (sv_auth S) Reply (ce_now e) (GetTrimmedHeader r ''X-Nonce'') (GetTrimmedHeader r ''X-Timestamp'') s = (False, s')"
    using assms(3,5,6) unfolding v1_serve_def replay_stage
    by (auto simp: abort_with_def Let_def split: if_splits prod.splits bool.splits)
  then have free: "ca_get ?C s ?k = None" and s': "s' = snd (ca_setnx ?C ?k ''1'' ?m s)"
    using C(3) by (auto simp: IsReplayRequest_def SaveHandledRequest_def Let_def split: option.splits if_splits)
  have "ca_get ?C (ca_tick ?C d s') ?k = Some ''1''"
    using C(6) [OF C(5) [OF free assms(2)], where d = d] C(4) [OF free assms(2)] assms(7) unfolding s' by simp
  then have "\<exists>s2. IsReplayRequest (sv_auth S) Reply (ce_now e') (GetTrimmedHeader r ''X-Nonce'') ts (ca_tick ?C d s') = (True, s2)" for ts
    using C(3) by (auto simp: IsReplayRequest_def SaveHandledRequest_def Let_def split: option.splits)
  then obtain s2 where "IsReplayRequest (sv_auth S) Reply (ce_now e') (GetTrimmedHeader r' ''X-Nonce'')
      (GetTrimmedHeader r' ''X-Timestamp'') (ca_tick ?C d s') = (True, s2)"
    unfolding assms(8) by blast
  then show ?thesis
    using assms(4) unfolding v1_serve_def replay_stage by (simp add: abort_with_def)
qed

text \<open>What the server signs of its response.\<close>

definition response_data :: "call_env \<Rightarrow> request \<Rightarrow> string \<Rightarrow> (string \<times> string) list" where
  "response_data e r body = [(''session'', ed_SessionId (extend_of r)), (''nonce'', ce_nonce e),
     (''platform'', platform_number (ed_Platform (extend_of r))), (''timestamp'', ce_stamp e),
     (''method'', ToUpper (rq_method r)), (''path'', rq_path r),
     (''query'', StringfyMap (convertValuesToMap (rq_query r))), (''body'', body)]"

text \<open>The request a handler sees when \<open>data\<close> was encrypted.\<close>

definition decrypted :: "request \<Rightarrow> string \<Rightarrow> request" where
  "decrypted r data = r\<lparr>rq_body := data, rq_content_length := int (length data),
     rq_header := (rq_header r)(''Content-Type'' := getDecryptContentType (rq_path r))\<rparr>"

lemma auth_open:
  assumes "\<not> isPathNeedAuth (sv_pathsNotAuth S) (sv_pathsNeedAuth S) (rq_path r)
     \<or> (\<exists>cl. GetAccessTokenClaims (sv_auth S) (ce_auth e) (GetAccessToken r) s = Inr cl \<and> IsClaimsValid (sv_auth S) r (Some cl))"
  shows "\<exists>found. with_auth S e r s c = SaveClientKeys (sv_b64 S) (sv_enableCrypto S) (sv_negotiate S) r (SaveClaims found c)"
proof (cases "IsClaimsValid (sv_auth S) r (case GetAccessTokenClaims (sv_auth S) (ce_auth e) (GetAccessToken r) s of
      Inl _ \<Rightarrow> None | Inr cl \<Rightarrow> Some cl)")
  case True
  then show ?thesis by (auto simp: with_auth_def AuthMiddleware_def Let_def)
next
  case False
  with assms have "\<not> isPathNeedAuth (sv_pathsNotAuth S) (sv_pathsNeedAuth S) (rq_path r)" by auto
  with False show ?thesis by (intro exI [of _ None]) (simp add: with_auth_def AuthMiddleware_def SaveClaims_def)
qed

lemma sign_open:
  assumes "GetClientKeys c = Some keys" "GetExtendData c = Some ed"
    and "VerifySignMap L (ck_SignPubKey keys) (data_to_verify ed r) (ed_Signature ed) = Ret (Inr True)"
    and "chain c = Ret resp" "cx_aborted (rs_ctx resp) = None" "200 \<le> rs_status resp" "rs_status resp < 300"
    and "SignMap L (snd kp) (fst kp) [(''session'', ed_SessionId ed), (''nonce'', nonce),
           (''platform'', platform_number (ed_Platform ed)), (''timestamp'', stamp),
           (''method'', ToUpper (rq_method r)), (''path'', rq_path r),
           (''query'', StringfyMap (convertValuesToMap (rq_query r))), (''body'', rs_body resp)] = Ret (Inr sig)"
  shows "SignMiddleware L kp nonce stamp chain r c = Ret (resp\<lparr>rs_headers := rs_headers resp @
           [(''X-Timestamp'', stamp), (''X-Nonce'', nonce), (''X-Signature'', sig)]\<rparr>)"
  using assms by (simp add: SignMiddleware_def)

lemma crypto_open:
  assumes "isPathNeedCrypto pn pd (rq_path r)" "GetClientKeys c = Some keys" "decrypt_request L keys r = Ret (Inr r')"
    and "h r' c = Ret resp" "cx_aborted (rs_ctx resp) = None" "200 \<le> rs_status resp" "rs_status resp < 300"
    and "Contains rtype ''application/json'' \<or> Contains rtype ''text/plain''" "Encrypt L rnd (share_key keys) (rs_body resp) = Inr body"
  shows "CryptoMiddleware L True pn pd rnd h rtype r c = Ret (resp\<lparr>rs_body := body, rs_headers := rs_headers resp @
           [(''X-RawType'', rtype), (''Content-Type'', ContentTypeEncrypted), (''Content-Length'', Itoa (int (length body)))]\<rparr>)"
  using assms by (simp add: CryptoMiddleware_def)

lemma encrypt_open:
  assumes "aes_key share" shows "\<exists>body. Encrypt L (Some n) share data = Inr body"
  using assms by (simp add: Encrypt_def)

text \<open>A client: the keys of its session, and the body and signature it makes with them. Its keys are its own choice.\<close>

definition client_request :: "'s web_server \<Rightarrow> request \<Rightarrow> byte list \<Rightarrow> byte list \<Rightarrow> byte list \<Rightarrow> string \<Rightarrow> bool" where
  "client_request S r raw share n data \<longleftrightarrow>
     sv_b64 S (GetSessionId r) = Some (unmask raw) \<and> length raw = 88 \<and> sv_negotiate S (drop 56 raw) = Some share \<and> aes_key share
     \<and> rq_method r \<noteq> ''GET'' \<and> 0 < rq_content_length r \<and> HasPrefix (rq_header r ''Content-Type'') ContentTypeEncrypted
     \<and> length n = 12 \<and> Encrypt (sv_crypto S) (Some n) share data = Inr (rq_body r)
     \<and> (\<exists>sig. GetTrimmedHeader r ''X-Signature'' = cl_encode (sv_crypto S) sig
          \<and> cl_verify (sv_crypto S) (take 32 (drop 24 raw)) (StringfyMap (data_to_verify (extend_of r) r)) sig)"

text \<open>Such a request gets past the checks, and its body is decrypted.\<close>

lemma client_open:
  assumes "crypto_laws (sv_crypto S)" "client_request S r raw share n data" "sv_enableCrypto S"
    and "\<not> isPathNeedAuth (sv_pathsNotAuth S) (sv_pathsNeedAuth S) (rq_path r)
      \<or> (\<exists>cl. GetAccessTokenClaims (sv_auth S) (ce_auth e) (GetAccessToken r) s' = Inr cl \<and> IsClaimsValid (sv_auth S) r (Some cl))"
    and "complete r"
    and "IsReplayRequest (sv_auth S) (ce_replay e) (ce_now e) (GetTrimmedHeader r ''X-Nonce'') (GetTrimmedHeader r ''X-Timestamp'') s = (False, s')"
  shows "\<exists>c keys. cx_aborted c = None \<and> GetClientKeys c = Some keys \<and> share_key keys = share \<and> ck_ShareKey keys = Some share
    \<and> GetExtendData c = Some (extend_of r) \<and> decrypt_request (sv_crypto S) keys r = Ret (Inr (decrypted r data))
    \<and> VerifySignMap (sv_crypto S) (ck_SignPubKey keys) (data_to_verify (extend_of r) r) (ed_Signature (extend_of r)) = Ret (Inr True)
    \<and> (\<forall>h. v1_serve S e h r s = (SignMiddleware (sv_crypto S) (sv_keyPair S) (ce_nonce e) (ce_stamp e)
         (CryptoMiddleware (sv_crypto S) True (sv_pathsNotCrypt S) (sv_pathsNeedCrypt S) (ce_rnd e) h (ce_rtype e) r) r c, s'))"
proof -
  let ?L = "sv_crypto S"
  define c0 where "c0 = new_context\<lparr>cx_extend := Some (extend_of r)\<rparr>"
  define keys where "keys = \<lparr>ck_SignPubKey = take 32 (drop 24 raw), ck_BoxPubKey = drop 56 raw, ck_ShareKey = Some share\<rparr>"
  note cr = assms(2) [unfolded client_request_def]
  have um: "length (unmask raw) = 88" "unmask (unmask raw) = raw" using cr unmask_nth(1) [of raw] unmask_unmask [of raw] by auto
  obtain found where w: "with_auth S e r s' c0 = SaveClientKeys (sv_b64 S) (sv_enableCrypto S) (sv_negotiate S) r (SaveClaims found c0)"
    using auth_open [OF assms(4)] by blast
  define c1 where "c1 = (SaveClaims found c0)\<lparr>cx_keys := Some keys\<rparr>"
  have "GetSessionId r \<noteq> []" using assms(5) by (simp add: complete_def)
  then have w1: "with_auth S e r s' c0 = c1"
    unfolding w using cr um assms(3) by (simp add: SaveClientKeys_def c1_def keys_def)
  have c1: "GetClientKeys c1 = Some keys" "GetExtendData c1 = Some (extend_of r)" "cx_aborted c1 = None"
    by (simp_all add: c1_def c0_def GetClientKeys_def GetExtendData_def SaveClaims_def)
  have "decrypt_request ?L keys r = Ret (Inr (decrypted r data))"
    using cr decrypt_encrypt [OF assms(1), of n share data "rq_body r"]
    by (simp add: decrypt_request_def keys_def share_key_def decrypted_def)
  moreover have "VerifySignMap ?L (ck_SignPubKey keys) (data_to_verify (extend_of r) r) (ed_Signature (extend_of r)) = Ret (Inr True)"
    using cr assms(1) by (auto simp: VerifySignMap_def keys_def extend_of_def crypto_laws_def)
  moreover have "v1_serve S e h r s = (SignMiddleware ?L (sv_keyPair S) (ce_nonce e) (ce_stamp e)
      (CryptoMiddleware ?L True (sv_pathsNotCrypt S) (sv_pathsNeedCrypt S) (ce_rnd e) h (ce_rtype e) r) r c1, s')" for h
    using assms(3,5,6) w1 c1(3) unfolding v1_serve_def replay_stage by (simp add: c0_def)
  moreover have "share_key keys = share" "ck_ShareKey keys = Some share" by (simp_all add: keys_def share_key_def)
  ultimately show ?thesis using c1 by blast
qed

text \<open>C2. Both directions of an encrypted route, for any client: the handler is run on the text the client encrypted, with
  the client's keys in its context; when it answers with 2xx and JSON or text, the response decrypts to what it
  wrote, and carries a signature of the server over the encrypted body and the request's session, method, path and query.\<close>

theorem v1_roundtrip:
  assumes "crypto_laws (sv_crypto S)" "client_request S r raw share n data"
    and "isPathNeedCrypto (sv_pathsNotCrypt S) (sv_pathsNeedCrypt S) (rq_path r)" "sv_enableCrypto S"
    and "\<not> isPathNeedAuth (sv_pathsNotAuth S) (sv_pathsNeedAuth S) (rq_path r)
      \<or> (\<exists>cl. GetAccessTokenClaims (sv_auth S) (ce_auth e) (GetAccessToken r) s' = Inr cl \<and> IsClaimsValid (sv_auth S) r (Some cl))"
    and "complete r"
    and "IsReplayRequest (sv_auth S) (ce_replay e) (ce_now e) (GetTrimmedHeader r ''X-Nonce'') (GetTrimmedHeader r ''X-Timestamp'') s = (False, s')"
    and "sv_keyPair S = (cl_encode (sv_crypto S) pub, cl_encode (sv_crypto S) pri)" "length pri + length pub = 64" "pri \<noteq> []"
    and "ce_rnd e = Some m" "length m = 12" "Contains (ce_rtype e) ''application/json'' \<or> Contains (ce_rtype e) ''text/plain''"
  shows "\<exists>c. cx_aborted c = None \<and> GetExtendData c = Some (extend_of r) \<and> map_option ck_ShareKey (GetClientKeys c) = Some (Some share)
    \<and> (\<forall>resp. h (decrypted r data) c = Ret resp \<and> cx_aborted (rs_ctx resp) = None \<and> 200 \<le> rs_status resp \<and> rs_status resp < 300 \<longrightarrow>
         (\<exists>out. v1_serve S e h r s = (Ret out, s') \<and> rs_status out = rs_status resp
            \<and> Decrypt (sv_crypto S) share (rs_body out) = Ret (Inr (rs_body resp))
            \<and> (''X-Signature'', cl_encode (sv_crypto S) (cl_sign (sv_crypto S) (pri @ pub) (StringfyMap (response_data e r (rs_body out)))))
                \<in> set (rs_headers out)))"
proof -
  let ?L = "sv_crypto S"
  note cr = assms(2) [unfolded client_request_def]
  obtain c1 keys where c1: "GetClientKeys c1 = Some keys" "GetExtendData c1 = Some (extend_of r)" "cx_aborted c1 = None"
    and k: "share_key keys = share" "ck_ShareKey keys = Some share"
    and dec: "decrypt_request ?L keys r = Ret (Inr (decrypted r data))"
    and V: "VerifySignMap ?L (ck_SignPubKey keys) (data_to_verify (extend_of r) r) (ed_Signature (extend_of r)) = Ret (Inr True)"
    and serve: "\<And>h. v1_serve S e h r s = (SignMiddleware ?L (sv_keyPair S) (ce_nonce e) (ce_stamp e)
      (CryptoMiddleware ?L True (sv_pathsNotCrypt S) (sv_pathsNeedCrypt S) (ce_rnd e) h (ce_rtype e) r) r c1, s')"
    using client_open [OF assms(1,2,4-7)] by blast
  note D = crypto_open [OF assms(3) c1(1) dec]
  have out: "\<exists>out. v1_serve S e h r s = (Ret out, s') \<and> rs_status out = rs_status resp
      \<and> Decrypt ?L share (rs_body out) = Ret (Inr (rs_body resp))
      \<and> (''X-Signature'', cl_encode ?L (cl_sign ?L (pri @ pub) (StringfyMap (response_data e r (rs_body out))))) \<in> set (rs_headers out)"
    if H: "h (decrypted r data) c1 = Ret resp" "cx_aborted (rs_ctx resp) = None" "200 \<le> rs_status resp" "rs_status resp < 300" for resp
  proof -
    obtain body where b: "Encrypt ?L (Some m) share (rs_body resp) = Inr body" using encrypt_open cr by blast
    then have "Encrypt ?L (ce_rnd e) (share_key keys) (rs_body resp) = Inr body" by (simp add: assms(11) k)
    note E = D [where h = h, OF H assms(13) this]
    have "SignMap ?L (snd (sv_keyPair S)) (fst (sv_keyPair S)) mp = Ret (Inr (cl_encode ?L (cl_sign ?L (pri @ pub) (StringfyMap mp))))" for mp
      using assms(1,8,9,10) by (simp add: SignMap_def crypto_laws_def)
    then have "v1_serve S e h r s = (Ret (resp\<lparr>rs_body := body, rs_headers := (rs_headers resp @
           [(''X-RawType'', ce_rtype e), (''Content-Type'', ContentTypeEncrypted), (''Content-Length'', Itoa (int (length body)))]) @
           [(''X-Timestamp'', ce_stamp e), (''X-Nonce'', ce_nonce e),
            (''X-Signature'', cl_encode ?L (cl_sign ?L (pri @ pub) (StringfyMap (response_data e r body))))]\<rparr>), s')"
      unfolding serve using H sign_open [where chain = "CryptoMiddleware ?L True (sv_pathsNotCrypt S) (sv_pathsNeedCrypt S) (ce_rnd e) h (ce_rtype e) r",
          OF c1(1,2) V E] by (simp add: response_data_def)
    moreover have "Decrypt ?L share body = Ret (Inr (rs_body resp))"
      using cr by (intro decrypt_encrypt [OF assms(1,12) _ b]) simp
    ultimately show ?thesis by (intro exI conjI) (assumption, simp_all)
  qed
  show ?thesis using c1 out by (intro exI [of _ c1]) (simp add: k)
qed

text \<open>On the routes of the hubs there is no replay check and no signature: a handler runs with claims, if the path needs them,
  and with the session's keys.\<close>

lemma hub_gate:
  assumes "hub_serve S e h r s \<noteq> hub_serve S e h' r s"
  shows "\<exists>c. h r c \<noteq> h' r c \<and> GetClientKeys c \<noteq> None
    \<and> (isPathNeedAuth (sv_pathsNotAuth S) (sv_pathsNeedAuth S) (rq_path r) \<longrightarrow> (\<exists>cl. GetClaims c = Some cl \<and> claims_of (sv_auth S) r s cl))"
proof -
  let ?c = "with_auth S e r s new_context"
  have a: "cx_aborted ?c = None" using assms by (cases "cx_aborted ?c") (simp_all add: hub_serve_def)
  obtain found raw share where A: "?c = (SaveClaims found new_context)\<lparr>cx_keys := Some \<lparr>ck_SignPubKey = take 32 (drop 24 (unmask raw)),
        ck_BoxPubKey = drop 56 (unmask raw), ck_ShareKey = share\<rparr>\<rparr>"
    "isPathNeedAuth (sv_pathsNotAuth S) (sv_pathsNeedAuth S) (rq_path r) \<longrightarrow> found \<noteq> None"
    "\<forall>cl. found = Some cl \<longrightarrow> claims_of (sv_auth S) r s cl"
    using auth_ctx [OF a] by blast
  have "GetClientKeys ?c \<noteq> None" by (simp add: A(1) GetClientKeys_def)
  moreover have "GetClaims ?c = found" by (cases found) (simp_all add: A(1) GetClaims_def SaveClaims_def)
  moreover have "h r ?c \<noteq> h' r ?c" using assms a by (simp add: hub_serve_def)
  ultimately show ?thesis using A(2,3) by (intro exI [of _ ?c]) auto
qed

section \<open>Handlers of the login\<close>

text \<open>What a handler writes: nothing (the service aborted), the answer for a body that does not bind, or its reply.\<close>

datatype 'a handler_reply = Unwritten | InvalidArgs | Answer 'a

definition write_reply :: "'a \<times> gin_ctx \<times> 's \<Rightarrow> 'a handler_reply \<times> gin_ctx \<times> 's" where
  "write_reply res = (case res of (a, c, s) \<Rightarrow> (if cx_aborted c \<noteq> None then Unwritten else Answer a, c, s))"

definition handleLoginPrepare ::
    "'s auth_env \<Rightarrow> net \<Rightarrow> string option \<Rightarrow> string \<Rightarrow> string \<Rightarrow> gin_ctx \<Rightarrow> 's \<Rightarrow> string option handler_reply \<times> gin_ctx \<times> 's" where
  "handleLoginPrepare E n drawErr answer csrfToken c s = write_reply (PrepareLogin E n drawErr answer csrfToken c s)"

text \<open>\<open>body\<close> is the decoded request, \<open>None\<close> when it is not JSON.\<close>

definition handleLoginDo ::
    "'s auth_env \<Rightarrow> net \<Rightarrow> net \<Rightarrow> net \<Rightarrow> string \<Rightarrow> string \<Rightarrow> (string \<Rightarrow> string + User) \<Rightarrow> request
       \<Rightarrow> MsgCodeLoginRequest option \<Rightarrow> gin_ctx \<Rightarrow> 's \<Rightarrow> auth_response handler_reply \<times> gin_ctx \<times> 's" where
  "handleLoginDo E n1 n2 n3 access refresh upsert r body c s =
     (case body of
        None \<Rightarrow> (InvalidArgs, c, s)
      | Some req \<Rightarrow>
          if \<not> login_bound req then (InvalidArgs, c, s)
          else write_reply (Service_Authorize E n1 n2 n3 access refresh upsert r req c s))"

definition handleRefresh ::
    "'s auth_env \<Rightarrow> net \<Rightarrow> net \<Rightarrow> net \<Rightarrow> net \<Rightarrow> net \<Rightarrow> string \<Rightarrow> string \<Rightarrow> request \<Rightarrow> gin_ctx \<Rightarrow> 's
       \<Rightarrow> auth_response handler_reply \<times> gin_ctx \<times> 's" where
  "handleRefresh E n1 n2 n3 n4 n5 access refresh r c s = write_reply (RefreshToken E n1 n2 n3 n4 n5 access refresh r c s)"

definition handleLogout :: "'s auth_env \<Rightarrow> net \<Rightarrow> net \<Rightarrow> request \<Rightarrow> gin_ctx \<Rightarrow> 's \<Rightarrow> nat \<times> gin_ctx \<times> 's" where
  "handleLogout E n1 n2 r c s = (let (c, s) = Logout E n1 n2 r c s in (200, c, s))"

lemma login_result:
  assumes "auth_laws E" "handleLoginDo E Reply Reply Reply access refresh upsert r body c s = (Answer resp, c', s')"
  shows "\<exists>q user. body = Some q \<and> upsert (lr_CountryCode q @ lr_Phone q) = Inr user \<and> \<not> us_banned user \<and> can_issue r
    \<and> ca_get (ae_cache E) s' (access_key access) = Some (ae_encode E (new_claims E r (us_ID user)))
    \<and> ca_get (ae_cache E) s' (refresh_key refresh) = Some (ae_encode E (new_claims E r (us_ID user)))"
proof -
  have l: "cache_laws (ae_cache E)" using assms(1) by (simp add: auth_laws_def)
  note C = cache_laws_simps(1,2) [OF l]
  obtain q where q: "body = Some q" and A: "Service_Authorize E Reply Reply Reply access refresh upsert r q c s = (resp, c', s')"
    "cx_aborted c' = None"
    using assms(2) by (auto simp: handleLoginDo_def write_reply_def split: option.splits if_splits prod.splits)
  obtain user s1 where M: "MsgCode_Authorize E Reply upsert r q s = (Inr user, s1)" "\<not> us_banned user"
    using A by (auto simp: Service_Authorize_def abort_with_def split: prod.splits sum.splits if_splits)
  then have "upsert (lr_CountryCode q @ lr_Phone q) = Inr user"
    by (auto simp: MsgCode_Authorize_def Let_def split: prod.splits sum.splits if_splits)
  moreover have "can_issue r"
    using A M by (auto simp: Service_Authorize_def GenerateTokenPair_def GenerateAccessToken_def can_issue_def abort_with_def
        split: if_splits)
  moreover from this have "ca_get (ae_cache E) s' (access_key access) = Some (ae_encode E (new_claims E r (us_ID user)))
    \<and> ca_get (ae_cache E) s' (refresh_key refresh) = Some (ae_encode E (new_claims E r (us_ID user)))"
    using A M
    by (auto simp: Service_Authorize_def GenerateTokenPair_def GenerateAccessToken_def can_issue_def Let_def
        SaveAccessToken_def SaveRefreshToken_def C new_claims_def respond_tokens_def split: if_splits)
  ultimately show ?thesis using q M(2) by blast
qed

text \<open>C4. The life of a login: after it, a request with the access token from the same client, platform and user agent
  passes the middleware with the logged-in user's claims; after \<open>Logout\<close> with that request it is refused with 401. The
  refresh token is revoked only on the web: on every other platform it stays usable after the logout.\<close>

theorem session_lifecycle:
  assumes "auth_laws E" "handleLoginDo E Reply Reply Reply access refresh upsert r body c s = (Answer resp, c', s')"
    and "GetAccessToken r2 = access" "access \<noteq> []" "isPathNeedAuth notAuth needAuth (rq_path r2)"
    and "GetClientId r2 = GetClientId r" "GetPlatform r2 = GetPlatform r" "GetUserAgent r2 = GetUserAgent r"
    and "handleLogout E Reply Reply r2 c2 s' = (st, c3, s3)"
  shows "\<exists>q user. body = Some q \<and> upsert (lr_CountryCode q @ lr_Phone q) = Inr user
    \<and> AuthMiddleware E Reply notAuth needAuth keys r2 s' cx = keys (SaveClaims (Some (new_claims E r (us_ID user))) cx)
    \<and> AuthMiddleware E Reply notAuth needAuth keys r2 s3 cx = abort_with 401 cx
    \<and> (GetPlatform r2 \<noteq> Web \<longrightarrow> GetRefreshTokenCredential E Reply refresh s3 = Some (new_claims E r (us_ID user)))
    \<and> (GetPlatform r2 = Web \<and> cookie r2 ''ref'' = refresh \<and> refresh \<noteq> [] \<longrightarrow> GetRefreshTokenCredential E Reply refresh s3 = None)"
proof -
  have l: "cache_laws (ae_cache E)" and dec: "\<And>c. ae_decode E (ae_encode E c) = Some c"
    using assms(1) by (simp_all add: auth_laws_def)
  note C = cache_laws_simps(2) [OF l]
  obtain q user where L: "body = Some q" "upsert (lr_CountryCode q @ lr_Phone q) = Inr user"
    "ca_get (ae_cache E) s' (access_key access) = Some (ae_encode E (new_claims E r (us_ID user)))"
    "ca_get (ae_cache E) s' (refresh_key refresh) = Some (ae_encode E (new_claims E r (us_ID user)))"
    using login_result [OF assms(1,2)] by blast
  have v: "IsClaimsValid E r2 (Some (new_claims E r (us_ID user)))"
    using assms(6,7,8) by (simp add: IsClaimsValid_def new_claims_def GetUserAgentHashed_def)
  have "GetAccessTokenClaims E Reply access s' = Inr (new_claims E r (us_ID user))"
    using assms(4) L(3) by (simp add: GetAccessTokenClaims_def dec)
  with v have on: "AuthMiddleware E Reply notAuth needAuth keys r2 s' cx = keys (SaveClaims (Some (new_claims E r (us_ID user))) cx)"
    by (simp add: AuthMiddleware_def assms(3))
  have s3: "s3 = snd (RevokeRefreshToken E Reply (GetRefreshToken r2) (snd (RevokeAccessToken E Reply access s')))"
    using assms(3,9) by (auto simp: handleLogout_def Logout_def)
  have get: "ca_get (ae_cache E) s3 = (if GetRefreshToken r2 = [] then (ca_get (ae_cache E) s')(access_key access := None)
      else (ca_get (ae_cache E) s')(access_key access := None, refresh_key (GetRefreshToken r2) := None))"
    using assms(4) by (simp add: s3 RevokeRefreshToken_def DeleteRefreshToken_def revoke_access_get [OF l] C)
  have "GetAccessTokenClaims E Reply access s3 = Inl redis_nil" by (simp add: GetAccessTokenClaims_def get)
  then have off: "AuthMiddleware E Reply notAuth needAuth keys r2 s3 cx = abort_with 401 cx"
    using assms(5) by (simp add: AuthMiddleware_def assms(3) IsClaimsValid_def SaveClaims_def)
  have "GetRefreshTokenCredential E Reply refresh s3 = Some (new_claims E r (us_ID user))" if "GetPlatform r2 \<noteq> Web"
    using that L(4) by (simp add: GetRefreshTokenCredential_def get GetRefreshToken_def dec)
  moreover have "GetRefreshTokenCredential E Reply refresh s3 = None"
    if "GetPlatform r2 = Web" "cookie r2 ''ref'' = refresh" "refresh \<noteq> []"
    using that by (simp add: GetRefreshTokenCredential_def get GetRefreshToken_def)
  ultimately show ?thesis using L(1,2) on off by blast
qed

section \<open>Witnesses\<close>

definition demo_raw :: "byte list" where "demo_raw = replicate 88 1"

definition demo_server :: "demo_store web_server" where
  "demo_server = \<lparr>sv_auth = demo_env, sv_crypto = demo_crypt True, sv_b64 = (\<lambda>_. Some (unmask demo_raw)),
     sv_negotiate = (\<lambda>_. Some (replicate 16 3)), sv_keyPair = (demo_text (replicate 32 1), demo_text (replicate 32 2)),
     sv_enableCrypto = True, sv_pathsNotAuth = [], sv_pathsNeedAuth = [], sv_pathsNotCrypt = [], sv_pathsNeedCrypt = [''*'']\<rparr>"

definition demo_call :: call_env where
  "demo_call = \<lparr>ce_now = 1000, ce_replay = Reply, ce_auth = Reply, ce_nonce = ''rn'', ce_stamp = ''1'',
     ce_rnd = Some (replicate 12 9), ce_rtype = ''application/json''\<rparr>"

definition v1_request :: request where
  "v1_request = app_request\<lparr>rq_header := (\<lambda>n. if n = ''X-Platform'' then ''1'' else if n = ''X-Nonce'' then ''n''
      else if n = ''X-Timestamp'' then ''1000'' else if n = ''X-Signature'' then ''s'' else if n = ''X-Session'' then ''id''
      else if n = ''Content-Type'' then ContentTypeEncrypted else []),
     rq_method := ''POST'', rq_content_length := 14, rq_body := demo_text (replicate 12 7 @ demo_bytes ''hi'')\<rparr>"

lemma v1_request_eval:
  "GetTrimmedHeader v1_request ''X-Nonce'' = ''n''" "GetTrimmedHeader v1_request ''X-Timestamp'' = ''1000''"
  "GetTrimmedHeader v1_request ''X-Signature'' = ''s''" "GetSessionId v1_request = ''id''" "GetPlatform v1_request = 1"
proof -
  have a: "Atoi ''1'' = Some 1" by code_simp
  have t: "TrimSpace ''1'' = ''1''" "TrimSpace ''n'' = ''n''" "TrimSpace ''1000'' = ''1000''" "TrimSpace ''s'' = ''s''"
    "TrimSpace ''id'' = ''id''"
    by (simp_all add: TrimSpace_def is_space_def)
  show "GetTrimmedHeader v1_request ''X-Nonce'' = ''n''" "GetTrimmedHeader v1_request ''X-Timestamp'' = ''1000''"
    "GetTrimmedHeader v1_request ''X-Signature'' = ''s''" "GetSessionId v1_request = ''id''"
    by (simp_all add: GetTrimmedHeader_def GetSessionId_def v1_request_def t)
  show "GetPlatform v1_request = 1"
    by (simp add: GetPlatform_def GetTrimmedHeader_def v1_request_def t PlatformFromString_def a
        Platform_IsValid_def platforms_def Unspecify_def)
qed

lemma v1_request_accepted:
  "complete v1_request"
  "IsReplayRequest demo_env Reply 1000 ''n'' ''1000'' (\<lambda>_. None)
     = (False, snd (IsReplayRequest demo_env Reply 1000 ''n'' ''1000'' (\<lambda>_. None)))"
proof -
  show "complete v1_request" by (simp add: complete_def v1_request_eval Platform_IsValid_def platforms_def)
  have a: "Atoi ''1000'' = Some 1000" by code_simp
  have e: "ae_cache demo_env = demo_cache" "ae_replay_max demo_env = 300" by (simp_all add: demo_env_def)
  show "IsReplayRequest demo_env Reply 1000 ''n'' ''1000'' (\<lambda>_. None)
     = (False, snd (IsReplayRequest demo_env Reply 1000 ''n'' ''1000'' (\<lambda>_. None)))"
    by (simp add: IsReplayRequest_def a e SaveHandledRequest_def demo_cache_def word_sless_alt)
qed

lemma demo_server_simps [simp]:
  "sv_auth demo_server = demo_env" "sv_crypto demo_server = demo_crypt True" "sv_enableCrypto demo_server"
  "sv_keyPair demo_server = (demo_text (replicate 32 1), demo_text (replicate 32 2))"
  "sv_pathsNotAuth demo_server = []" "sv_pathsNeedAuth demo_server = []"
  "sv_pathsNotCrypt demo_server = []" "sv_pathsNeedCrypt demo_server = [''*'']"
  "ce_now demo_call = 1000" "ce_replay demo_call = Reply" "ce_rnd demo_call = Some (replicate 12 9)"
  "ce_rtype demo_call = ''application/json''"
  by (simp_all add: demo_server_def demo_call_def)

lemma demo_client: "client_request demo_server v1_request demo_raw (replicate 16 3) (replicate 12 7) ''hi''"
proof -
  have "\<exists>sig. GetTrimmedHeader v1_request ''X-Signature'' = cl_encode (demo_crypt True) sig
      \<and> cl_verify (demo_crypt True) (take 32 (drop 24 demo_raw)) (StringfyMap (data_to_verify (extend_of v1_request) v1_request)) sig"
    unfolding v1_request_eval by (intro exI [of _ "demo_bytes ''s''"]) (simp add: demo_crypt_def demo_bytes_text)
  moreover have "HasPrefix (rq_header v1_request ''Content-Type'') ContentTypeEncrypted"
    by (simp add: v1_request_def HasPrefix_def)
  moreover have "Encrypt (demo_crypt True) (Some (replicate 12 7)) (replicate 16 3) ''hi'' = Inr (rq_body v1_request)"
    by (simp add: Encrypt_def aes_key_def) (simp add: demo_crypt_def v1_request_def)
  ultimately show ?thesis
    by (simp add: client_request_def aes_key_def) (simp add: demo_server_def demo_raw_def v1_request_def)
qed

lemma demo_paths:
  "isPathNeedCrypto (sv_pathsNotCrypt demo_server) (sv_pathsNeedCrypt demo_server) p"
  "\<not> isPathNeedAuth (sv_pathsNotAuth demo_server) (sv_pathsNeedAuth demo_server) p"
  by (simp_all add: isPathNeedCrypto_def isPathNeedAuth_def HasPrefix_def)

abbreviation demo_after :: demo_store where
  "demo_after \<equiv> snd (IsReplayRequest demo_env Reply 1000 ''n'' ''1000'' (\<lambda>_. None))"

lemma demo_replay: "IsReplayRequest (sv_auth demo_server) (ce_replay demo_call) (ce_now demo_call) (GetTrimmedHeader v1_request ''X-Nonce'')
    (GetTrimmedHeader v1_request ''X-Timestamp'') (\<lambda>_. None) = (False, demo_after)"
  using v1_request_accepted(2) by (simp only: demo_server_simps v1_request_eval)

lemmas demo_open = client_open [where S = demo_server and e = demo_call and s = "\<lambda>_. None", unfolded demo_server_simps(2),
    OF demo_crypt_laws demo_client _ _ v1_request_accepted(1) demo_replay]

lemma v1_roundtrip_witness:
  "\<exists>out. v1_serve demo_server demo_call (\<lambda>r c. Ret \<lparr>rs_ctx = c, rs_status = 200, rs_body = rq_body r, rs_headers = []\<rparr>)
       v1_request (\<lambda>_. None) = (Ret out, demo_after)
     \<and> Decrypt (demo_crypt True) (replicate 16 3) (rs_body out) = Ret (Inr ''hi'')"
proof -
  let ?h = "\<lambda>r c. Ret \<lparr>rs_ctx = c, rs_status = 200, rs_body = rq_body r, rs_headers = []\<rparr>"
  have cl: "crypto_laws (sv_crypto demo_server)" by (simp add: demo_crypt_laws)
  have kp: "sv_keyPair demo_server = (cl_encode (sv_crypto demo_server) (replicate 32 1), cl_encode (sv_crypto demo_server) (replicate 32 2))"
    by (simp add: demo_crypt_def)
  have ct: "Contains (ce_rtype demo_call) ''application/json'' \<or> Contains (ce_rtype demo_call) ''text/plain''"
    by (simp add: HasPrefix_def)
  obtain c where c: "cx_aborted c = None"
    and out: "\<forall>resp. ?h (decrypted v1_request ''hi'') c = Ret resp \<and> cx_aborted (rs_ctx resp) = None \<and> 200 \<le> rs_status resp \<and> rs_status resp < 300 \<longrightarrow>
      (\<exists>out. v1_serve demo_server demo_call ?h v1_request (\<lambda>_. None) = (Ret out, demo_after) \<and> rs_status out = rs_status resp
        \<and> Decrypt (sv_crypto demo_server) (replicate 16 3) (rs_body out) = Ret (Inr (rs_body resp))
        \<and> (''X-Signature'', cl_encode (sv_crypto demo_server) (cl_sign (sv_crypto demo_server) (replicate 32 2 @ replicate 32 1)
             (StringfyMap (response_data demo_call v1_request (rs_body out))))) \<in> set (rs_headers out))"
    using v1_roundtrip [where h = ?h, OF cl demo_client demo_paths(1) demo_server_simps(3) disjI1 [OF demo_paths(2)]
        v1_request_accepted(1) demo_replay kp _ _ demo_server_simps(11) _ ct] by auto
  show ?thesis using out [rule_format, of "\<lparr>rs_ctx = c, rs_status = 200, rs_body = ''hi'', rs_headers = []\<rparr>"] c
    by (auto simp: decrypted_def)
qed


lemma v1_nonce_once_witness:
  "fst (v1_serve demo_server demo_call (\<lambda>_ _. Panic ''second'') v1_request
     (ca_tick demo_cache 299 (snd (v1_serve demo_server demo_call (\<lambda>_ _. Panic ''first'') v1_request (\<lambda>_. None)))))
   = Ret (stop_with 400 (abort_with 400 new_context))"
proof -
  have l: "cache_laws (ae_cache (sv_auth demo_server))" by (simp add: demo_env_def demo_cache_laws)
  have m: "sint (ae_replay_max (sv_auth demo_server)) = 300" by (simp add: demo_env_def)
  have e: "ae_cache (sv_auth demo_server) = demo_cache" by (simp add: demo_env_def)
  have a: "cx_aborted (fst (ReplayMiddleware (sv_auth demo_server) Reply (ce_now demo_call) v1_request new_context (\<lambda>_. None))) = None"
  proof -
    obtain s2 where "IsReplayRequest demo_env Reply 1000 ''n'' ''1000'' (\<lambda>_. None) = (False, s2)" using v1_request_accepted(2) by blast
    then show ?thesis using v1_request_accepted(1) by (simp add: replay_stage v1_request_eval)
  qed
  show ?thesis
    using v1_nonce_once [OF l _ _ _ a surjective_pairing [symmetric, THEN sym], of demo_call 299 v1_request] m e by simp
qed

definition login_request :: request where
  "login_request = app_request\<lparr>rq_cookie := [''csrf'' \<mapsto> ''t'']\<rparr>"

lemma login_request_eval:
  "GetPlatform login_request = 1" "GetClientId login_request = ''dev''" "GetUserAgent login_request = []"
  "GetUserAgent app_request = []" "GetCsrfToken login_request = ''t''"
proof -
  have a: "Atoi ''1'' = Some 1" by code_simp
  have t: "TrimSpace ''1'' = ''1''" "TrimSpace ''dev'' = ''dev''" "TrimSpace [] = []"
    by (simp_all add: TrimSpace_def is_space_def)
  show p: "GetPlatform login_request = 1"
    by (simp add: GetPlatform_def GetTrimmedHeader_def login_request_def app_request_def t PlatformFromString_def a
        Platform_IsValid_def platforms_def Unspecify_def)
  show "GetClientId login_request = ''dev''"
    by (simp add: GetClientId_def p Web_def) (simp add: login_request_def app_request_def t)
  show "GetUserAgent login_request = []" "GetUserAgent app_request = []"
    by (simp_all add: GetUserAgent_def login_request_def app_request_def t)
  show "GetCsrfToken login_request = ''t''" by (simp add: GetCsrfToken_def cookie_def login_request_def)
qed

definition login_user :: User where "login_user = \<lparr>us_ID = ZeroUID, us_Phone = [], us_banned = False\<rparr>"

lemma login_succeeds:
  "\<exists>resp c s. handleLoginDo demo_env Reply Reply Reply ''tok'' ''ref'' (\<lambda>p. Inr login_user) login_request (Some demo_login) new_context
      [''csrf_token:t'' \<mapsto> (''1234'', 600)] = (Answer resp, c, s)"
proof -
  have f: "IsCountryCode (lr_CountryCode demo_login)" "IsCellPhone (lr_Phone demo_login)"
    by (simp_all add: IsCountryCode_iff IsCellPhone_iff demo_login_def is_digit_def digit_val_def)
  have q: "login_bound demo_login" "lr_CsrfToken demo_login = ''t''" "lr_ImgCode demo_login = ''1234''" "lr_MsgCode demo_login = ''8888''"
    by (simp_all add: login_bound_def demo_login_def)
  have g: "ca_get (ae_cache demo_env) [''csrf_token:t'' \<mapsto> (''1234'', 600)] ''csrf_token:t'' = Some ''1234''"
    by (simp add: demo_env_def demo_cache_def)
  have "\<exists>s1. MsgCode_Authorize demo_env Reply (\<lambda>p. Inr login_user) login_request demo_login [''csrf_token:t'' \<mapsto> (''1234'', 600)] = (Inr login_user, s1)"
    by (simp add: MsgCode_Authorize_def login_request_eval f q StoreGetCsrfToken_def g Let_def)
  then obtain s1 where M: "MsgCode_Authorize demo_env Reply (\<lambda>p. Inr login_user) login_request demo_login [''csrf_token:t'' \<mapsto> (''1234'', 600)] = (Inr login_user, s1)"
    by blast
  show ?thesis
    by (simp add: handleLoginDo_def q Service_Authorize_def M) (simp add: login_user_def GenerateTokenPair_def GenerateAccessToken_def
        login_request_eval Unspecify_def SaveAccessToken_def SaveRefreshToken_def respond_tokens_def write_reply_def Web_def Let_def)
qed

lemma session_lifecycle_witness:
  "\<exists>resp c s. handleLoginDo demo_env Reply Reply Reply ''tok'' ''ref'' (\<lambda>p. Inr login_user) login_request (Some demo_login) new_context
      [''csrf_token:t'' \<mapsto> (''1234'', 600)] = (Answer resp, c, s)
    \<and> GetRefreshTokenCredential demo_env Reply ''ref'' (snd (snd (handleLogout demo_env Reply Reply app_request new_context s))) \<noteq> None"
proof -
  obtain resp c s where L: "handleLoginDo demo_env Reply Reply Reply ''tok'' ''ref'' (\<lambda>p. Inr login_user) login_request (Some demo_login)
      new_context [''csrf_token:t'' \<mapsto> (''1234'', 600)] = (Answer resp, c, s)" using login_succeeds by blast
  obtain st c3 s3 where O: "handleLogout demo_env Reply Reply app_request new_context s = (st, c3, s3)" by (metis prod.exhaust)
  have n: "isPathNeedAuth [] [''*''] (rq_path app_request)" by (simp add: isPathNeedAuth_def HasPrefix_def)
  show ?thesis
    using session_lifecycle [OF demo_env_laws L app_request_eval(3) _ n _ _ _ O] L O
    by (auto simp: app_request_eval login_request_eval Web_def)
qed

end
