(* ===== verification/Routes.thy ===== *)
theory Routes
  imports Server
begin

text \<open>
  The routes of \<open>cmd/app/main.go\<close>: gin's groups as they are built by \<open>Group\<close>, \<open>Use\<close> and the registrations of the
  features, the chain each route gets, the search of a route, and a chain run around a handler, with the recovery and
  log middleware. Compression changes bytes on the connection only; what the CORS library answers is an argument.
\<close>

section \<open>Groups\<close>

datatype middleware = Recovery | Log | Cors | Gzip | Replay | Auth | Sign | Crypto | Pass

text \<open>What a route ends in.\<close>

datatype endpoint = LoginPrepare | LoginDo | Refresh | Logout | UserInfo | UserUpdate | ChatUpgrade | SseAsk
  | Pprof string | AdminUsers

record route =
  rt_method :: string
  rt_path :: string
  rt_chain :: "middleware list"
  rt_end :: endpoint

record RouterGroup =
  rg_path :: string
  rg_chain :: "middleware list"

text \<open>A route takes the middleware that its group has when the route is registered; a group those of its parent when
  the group is made.\<close>

definition Group :: "string \<Rightarrow> middleware list \<Rightarrow> RouterGroup \<Rightarrow> RouterGroup" where
  "Group path ms g = \<lparr>rg_path = rg_path g @ path, rg_chain = rg_chain g @ ms\<rparr>"

definition Use :: "middleware \<Rightarrow> RouterGroup \<Rightarrow> RouterGroup" where
  "Use m g = g\<lparr>rg_chain := rg_chain g @ [m]\<rparr>"

definition Handle :: "string \<Rightarrow> string \<Rightarrow> endpoint \<Rightarrow> RouterGroup \<Rightarrow> route" where
  "Handle verb path e g = \<lparr>rt_method = verb, rt_path = rg_path g @ path, rt_chain = rg_chain g, rt_end = e\<rparr>"

section \<open>Registrations\<close>

definition auth_routes :: "RouterGroup \<Rightarrow> route list" where
  "auth_routes router =
     (let authGroup = Group ''/auth'' [Pass] router in
      [Handle ''POST'' ''/login/prepare'' LoginPrepare authGroup, Handle ''POST'' ''/login/do'' LoginDo authGroup,
       Handle ''POST'' ''/refresh'' Refresh authGroup, Handle ''POST'' ''/logout'' Logout authGroup])"

definition user_routes :: "RouterGroup \<Rightarrow> route list" where
  "user_routes router =
     (let g = Group ''/user'' [] router in
      [Handle ''GET'' ''/info'' UserInfo g, Handle ''POST'' ''/:id'' UserUpdate g])"

definition features_routes :: "RouterGroup \<Rightarrow> route list" where
  "features_routes r = auth_routes r @ user_routes r"

definition chat_routes :: "RouterGroup \<Rightarrow> route list" where
  "chat_routes hubGroup = [Handle ''GET'' ''/chat'' ChatUpgrade hubGroup]"

definition sse_routes :: "RouterGroup \<Rightarrow> route list" where
  "sse_routes router = [Handle ''GET'' ''/ask'' SseAsk (Group ''/ai'' [] router)]"

definition third_routes :: "RouterGroup \<Rightarrow> route list" where
  "third_routes r = []"

text \<open>\<open>admin_features\<close>, which \<open>main\<close> does not register: its own middleware asks for a fixed header.\<close>

definition admin_guard :: "request \<Rightarrow> gin_ctx \<Rightarrow> gin_ctx" where
  "admin_guard r c = (if rq_header r ''Authorization'' \<noteq> ''foobar'' then abort_with 403 c else c)"

definition admin_routes :: "RouterGroup \<Rightarrow> route list" where
  "admin_routes r = [Handle ''GET'' ''/users'' AdminUsers (Group ''/admin'' [Pass] r)]"

text \<open>\<open>main\<close>: \<open>pprof\<close> are the paths that the profiler's library registers in development.\<close>

definition app_routes :: "string \<Rightarrow> string list \<Rightarrow> route list" where
  "app_routes env pprof =
     (let r = \<lparr>rg_path = [], rg_chain = []\<rparr>;
          r = Use Recovery r; r = Use Log r; r = Use Cors r;
          debug = (if env = ''dev'' then map (\<lambda>p. Handle ''GET'' (''/debug/pprof'' @ p) (Pprof p) r) pprof else []);
          thirdGroup = Group ''/third'' [] r;
          hubGroup = Use Auth (Group ''/hub'' [] r);
          s = Use Auth (Use Gzip (Group ''/sse'' [] r));
          v1 = Use Crypto (Use Sign (Use Auth (Use Replay (Use Gzip (Group ''/v1'' [] r)))))
      in debug @ third_routes thirdGroup @ chat_routes hubGroup @ sse_routes s @ features_routes v1)"

section \<open>Finding a route\<close>

text \<open>Segment by segment; a segment that begins with a colon stands for any non-empty one, and a literal one is
  preferred.\<close>

fun segments_match :: "string list \<Rightarrow> string list \<Rightarrow> bool" where
  "segments_match [] [] \<longleftrightarrow> True"
| "segments_match (p # ps) (s # ss) \<longleftrightarrow> (p = s \<or> HasPrefix p '':'' \<and> s \<noteq> []) \<and> segments_match ps ss"
| "segments_match ps ss \<longleftrightarrow> False"

definition find_route :: "route list \<Rightarrow> string \<Rightarrow> string \<Rightarrow> route option" where
  "find_route rs verb path =
     (case find (\<lambda>r. rt_method r = verb \<and> rt_path r = path) rs of
        Some r \<Rightarrow> Some r
      | None \<Rightarrow> find (\<lambda>r. rt_method r = verb \<and> segments_match (Split (rt_path r) ''/'') (Split path ''/'')) rs)"

section \<open>Running a chain\<close>

text \<open>One line of the access log; the two clock readings and the client's address are arguments of a call. The line is
  written at debug level, which only development has.\<close>

record access =
  al_end :: int
  al_status :: nat
  al_millis :: int
  al_ip :: string
  al_method :: string
  al_path :: string

record log_env =
  le_start :: int
  le_end :: int
  le_debug :: bool

definition log_line :: "log_env \<Rightarrow> request \<Rightarrow> nat \<Rightarrow> access list" where
  "log_line v r status =
     (if le_debug v
      then [\<lparr>al_end = le_end v, al_status = status, al_millis = (le_end v - le_start v) div 1000000, al_ip = rq_ip r,
             al_method = rq_method r, al_path = rq_path r\<rparr>]
      else [])"

type_synonym 's served = "response outcome \<times> 's \<times> access list"

text \<open>\<open>cors r\<close> is the status with which the CORS library ends a request, if it does. A panic passes through every
  middleware between the handler and \<open>Recovery\<close>: what they do after \<open>Next\<close> is not done.\<close>

fun serve_chain ::
    "'s web_server \<Rightarrow> call_env \<Rightarrow> log_env \<Rightarrow> (request \<Rightarrow> nat option) \<Rightarrow> (request \<Rightarrow> gin_ctx \<Rightarrow> response outcome)
       \<Rightarrow> middleware list \<Rightarrow> request \<Rightarrow> gin_ctx \<Rightarrow> 's \<Rightarrow> 's served" where
  "serve_chain S e v cors h [] r c s = (h r c, s, [])"
| "serve_chain S e v cors h (m # ms) r c s =
     (case m of
        Recovery \<Rightarrow>
          (case serve_chain S e v cors h ms r c s of
             (Panic _, s, log) \<Rightarrow> (Ret (stop_with 500 c), s, log)
           | served \<Rightarrow> served)
      | Log \<Rightarrow>
          (case serve_chain S e v cors h ms r c s of
             (Ret resp, s, log) \<Rightarrow> (Ret resp, s, log @ log_line v r (rs_status resp))
           | served \<Rightarrow> served)
      | Cors \<Rightarrow>
          (case cors r of
             Some st \<Rightarrow> (Ret (stop_with st c), s, [])
           | None \<Rightarrow> serve_chain S e v cors h ms r c s)
      | Replay \<Rightarrow>
          (let (c, s) = ReplayMiddleware (sv_auth S) (ce_replay e) (ce_now e) r c s in
           case cx_aborted c of
             Some st \<Rightarrow> (Ret (stop_with st c), s, [])
           | None \<Rightarrow> serve_chain S e v cors h ms r c s)
      | Auth \<Rightarrow>
          (let c = with_auth S e r s c in
           case cx_aborted c of
             Some st \<Rightarrow> (Ret (stop_with st c), s, [])
           | None \<Rightarrow> serve_chain S e v cors h ms r c s)
      | Sign \<Rightarrow>
          (SignMiddleware (sv_crypto S) (sv_keyPair S) (ce_nonce e) (ce_stamp e)
             (\<lambda>c. fst (serve_chain S e v cors h ms r c s)) r c, s, [])
      | Crypto \<Rightarrow>
          (CryptoMiddleware (sv_crypto S) (sv_enableCrypto S) (sv_pathsNotCrypt S) (sv_pathsNeedCrypt S) (ce_rnd e)
             (\<lambda>r c. fst (serve_chain S e v cors h ms r c s)) (ce_rtype e) r c, s, [])
      | Gzip \<Rightarrow> serve_chain S e v cors h ms r c s
      | Pass \<Rightarrow> serve_chain S e v cors h ms r c s)"

text \<open>The application: a request of no route is answered with 404 by the middleware of the root.\<close>

definition app_serve ::
    "'s web_server \<Rightarrow> call_env \<Rightarrow> log_env \<Rightarrow> (request \<Rightarrow> nat option) \<Rightarrow> (endpoint \<Rightarrow> request \<Rightarrow> gin_ctx \<Rightarrow> response outcome)
       \<Rightarrow> route list \<Rightarrow> request \<Rightarrow> 's \<Rightarrow> 's served" where
  "app_serve S e v cors handlers routes r s =
     (case find_route routes (rq_method r) (rq_path r) of
        Some rt \<Rightarrow> serve_chain S e v cors (handlers (rt_end rt)) (rt_chain rt) r new_context s
      | None \<Rightarrow> serve_chain S e v cors (\<lambda>_ c. Ret (stop_with 404 c)) [Recovery, Log, Cors] r new_context s)"

section \<open>Lemmas\<close>

lemmas route_defs = app_routes_def features_routes_def auth_routes_def user_routes_def chat_routes_def sse_routes_def
  third_routes_def Group_def Use_def Handle_def Let_def

text \<open>What is left of the table: the public prefix of a route decides its chain.\<close>

lemma app_routes_chains:
  "rt \<in> set (app_routes env pprof) \<Longrightarrow>
     rt_chain rt = [Recovery, Log, Cors] \<and> env = ''dev'' \<and> (\<exists>p. rt_end rt = Pprof p)
   \<or> rt_chain rt = [Recovery, Log, Cors, Auth] \<and> rt_end rt = ChatUpgrade
   \<or> rt_chain rt = [Recovery, Log, Cors, Gzip, Auth] \<and> rt_end rt = SseAsk
   \<or> rt_chain rt \<in> {[Recovery, Log, Cors, Gzip, Replay, Auth, Sign, Crypto],
                    [Recovery, Log, Cors, Gzip, Replay, Auth, Sign, Crypto, Pass]}
     \<and> rt_end rt \<in> {LoginPrepare, LoginDo, Refresh, Logout, UserInfo, UserUpdate}"
  by (auto simp: route_defs split: if_splits)

lemma find_route_in: "find_route rs verb path = Some rt \<Longrightarrow> rt \<in> set rs"
  by (auto simp: find_route_def find_Some_iff split: option.splits)

text \<open>The chains below the first three middleware are the compositions of theory \<open>Server\<close>.\<close>

lemma v1_chain:
  assumes "ms \<in> {[Gzip, Replay, Auth, Sign, Crypto], [Gzip, Replay, Auth, Sign, Crypto, Pass]}"
  shows "serve_chain S e v cors h ms r new_context s = (case v1_serve S e h r s of (res, s') \<Rightarrow> (res, s', []))"
  using assms
  by (auto simp: v1_serve_def next_mw_def Let_def fun_eq_iff split: prod.split option.split)

lemma hub_chain:
  assumes "ms \<in> {[Auth], [Gzip, Auth]}"
  shows "serve_chain S e v cors h ms r new_context s = (hub_serve S e h r s, s, [])"
  using assms by (auto simp: hub_serve_def next_mw_def Let_def split: option.split)

definition recovered :: "response outcome \<Rightarrow> response" where
  "recovered res = (case res of Ret resp \<Rightarrow> resp | Panic _ \<Rightarrow> stop_with 500 new_context)"

definition logged :: "log_env \<Rightarrow> request \<Rightarrow> response outcome \<Rightarrow> access list" where
  "logged v r res = (case res of Ret resp \<Rightarrow> log_line v r (rs_status resp) | Panic _ \<Rightarrow> [])"

lemma outer_chain:
  "serve_chain S e v cors h (Recovery # Log # Cors # ms) r new_context s =
    (case cors r of
       Some st \<Rightarrow> (Ret (stop_with st new_context), s, log_line v r st)
     | None \<Rightarrow> (case serve_chain S e v cors h ms r new_context s of
         (res, s', log) \<Rightarrow> (Ret (recovered res), s', log @ logged v r res)))"
  by (auto simp: recovered_def logged_def stop_with_def split: option.split prod.split outcome.split)

text \<open>Who serves an endpoint: the compositions of theory \<open>Server\<close>, or the bare handler.\<close>

definition serve_endpoint ::
    "'s web_server \<Rightarrow> call_env \<Rightarrow> (endpoint \<Rightarrow> request \<Rightarrow> gin_ctx \<Rightarrow> response outcome) \<Rightarrow> endpoint \<Rightarrow> request \<Rightarrow> 's
       \<Rightarrow> response outcome \<times> 's" where
  "serve_endpoint S e handlers ep r s =
     (if ep \<in> {LoginPrepare, LoginDo, Refresh, Logout, UserInfo, UserUpdate} then v1_serve S e (handlers ep) r s
      else if ep \<in> {ChatUpgrade, SseAsk} then (hub_serve S e (handlers ep) r s, s)
      else (handlers ep r new_context, s))"

section \<open>Properties\<close>


text \<open>The profiler has no route outside development, and the administration's routes are not registered at all.\<close>

lemma pprof_in_development: "rt \<in> set (app_routes env pprof) \<Longrightarrow> env \<noteq> ''dev'' \<Longrightarrow> rt_end rt \<noteq> Pprof p"
  using app_routes_chains by fastforce

lemma admin_not_served: "rt \<in> set (app_routes env pprof) \<Longrightarrow> rt_end rt \<noteq> AdminUsers"
  using app_routes_chains by fastforce

text \<open>A login reaches its handler's route; the parameter of the last route takes any name.\<close>

lemma login_found:
  "map_option rt_end (find_route (app_routes ''release'' []) ''POST'' ''/v1/auth/login/do'') = Some LoginDo"
  "map_option rt_end (find_route (app_routes ''release'' []) ''POST'' ''/v1/user/info'') = Some UserUpdate"
  "find_route (app_routes ''release'' []) ''GET'' ''/admin/users'' = None"
  by code_simp+

end
