(* ===== verification/Config.thy ===== *)
theory Config
  imports ChatListen Locker HttpClients
begin

text \<open>
  \<open>internal/app/global/config.go\<close> and what is made of it: the options of the Redis clients, the locker, the CORS
  middleware; the response envelope of \<open>internal/app/shared\<close>; \<open>pkg/third\<close>'s exchange of a WeChat code. Reading the
  file is left to the configuration library. Durations are int64 nanoseconds.
\<close>

section \<open>The configuration\<close>

record DatabaseConfig =
  dc_Master :: string
  dc_Replicas :: "string list"
  dc_Driver :: string

record CacheConfig =
  cc_Addr :: string
  cc_Db :: int

record LockerConfig =
  lc_Addr :: string
  lc_Db :: int
  lc_Ttl :: int64
  lc_RetryStrategy :: string
  lc_Backoff :: int64
  lc_MaxRetry :: int

record QueueConfig =
  qc_Addr :: string
  qc_Db :: int
  qc_XAddMaxLen :: int
  qc_BatchSize :: int

record KeyPair =
  kp_PublicKey :: string
  kp_PrivateKey :: string

record JwtConfig =
  jc_Issuer :: string
  jc_Secret :: string
  jc_AccessTtl :: int64
  jc_RefreshTtl :: int64
  jc_CookieDomain :: string
  jc_CookieSecure :: bool
  jc_CookieHttpOnly :: bool
  jc_CookieSameSiteMode :: int

record AuthenticatorConfig =
  ac_BoxKeyPair :: KeyPair
  ac_SignKeyPair :: KeyPair
  ac_EnableCrypto :: bool
  ac_PathsNeedCrypt :: "string list"
  ac_PathsNotCrypt :: "string list"
  ac_PathsNeedAuth :: "string list"
  ac_PathsNotAuth :: "string list"
  ac_Jwt :: JwtConfig
  ac_ReplayMaxInterval :: int64

record CorsConfig =
  co_AllowOrigins :: "string list"
  co_AllowMethods :: "string list"
  co_AllowHeaders :: "string list"
  co_ExposeHeaders :: "string list"
  co_AllowCredentials :: bool
  co_MaxAge :: int64
  co_AllowWebSockets :: bool

record AppConfig =
  ap_Name :: string
  ap_Addr :: string
  ap_Domains :: "string list"
  ap_Id :: string
  ap_WorkerId :: int64
  ap_Database :: DatabaseConfig
  ap_Cache :: CacheConfig
  ap_Locker :: LockerConfig
  ap_Queue :: QueueConfig
  ap_Hub :: HubConfig
  ap_Authenticator :: AuthenticatorConfig
  ap_Cors :: CorsConfig

text \<open>The address and the database number that a Redis client is opened with.\<close>

definition CacheConfig_GetRedisOption :: "CacheConfig \<Rightarrow> string \<times> int" where
  "CacheConfig_GetRedisOption c = (cc_Addr c, cc_Db c)"

definition LockerConfig_GetRedisOption :: "LockerConfig \<Rightarrow> string \<times> int" where
  "LockerConfig_GetRedisOption c = (lc_Addr c, lc_Db c)"

definition QueueConfig_GetRedisOption :: "QueueConfig \<Rightarrow> string \<times> int" where
  "QueueConfig_GetRedisOption c = (qc_Addr c, qc_Db c)"

section \<open>What is made of it\<close>

definition Minute :: int64 where "Minute = 60000000000"

text \<open>The locker of \<open>Init\<close>: the options after the defaults of \<open>NewLocker\<close>; its retry strategy is linear whatever the
  configuration names, and the number of retries is not used.\<close>

definition config_locker_options :: "LockerConfig \<Rightarrow> (Locker \<Rightarrow> Locker) list" where
  "config_locker_options c =
     [WithDefaultTtl (sint (lc_Ttl c * ChatSecond)),
      WithDefaultRetryStrategy (Some (LinearRetryStrategy (sint (lc_Backoff c * ChatSecond))))]"

text \<open>The settings that the CORS library is given.\<close>

definition CorsMiddleware :: "CorsConfig \<Rightarrow> CorsConfig" where
  "CorsMiddleware c = c\<lparr>co_MaxAge := co_MaxAge c * Minute\<rparr>"

section \<open>Responses\<close>

datatype RespCode = RespCodeSucceed | RespCodeInvalidArgs | RespCodeInvalidPhone | RespCodeInvalidMsgCode
  | RespCodeInvalidSecureCode | RespCodeFailed

record 'a ResponseDto =
  rd_Code :: RespCode
  rd_Msg :: string
  rd_Data :: "'a option"

definition NewResponseDtoNoData :: "RespCode \<Rightarrow> string \<Rightarrow> 'a ResponseDto" where
  "NewResponseDtoNoData code msg = \<lparr>rd_Code = code, rd_Msg = msg, rd_Data = None\<rparr>"

definition NewResponseInvalidArgs :: "string \<Rightarrow> 'a ResponseDto" where
  "NewResponseInvalidArgs msg = \<lparr>rd_Code = RespCodeInvalidArgs, rd_Msg = msg, rd_Data = None\<rparr>"

section \<open>WeChat\<close>

record wxAuthResp =
  wx_AccessToken :: string
  wx_ExpiresIn :: int
  wx_RefreshToken :: string
  wx_OpenId :: string
  wx_Scope :: string
  wx_IsSnapshotUser :: int
  wx_Unionid :: string

definition wx_link :: "string \<Rightarrow> string \<Rightarrow> string \<Rightarrow> string" where
  "wx_link code appId appSecret =
     ''https://api.weixin.qq.com/sns/oauth2/access_token?appid='' @ appId @ ''&secret='' @ appSecret @ ''&code='' @ code
       @ ''&grant_type=authorization_code''"

text \<open>\<open>request_error\<close> and \<open>fetch\<close> are the making and the sending of the request of a link; a field that the answer lacks
  keeps its zero value.\<close>

definition GetWxOpenId ::
    "(string \<Rightarrow> string option) \<Rightarrow> (string \<Rightarrow> string + http_response) \<Rightarrow> (string \<Rightarrow> wxAuthResp option)
       \<Rightarrow> string \<Rightarrow> string \<Rightarrow> string \<Rightarrow> string + string" where
  "GetWxOpenId request_error fetch json code appId appSecret =
     (let link = wx_link code appId appSecret in
      case HttpGetJson json (request_error link) (fetch link) of
        Inl err \<Rightarrow> Inl err
      | Inr resp \<Rightarrow> Inr (wx_OpenId resp))"

section \<open>Lemmas\<close>

text \<open>A number of seconds or minutes keeps its value up to the range of a duration.\<close>

lemma sint_scaled:
  fixes x k :: int64
  assumes "0 \<le> sint x" "0 \<le> sint k" "sint x * sint k < 2 ^ 63"
  shows "sint (x * k) = sint x * sint k"
proof -
  have "x * k = word_of_int (sint x * sint k)" by simp
  moreover have "sint (word_of_int (sint x * sint k) :: int64) = sint x * sint k"
  proof (rule sint_word_of_int_64)
    have "0 \<le> sint x * sint k" using assms(1,2) by (rule mult_nonneg_nonneg)
    moreover have "- (2 ^ 63) \<le> (0 :: int)" by simp
    ultimately show "- (2 ^ 63) \<le> sint x * sint k" by (rule order_trans [rotated])
  qed (use assms(3) in simp)
  ultimately show ?thesis by simp
qed

lemma sint_units: "sint ChatSecond = 1000000000" "sint Minute = 60000000000"
  by (simp_all add: ChatSecond_def Minute_def)

text \<open>The configuration's times to live are what the locker gets while they fit into a duration, that is for 292 years.\<close>

theorem config_durations:
  assumes "0 \<le> sint (lc_Ttl c)" "sint (lc_Ttl c) \<le> 9223372036" "0 \<le> sint (lc_Backoff c)" "sint (lc_Backoff c) \<le> 9223372036"
    and "0 \<le> sint (co_MaxAge cors)" "sint (co_MaxAge cors) \<le> 153722867"
  shows "defaultTtl (fold (\<lambda>opt. opt) (config_locker_options c) l) = sint (lc_Ttl c) * 1000000000
    \<and> (\<exists>r. defaultRetryStrategy (fold (\<lambda>opt. opt) (config_locker_options c) l) = Some r \<and> (\<forall>n. r n = sint (lc_Backoff c) * 1000000000))
    \<and> sint (co_MaxAge (CorsMiddleware cors)) = sint (co_MaxAge cors) * 60000000000"
  using assms sint_scaled [of "lc_Ttl c" ChatSecond] sint_scaled [of "lc_Backoff c" ChatSecond] sint_scaled [of "co_MaxAge cors" Minute]
  by (simp add: config_locker_options_def WithDefaultTtl_def WithDefaultRetryStrategy_def LinearRetryStrategy_def
      CorsMiddleware_def sint_units)

text \<open>One minute more is a negative age.\<close>

lemma cors_age_wraps: "sint (co_MaxAge (CorsMiddleware (c\<lparr>co_MaxAge := 153722868\<rparr>))) < 0"
  by (simp add: CorsMiddleware_def Minute_def)

text \<open>The wildcard of the CORS configuration is a literal origin for the chat hub.\<close>

lemma wildcard_not_for_hub: "check_origin [''*''] origin \<longleftrightarrow> origin = ''*''"
  by (simp add: check_origin_def)

text \<open>An exchange that WeChat refuses, with an answer that has an error code and no open id, is an empty id and no error.\<close>

lemma wx_refusal_is_success:
  assumes "request_error (wx_link code appId appSecret) = None" "fetch (wx_link code appId appSecret) = Inr resp"
    and "rs_status resp = 200" "rs_body resp = (body, None)" "json body = Some wx" "wx_OpenId wx = []"
  shows "GetWxOpenId request_error fetch json code appId appSecret = Inr []"
  using assms by (simp add: GetWxOpenId_def HttpGetJson_def HttpGet_def decode_answer_def Let_def)

end
