(* ===== verification/Negotiate.thy ===== *)
theory Negotiate
  imports Server
begin

text \<open>
  Key agreement between a client and the server: \<open>NewNegotiateKeyPair\<close> and \<open>NegotiateShareKey\<close> of \<open>shared/crypto/encrypt.go\<close>,
  and how \<open>SaveClientKeys\<close> of \<open>shared/headers/headers.go\<close> uses them. X25519 is the two fields of a record. At the end
  \<open>Sign\<close> and \<open>VerifySign\<close> of \<open>shared/crypto/sign.go\<close>, which take the whole private key.
\<close>

section \<open>Key pairs and the shared key\<close>

record x25519_lib =
  X25519 :: "byte list \<Rightarrow> byte list \<Rightarrow> string + byte list"
  Basepoint :: "byte list"

text \<open>\<open>random\<close> is what \<open>SecureBytes(32)\<close> gives. The result is the public key, then the private one.\<close>

definition NewNegotiateKeyPair :: "x25519_lib \<Rightarrow> string + byte list \<Rightarrow> string + byte list \<times> byte list" where
  "NewNegotiateKeyPair X random =
     (case random of
        Inl err \<Rightarrow> Inl err
      | Inr private \<Rightarrow>
          (case X25519 X private (Basepoint X) of
             Inl err \<Rightarrow> Inl err
           | Inr public \<Rightarrow> Inr (public, private)))"

definition NegotiateShareKey :: "x25519_lib \<Rightarrow> crypto_lib \<Rightarrow> byte list \<Rightarrow> string \<Rightarrow> string + byte list" where
  "NegotiateShareKey X L remotePubKey selfPriKeyBase64 =
     (case cl_decode L selfPriKeyBase64 of
        None \<Rightarrow> Inl ''illegal base64 data''
      | Some selfPriKey \<Rightarrow> X25519 X selfPriKey remotePubKey)"

text \<open>The call in \<open>SaveClientKeys\<close>, with the private key of the configured box key pair; only whether it failed matters.\<close>

definition session_negotiate :: "x25519_lib \<Rightarrow> crypto_lib \<Rightarrow> string \<Rightarrow> byte list \<Rightarrow> byte list option" where
  "session_negotiate X L privateKey boxPubKey =
     (case NegotiateShareKey X L boxPubKey privateKey of Inl err \<Rightarrow> None | Inr shareKey \<Rightarrow> Some shareKey)"

text \<open>RFC 7748: keys are 32 bytes, and two parties that multiply the other's public key by their own scalar get the same key.\<close>

definition dh_laws :: "x25519_lib \<Rightarrow> bool" where
  "dh_laws X \<longleftrightarrow>
     (\<forall>a p k. X25519 X a p = Inr k \<longrightarrow> length k = 32) \<and>
     (\<forall>a b A B. X25519 X a (Basepoint X) = Inr A \<and> X25519 X b (Basepoint X) = Inr B \<longrightarrow>
        (\<exists>k. X25519 X a B = Inr k \<and> X25519 X b A = Inr k))"

section \<open>Lemmas\<close>

lemma key_pair_eq:
  "NewNegotiateKeyPair X random = Inr (pub, pri) \<longleftrightarrow> random = Inr pri \<and> X25519 X pri (Basepoint X) = Inr pub"
  by (auto simp: NewNegotiateKeyPair_def split: sum.splits)

lemma share_key_encoded:
  "crypto_laws L \<Longrightarrow> NegotiateShareKey X L remote (cl_encode L pri) = X25519 X pri remote"
  by (simp add: NegotiateShareKey_def crypto_laws_def)

text \<open>Both sides of two generated pairs.\<close>

lemma same_key:
  assumes "crypto_laws L" "dh_laws X" "NewNegotiateKeyPair X r1 = Inr (pub1, pri1)" "NewNegotiateKeyPair X r2 = Inr (pub2, pri2)"
  shows "\<exists>k. NegotiateShareKey X L pub2 (cl_encode L pri1) = Inr k \<and> NegotiateShareKey X L pub1 (cl_encode L pri2) = Inr k
    \<and> aes_key k \<and> length pub1 = 32 \<and> length pub2 = 32"
proof -
  from assms(3,4) have p: "X25519 X pri1 (Basepoint X) = Inr pub1" "X25519 X pri2 (Basepoint X) = Inr pub2"
    by (simp_all add: key_pair_eq)
  with assms(2) obtain k where "X25519 X pri1 pub2 = Inr k" "X25519 X pri2 pub1 = Inr k" unfolding dh_laws_def by blast
  moreover from p this assms(2) have "length k = 32" "length pub1 = 32" "length pub2 = 32" unfolding dh_laws_def by blast+
  ultimately show ?thesis by (auto simp: share_key_encoded [OF assms(1)] aes_key_def)
qed

lemma session_bytes:
  assumes "length head = 24" "length signPub = 32" "length boxPub = 32"
  shows "length (head @ signPub @ boxPub) = 88" "take 32 (drop 24 (head @ signPub @ boxPub)) = signPub"
    "drop 56 (head @ signPub @ boxPub) = boxPub"
  using assms by simp_all

lemma encrypt_decrypt:
  assumes "crypto_laws L" "aes_key k" "length n = 12"
  shows "\<exists>body. Encrypt L (Some n) k data = Inr body \<and> Decrypt L k body = Ret (Inr data)"
  using encrypt_open [OF assms(2)] decrypt_encrypt [OF assms(1,3,2)] by blast

section \<open>Properties\<close>

text \<open>C26. Two generated pairs, one in the server's configuration and one at a client that sends its public keys masked in its
  session id: the server saves the key that the client computes, and a text encrypted by either under it is what the other
  decrypts. The negotiation of such a client never fails.\<close>

theorem session_agreement:
  assumes "crypto_laws L" "dh_laws X"
    and "NewNegotiateKeyPair X random1 = Inr (clientPub, clientPri)" "NewNegotiateKeyPair X random2 = Inr (serverPub, serverPri)"
    and "length head = 24" "length signPub = 32"
    and "GetSessionId r \<noteq> []" "b64 (GetSessionId r) = Some (unmask (head @ signPub @ clientPub))"
  shows "\<exists>share. NegotiateShareKey X L serverPub (cl_encode L clientPri) = Inr share
    \<and> SaveClientKeys b64 True (session_negotiate X L (cl_encode L serverPri)) r c
        = c\<lparr>cx_keys := Some \<lparr>ck_SignPubKey = signPub, ck_BoxPubKey = clientPub, ck_ShareKey = Some share\<rparr>\<rparr>
    \<and> (\<forall>n data. length n = 12 \<longrightarrow> (\<exists>body. Encrypt L (Some n) share data = Inr body \<and> Decrypt L share body = Ret (Inr data)))"
proof -
  obtain k where k: "NegotiateShareKey X L serverPub (cl_encode L clientPri) = Inr k"
    "NegotiateShareKey X L clientPub (cl_encode L serverPri) = Inr k" "aes_key k" "length clientPub = 32"
    using same_key [OF assms(1-4)] by blast
  note raw = session_bytes [OF assms(5,6) k(4)]
  have "SaveClientKeys b64 True (session_negotiate X L (cl_encode L serverPri)) r c
      = c\<lparr>cx_keys := Some \<lparr>ck_SignPubKey = signPub, ck_BoxPubKey = clientPub, ck_ShareKey = Some k\<rparr>\<rparr>"
    using client_keys_recovered [where ?b64.0 = b64 and enable = True and negotiate = "session_negotiate X L (cl_encode L serverPri)"
        and c = c, OF raw(1) assms(7,8)] raw k(2) by (simp add: session_negotiate_def)
  then show ?thesis using k(1) encrypt_decrypt [OF assms(1) k(3)] by blast
qed

text \<open>What such a client sends is a request of \<open>client_request\<close>: with the body it encrypts under its own copy of the key
  and a signature that verifies.\<close>

lemma negotiated_client:
  assumes "crypto_laws (sv_crypto S)" "dh_laws X"
    and "NewNegotiateKeyPair X random1 = Inr (clientPub, clientPri)" "NewNegotiateKeyPair X random2 = Inr (serverPub, serverPri)"
    and "sv_negotiate S = session_negotiate X (sv_crypto S) (cl_encode (sv_crypto S) serverPri)"
    and "length head = 24" "length signPub = 32" "sv_b64 S (GetSessionId r) = Some (unmask (head @ signPub @ clientPub))"
    and "NegotiateShareKey X (sv_crypto S) serverPub (cl_encode (sv_crypto S) clientPri) = Inr share"
    and "rq_method r \<noteq> ''GET''" "0 < rq_content_length r" "HasPrefix (rq_header r ''Content-Type'') ContentTypeEncrypted"
    and "length n = 12" "Encrypt (sv_crypto S) (Some n) share data = Inr (rq_body r)"
    and "GetTrimmedHeader r ''X-Signature'' = cl_encode (sv_crypto S) sig"
    and "cl_verify (sv_crypto S) signPub (StringfyMap (data_to_verify (extend_of r) r)) sig"
  shows "client_request S r (head @ signPub @ clientPub) share n data"
proof -
  obtain k where k: "NegotiateShareKey X (sv_crypto S) serverPub (cl_encode (sv_crypto S) clientPri) = Inr k"
    "NegotiateShareKey X (sv_crypto S) clientPub (cl_encode (sv_crypto S) serverPri) = Inr k" "aes_key k" "length clientPub = 32"
    using same_key [OF assms(1-4)] by blast
  note raw = session_bytes [OF assms(6,7) k(4)]
  have "k = share" using k(1) assms(9) by simp
  then show ?thesis
    unfolding client_request_def raw assms(5) using assms(8-16) k(2,3) by (auto simp: session_negotiate_def)
qed

section \<open>Signing bytes\<close>

definition Sign_bytes :: "crypto_lib \<Rightarrow> string \<Rightarrow> string \<Rightarrow> (string + string) outcome" where
  "Sign_bytes L priKey data =
     (case cl_decode L priKey of
        None \<Rightarrow> Ret (Inl ''illegal base64 data'')
      | Some pri \<Rightarrow>
          if length pri \<noteq> 64 then Panic ''ed25519: bad private key length''
          else Ret (Inr (cl_encode L (cl_sign L pri data))))"

definition VerifySign :: "crypto_lib \<Rightarrow> string \<Rightarrow> string \<Rightarrow> string \<Rightarrow> (string + bool) outcome" where
  "VerifySign L pubKey data signature =
     (case cl_decode L pubKey of
        None \<Rightarrow> Ret (Inl ''illegal base64 data'')
      | Some pub \<Rightarrow>
          (case cl_decode L signature of
             None \<Rightarrow> Ret (Inl ''illegal base64 data'')
           | Some sig \<Rightarrow>
               if length pub \<noteq> 32 then Panic ''ed25519: bad public key length'' else Ret (Inr (cl_verify L pub data sig))))"

text \<open>With a pair of \<open>NewSignKeyPair\<close>, of 32 and 64 bytes, these two agree; \<open>SignMap\<close> panics on the same pair
  (\<open>generated_pair_panics\<close>).\<close>

lemma sign_verify:
  assumes "crypto_laws L" "NewSignKeyPair L (pub, pri) = (pubKey, priKey)" "length pub = 32" "length pri = 64"
    and "cl_verify L pub data (cl_sign L pri data)"
  shows "\<exists>sig. Sign_bytes L priKey data = Ret (Inr sig) \<and> VerifySign L pubKey data sig = Ret (Inr True)"
  using assms by (auto simp: Sign_bytes_def VerifySign_def NewSignKeyPair_def crypto_laws_def)

section \<open>Witnesses\<close>

text \<open>A commutative group on 32 bytes in place of the curve.\<close>

definition xor_dh :: x25519_lib where
  "xor_dh = \<lparr>X25519 = (\<lambda>a p. if length a = 32 \<and> length p = 32 then Inr (map2 (XOR) a p) else Inl ''bad input length''),
     Basepoint = replicate 32 9\<rparr>"

lemma xor_dh_laws: "dh_laws xor_dh"
proof -
  have c: "map2 (XOR) a (map2 (XOR) b p) = map2 (XOR) b (map2 (XOR) a p)"
    if "length a = length p" "length b = length p" for a b p :: "byte list"
    using that by (intro nth_equalityI) (auto simp: xor.left_commute)
  show ?thesis
    unfolding dh_laws_def xor_dh_def using c [of _ "replicate 32 9"] by (auto split: if_splits)
qed

lemma session_agreement_witness:
  "\<exists>share. cx_keys (SaveClientKeys (\<lambda>_. Some (unmask (replicate 24 0 @ replicate 32 1 @ replicate 32 11))) True
      (session_negotiate xor_dh (demo_crypt True) (cl_encode (demo_crypt True) (replicate 32 4))) v1_request new_context)
    = Some \<lparr>ck_SignPubKey = replicate 32 1, ck_BoxPubKey = replicate 32 11, ck_ShareKey = Some share\<rparr>"
proof -
  have p: "NewNegotiateKeyPair xor_dh (Inr (replicate 32 2)) = Inr (replicate 32 11, replicate 32 2)"
    "NewNegotiateKeyPair xor_dh (Inr (replicate 32 4)) = Inr (replicate 32 13, replicate 32 4)"
    by (simp_all add: NewNegotiateKeyPair_def xor_dh_def map2_map_map flip: map_replicate_const)
  define f where "f = (\<lambda>_::string. Some (unmask (replicate 24 0 @ replicate 32 1 @ replicate 32 (11::byte))))"
  have s: "GetSessionId v1_request \<noteq> []" by (simp add: v1_request_eval)
  have b: "f (GetSessionId v1_request) = Some (unmask (replicate 24 0 @ replicate 32 1 @ replicate 32 11))" by (simp add: f_def)
  show ?thesis
    using session_agreement [where L = "demo_crypt True" and c = new_context and ?b64.0 = f and head = "replicate 24 0" and signPub = "replicate 32 1", OF demo_crypt_laws xor_dh_laws p _ _ s b]
    by (auto simp: f_def)
qed

end
