(* ===== verification/Startup.thy ===== *)
theory Startup
  imports SnowID GoStrings
begin

text \<open>
  Starting and stopping: \<open>cmd/app/main.go\<close> with \<open>internal/app/global/global.go\<close>, the database handle of \<open>pkg/db/bun.go\<close>, and
  the connection checks of \<open>pkg/db/gorm.go\<close>. What the libraries answer when a resource is opened is an argument.
\<close>

section \<open>Ends of a call\<close>

text \<open>A call that has an effect on the program's variables returns, panics, or ends the process (\<open>log.Fatal\<close>).\<close>

datatype 's ended = Returned 's | Panicked string 's | Exited

fun and_then :: "'s ended \<Rightarrow> ('s \<Rightarrow> 's ended) \<Rightarrow> 's ended" where
  "and_then (Returned s) f = f s"
| "and_then (Panicked m s) f = Panicked m s"
| "and_then Exited f = Exited"

text \<open>\<open>defer f\<close>: it runs when the call returns or panics.\<close>

fun deferred :: "('s \<Rightarrow> 's) \<Rightarrow> 's ended \<Rightarrow> 's ended" where
  "deferred f (Returned s) = Returned (f s)"
| "deferred f (Panicked m s) = Panicked m (f s)"
| "deferred f Exited = Exited"

datatype handle = NoHandle | Open | Closed

section \<open>The database handle\<close>

text \<open>\<open>OpenDB\<close> pings the master and then every replica; the first failure ends the process.\<close>

fun OpenDB :: "string option list \<Rightarrow> bool" where
  "OpenDB [] = True"
| "OpenDB (ping # pings) = (if ping \<noteq> None then False else OpenDB pings)"

text \<open>\<open>MustOpenDB\<close> closes what is open first: the handle afterwards, and how many it closed.\<close>

definition MustOpenDB :: "string option list \<Rightarrow> handle \<times> nat \<Rightarrow> (handle \<times> nat) ended" where
  "MustOpenDB pings db =
     (let db = (if fst db \<noteq> NoHandle then (NoHandle, Suc (snd db)) else db)
      in if OpenDB pings then Returned (Open, snd db) else Exited)"

section \<open>Global variables\<close>

record app_state =
  g_inited :: bool
  g_released :: bool
  g_config :: bool
  g_pool :: handle
  g_cach :: handle
  g_locker :: handle
  g_queue :: handle
  g_bunDB :: handle
  g_logging :: bool

definition app_start :: app_state where
  "app_start = \<lparr>g_inited = False, g_released = False, g_config = False, g_pool = NoHandle, g_cach = NoHandle, g_locker = NoHandle,
     g_queue = NoHandle, g_bunDB = NoHandle, g_logging = False\<rparr>"

text \<open>What \<open>Init\<close> meets: whether the configuration was read and decoded, the pings of the databases, and the errors of the
  other resources.\<close>

record init_env =
  ie_config :: bool
  ie_pings :: "string option list"
  ie_pool :: "string option"
  ie_cache :: "string option"
  ie_locker :: "string option"
  ie_queue :: "string option"

text \<open>\<open>loadConfig\<close> ends the process on every error.\<close>

definition loadConfig :: "init_env \<Rightarrow> app_state \<Rightarrow> app_state ended" where
  "loadConfig e s = (if ie_config e then Returned (s\<lparr>g_config := True\<rparr>) else Exited)"

definition make_handle :: "string option \<Rightarrow> (handle \<Rightarrow> app_state \<Rightarrow> app_state) \<Rightarrow> app_state \<Rightarrow> app_state ended" where
  "make_handle err upd s = (case err of Some m \<Rightarrow> Panicked m (upd NoHandle s) | None \<Rightarrow> Returned (upd Open s))"

definition open_db :: "init_env \<Rightarrow> app_state \<Rightarrow> app_state ended" where
  "open_db e s =
     (case MustOpenDB (ie_pings e) (g_bunDB s, 0) of
        Returned (h, _) \<Rightarrow> Returned (s\<lparr>g_bunDB := h\<rparr>)
      | Panicked m (h, _) \<Rightarrow> Panicked m (s\<lparr>g_bunDB := h\<rparr>)
      | Exited \<Rightarrow> Exited)"

definition Global_Init :: "init_env \<Rightarrow> app_state \<Rightarrow> app_state ended" where
  "Global_Init e s =
     (if g_inited s then Returned s
      else deferred (\<lambda>s. s\<lparr>g_inited := True\<rparr>)
        (and_then (loadConfig e s) (\<lambda>s.
         and_then (make_handle (ie_pool e) (\<lambda>h s. s\<lparr>g_pool := h\<rparr>) s) (\<lambda>s.
         and_then (open_db e s) (\<lambda>s.
         and_then (make_handle (ie_cache e) (\<lambda>h s. s\<lparr>g_cach := h\<rparr>) s) (\<lambda>s.
         and_then (make_handle (ie_locker e) (\<lambda>h s. s\<lparr>g_locker := h\<rparr>) s) (\<lambda>s.
         and_then (make_handle (ie_queue e) (\<lambda>h s. s\<lparr>g_queue := h\<rparr>) s) (\<lambda>s.
         Returned (s\<lparr>g_logging := True\<rparr>)))))))))"

text \<open>Closing through a nil pointer or interface panics.\<close>

definition close_handle :: "(app_state \<Rightarrow> handle) \<Rightarrow> (handle \<Rightarrow> app_state \<Rightarrow> app_state) \<Rightarrow> app_state \<Rightarrow> app_state ended" where
  "close_handle get upd s = (if get s = NoHandle then Panicked ''nil pointer dereference'' s else Returned (upd Closed s))"

definition Global_Release :: "app_state \<Rightarrow> app_state ended" where
  "Global_Release s =
     (if g_released s then Returned s
      else deferred (\<lambda>s. s\<lparr>g_released := True\<rparr>)
        (and_then (close_handle g_bunDB (\<lambda>h s. s\<lparr>g_bunDB := h\<rparr>) s) (\<lambda>s.
         and_then (close_handle g_pool (\<lambda>h s. s\<lparr>g_pool := h\<rparr>) s) (\<lambda>s.
         and_then (close_handle g_cach (\<lambda>h s. s\<lparr>g_cach := h\<rparr>) s) (\<lambda>s.
         and_then (close_handle g_locker (\<lambda>h s. s\<lparr>g_locker := h\<rparr>) s) (\<lambda>s.
         close_handle g_queue (\<lambda>h s. s\<lparr>g_queue := h\<rparr>) s))))))"

text \<open>\<open>env\<close> is the value of the variable, empty when it is not set.\<close>

definition IDSetNodeIDFromEnv :: "string \<Rightarrow> snow_state \<Rightarrow> snow_state option" where
  "IDSetNodeIDFromEnv env sn =
     (let idstr = TrimSpace env in
      if length idstr = 0 then None
      else case Atoi idstr of None \<Rightarrow> None | Some v \<Rightarrow> IDSetNodeID (word_of_int v) sn)"

fun map_ended :: "('a \<Rightarrow> 'b) \<Rightarrow> 'a ended \<Rightarrow> 'b ended" where
  "map_ended f (Returned s) = Returned (f s)"
| "map_ended f (Panicked m s) = Panicked m (f s)"
| "map_ended f Exited = Exited"

text \<open>The end of \<open>main\<close>: \<open>run\<close> is the error of the server, with whether it is \<open>ErrServerClosed\<close>. \<open>log.Fatal\<close> ends the
  process without the deferred \<open>Release\<close>.\<close>

definition main_end :: "(string \<times> bool) option \<Rightarrow> app_state \<Rightarrow> app_state ended" where
  "main_end run s =
     (case run of
        Some (_, closed) \<Rightarrow> if \<not> closed then Exited else Global_Release s
      | None \<Rightarrow> Global_Release s)"

text \<open>\<open>main\<close>: \<open>Release\<close> is deferred only after \<open>Init\<close> has returned.\<close>

definition main_run :: "string \<Rightarrow> init_env \<Rightarrow> (string \<times> bool) option \<Rightarrow> snow_state \<times> app_state \<Rightarrow> (snow_state \<times> app_state) ended" where
  "main_run node_id e run st =
     (case IDSetNodeIDFromEnv node_id (fst st) of
        None \<Rightarrow> Panicked ''node id'' st
      | Some sn \<Rightarrow> map_ended (Pair sn) (and_then (Global_Init e (snd st)) (main_end run)))"

section \<open>Connection checks\<close>

text \<open>A dialector of gorm, and the wrapper that starts a check of its own whenever it is initialised. The result of
  \<open>Initialize\<close> is its error and the number of checks running; \<open>err\<close> is the error of the innermost dialector.\<close>

datatype dialector = Plain | AutoReconnect dialector

fun Initialize :: "dialector \<Rightarrow> string option \<Rightarrow> nat \<Rightarrow> string option \<times> nat" where
  "Initialize Plain err n = (err, n)"
| "Initialize (AutoReconnect d) err n =
     (case Initialize d err n of
        (Some e, n) \<Rightarrow> (Some e, n)
      | (None, n) \<Rightarrow> (None, Suc n))"

definition getAutoReconnectDialector :: "string \<Rightarrow> dialector option" where
  "getAutoReconnectDialector driver =
     (if driver = ''postgres'' \<or> driver = ''mysql'' then Some (AutoReconnect Plain) else None)"

text \<open>The dialector \<open>InitReplicasGormDB\<close> makes for a replica: the wrapper is wrapped again.\<close>

definition replica_dialector :: "string \<Rightarrow> dialector option" where
  "replica_dialector driver = map_option AutoReconnect (getAutoReconnectDialector driver)"

text \<open>One tick of one check: the error of \<open>db.DB()\<close>, of the ping, and of the innermost \<open>Initialize\<close>.\<close>

record tick =
  tk_db :: "string option"
  tk_ping :: "string option"
  tk_init :: "string option"

definition check_tick :: "dialector \<Rightarrow> tick \<Rightarrow> nat \<Rightarrow> nat" where
  "check_tick d t n =
     (if tk_db t \<noteq> None then snd (Initialize d (tk_init t) n)
      else if tk_ping t \<noteq> None then snd (Initialize d (tk_init t) n)
      else n)"

text \<open>One interval: every running check ticks once; \<open>obs j\<close> is what check \<open>j\<close> meets. Then several intervals.\<close>

definition check_round :: "dialector \<Rightarrow> (nat \<Rightarrow> tick) \<Rightarrow> nat \<Rightarrow> nat" where
  "check_round d obs n = fold (\<lambda>j. check_tick d (obs j)) [0..<n] n"

definition check_rounds :: "dialector \<Rightarrow> (nat \<Rightarrow> nat \<Rightarrow> tick) \<Rightarrow> nat \<Rightarrow> nat \<Rightarrow> nat" where
  "check_rounds d obs k n = fold (\<lambda>i. check_round d (obs i)) [0..<k] n"

fun wrappers :: "dialector \<Rightarrow> nat" where
  "wrappers Plain = 0"
| "wrappers (AutoReconnect d) = Suc (wrappers d)"

lemma Initialize_ok: "Initialize d None n = (None, n + wrappers d)"
  by (induction d arbitrary: n) simp_all

lemma check_round_down:
  assumes "\<forall>j. (tk_db (obs j) \<noteq> None \<or> tk_ping (obs j) \<noteq> None) \<and> tk_init (obs j) = None"
  shows "check_round d obs n = n * Suc (wrappers d)"
proof -
  have t: "check_tick d (obs j) m = m + wrappers d" for j m
    using assms [rule_format, of j] by (auto simp: check_tick_def Initialize_ok)
  have "fold (\<lambda>j. check_tick d (obs j)) js m = m + length js * wrappers d" for js m
    by (induction js arbitrary: m) (simp_all add: t)
  then show ?thesis by (simp add: check_round_def)
qed

lemma check_round_up: "\<forall>j. tk_db (obs j) = None \<and> tk_ping (obs j) = None \<Longrightarrow> check_round d obs n = n"
proof -
  assume a: "\<forall>j. tk_db (obs j) = None \<and> tk_ping (obs j) = None"
  have "fold (\<lambda>j. check_tick d (obs j)) js m = m" for js m
    using a by (induction js arbitrary: m) (simp_all add: check_tick_def)
  then show ?thesis by (simp add: check_round_def)
qed

section \<open>Properties\<close>

lemmas start_defs = Global_Init_def loadConfig_def make_handle_def open_db_def MustOpenDB_def app_start_def

text \<open>The handles, and which of them are in one of some states.\<close>

definition handles :: "app_state \<Rightarrow> handle list" where
  "handles s = [g_pool s, g_bunDB s, g_cach s, g_locker s, g_queue s]"

lemma init_returns:
  assumes "Global_Init e app_start = Returned s"
  shows "s = \<lparr>g_inited = True, g_released = False, g_config = True, g_pool = Open, g_cach = Open, g_locker = Open,
     g_queue = Open, g_bunDB = Open, g_logging = True\<rparr>"
  using assms by (auto simp: start_defs split: option.splits if_splits)

lemma node_id_range:
  assumes "Atoi x = Some v" "IDSetNodeID (word_of_int v) sn = Some sn'"
  shows "0 \<le> v \<and> v < 127 \<and> snowNodeId sn' = word_of_int v"
proof -
  have "int64_range v" using assms(1) by (auto simp: Atoi_def Let_def split: prod.splits option.splits if_splits)
  then have v: "sint (word_of_int v :: int64) = v" by (simp add: int64_range_def sint_word_of_int_64)
  have "sint snowNodeIDMax = 127" by (simp add: snow_consts low_mask_eq mask_eq_exp_minus_1)
  then show ?thesis
    using assms(2) v by (auto simp: IDSetNodeID_def word_sless_alt word_sle_eq split: if_splits)
qed

lemma init_panic_state:
  assumes "Global_Init e app_start = Panicked m s"
  shows "s \<in> {app_start\<lparr>g_inited := True, g_config := True, g_pool := NoHandle, g_bunDB := NoHandle, g_cach := NoHandle, g_locker := NoHandle\<rparr>,
    app_start\<lparr>g_inited := True, g_config := True, g_pool := Open, g_bunDB := Open, g_cach := NoHandle, g_locker := NoHandle\<rparr>,
    app_start\<lparr>g_inited := True, g_config := True, g_pool := Open, g_bunDB := Open, g_cach := Open, g_locker := NoHandle\<rparr>,
    app_start\<lparr>g_inited := True, g_config := True, g_pool := Open, g_bunDB := Open, g_cach := Open, g_locker := Open\<rparr>}"
  using assms
  by (simp add: Global_Init_def loadConfig_def make_handle_def open_db_def MustOpenDB_def split: option.splits if_splits)
     (auto simp: app_start_def split: if_splits)

lemma init_panic:
  assumes "Global_Init e app_start = Panicked m s"
  shows "g_inited s \<and> \<not> g_released s \<and> \<not> g_logging s
    \<and> (handles s = [NoHandle, NoHandle, NoHandle, NoHandle, NoHandle] \<or> handles s = [Open, Open, NoHandle, NoHandle, NoHandle]
       \<or> handles s = [Open, Open, Open, NoHandle, NoHandle] \<or> handles s = [Open, Open, Open, Open, NoHandle])"
  using init_panic_state [OF assms] unfolding handles_def
  by (elim insertE emptyE) (simp_all only: app_state.simps, simp_all add: app_start_def)

lemma close_simps:
  "get s = NoHandle \<Longrightarrow> close_handle get upd s = Panicked ''nil pointer dereference'' s"
  "get s = Open \<Longrightarrow> close_handle get upd s = Returned (upd Closed s)"
  by (simp_all add: close_handle_def)

text \<open>\<open>Release\<close> by its first nil handle.\<close>

lemma release_panics:
  assumes "\<not> g_released s"
  shows "handles s = [NoHandle, NoHandle, NoHandle, NoHandle, NoHandle] \<Longrightarrow> Global_Release s = Panicked ''nil pointer dereference'' (s\<lparr>g_released := True\<rparr>)"
    and "handles s = [Open, Open, NoHandle, NoHandle, NoHandle] \<Longrightarrow> Global_Release s
      = Panicked ''nil pointer dereference'' (s\<lparr>g_released := True, g_bunDB := Closed, g_pool := Closed\<rparr>)"
    and "handles s = [Open, Open, Open, NoHandle, NoHandle] \<Longrightarrow> Global_Release s
      = Panicked ''nil pointer dereference'' (s\<lparr>g_released := True, g_bunDB := Closed, g_pool := Closed, g_cach := Closed\<rparr>)"
    and "handles s = [Open, Open, Open, Open, NoHandle] \<Longrightarrow> Global_Release s
      = Panicked ''nil pointer dereference'' (s\<lparr>g_released := True, g_bunDB := Closed, g_pool := Closed, g_cach := Closed, g_locker := Closed\<rparr>)"
  using assms by (simp_all add: Global_Release_def close_simps handles_def)

text \<open>One life: when \<open>Init\<close> returns, every resource is open and a second call changes nothing; \<open>Release\<close> then closes every
  one, a second call changes nothing, and \<open>Init\<close> never opens them again.\<close>

theorem global_one_life:
  assumes "Global_Init e app_start = Returned s"
  shows "set (handles s) = {Open} \<and> g_config s \<and> g_logging s \<and> Global_Init e' s = Returned s
    \<and> (\<exists>s'. Global_Release s = Returned s' \<and> set (handles s') = {Closed}
         \<and> Global_Release s' = Returned s' \<and> Global_Init e' s' = Returned s')"
proof -
  note s = init_returns [OF assms]
  show ?thesis by (simp add: s handles_def Global_Init_def Global_Release_def close_handle_def)
qed


text \<open>\<open>main\<close> returns only with the node id in range and everything closed; when \<open>Init\<close> panics \<open>Release\<close> is not run, so what was
  opened stays open, and when the server ends with another error than \<open>ErrServerClosed\<close> the process ends without it.\<close>

theorem main_ends:
  "case main_run node_id e run (sn, app_start) of
     Returned (sn', s) \<Rightarrow> (\<exists>v. Atoi (TrimSpace node_id) = Some v \<and> snowNodeId sn' = word_of_int v \<and> 0 \<le> v \<and> v < 127) \<and> set (handles s) = {Closed}
   | Panicked m (sn', s) \<Rightarrow> s = app_start \<or> (Global_Init e app_start = Panicked m s \<and> Closed \<notin> set (handles s))
   | Exited \<Rightarrow> Global_Init e app_start = Exited \<or> (\<exists>err. run = Some (err, False))"
proof (cases "IDSetNodeIDFromEnv node_id sn")
  case None
  then show ?thesis by (simp add: main_run_def)
next
  case (Some sn')
  then obtain v where v: "Atoi (TrimSpace node_id) = Some v" "IDSetNodeID (word_of_int v) sn = Some sn'"
    by (auto simp: IDSetNodeIDFromEnv_def Let_def split: if_splits option.splits)
  show ?thesis
  proof (cases "Global_Init e app_start")
    case (Returned s)
    have "Global_Release s = Returned (s\<lparr>g_released := True, g_bunDB := Closed, g_pool := Closed, g_cach := Closed,
        g_locker := Closed, g_queue := Closed\<rparr>)"
      by (simp add: init_returns [OF Returned] Global_Release_def close_simps)
    moreover have "0 \<le> v \<and> v < 127 \<and> snowNodeId sn' = word_of_int v"
      using v node_id_range by blast
    ultimately show ?thesis
      using Returned Some v(1) by (auto simp: main_run_def main_end_def handles_def split: option.splits)
  next
    case (Panicked m s)
    then show ?thesis using Some init_panic [OF Panicked] by (elim conjE disjE) (simp_all add: main_run_def)
  qed (simp add: main_run_def Some)
qed

text \<open>While a database does not answer and the dialector can still be initialised, every check starts new ones at every
  interval: after \<open>k\<close> intervals \<open>n\<close> checks have become \<open>n 2^k\<close>, for a replica \<open>n 3^k\<close>, and none of them ends when it answers again.\<close>

theorem checks_multiply:
  assumes "getAutoReconnectDialector driver = Some d" "replica_dialector driver = Some rd"
    and "\<forall>i<k. \<forall>j. (tk_db (obs i j) \<noteq> None \<or> tk_ping (obs i j) \<noteq> None) \<and> tk_init (obs i j) = None"
    and "\<forall>i\<ge>k. \<forall>j. tk_db (obs i j) = None \<and> tk_ping (obs i j) = None" "k \<le> m"
  shows "check_rounds d obs m n = n * 2 ^ k \<and> check_rounds rd obs m n = n * 3 ^ k"
proof -
  have "check_rounds x obs m n = n * Suc (wrappers x) ^ k" for x
  proof -
    have down: "i \<le> k \<Longrightarrow> fold (\<lambda>i. check_round x (obs i)) [0..<i] n = n * Suc (wrappers x) ^ i" for i
      using assms(3) by (induction i) (simp_all add: check_round_down algebra_simps)
    have "fold (\<lambda>i. check_round x (obs i)) [0..<k + j] n = n * Suc (wrappers x) ^ k" for j
      using assms(4) down [of k] by (induction j) (simp_all add: check_round_up)
    from this [of "m - k"] assms(5) show ?thesis by (simp add: check_rounds_def)
  qed
  moreover have "wrappers d = 1" "wrappers rd = 2"
    using assms(1,2) by (auto simp: getAutoReconnectDialector_def replica_dialector_def split: if_splits)
  ultimately show ?thesis by (simp add: numeral_2_eq_2 numeral_3_eq_3)
qed

section \<open>Witnesses\<close>

definition demo_init :: "string option \<Rightarrow> init_env" where
  "demo_init cache_err = \<lparr>ie_config = True, ie_pings = [None, None], ie_pool = None, ie_cache = cache_err, ie_locker = None, ie_queue = None\<rparr>"

lemma demo_init_ends:
  "\<exists>s. Global_Init (demo_init None) app_start = Returned s"
  "\<exists>s. Global_Init (demo_init (Some ''refused'')) app_start = Panicked ''refused'' s"
  by (simp_all add: start_defs demo_init_def)

lemma global_one_life_witness:
  "\<exists>s s'. Global_Init (demo_init None) app_start = Returned s \<and> Global_Release s = Returned s' \<and> set (handles s') = {Closed}"
proof -
  obtain s where "Global_Init (demo_init None) app_start = Returned s" using demo_init_ends(1) by blast
  with global_one_life [OF this] show ?thesis by blast
qed


definition demo_tick :: "bool \<Rightarrow> tick" where
  "demo_tick up = \<lparr>tk_db = None, tk_ping = (if up then None else Some ''refused''), tk_init = None\<rparr>"

lemma checks_multiply_witness:
  "check_rounds (AutoReconnect Plain) (\<lambda>i j. demo_tick (10 \<le> i)) 12 1 = 1024
   \<and> check_rounds (AutoReconnect (AutoReconnect Plain)) (\<lambda>i j. demo_tick (10 \<le> i)) 12 2 = 118098"
proof -
  have d: "getAutoReconnectDialector ''postgres'' = Some (AutoReconnect Plain)"
    "replica_dialector ''postgres'' = Some (AutoReconnect (AutoReconnect Plain))"
    by (simp_all add: getAutoReconnectDialector_def replica_dialector_def)
  have "check_rounds (AutoReconnect Plain) (\<lambda>i j. demo_tick (10 \<le> i)) 12 n = n * 2 ^ 10
    \<and> check_rounds (AutoReconnect (AutoReconnect Plain)) (\<lambda>i j. demo_tick (10 \<le> i)) 12 n = n * 3 ^ 10" for n
    by (rule checks_multiply [OF d]) (simp_all add: demo_tick_def)
  from this [of 1] this [of 2] show ?thesis by simp
qed

end
