(* ===== verification/BufferPool.thy ===== *)
theory BufferPool
  imports Sign
begin

text \<open>
  \<open>pkg/core/pool.go\<close> with what it uses of \<open>bytes.Buffer\<close> and \<open>sync.Pool\<close>, on an explicit memory: arrays, buffers that own
  one, slices that point into one. On it, the functions that let a slice outlive its buffer: \<open>StringfyMap\<close> of
  \<open>shared/crypto/sign.go\<close>, whose result is read after the buffer went back to the pool, and the read loop of
  \<open>pkg/hub/line.go\<close>.
\<close>

section \<open>Memory\<close>

text \<open>An array is its contents up to its capacity; a buffer is its array and how much of it is written.\<close>

record mem =
  m_array :: "nat \<Rightarrow> string"
  m_arrays :: nat
  m_buf :: "nat \<Rightarrow> nat \<times> nat"
  m_bufs :: nat
  m_pool :: "nat list"

type_synonym slice = "nat \<times> nat"

definition read_slice :: "mem \<Rightarrow> slice \<Rightarrow> string" where
  "read_slice m s = take (snd s) (m_array m (fst s))"

definition buf_Bytes :: "nat \<Rightarrow> mem \<Rightarrow> slice" where "buf_Bytes b m = m_buf m b"

text \<open>A write that fits goes into the array; otherwise the buffer moves to a new one, at least twice as large.\<close>

definition buf_Write :: "nat \<Rightarrow> string \<Rightarrow> mem \<Rightarrow> mem" where
  "buf_Write b s m =
     (let (a, n) = m_buf m b; arr = m_array m a in
      if n + length s \<le> length arr
      then m\<lparr>m_array := (m_array m)(a := take n arr @ s @ drop (n + length s) arr), m_buf := (m_buf m)(b := (a, n + length s))\<rparr>
      else
        (let a' = m_arrays m; cap' = max (n + length s) (2 * length arr) in
         m\<lparr>m_array := (m_array m)(a' := take n arr @ s @ replicate (cap' - (n + length s)) (CHR 0x00)), m_arrays := Suc a',
           m_buf := (m_buf m)(b := (a', n + length s))\<rparr>))"

definition buf_Truncate :: "nat \<Rightarrow> nat \<Rightarrow> mem \<Rightarrow> mem" where
  "buf_Truncate b n m = m\<lparr>m_buf := (m_buf m)(b := (fst (m_buf m b), n))\<rparr>"

definition buf_Reset :: "nat \<Rightarrow> mem \<Rightarrow> mem" where "buf_Reset b m = buf_Truncate b 0 m"

section \<open>The pool\<close>

text \<open>\<open>NewByteBufferPool(size, cap)\<close> is the pair; a new buffer holds \<open>size\<close> zero bytes. \<open>sync.Pool\<close> hands out any pooled buffer
  or a new one: \<open>choice\<close> is its decision.\<close>

definition pool_New :: "nat \<Rightarrow> nat \<Rightarrow> mem \<Rightarrow> (nat \<times> mem) outcome" where
  "pool_New sz cap m =
     (if cap < sz then Panic ''makeslice: cap out of range''
      else
        (let a = m_arrays m; b = m_bufs m in
         Ret (b, m\<lparr>m_array := (m_array m)(a := replicate cap (CHR 0x00)), m_arrays := Suc a, m_buf := (m_buf m)(b := (a, sz)),
                   m_bufs := Suc b\<rparr>)))"

definition ByteBufferPool_Get :: "nat \<times> nat \<Rightarrow> nat option \<Rightarrow> mem \<Rightarrow> (nat \<times> mem) outcome" where
  "ByteBufferPool_Get p choice m =
     (case choice of
        Some b \<Rightarrow> if b \<in> set (m_pool m) then Ret (b, m\<lparr>m_pool := remove1 b (m_pool m)\<rparr>) else pool_New (fst p) (snd p) m
      | None \<Rightarrow> pool_New (fst p) (snd p) m)"

definition ByteBufferPool_Put :: "nat \<Rightarrow> mem \<Rightarrow> mem" where
  "ByteBufferPool_Put b m = (let m = buf_Reset b m in m\<lparr>m_pool := b # m_pool m\<rparr>)"

section \<open>The functions that return a slice of a pooled buffer\<close>

definition map_entry :: "(string \<times> string) list \<Rightarrow> string \<Rightarrow> string" where
  "map_entry params k = k @ ''='' @ the (map_of params k) @ ''&''"

text \<open>\<open>StringfyMap\<close>: \<open>None\<close> is the nil slice. The deferred \<open>Put\<close> runs after \<open>buf.Bytes()\<close> was taken.\<close>

definition StringfyMap_mem :: "nat option \<Rightarrow> (string \<times> string) list \<Rightarrow> mem \<Rightarrow> (slice option \<times> mem) outcome" where
  "StringfyMap_mem choice params m =
     (if length params = 0 then Ret (None, m)
      else
        (let keys = sort (map fst params) in
         bind_outcome (ByteBufferPool_Get (0, 1024) choice m) (\<lambda>(b, m).
           let m = fold (\<lambda>k. buf_Write b (map_entry params k)) keys m;
               m = buf_Truncate b (snd (m_buf m b) - 1) m;
               res = buf_Bytes b m
           in Ret (Some res, ByteBufferPool_Put b m))))"

definition read_opt :: "mem \<Rightarrow> slice option \<Rightarrow> string" where
  "read_opt m s = (case s of None \<Rightarrow> [] | Some s \<Rightarrow> read_slice m s)"

text \<open>\<open>VerifySignMap\<close> in the two parts between which another goroutine can run: making the text, and checking it.\<close>

definition verify_start ::
    "crypto_lib \<Rightarrow> nat option \<Rightarrow> (string \<times> string) list \<Rightarrow> string \<Rightarrow> mem \<Rightarrow> (string + byte list \<times> slice option) outcome \<times> mem" where
  "verify_start L choice mp signature m =
     (case cl_decode L signature of
        None \<Rightarrow> (Ret (Inl ''illegal base64 data''), m)
      | Some sig \<Rightarrow>
          (case StringfyMap_mem choice mp m of
             Panic e \<Rightarrow> (Panic e, m)
           | Ret (data, m) \<Rightarrow> (Ret (Inr (sig, data)), m)))"

definition verify_finish :: "crypto_lib \<Rightarrow> byte list \<Rightarrow> (string + byte list \<times> slice option) outcome \<Rightarrow> mem \<Rightarrow> (string + bool) outcome" where
  "verify_finish L pubKey started m =
     bind_outcome started (\<lambda>r.
       case r of
         Inl err \<Rightarrow> Ret (Inl err)
       | Inr (sig, data) \<Rightarrow>
           if length pubKey \<noteq> 32 then Panic ''ed25519: bad public key length''
           else Ret (Inr (cl_verify L pubKey (read_opt m data) sig)))"

text \<open>The read loop of a line: a message is copied to a buffer and a slice of it is queued; the buffers go back when the loop
  returns, the last one first.\<close>

definition read_message :: "nat option \<Rightarrow> string \<Rightarrow> mem \<Rightarrow> (nat \<times> slice \<times> mem) outcome" where
  "read_message choice data m =
     bind_outcome (ByteBufferPool_Get (0, 2048) choice m) (\<lambda>(b, m).
       let m = buf_Write b data m in Ret (b, buf_Bytes b m, m))"

definition read_loop_return :: "nat list \<Rightarrow> mem \<Rightarrow> mem" where
  "read_loop_return bufs m = fold ByteBufferPool_Put (rev bufs) m"

section \<open>Well-formed memory\<close>

text \<open>No two buffers share an array, and pooled buffers are empty.\<close>

definition mem_ok :: "mem \<Rightarrow> bool" where
  "mem_ok m \<longleftrightarrow> distinct (m_pool m) \<and> (\<forall>b\<in>set (m_pool m). b < m_bufs m \<and> snd (m_buf m b) = 0)
     \<and> (\<forall>b<m_bufs m. fst (m_buf m b) < m_arrays m \<and> snd (m_buf m b) \<le> length (m_array m (fst (m_buf m b))))
     \<and> inj_on (\<lambda>b. fst (m_buf m b)) {b. b < m_bufs m}"

text \<open>A buffer that is in use, and what is written in it.\<close>

definition held :: "nat \<Rightarrow> mem \<Rightarrow> bool" where
  "held b m \<longleftrightarrow> b < m_bufs m \<and> b \<notin> set (m_pool m)"

abbreviation content :: "mem \<Rightarrow> nat \<Rightarrow> string" where
  "content m b \<equiv> read_slice m (buf_Bytes b m)"

lemma mem_okD:
  assumes "mem_ok m" "b < m_bufs m"
  shows "fst (m_buf m b) < m_arrays m" "snd (m_buf m b) \<le> length (m_array m (fst (m_buf m b)))"
    and "b' < m_bufs m \<Longrightarrow> fst (m_buf m b) = fst (m_buf m b') \<Longrightarrow> b = b'"
  using assms by (auto simp: mem_ok_def inj_on_def)

lemma get_ok:
  assumes "mem_ok m"
  shows "\<exists>b m'. ByteBufferPool_Get (0, cap) choice m = Ret (b, m') \<and> mem_ok m' \<and> held b m' \<and> snd (m_buf m' b) = 0
    \<and> (\<forall>a<m_arrays m. m_array m' a = m_array m a) \<and> (\<forall>c. held c m \<longrightarrow> held c m' \<and> c \<noteq> b \<and> m_buf m' c = m_buf m c)
    \<and> (\<forall>c. choice = Some c \<and> c \<in> set (m_pool m) \<longrightarrow> b = c \<and> m_buf m' b = m_buf m b)"
proof (cases "\<exists>c. choice = Some c \<and> c \<in> set (m_pool m)")
  case True
  then show ?thesis
    using assms by (auto simp: ByteBufferPool_Get_def mem_ok_def held_def)
next
  case False
  let ?m = "m\<lparr>m_array := (m_array m)(m_arrays m := replicate cap (CHR 0x00)), m_arrays := Suc (m_arrays m),
      m_buf := (m_buf m)(m_bufs m := (m_arrays m, 0)), m_bufs := Suc (m_bufs m)\<rparr>"
  have g: "ByteBufferPool_Get (0, cap) choice m = Ret (m_bufs m, ?m)"
    using False by (auto simp: ByteBufferPool_Get_def pool_New_def Let_def split: option.splits)
  have "mem_ok ?m"
    using assms unfolding mem_ok_def inj_on_def by (auto simp: less_Suc_eq)
  moreover have "m_bufs m \<notin> set (m_pool m)" using assms by (auto simp: mem_ok_def)
  ultimately show ?thesis
    using g False by (intro exI conjI) (assumption, auto simp: held_def)
qed

lemma write_ok:
  assumes "mem_ok m" "held b m"
  shows "mem_ok (buf_Write b s m)" "held b (buf_Write b s m)" "content (buf_Write b s m) b = content m b @ s"
    "snd (m_buf (buf_Write b s m) b) = snd (m_buf m b) + length s" "m_pool (buf_Write b s m) = m_pool m"
    "m_bufs (buf_Write b s m) = m_bufs m" "c \<noteq> b \<Longrightarrow> m_buf (buf_Write b s m) c = m_buf m c"
    "a < m_arrays m \<Longrightarrow> a \<noteq> fst (m_buf m b) \<Longrightarrow> m_array (buf_Write b s m) a = m_array m a"
    "m_arrays m \<le> m_arrays (buf_Write b s m)"
proof -
  have b: "b < m_bufs m" "b \<notin> set (m_pool m)" using assms(2) by (simp_all add: held_def)
  note D = mem_okD [OF assms(1) b(1)]
  show "mem_ok (buf_Write b s m)"
    using assms(1) b D unfolding mem_ok_def buf_Write_def Let_def inj_on_def
    by (auto split: prod.splits simp: less_Suc_eq)
  show "held b (buf_Write b s m)" "m_pool (buf_Write b s m) = m_pool m" "m_bufs (buf_Write b s m) = m_bufs m"
    "c \<noteq> b \<Longrightarrow> m_buf (buf_Write b s m) c = m_buf m c" "snd (m_buf (buf_Write b s m) b) = snd (m_buf m b) + length s"
    "a < m_arrays m \<Longrightarrow> a \<noteq> fst (m_buf m b) \<Longrightarrow> m_array (buf_Write b s m) a = m_array m a"
    "m_arrays m \<le> m_arrays (buf_Write b s m)"
    using assms(2) by (auto simp: buf_Write_def held_def Let_def split: prod.splits if_splits)
  show "content (buf_Write b s m) b = content m b @ s"
    using D(2) by (cases "m_buf m b") (auto simp: buf_Write_def Let_def read_slice_def buf_Bytes_def)
qed

text \<open>Several writes, as the loop makes them.\<close>

lemma writes_ok:
  assumes "mem_ok m" "held b m"
  shows "mem_ok (fold (buf_Write b) ss m) \<and> held b (fold (buf_Write b) ss m)
    \<and> content (fold (buf_Write b) ss m) b = content m b @ concat ss
    \<and> snd (m_buf (fold (buf_Write b) ss m) b) = snd (m_buf m b) + length (concat ss)
    \<and> m_pool (fold (buf_Write b) ss m) = m_pool m \<and> m_bufs (fold (buf_Write b) ss m) = m_bufs m
    \<and> (\<forall>c. c \<noteq> b \<longrightarrow> m_buf (fold (buf_Write b) ss m) c = m_buf m c)
    \<and> (\<forall>a<m_arrays m. a \<noteq> fst (m_buf m b) \<longrightarrow> m_array (fold (buf_Write b) ss m) a = m_array m a)
    \<and> m_arrays m \<le> m_arrays (fold (buf_Write b) ss m)"
  using assms
proof (induction ss arbitrary: m)
  case (Cons s ss)
  note W = write_ok [OF Cons.prems, where s = s]
  have "a \<noteq> fst (m_buf (buf_Write b s m) b)" if "a < m_arrays m" "a \<noteq> fst (m_buf m b)" for a
    using that by (auto simp: buf_Write_def Let_def split: prod.splits)
  with Cons.IH [OF W(1,2)] W(3-9) show ?case by auto
qed simp

lemma truncate_ok:
  assumes "mem_ok m" "held b m" "n \<le> snd (m_buf m b)"
  shows "mem_ok (buf_Truncate b n m)" "held b (buf_Truncate b n m)" "content (buf_Truncate b n m) b = take n (content m b)"
  using assms mem_okD [OF assms(1), of b]
  by (auto simp: mem_ok_def buf_Truncate_def held_def inj_on_def read_slice_def buf_Bytes_def min_def)

lemma put_ok:
  assumes "mem_ok m" "held b m"
  shows "mem_ok (ByteBufferPool_Put b m)" "m_pool (ByteBufferPool_Put b m) = b # m_pool m"
    "m_array (ByteBufferPool_Put b m) = m_array m" "fst (m_buf (ByteBufferPool_Put b m) b) = fst (m_buf m b)"
    "held c m \<Longrightarrow> c \<noteq> b \<Longrightarrow> held c (ByteBufferPool_Put b m)"
  using assms by (auto simp: mem_ok_def ByteBufferPool_Put_def buf_Reset_def buf_Truncate_def held_def inj_on_def Let_def)

text \<open>A slice is what it was as long as its array is not written.\<close>

lemma read_slice_frame: "m_array m' (fst s) = m_array m (fst s) \<Longrightarrow> read_slice m' s = read_slice m s"
  by (simp add: read_slice_def)

text \<open>The array of a buffer that was empty, after writes that fit: the text over what was there.\<close>

lemma writes_over:
  assumes "mem_ok m" "held b m" "snd (m_buf m b) + length (concat ss) \<le> length (m_array m (fst (m_buf m b)))"
  shows "m_array (fold (buf_Write b) ss m) (fst (m_buf m b))
    = take (snd (m_buf m b)) (m_array m (fst (m_buf m b))) @ concat ss
      @ drop (snd (m_buf m b) + length (concat ss)) (m_array m (fst (m_buf m b)))"
    "fst (m_buf (fold (buf_Write b) ss m) b) = fst (m_buf m b)"
proof -
  have "m_array (fold (buf_Write b) ss m) (fst (m_buf m b))
    = take (snd (m_buf m b)) (m_array m (fst (m_buf m b))) @ concat ss
      @ drop (snd (m_buf m b) + length (concat ss)) (m_array m (fst (m_buf m b)))
    \<and> fst (m_buf (fold (buf_Write b) ss m) b) = fst (m_buf m b)"
    using assms
  proof (induction ss arbitrary: m)
    case (Cons s ss)
    obtain a n where b: "m_buf m b = (a, n)" by (cases "m_buf m b")
    have f: "n + length s \<le> length (m_array m a)" using Cons.prems(3) b by simp
    have w: "m_buf (buf_Write b s m) b = (a, n + length s)"
      "m_array (buf_Write b s m) a = take n (m_array m a) @ s @ drop (n + length s) (m_array m a)"
      using f b by (simp_all add: buf_Write_def Let_def)
    have n: "n \<le> length (m_array m a)" using f by simp
    have "snd (m_buf (buf_Write b s m) b) + length (concat ss) \<le> length (m_array (buf_Write b s m) (fst (m_buf (buf_Write b s m) b)))"
      using Cons.prems(3) b f n by (simp add: w)
    from Cons.IH [OF write_ok(1,2) [OF Cons.prems(1,2)] this] w b f n show ?case
      by (simp add: ac_simps min_def)
  qed simp
  then show "m_array (fold (buf_Write b) ss m) (fst (m_buf m b))
    = take (snd (m_buf m b)) (m_array m (fst (m_buf m b))) @ concat ss
      @ drop (snd (m_buf m b) + length (concat ss)) (m_array m (fst (m_buf m b)))"
    "fst (m_buf (fold (buf_Write b) ss m) b) = fst (m_buf m b)" by blast+
qed

section \<open>The text of a map\<close>

lemma map_entries:
  assumes "params \<noteq> []"
  shows "concat (map (map_entry params) (sort (map fst params))) = StringfyMap params @ ''&''"
proof -
  have "keys \<noteq> [] \<Longrightarrow> concat (map (map_entry params) keys) \<noteq> [] \<and> last (concat (map (map_entry params) keys)) = CHR ''&''" for keys
    by (induction keys) (auto simp: map_entry_def)
  from this [of "sort (map fst params)"] assms
  have c: "concat (map (map_entry params) (sort (map fst params))) \<noteq> []"
    "last (concat (map (map_entry params) (sort (map fst params)))) = CHR ''&''"
    by (metis length_0_conv length_map length_sort)+
  have "StringfyMap params = butlast (concat (map (map_entry params) (sort (map fst params))))"
    using assms by (simp add: StringfyMap_def Let_def map_entry_def [abs_def] butlast_conv_take)
  with append_butlast_last_id [OF c(1)] c(2) show ?thesis by simp
qed

lemma StringfyMap_mem_run:
  assumes "mem_ok m" "params \<noteq> []"
  shows "\<exists>b m0 m1. ByteBufferPool_Get (0, 1024) choice m = Ret (b, m0) \<and> mem_ok m0 \<and> held b m0 \<and> snd (m_buf m0 b) = 0
    \<and> (\<forall>a<m_arrays m. m_array m0 a = m_array m a) \<and> (\<forall>c. held c m \<longrightarrow> held c m0 \<and> c \<noteq> b \<and> m_buf m0 c = m_buf m c)
    \<and> (\<forall>c. choice = Some c \<and> c \<in> set (m_pool m) \<longrightarrow> b = c \<and> m_buf m0 b = m_buf m b)
    \<and> m1 = fold (buf_Write b) (map (map_entry params) (sort (map fst params))) m0
    \<and> StringfyMap_mem choice params m = Ret (Some (fst (m_buf m1 b), length (StringfyMap params)),
        ByteBufferPool_Put b (buf_Truncate b (length (StringfyMap params)) m1))"
proof -
  obtain b m0 where g: "ByteBufferPool_Get (0, 1024) choice m = Ret (b, m0)" "mem_ok m0" "held b m0" "snd (m_buf m0 b) = 0"
    "\<forall>a<m_arrays m. m_array m0 a = m_array m a" "\<forall>c. held c m \<longrightarrow> held c m0 \<and> c \<noteq> b \<and> m_buf m0 c = m_buf m c"
    "\<forall>c. choice = Some c \<and> c \<in> set (m_pool m) \<longrightarrow> b = c \<and> m_buf m0 b = m_buf m b"
    using get_ok [OF assms(1), of 1024 choice] by blast
  define m1 where "m1 = fold (buf_Write b) (map (map_entry params) (sort (map fst params))) m0"
  have f: "fold (\<lambda>k. buf_Write b (map_entry params k)) ks x = fold (buf_Write b) (map (map_entry params) ks) x" for ks x
    by (simp add: fold_map comp_def)
  have "snd (m_buf m1 b) = Suc (length (StringfyMap params))"
    using writes_ok [OF g(2,3), of "map (map_entry params) (sort (map fst params))"] map_entries [OF assms(2)] g(4)
    unfolding m1_def by simp
  then have "StringfyMap_mem choice params m = Ret (Some (fst (m_buf m1 b), length (StringfyMap params)),
        ByteBufferPool_Put b (buf_Truncate b (length (StringfyMap params)) m1))"
    using assms(2) g(1) m1_def [symmetric] by (simp add: StringfyMap_mem_def Let_def f buf_Bytes_def buf_Truncate_def)
  then show ?thesis using g m1_def by (intro exI [of _ b] exI [of _ m0] exI [of _ m1] conjI) assumption+
qed

text \<open>Read at once, the result is the text; the memory stays well-formed and what others hold is not touched.\<close>

lemma StringfyMap_mem_ok:
  assumes "mem_ok m" "StringfyMap_mem choice params m = Ret (s, m')"
  shows "mem_ok m' \<and> read_opt m' s = StringfyMap params \<and> (\<forall>c. held c m \<longrightarrow> held c m' \<and> content m' c = content m c)
    \<and> (params \<noteq> [] \<longrightarrow> (\<exists>b a. s = Some (a, length (StringfyMap params)) \<and> b \<in> set (m_pool m') \<and> hd (m_pool m') = b \<and> m_buf m' b = (a, 0)
      \<and> length (StringfyMap params) < length (m_array m' a)))"
proof (cases "params = []")
  case True
  with assms show ?thesis by (simp add: StringfyMap_mem_def read_opt_def StringfyMap_def)
next
  case False
  obtain b m0 m1 where g: "mem_ok m0" "held b m0" "snd (m_buf m0 b) = 0" "\<forall>a<m_arrays m. m_array m0 a = m_array m a"
    "\<forall>c. held c m \<longrightarrow> held c m0 \<and> c \<noteq> b \<and> m_buf m0 c = m_buf m c"
    and m1: "m1 = fold (buf_Write b) (map (map_entry params) (sort (map fst params))) m0"
    and r: "StringfyMap_mem choice params m = Ret (Some (fst (m_buf m1 b), length (StringfyMap params)),
        ByteBufferPool_Put b (buf_Truncate b (length (StringfyMap params)) m1))"
    using StringfyMap_mem_run [OF assms(1) False, of choice] by blast
  let ?n = "length (StringfyMap params)"
  let ?m2 = "buf_Truncate b ?n m1"
  have s: "s = Some (fst (m_buf m1 b), ?n)" and m': "m' = ByteBufferPool_Put b ?m2" using assms(2) r by simp_all
  note W = writes_ok [OF g(1,2), of "map (map_entry params) (sort (map fst params))", folded m1]
  have c0: "content m0 b = []" using g(3) by (simp add: read_slice_def buf_Bytes_def)
  have w1: "mem_ok m1" "held b m1" "content m1 b = StringfyMap params @ ''&''" "snd (m_buf m1 b) = Suc ?n"
    using W map_entries [OF False] g(3) c0 by auto
  have T: "mem_ok ?m2" "held b ?m2" using truncate_ok [OF w1(1,2), of ?n] w1(4) by simp_all
  note P = put_ok [OF T]
  have arr: "m_array m' = m_array m1" using P(3) by (simp add: m' buf_Truncate_def)
  have "take (Suc ?n) (m_array m1 (fst (m_buf m1 b))) = StringfyMap params @ ''&''"
    using w1(3,4) by (simp add: read_slice_def buf_Bytes_def)
  then have "take ?n (m_array m1 (fst (m_buf m1 b))) = StringfyMap params"
    by (metis append_eq_conv_conj take_take min.absorb1 le_SucI order_refl)
  then have "read_opt m' s = StringfyMap params" by (simp add: s read_opt_def read_slice_def arr)
  moreover have "held c m' \<and> content m' c = content m c" if "held c m" for c
  proof -
    have c: "held c m0" "c \<noteq> b" "m_buf m0 c = m_buf m c" using g(5) that by auto
    have "c < m_bufs m" using that by (simp add: held_def)
    then have lt: "fst (m_buf m c) < m_arrays m" using mem_okD(1) [OF assms(1)] by blast
    have c0': "c < m_bufs m0" "b < m_bufs m0" using c(1) g(2) by (simp_all add: held_def)
    have "fst (m_buf m0 c) < m_arrays m0" using mem_okD(1) [OF g(1) c0'(1)] .
    moreover have "fst (m_buf m0 c) \<noteq> fst (m_buf m0 b)" using mem_okD(3) [OF g(1) c0'] c(2) by blast
    ultimately have "m_array m1 (fst (m_buf m0 c)) = m_array m0 (fst (m_buf m0 c))" using W by blast
    then have a: "m_array m' (fst (m_buf m c)) = m_array m (fst (m_buf m c))" using g(4) lt by (simp add: arr c(3))
    have "m_buf m1 c = m_buf m c" using W c(2,3) by simp
    then have "m_buf m' c = m_buf m c"
      using c(2) by (simp add: m' ByteBufferPool_Put_def buf_Reset_def buf_Truncate_def Let_def)
    moreover have "held c m1" using W c(1) by (simp add: held_def)
    then have "held c ?m2" by (simp add: held_def buf_Truncate_def)
    then have "held c m'" using P(5) c(2) by (simp add: m')
    ultimately show ?thesis using a by (simp add: read_slice_def buf_Bytes_def)
  qed
  moreover have "m_buf m' b = (fst (m_buf m1 b), 0)" by (simp add: m' ByteBufferPool_Put_def buf_Reset_def buf_Truncate_def Let_def)
  moreover have "?n < length (m_array m' (fst (m_buf m1 b)))"
    using mem_okD(2) [OF w1(1), of b] w1(2,4) by (simp add: arr held_def)
  ultimately show ?thesis using P(1,2) s by (simp add: m')
qed

lemma StringfyMap_mem_total: "mem_ok m \<Longrightarrow> \<exists>s m'. StringfyMap_mem choice params m = Ret (s, m')"
  using StringfyMap_mem_run [of m params choice] by (cases "params = []") (auto simp: StringfyMap_mem_def)

text \<open>With a pooled buffer that is large enough, the text is written over the array from its start.\<close>

lemma StringfyMap_mem_over:
  assumes "mem_ok m" "params \<noteq> []" "b \<in> set (m_pool m)" "m_buf m b = (a, 0)"
    and "Suc (length (StringfyMap params)) \<le> length (m_array m a)"
    and "StringfyMap_mem (Some b) params m = Ret (s, m')"
  shows "m_array m' a = (StringfyMap params @ ''&'') @ drop (Suc (length (StringfyMap params))) (m_array m a)"
proof -
  obtain c m0 m1 where g: "mem_ok m0" "held c m0" "snd (m_buf m0 c) = 0" "\<forall>a<m_arrays m. m_array m0 a = m_array m a"
    "\<forall>x. Some b = Some x \<and> x \<in> set (m_pool m) \<longrightarrow> c = x \<and> m_buf m0 c = m_buf m c"
    and m1: "m1 = fold (buf_Write c) (map (map_entry params) (sort (map fst params))) m0"
    and r: "StringfyMap_mem (Some b) params m = Ret (Some (fst (m_buf m1 c), length (StringfyMap params)),
        ByteBufferPool_Put c (buf_Truncate c (length (StringfyMap params)) m1))"
    using StringfyMap_mem_run [OF assms(1,2), of "Some b"] by blast
  have c: "c = b" "m_buf m0 b = (a, 0)" using g(5) assms(3,4) by auto
  have "b < m_bufs m" using assms(1,3) by (auto simp: mem_ok_def)
  then have "a < m_arrays m" using mem_okD(1) [OF assms(1)] assms(4) by fastforce
  then have a: "m_array m0 a = m_array m a" using g(4) by blast
  have "m_array m1 a = (StringfyMap params @ ''&'') @ drop (Suc (length (StringfyMap params))) (m_array m0 a)"
    using writes_over(1) [OF g(1,2), of "map (map_entry params) (sort (map fst params))"] assms(5) c a
    unfolding m1 c(1) map_entries [OF assms(2)] by simp
  moreover have "m_array m' = m_array m1"
    using assms(6) r by (auto simp: ByteBufferPool_Put_def buf_Reset_def buf_Truncate_def Let_def)
  ultimately show ?thesis by (simp add: a)
qed

section \<open>Properties\<close>

text \<open>C18. When nothing comes between making the text and checking it, \<open>VerifySignMap\<close> on pooled buffers is the function without
  them, whatever buffer the pool hands out; it keeps the memory well-formed and every buffer another call holds as it was.\<close>

theorem pooled_verify_alone:
  assumes "mem_ok m" "verify_start L choice mp signature m = (st, m')"
  shows "verify_finish L pubKey st m' = VerifySignMap L pubKey mp signature \<and> mem_ok m'
    \<and> (\<forall>c. held c m \<longrightarrow> held c m' \<and> content m' c = content m c)"
proof (cases "cl_decode L signature")
  case None
  with assms show ?thesis by (auto simp: verify_start_def verify_finish_def VerifySignMap_def)
next
  case (Some sig)
  obtain s m1 where r: "StringfyMap_mem choice mp m = Ret (s, m1)" using StringfyMap_mem_total [OF assms(1)] by blast
  with Some assms(2) have "st = Ret (Inr (sig, s))" "m' = m1" by (simp_all add: verify_start_def)
  with StringfyMap_mem_ok [OF assms(1) r] Some show ?thesis
    by (simp add: verify_finish_def VerifySignMap_def)
qed

text \<open>The race of two requests: when, between making the text of request A and checking it, request B makes its text in the
  buffer A just gave back, A's signature is checked against B's text (for texts of one length), so A passes with B's key
  and signature whatever its own data.\<close>

theorem verify_race:
  assumes "mem_ok m" "A \<noteq> []" "B \<noteq> []" "length (StringfyMap A) = length (StringfyMap B)"
    and "verify_start L choice A sigA m = (stA, m1)" "cl_decode L sigA = Some sa"
    and "verify_start L (Some (hd (m_pool m1))) B sigB m1 = (stB, m2)" "cl_decode L sigB = Some sb"
  shows "verify_finish L pubKey stA m1 = VerifySignMap L pubKey A sigA
    \<and> verify_finish L pubKey stA m2 = VerifySignMap L pubKey B sigA"
proof -
  obtain s x where r: "StringfyMap_mem choice A m = Ret (s, x)" using StringfyMap_mem_total [OF assms(1)] by blast
  with assms(5,6) have st: "stA = Ret (Inr (sa, s))" and A: "StringfyMap_mem choice A m = Ret (s, m1)" by (simp_all add: verify_start_def)
  note O = StringfyMap_mem_ok [OF assms(1) A]
  obtain b a where b: "s = Some (a, length (StringfyMap A))" "b \<in> set (m_pool m1)" "hd (m_pool m1) = b" "m_buf m1 b = (a, 0)"
    "length (StringfyMap A) < length (m_array m1 a)"
    using O assms(2) by blast
  obtain t y where "StringfyMap_mem (Some b) B m1 = Ret (t, y)" using StringfyMap_mem_total O by blast
  with assms(7,8) b(3) have B: "StringfyMap_mem (Some b) B m1 = Ret (t, m2)" by (simp add: verify_start_def)
  have f: "Suc (length (StringfyMap B)) \<le> length (m_array m1 a)" using b(5) assms(4) by simp
  have "m_array m2 a = (StringfyMap B @ ''&'') @ drop (Suc (length (StringfyMap B))) (m_array m1 a)"
    using StringfyMap_mem_over [OF _ assms(3) b(2,4) f B] O by blast
  then have "read_opt m2 s = StringfyMap B" using assms(4) by (simp add: b(1) read_opt_def read_slice_def)
  with O show ?thesis by (simp add: st verify_finish_def VerifySignMap_def assms(6))
qed

lemma read_message_ok:
  assumes "mem_ok m"
  shows "\<exists>b m'. read_message choice d m = Ret (b, buf_Bytes b m', m') \<and> mem_ok m' \<and> held b m' \<and> content m' b = d
    \<and> (\<forall>c. held c m \<longrightarrow> c \<noteq> b \<and> held c m' \<and> m_buf m' c = m_buf m c \<and> content m' c = content m c)
    \<and> (\<forall>a. choice = Some b \<and> b \<in> set (m_pool m) \<and> m_buf m b = (a, 0) \<and> length d \<le> length (m_array m a) \<longrightarrow>
         m_array m' a = d @ drop (length d) (m_array m a))"
proof -
  obtain b m0 where g: "ByteBufferPool_Get (0, 2048) choice m = Ret (b, m0)" "mem_ok m0" "held b m0" "snd (m_buf m0 b) = 0"
    "\<forall>a<m_arrays m. m_array m0 a = m_array m a" "\<forall>c. held c m \<longrightarrow> held c m0 \<and> c \<noteq> b \<and> m_buf m0 c = m_buf m c"
    "\<forall>c. choice = Some c \<and> c \<in> set (m_pool m) \<longrightarrow> b = c \<and> m_buf m0 b = m_buf m b"
    using get_ok [OF assms, of 2048 choice] by blast
  let ?m = "buf_Write b d m0"
  note W = write_ok [OF g(2,3), where s = d]
  have c0: "content m0 b = []" using g(4) by (simp add: read_slice_def buf_Bytes_def)
  have keep: "c \<noteq> b \<and> held c ?m \<and> m_buf ?m c = m_buf m c \<and> content ?m c = content m c" if "held c m" for c
  proof -
    have c: "held c m0" "c \<noteq> b" "m_buf m0 c = m_buf m c" using g(6) that by auto
    have lt: "fst (m_buf m c) < m_arrays m" using mem_okD(1) [OF assms, of c] that by (simp add: held_def)
    have cb: "c < m_bufs m0" "b < m_bufs m0" using c(1) g(3) by (simp_all add: held_def)
    have "m_array ?m (fst (m_buf m0 c)) = m_array m0 (fst (m_buf m0 c))"
      using mem_okD(1) [OF g(2) cb(1)] mem_okD(3) [OF g(2) cb] c(2) by (intro W(8)) auto
    then have "m_array ?m (fst (m_buf m c)) = m_array m (fst (m_buf m c))" using g(5) lt by (simp add: c(3))
    moreover have "m_buf ?m c = m_buf m c" using W(7) [OF c(2)] c(3) by simp
    ultimately show ?thesis using c(1,2) W(5,6) by (simp add: held_def read_slice_def buf_Bytes_def)
  qed
  have over: "m_array ?m a = d @ drop (length d) (m_array m a)"
    if "choice = Some b" "b \<in> set (m_pool m)" "m_buf m b = (a, 0)" "length d \<le> length (m_array m a)" for a
  proof -
    have "m_buf m0 b = (a, 0)" using g(7) that by auto
    moreover have "b < m_bufs m" using assms that(2) by (auto simp: mem_ok_def)
    then have "a < m_arrays m" using mem_okD(1) [OF assms] that(3) by fastforce
    then have "m_array m0 a = m_array m a" using g(5) by blast
    ultimately show ?thesis using that(4) by (simp add: buf_Write_def)
  qed
  have r: "read_message choice d m = Ret (b, buf_Bytes b ?m, ?m)" using g(1) by (simp add: read_message_def Let_def)
  show ?thesis
    using r W(1-3) c0 keep over by (intro exI [of _ b] exI [of _ ?m] conjI) (assumption, simp_all)
qed

text \<open>C19. A queued message is the line's own only while its read loop runs: then no other reading changes it. Once the loop has
  returned, the next message any line reads into that buffer replaces it, also for the reader of the queue.\<close>

theorem queued_message_overwritten:
  assumes "mem_ok m" "read_message choice d m = Ret (b, s, m1)"
    and "read_message choice2 d2 m1 = Ret (b2, s2, m2)"
    and "m3 = read_loop_return [b] m1" "read_message (Some b) d3 m3 = Ret (b3, s3, m4)"
    and "length d \<le> length d3" "length d3 \<le> length (m_array m1 (fst s))"
  shows "read_slice m1 s = d \<and> read_slice m2 s = d \<and> read_slice m4 s3 = d3 \<and> read_slice m4 s = take (length d) d3"
proof -
  have R: "mem_ok m1" "held b m1" "content m1 b = d" "s = buf_Bytes b m1"
    using read_message_ok [OF assms(1), of choice d] assms(2) by auto
  have "content m2 b = content m1 b \<and> m_buf m2 b = m_buf m1 b"
    using read_message_ok [OF R(1), of choice2 d2] assms(3) R(2) by auto
  then have live: "read_slice m2 s = d" using R(3,4) unfolding buf_Bytes_def by metis
  obtain a n where bn: "m_buf m1 b = (a, n)" by (cases "m_buf m1 b")
  note P = put_ok [OF R(1,2)]
  have m3: "m3 = ByteBufferPool_Put b m1" using assms(4) by (simp add: read_loop_return_def)
  have b3: "b \<in> set (m_pool m3)" "m_buf m3 b = (a, 0)" "m_array m3 = m_array m1"
    using P(2,3) bn by (simp_all add: m3 ByteBufferPool_Put_def buf_Reset_def buf_Truncate_def Let_def)
  have ok3: "mem_ok m3" using P(1) m3 by simp
  have get: "ByteBufferPool_Get (0, 2048) (Some b) m3 = Ret (b, m3\<lparr>m_pool := remove1 b (m_pool m3)\<rparr>)"
    using b3(1) by (simp add: ByteBufferPool_Get_def)
  then have "b3 = b" using assms(5) by (simp add: read_message_def Let_def)
  with read_message_ok [OF ok3, of "Some b" d3] assms(5) b3 assms(7) bn R(4)
  have "content m4 b = d3" "s3 = buf_Bytes b m4" "m_array m4 a = d3 @ drop (length d3) (m_array m1 a)"
    by (auto simp: buf_Bytes_def)
  moreover have "n = length d"
    using R(3,4) mem_okD(2) [OF R(1), of b] R(2) bn by (auto simp: read_slice_def buf_Bytes_def held_def min_def)
  ultimately show ?thesis using R(3,4) live bn assms(6) by (simp add: read_slice_def buf_Bytes_def)
qed

section \<open>Witnesses\<close>

definition empty_mem :: mem where
  "empty_mem = \<lparr>m_array = (\<lambda>_. []), m_arrays = 0, m_buf = (\<lambda>_. (0, 0)), m_bufs = 0, m_pool = []\<rparr>"

lemma empty_mem_ok: "mem_ok empty_mem" by (simp add: mem_ok_def empty_mem_def)

text \<open>A signature that is the text.\<close>

definition text_crypt :: crypto_lib where
  "text_crypt = (demo_crypt True)\<lparr>cl_verify := (\<lambda>_ t s. t = demo_text s)\<rparr>"

lemma one_entry: "StringfyMap [(k, v)] = k @ ''='' @ v" by (simp add: StringfyMap_def)

lemma pooled_verify_alone_witness:
  "\<exists>st m'. verify_start text_crypt None [(''a'', ''1'')] ''a=1'' empty_mem = (st, m')
    \<and> verify_finish text_crypt (replicate 32 0) st m' = Ret (Inr True)"
proof -
  obtain st m' where v: "verify_start text_crypt None [(''a'', ''1'')] ''a=1'' empty_mem = (st, m')" by (metis prod.exhaust)
  have "VerifySignMap text_crypt (replicate 32 0) [(''a'', ''1'')] ''a=1'' = Ret (Inr True)"
    by (simp add: VerifySignMap_def one_entry text_crypt_def demo_crypt_def demo_bytes_text)
  then show ?thesis using pooled_verify_alone [OF empty_mem_ok v, of "replicate 32 0"] v by auto
qed

lemma verify_race_witness:
  "\<exists>st m1 m2 st2. verify_start text_crypt None [(''a'', ''1'')] ''b=2'' empty_mem = (st, m1)
    \<and> verify_start text_crypt (Some (hd (m_pool m1))) [(''b'', ''2'')] ''b=2'' m1 = (st2, m2)
    \<and> verify_finish text_crypt (replicate 32 0) st m1 = Ret (Inr False) \<and> verify_finish text_crypt (replicate 32 0) st m2 = Ret (Inr True)"
proof -
  obtain st m1 where a: "verify_start text_crypt None [(''a'', ''1'')] ''b=2'' empty_mem = (st, m1)" by (metis prod.exhaust)
  obtain st2 m2 where b: "verify_start text_crypt (Some (hd (m_pool m1))) [(''b'', ''2'')] ''b=2'' m1 = (st2, m2)" by (metis prod.exhaust)
  have d: "cl_decode text_crypt ''b=2'' = Some (demo_bytes ''b=2'')" by (simp add: text_crypt_def demo_crypt_def)
  have l: "length (StringfyMap [(''a'', ''1'')]) = length (StringfyMap [(''b'', ''2'')])" by (simp add: one_entry)
  have "VerifySignMap text_crypt (replicate 32 0) [(''a'', ''1'')] ''b=2'' = Ret (Inr False)"
    "VerifySignMap text_crypt (replicate 32 0) [(''b'', ''2'')] ''b=2'' = Ret (Inr True)"
    by (simp_all add: VerifySignMap_def one_entry text_crypt_def demo_crypt_def demo_bytes_text)
  then show ?thesis
    using verify_race [OF empty_mem_ok _ _ l a d b d, of "replicate 32 0"] a b by auto
qed

lemma queued_message_overwritten_witness:
  "\<exists>b s m1 b3 s3 m4. read_message None ''hi'' empty_mem = Ret (b, s, m1)
    \<and> read_message (Some b) ''other'' (read_loop_return [b] m1) = Ret (b3, s3, m4)
    \<and> read_slice m1 s = ''hi'' \<and> read_slice m4 s = ''ot''"
proof -
  have "read_message None ''hi'' empty_mem = Ret (0, (0, 2), \<lparr>m_array = (\<lambda>_. [])(0 := ''hi'' @ replicate 2046 (CHR 0x00)),
      m_arrays = 1, m_buf = (\<lambda>_. (0, 0))(0 := (0, 2)), m_bufs = 1, m_pool = []\<rparr>)" (is "_ = Ret (0, (0, 2), ?m1)")
    by (simp add: read_message_def ByteBufferPool_Get_def pool_New_def empty_mem_def buf_Write_def buf_Bytes_def Let_def)
       (simp add: numeral_2_eq_2)
  then have r: "read_message None ''hi'' empty_mem = Ret (0, (0, 2), ?m1)" .
  from read_message_ok [OF empty_mem_ok, of None "''hi''"] r have ok: "mem_ok ?m1" by auto
  obtain b2 m2 where r2: "read_message None ''x'' ?m1 = Ret (b2, buf_Bytes b2 m2, m2)" using read_message_ok [OF ok] by blast
  have ok3: "mem_ok (read_loop_return [0] ?m1)"
    using put_ok(1) [OF ok, of 0] by (simp add: read_loop_return_def held_def)
  obtain b3 m4 where r3: "read_message (Some 0) ''other'' (read_loop_return [0] ?m1) = Ret (b3, buf_Bytes b3 m4, m4)"
    using read_message_ok [OF ok3] by blast
  have "read_slice m4 (0, 2) = take (length ''hi'') ''other''" "read_slice ?m1 (0, 2) = ''hi''"
    using queued_message_overwritten [OF empty_mem_ok r r2 refl r3] by simp_all
  with r r3 show ?thesis by auto
qed

section \<open>Pools of objects\<close>

text \<open>\<open>ObjectPool\<close>: objects live at addresses, and the pool holds addresses; \<open>made\<close> is what \<open>newFunc\<close> returns.\<close>

record 'o objects =
  ob_at :: "nat \<Rightarrow> 'o"
  ob_next :: nat
  ob_pool :: "nat list"

definition ObjectPool_Get :: "'o \<Rightarrow> nat option \<Rightarrow> 'o objects \<Rightarrow> nat \<times> 'o objects" where
  "ObjectPool_Get made choice m =
     (let new = (ob_next m, m\<lparr>ob_at := (ob_at m)(ob_next m := made), ob_next := Suc (ob_next m)\<rparr>)
      in case choice of
           Some a \<Rightarrow> if a \<in> set (ob_pool m) then (a, m\<lparr>ob_pool := remove1 a (ob_pool m)\<rparr>) else new
         | None \<Rightarrow> new)"

definition ObjectPool_Put :: "('o \<Rightarrow> 'o) \<Rightarrow> nat \<Rightarrow> 'o objects \<Rightarrow> 'o objects" where
  "ObjectPool_Put Reset a m = m\<lparr>ob_at := (ob_at m)(a := Reset (ob_at m a)), ob_pool := a # ob_pool m\<rparr>"

text \<open>Every pooled object was made and is clean, and is pooled once.\<close>

definition objects_ok :: "('o \<Rightarrow> bool) \<Rightarrow> 'o objects \<Rightarrow> bool" where
  "objects_ok clean m \<longleftrightarrow> distinct (ob_pool m) \<and> (\<forall>a\<in>set (ob_pool m). a < ob_next m \<and> clean (ob_at m a))"

definition ob_held :: "nat \<Rightarrow> 'o objects \<Rightarrow> bool" where
  "ob_held a m \<longleftrightarrow> a < ob_next m \<and> a \<notin> set (ob_pool m)"

text \<open>\<open>Get\<close> gives a clean object that nobody holds, and leaves the held ones alone.\<close>

lemma object_get:
  assumes "objects_ok clean m" "clean made" "ObjectPool_Get made choice m = (a, m')"
  shows "objects_ok clean m' \<and> clean (ob_at m' a) \<and> ob_held a m' \<and> \<not> ob_held a m"
    and "ob_held b m \<Longrightarrow> ob_held b m' \<and> ob_at m' b = ob_at m b"
  using assms by (auto simp: ObjectPool_Get_def objects_ok_def ob_held_def Let_def less_SucI split: option.splits if_splits)

lemma object_put:
  assumes "objects_ok clean m" "ob_held a m" "\<And>x. clean (Reset x)"
  shows "objects_ok clean (ObjectPool_Put Reset a m)"
    and "ob_held b m \<Longrightarrow> b \<noteq> a \<Longrightarrow> ob_held b (ObjectPool_Put Reset a m) \<and> ob_at (ObjectPool_Put Reset a m) b = ob_at m b"
  using assms by (auto simp: ObjectPool_Put_def objects_ok_def ob_held_def)

text \<open>An object that is put back twice is handed out twice.\<close>

lemma object_put_twice:
  assumes "ObjectPool_Get made (Some a) (ObjectPool_Put Reset a (ObjectPool_Put Reset a m)) = (x, m1)"
    and "ObjectPool_Get made (Some a) m1 = (y, m2)"
  shows "x = a \<and> y = a"
  using assms by (auto simp: ObjectPool_Get_def ObjectPool_Put_def split: if_splits)

end
