(* ===== verification/IpRegion.thy ===== *)
theory IpRegion
  imports GoStrings
begin

text \<open>
  \<open>pkg/ipregion/ipregion.go\<close>: the region of an address, read from the text the database's searcher returns. Loading the file,
  building the searcher and searching are arguments; the package's variable is the searcher, if there is one.
\<close>

record IPRegionFormated =
  rg_Country :: string
  rg_Area :: string
  rg_Province :: string
  rg_City :: string
  rg_ISP :: string

definition region_String :: "IPRegionFormated \<Rightarrow> string" where
  "region_String r = ''{ coutry: '' @ rg_Country r @ '', area: '' @ rg_Area r @ '', province: '' @ rg_Province r
     @ '', city: '' @ rg_City r @ '', isp: '' @ rg_ISP r @ '' }''"

definition getValue :: "string \<Rightarrow> string" where
  "getValue val = (if val = ''0'' then [] else val)"

definition parseSearchResult :: "string \<Rightarrow> string + IPRegionFormated" where
  "parseSearchResult result =
     (let splits = Split result ''|'' in
      if length splits \<noteq> 5 then Inl ''InvalidFormat''
      else Inr \<lparr>rg_Country = getValue (splits ! 0), rg_Area = getValue (splits ! 1), rg_Province = getValue (splits ! 2),
                rg_City = getValue (splits ! 3), rg_ISP = getValue (splits ! 4)\<rparr>)"

text \<open>\<open>load\<close> reads the file, \<open>build\<close> makes a searcher; when that fails the variable is nil.\<close>

definition region_Init :: "string + 'b \<Rightarrow> ('b \<Rightarrow> string + 's) \<Rightarrow> 's option \<Rightarrow> string option \<times> 's option" where
  "region_Init load build searcher =
     (case load of
        Inl err \<Rightarrow> (Some err, searcher)
      | Inr cBuff \<Rightarrow> (case build cBuff of Inl err \<Rightarrow> (Some err, None) | Inr s \<Rightarrow> (None, Some s)))"

definition region_Search :: "('s \<Rightarrow> string \<Rightarrow> string + string) \<Rightarrow> 's option \<Rightarrow> string \<Rightarrow> (string + IPRegionFormated) outcome" where
  "region_Search search searcher ip =
     (case searcher of
        None \<Rightarrow> Panic ''nil pointer dereference''
      | Some s \<Rightarrow> (case search s ip of Inl err \<Rightarrow> Ret (Inl err) | Inr result \<Rightarrow> Ret (parseSearchResult result)))"

text \<open>\<open>Release\<close>: what it closes, and the variable.\<close>

definition region_Release :: "'s option \<Rightarrow> 's option \<times> 's option" where
  "region_Release searcher = (searcher, None)"

section \<open>Lemmas\<close>

lemma split_at_char:
  "c \<notin> set x \<Longrightarrow> split_from [c] 0 cur (x @ c # s) = (rev cur @ x) # split_from [c] 0 [] s"
  "c \<notin> set x \<Longrightarrow> split_from [c] 0 cur x = [rev cur @ x]"
  by (induction x arbitrary: cur) (auto simp: HasPrefix_def)

lemma Split_Join: "xs \<noteq> [] \<Longrightarrow> \<forall>x\<in>set xs. c \<notin> set x \<Longrightarrow> Split (Join xs [c]) [c] = xs"
  unfolding Split_def
proof (induction xs "[c]" rule: Join.induct)
  case (3 x y zs)
  then show ?case using split_at_char(1) [of c x "[]"] by simp
qed (simp_all add: split_at_char)

lemma length_Split: "length (Split s [c]) = Suc (length (filter (\<lambda>x. x = c) s))"
proof -
  have "length (split_from [c] 0 cur s) = Suc (length (filter (\<lambda>x. x = c) s))" for cur
    by (induction s arbitrary: cur) (auto simp: HasPrefix_def)
  then show ?thesis by (simp add: Split_def)
qed

section \<open>Properties\<close>

text \<open>A search answers with the five fields the database wrote between bars, zero as empty; a text with another number of
  bars is an error. After an \<open>Init\<close> that could not build the searcher, and after \<open>Release\<close>, a search panics.\<close>

theorem region_lookup:
  assumes "load = Inr buf" "build buf = Inr s" "search s ip = Inr ans"
  shows "(\<forall>c a p t i. ans = Join [c, a, p, t, i] ''|'' \<and> (\<forall>x\<in>{c, a, p, t, i}. CHR ''|'' \<notin> set x) \<longrightarrow>
      region_Search search (snd (region_Init load build old)) ip = Ret (Inr \<lparr>rg_Country = getValue c, rg_Area = getValue a,
        rg_Province = getValue p, rg_City = getValue t, rg_ISP = getValue i\<rparr>))
    \<and> (length (filter (\<lambda>x. x = CHR ''|'') ans) \<noteq> 4 \<longrightarrow>
      region_Search search (snd (region_Init load build old)) ip = Ret (Inl ''InvalidFormat''))
    \<and> \<not> is_ret (region_Search search (snd (region_Init load (\<lambda>_. Inl err) old)) ip)
    \<and> \<not> is_ret (region_Search search (snd (region_Release old)) ip)"
proof -
  have S: "region_Search search (snd (region_Init load build old)) ip = Ret (parseSearchResult ans)"
    using assms by (simp add: region_Search_def region_Init_def)
  have "parseSearchResult (Join [c, a, p, t, i] ''|'') = Inr \<lparr>rg_Country = getValue c, rg_Area = getValue a,
      rg_Province = getValue p, rg_City = getValue t, rg_ISP = getValue i\<rparr>"
    if "\<forall>x\<in>{c, a, p, t, i}. CHR ''|'' \<notin> set x" for c a p t i
  proof -
    have "Split (Join [c, a, p, t, i] ''|'') ''|'' = [c, a, p, t, i]" using that by (intro Split_Join) auto
    then show ?thesis by (simp add: parseSearchResult_def del: Join.simps)
  qed
  moreover have "parseSearchResult ans = Inl ''InvalidFormat''" if "length (filter (\<lambda>x. x = CHR ''|'') ans) \<noteq> 4"
    using that length_Split [of ans "CHR ''|''"] by (simp add: parseSearchResult_def)
  ultimately show ?thesis using S assms(1) by (auto simp: region_Search_def region_Init_def region_Release_def)
qed

lemma region_lookup_witness:
  "region_Search (\<lambda>_ _. Inr (Join [''CN'', ''0'', ''SC'', ''CD'', ''ISP''] ''|'')) (snd (region_Init (Inr ()) (\<lambda>_. Inr ()) None)) ''1.1.1.1''
     = Ret (Inr \<lparr>rg_Country = getValue ''CN'', rg_Area = getValue ''0'', rg_Province = getValue ''SC'', rg_City = getValue ''CD'',
         rg_ISP = getValue ''ISP''\<rparr>)"
proof -
  have n: "\<forall>x\<in>{''CN'', ''0'', ''SC'', ''CD'', ''ISP''}. CHR ''|'' \<notin> set x" by simp
  show ?thesis 
    by (rule region_lookup [where load = "Inr ()" and build = "\<lambda>_. Inr ()" and search = "\<lambda>_ _. Inr (Join [''CN'', ''0'', ''SC'', ''CD'', ''ISP''] ''|'')"
          and s = "()" and buf = "()", OF refl refl refl, THEN conjunct1, rule_format]) (use n in simp)
qed

end
