(* ===== verification/WorkflowManager.thy ===== *)
theory WorkflowManager
  imports Workflow
begin

text \<open>
  \<open>pkg/workflow/manager.go\<close>: launching a stored workflow and the pages of its lists. What the database answers to the selects is
  an argument: an error or the row, the count, and the rows of a limit and an offset. Ints have 64 bits.
\<close>

text \<open>\<open>selected\<close> is the stored workflow's task names.\<close>

definition Launch ::
    "string + string list \<Rightarrow> task_registry \<Rightarrow> string option \<Rightarrow> (nat \<Rightarrow> wf_env) \<Rightarrow> string option \<Rightarrow> MapX
       \<Rightarrow> string + (string option outcome \<times> wf_session \<times> wf_task list)" where
  "Launch selected tf insertErr env finishErr input =
     (case selected of
        Inl err \<Rightarrow> Inl err
      | Inr names \<Rightarrow> run_workflow tf names insertErr env finishErr input)"

record 'r ListResult =
  lr_Total :: int
  lr_Items :: "'r list"

text \<open>\<open>List\<close> and \<open>ListSessions\<close>, which differ in the selects: the second select's error comes with a result.\<close>

definition List_page ::
    "string + int \<Rightarrow> (int \<Rightarrow> int \<Rightarrow> string option \<times> 'r list) \<Rightarrow> int64 \<Rightarrow> int64 \<Rightarrow> 'r ListResult option \<times> string option" where
  "List_page count select page pageSize =
     (case count of
        Inl err \<Rightarrow> (None, Some err)
      | Inr n \<Rightarrow>
          (let (err, items) = select (sint pageSize) (sint ((page - 1) * pageSize))
           in (Some \<lparr>lr_Total = n, lr_Items = items\<rparr>, err)))"

definition ListSessionTasks :: "string option \<times> 'r list \<Rightarrow> 'r list \<times> string option" where
  "ListSessionTasks answer = (snd answer, fst answer)"

text \<open>A table whose rows have a fixed order answers a limit and an offset with that part of them.\<close>

definition page_laws :: "(int \<Rightarrow> int \<Rightarrow> string option \<times> 'r list) \<Rightarrow> 'r list \<Rightarrow> bool" where
  "page_laws select rows \<longleftrightarrow> (\<forall>l f. 0 < l \<and> 0 \<le> f \<longrightarrow> select l f = (None, take (nat l) (drop (nat f) rows)))"

lemma pages_concat: "concat (map (\<lambda>p. take n (drop (p * n) rows)) [0..<k]) = take (k * n) rows"
proof (induction k)
  case (Suc k)
  have "take (k * n) rows @ take n (drop (k * n) rows) = take (k * n + n) rows" by (simp add: take_add)
  with Suc show ?case by (simp add: add.commute)
qed simp

text \<open>The pages from 1 on, one after another, are the rows: \<open>k\<close> pages of \<open>n\<close> hold the first \<open>k n\<close> of them, each once and in
  order, and every page shows the number of all.\<close>

theorem list_pages:
  assumes "page_laws select rows" "0 < n" "k * n < 2 ^ 63"
  shows "(\<forall>p<k. \<exists>items. List_page (Inr (int (length rows))) select (word_of_int (int p + 1)) (word_of_int (int n))
        = (Some \<lparr>lr_Total = int (length rows), lr_Items = items\<rparr>, None))
    \<and> concat (map (\<lambda>p. lr_Items (the (fst (List_page (Inr (int (length rows))) select (word_of_int (int p + 1)) (word_of_int (int n)))))) [0..<k])
        = take (k * n) rows"
proof -
  have page: "List_page (Inr (int (length rows))) select (word_of_int (int p + 1)) (word_of_int (int n))
      = (Some \<lparr>lr_Total = int (length rows), lr_Items = take n (drop (p * n) rows)\<rparr>, None)" if p: "p < k" for p
  proof -
    have "p * n < 2 ^ 63" using p assms(3) by (metis less_imp_le_nat mult_le_mono1 order_le_less_trans)
    then have off: "sint (word_of_int (int (p * n)) :: int64) = int (p * n)"
      by (intro sint_word_of_int_64) (simp_all flip: of_nat_mult add: of_nat_less_numeral_power_cancel_iff)
    have "n \<le> k * n" using p by (cases k) simp_all
    then have "n < 2 ^ 63" using assms(3) by (rule order_le_less_trans)
    then have l: "sint (word_of_int (int n) :: int64) = int n"
      by (intro sint_word_of_int_64) (simp_all add: of_nat_less_numeral_power_cancel_iff)
    have "(word_of_int (int p + 1) - 1) * word_of_int (int n) = (word_of_int (int (p * n)) :: int64)" by simp
    then show ?thesis
      using assms(1,2) off l by (simp add: List_page_def page_laws_def nat_mult_distrib)
  qed
  have "map (\<lambda>p. lr_Items (the (fst (List_page (Inr (int (length rows))) select (word_of_int (int p + 1)) (word_of_int (int n)))))) [0..<k]
      = map (\<lambda>p. take n (drop (p * n) rows)) [0..<k]"
  proof (rule map_cong [OF refl])
    fix p assume "p \<in> set [0..<k]"
    then have "p < k" by simp
    from page [OF this] show "lr_Items (the (fst (List_page (Inr (int (length rows))) select (word_of_int (int p + 1)) (word_of_int (int n)))))
      = take n (drop (p * n) rows)" by (simp only: fst_conv option.sel ListResult.select_convs)
  qed
  then have "concat (map (\<lambda>p. lr_Items (the (fst (List_page (Inr (int (length rows))) select (word_of_int (int p + 1)) (word_of_int (int n)))))) [0..<k])
      = take (k * n) rows" by (simp only: pages_concat)
  with page show ?thesis by blast
qed

lemma list_pages_witness:
  "concat (map (\<lambda>p. lr_Items (the (fst (List_page (Inr 5) (\<lambda>l f. (None, take (nat l) (drop (nat f) ''abcde'')))
     (word_of_int (int p + 1)) (word_of_int (int 2)))))) [0..<3]) = ''abcde''"
proof -
  have l: "page_laws (\<lambda>l f. (None, take (nat l) (drop (nat f) ''abcde''))) ''abcde''" by (simp add: page_laws_def)
  show ?thesis using list_pages [OF l, of 2 3] by simp
qed

end
