(* ===== verification/Statements.thy ===== *)
theory Statements
  imports WorkflowManager DbValues Logging "HOL-Library.Multiset"
begin

text \<open>
  The statements that \<open>pkg/db/bun.go\<close>'s generic wrappers, \<open>pkg/workflow/manager.go\<close>'s \<open>Update\<close> and the log store
  build with bun, and the hook of \<open>internal/app/models/tasks\<close>. A statement is what was put into the query; running one
  against the database is an argument. A map is visited in any order, so \<open>updates\<close> is a list in the order of the visit.
\<close>

section \<open>Statements\<close>

datatype statement_kind = Select | Insert | Update | Delete

text \<open>A model is passed by pointer or as a value; \<open>st_rows\<close> are its rows, one for a struct and several for a slice,
  each with its columns other than the key.\<close>

datatype model_arg = ByPointer | ByValue

record 'v statement =
  st_kind :: statement_kind
  st_model :: model_arg
  st_rows :: "(string \<times> 'v) list list"
  st_where :: "(string \<times> 'v) list"
  st_set :: "(string \<times> 'v) list"

definition Where :: "string \<Rightarrow> 'v \<Rightarrow> 'v statement \<Rightarrow> 'v statement" where
  "Where c v q = q\<lparr>st_where := st_where q @ [(c, v)]\<rparr>"

definition SetColumn :: "string \<Rightarrow> 'v \<Rightarrow> 'v statement \<Rightarrow> 'v statement" where
  "SetColumn c v q = q\<lparr>st_set := st_set q @ [(c, v)]\<rparr>"

type_synonym ('v, 'd) runner = "'v statement \<Rightarrow> 'd \<Rightarrow> db_error option \<times> 'd"

definition new_query :: "statement_kind \<Rightarrow> model_arg \<Rightarrow> (string \<times> 'v) list list \<Rightarrow> 'v statement" where
  "new_query k m rows = \<lparr>st_kind = k, st_model = m, st_rows = rows, st_where = [], st_set = []\<rparr>"

text \<open>\<open>zero\<close> is the zero value of the type parameter, of which \<open>Update\<close> and \<open>Delete\<close> pass a pointer. \<open>Select\<close> and
  \<open>Insert\<close> pass what they are given.\<close>

definition db_Update :: "('v, 'd) runner \<Rightarrow> (string \<times> 'v) list \<Rightarrow> ('v statement \<Rightarrow> 'v statement) \<Rightarrow> 'd \<Rightarrow> db_error option \<times> 'd" where
  "db_Update run zero fn d = run (fn (new_query Update ByPointer [zero])) d"

definition db_Select :: "('v, 'd) runner \<Rightarrow> model_arg \<Rightarrow> (string \<times> 'v) list \<Rightarrow> ('v statement \<Rightarrow> 'v statement) \<Rightarrow> 'd \<Rightarrow> db_error option \<times> 'd" where
  "db_Select run desc row fn d = run (fn (new_query Select desc [row])) d"

definition db_Insert :: "('v, 'd) runner \<Rightarrow> model_arg \<Rightarrow> (string \<times> 'v) list \<Rightarrow> 'd \<Rightarrow> db_error option \<times> 'd" where
  "db_Insert run src row d = run (new_query Insert src [row]) d"

definition db_Delete :: "('v, 'd) runner \<Rightarrow> (string \<times> 'v) list \<Rightarrow> ('v statement \<Rightarrow> 'v statement) \<Rightarrow> 'd \<Rightarrow> db_error option \<times> 'd" where
  "db_Delete run zero fn d = run (fn (new_query Delete ByPointer [zero])) d"

section \<open>The log store\<close>

definition DBStore_Write :: "('v, 'd) runner \<Rightarrow> (string \<times> 'v) list \<Rightarrow> 'd \<Rightarrow> db_error option \<times> 'd" where
  "DBStore_Write run log d = run (new_query Insert ByPointer [log]) d"

text \<open>Many logs in one statement: the slice is passed as it is.\<close>

definition DBStore_WriteMany :: "('v, 'd) runner \<Rightarrow> (string \<times> 'v) list list \<Rightarrow> 'd \<Rightarrow> db_error option \<times> 'd" where
  "DBStore_WriteMany run logs d = run (new_query Insert ByValue logs) d"

section \<open>Workflows\<close>

text \<open>The sessions of a workflow: \<open>sessions\<close> answers the count and the page of the rows whose \<open>flow_id\<close> is the
  workflow's, latest first.\<close>

definition ListSessions ::
    "('u \<Rightarrow> string + int) \<Rightarrow> ('u \<Rightarrow> int \<Rightarrow> int \<Rightarrow> string option \<times> 'r list) \<Rightarrow> 'u \<Rightarrow> int64 \<Rightarrow> int64
       \<Rightarrow> 'r ListResult option \<times> string option" where
  "ListSessions counted select workflowID page pageSize = List_page (counted workflowID) (select workflowID) page pageSize"

definition Workflow_Update ::
    "('v, 'd) runner \<Rightarrow> (string \<times> 'v) list \<Rightarrow> 'v \<Rightarrow> (string \<times> 'v) list \<Rightarrow> 'd \<Rightarrow> db_error option \<times> 'd" where
  "Workflow_Update run zero workflowID updates d =
     db_Update run zero (\<lambda>q. fold (\<lambda>(k, v). SetColumn k v) updates (Where ''id'' workflowID q)) d"

section \<open>Search tasks\<close>

datatype TaskStatus = TaskStatusPending | TaskStatusRunning | TaskStatusCompleted | TaskStatusFailed

record TaskWebSearch =
  tw_ID :: string
  tw_Keywords :: string
  tw_TraceID :: string
  tw_Progress :: string
  tw_Status :: TaskStatus
  tw_StatusText :: string
  tw_Result :: string
  tw_CreatedAt :: int
  tw_UpdatedAt :: int
  tw_SearchAt :: "int option"
  tw_FinishAt :: "int option"

text \<open>The two readings of the clock; a query that is neither an insert nor an update leaves the row.\<close>

definition TaskWebSearch_BeforeAppendModel :: "int \<Rightarrow> int \<Rightarrow> statement_kind \<Rightarrow> TaskWebSearch \<Rightarrow> TaskWebSearch" where
  "TaskWebSearch_BeforeAppendModel t1 t2 query u =
     (case query of
        Insert \<Rightarrow> u\<lparr>tw_CreatedAt := t1, tw_UpdatedAt := t2\<rparr>
      | Update \<Rightarrow> u\<lparr>tw_UpdatedAt := t1\<rparr>
      | _ \<Rightarrow> u)"

section \<open>What the database promises\<close>

text \<open>A table is a list of rows, without those that are deleted softly. An update that succeeds writes the set columns, or the model's columns when none is
  set, into the rows that meet every condition, and leaves the others.\<close>

type_synonym 'v row = "string \<Rightarrow> 'v"

definition meets :: "(string \<times> 'v) list \<Rightarrow> 'v row \<Rightarrow> bool" where
  "meets ws r \<longleftrightarrow> list_all (\<lambda>(c, v). r c = v) ws"

definition assign :: "(string \<times> 'v) list \<Rightarrow> 'v row \<Rightarrow> 'v row" where
  "assign cs r = (\<lambda>c. case map_of cs c of None \<Rightarrow> r c | Some v \<Rightarrow> v)"

definition update_law :: "('v, 'd) runner \<Rightarrow> ('d \<Rightarrow> 'v row list) \<Rightarrow> bool" where
  "update_law run rows \<longleftrightarrow>
     (\<forall>q d d'. run q d = (None, d') \<and> st_kind q = Update \<and> distinct (map fst (st_set q)) \<longrightarrow>
        rows d' = map (\<lambda>r. if meets (st_where q) r then assign (if st_set q = [] then concat (st_rows q) else st_set q) r else r) (rows d))"

text \<open>bun refuses a model that is a plain value before it reaches the database.\<close>

definition pointer_law :: "('v, 'd) runner \<Rightarrow> bool" where
  "pointer_law run \<longleftrightarrow> (\<forall>q d. st_model q = ByValue \<longrightarrow> (\<exists>err. run q d = (Some err, d)))"

section \<open>Properties\<close>

lemma fold_SetColumn:
  "fold (\<lambda>(k, v). SetColumn k v) us q = q\<lparr>st_set := st_set q @ us\<rparr>"
  by (induction us arbitrary: q) (auto simp: SetColumn_def)

lemma distinct_keys_perm: "distinct (map fst us) \<Longrightarrow> mset us' = mset us \<Longrightarrow> distinct (map fst us')"
proof -
  assume d: "distinct (map fst us)" and "mset us' = mset us"
  then have "mset (map fst us') = mset (map fst us)" by simp
  from mset_eq_imp_distinct_iff [OF this] d show ?thesis by simp
qed

lemma assign_perm: "distinct (map fst us) \<Longrightarrow> mset us' = mset us \<Longrightarrow> assign us' = assign us"
proof -
  assume d: "distinct (map fst us)" and m: "mset us' = mset us"
  from d m have "distinct (map fst us')" by (rule distinct_keys_perm)
  with d mset_eq_setD [OF m] have "map_of us' = map_of us" by (simp add: map_of_inject_set)
  then show ?thesis by (simp add: assign_def fun_eq_iff)
qed


text \<open>The log store passes its batches, and \<open>Insert\<close> and \<open>Select\<close> called as their comment asks pass their struct, as
  values: these calls return an error and store nothing.\<close>

theorem value_model_refused:
  assumes "pointer_law run"
  shows "(\<exists>err. DBStore_WriteMany run logs d = (Some err, d)) \<and> (\<exists>err. db_Insert run ByValue row d = (Some err, d))
    \<and> (\<exists>err. db_Select run ByValue row (fold (\<lambda>(c, v). Where c v) conditions) d = (Some err, d))"
proof -
  have "st_model (fold (\<lambda>(c, v). Where c v) conditions q) = st_model q" for q :: "'a statement"
    by (induction conditions arbitrary: q) (auto simp: Where_def)
  with assms show ?thesis
    by (simp add: pointer_law_def DBStore_WriteMany_def db_Insert_def db_Select_def new_query_def)
qed

section \<open>The default log store\<close>

lemma stamp_bind: "bind_outcome (stamp_all s st i logs) (\<lambda>batch. Ret (f batch)) = Ret w \<Longrightarrow> \<exists>batch. w = f batch"
  by (cases "stamp_all s st i logs") auto

lemma flush_refused: "flush stamps False w = Ret w' \<Longrightarrow> w_written w' = w_written w"
  by (auto simp: flush_def split: if_splits dest!: stamp_bind)

lemma turn_refused: "listen_turn r stamps False w = Some (Ret w') \<Longrightarrow> w_written w' = w_written w"
proof (cases r)
  case LogReady
  then show "listen_turn r stamps False w = Some (Ret w') \<Longrightarrow> w_written w' = w_written w"
    by (auto simp: listen_turn_def Let_def dest!: flush_refused split: if_splits option.splits list.splits)
qed (auto simp: listen_turn_def dest!: flush_refused split: if_splits option.splits)

lemma run_refused:
  "log_run es w = Some (Ret w') \<Longrightarrow> \<forall>r st ok. Turn r st ok \<in> set es \<longrightarrow> \<not> ok \<Longrightarrow> w_written w' = w_written w"
proof (induction es arbitrary: w)
  case (Cons e es)
  obtain w1 where s: "log_step e w = Some (Ret w1)" "log_run es w1 = Some (Ret w')"
    using Cons.prems(1) by (auto split: option.splits outcome.splits)
  have "w_written w1 = w_written w"
  proof (cases e)
    case (Post log)
    with s(1) show ?thesis by (auto simp: log_step_def post_def Let_def split: option.splits outcome.splits if_splits prod.splits)
  next
    case (Turn r st ok)
    with Cons.prems(2) have "\<not> ok" by auto
    with Turn s(1) show ?thesis by (auto simp: log_step_def dest: turn_refused)
  next
    case Fire
    with s(1) show ?thesis by (auto simp: log_step_def timer_fires_def split: if_splits)
  qed
  with Cons.IH [OF s(2)] Cons.prems(2) show ?case by auto
qed simp


section \<open>Witnesses\<close>

definition list_run :: "(string, string row list) runner" where
  "list_run q d =
     (if st_model q = ByValue then (Some (DbErr ''non-pointer''), d)
      else if st_kind q = Update
      then (None, map (\<lambda>r. if meets (st_where q) r then assign (if st_set q = [] then concat (st_rows q) else st_set q) r else r) d)
      else (None, d))"

lemma list_run_laws: "update_law list_run id" "pointer_law list_run"
  by (auto simp: update_law_def pointer_law_def list_run_def split: if_splits)

definition two_flows :: "string row list" where
  "two_flows = [(\<lambda>c. if c = ''id'' then ''w1'' else ''x''), (\<lambda>c. if c = ''id'' then ''w2'' else ''y'')]"


lemma value_model_refused_witness:
  "\<exists>err. DBStore_WriteMany list_run [[(''message'', ''a'')], [(''message'', ''b'')]] two_flows = (Some err, two_flows)"
  using value_model_refused [OF list_run_laws(2)] by blast


end
