(* ===== verification/Spec2Isabelle.thy ===== *)
theory Spec2Isabelle
  imports Snowflake SnowID Slices RedLock MessageQueue Workflow HubProofs Packet Codes Base64 Strs AuthProofs Sign ChatListen SSE RankingFuzzy Logging Rmq Times UsersRaces Limiter SitePages Cryptos Routes Config Negotiate Startup BufferPool IpRegion Statements
begin

text \<open>
  A verification library for the Go server library and application in this repository.

  The program. The packages under \<open>pkg/\<close> are a library: identifiers (\<open>ids\<close>, \<open>distribute/snowflake.go\<close>),
  containers and slice helpers (\<open>collection\<close>), dynamic maps (\<open>core/mapx.go\<close>), locks, counters and a queue
  over Redis and etcd (\<open>distribute\<close>), a cache over Redis (\<open>cache\<close>), a message queue over RabbitMQ (\<open>rmq\<close>),
  rankings (\<open>services\<close>), workflows (\<open>workflow\<close>), hubs for websockets and server-sent events (\<open>hub\<close>, \<open>sse\<close>),
  packets (\<open>bytes\<close>), ciphers (\<open>cryptos\<close>), HTTP clients and scrapers (\<open>httpex\<close>, \<open>scrapers\<close>), database values and
  access (\<open>db\<close>), number codes, strings, times and address lookups. The application under \<open>internal/app\<close> is a gin
  server: a request passes recovery, the access log and CORS, and then, by its route, the middleware for replays,
  authentication, signatures and encryption, each of which reads headers and cookies and values that earlier ones
  saved in the context; it ends in a handler of the authentication service, of the users or of one of the hubs.

  The theories, each after the code it models. Foundations:
  \<^item> \<open>Prelude\<close>: int64, int32 and byte as words, a call that returns or panics (\<open>outcome\<close>), runs of a generator
    over clock readings, the arithmetic of packed bit fields. \<open>GoStrings\<close>: what is used of \<open>strings\<close> and \<open>strconv\<close>, on
    byte strings. \<open>Regexps\<close>: what is used of \<open>regexp\<close> and \<open>unicode/utf8\<close>: expressions, a matcher by derivatives
    proved to accept what an expression stands for, rune counts of arbitrary bytes. \<open>Base64\<close>: \<open>RawURLEncoding\<close>, with
    the locale of text forms that it and the base64 form of a UID interpret.
  \<^item> \<open>IdGenerator\<close>: the interface of the generators as a locale (a step that moves a key forward, and an
    encoding that is monotone in it), with the order of whole runs proved in it. \<open>Snowflake\<close> and \<open>SnowID\<close>
    interpret it on \<open>SnowflakeMillis.Next\<close>, \<open>SnowflakeSecond.Next\<close> and \<open>NewID\<close>. The clock is a list of
    readings: a loop that waits consumes readings and gives \<open>None\<close> when they run out.
  \<^item> \<open>Collections\<close>: queue and stack as linked nodes in a heap, with the locale of the abstraction to lists
    that they interpret; the set over a possibly nil map. \<open>Slices\<close>: the slice helpers. \<open>MapX\<close>: dynamic values,
    \<open>GetValue\<close> and \<open>SetValue\<close> along paths, platforms. \<open>Codes\<close>, \<open>IdTypes\<close>, \<open>Strs\<close>, \<open>Times\<close>, \<open>IpRegion\<close>: number codes,
    the two id types in their text, JSON, binary and database forms, padding and validators, the calendar, regions.
  Distributed parts:
  \<^item> \<open>Redis\<close>: the Redis commands as a record of functions over an abstract store, their laws, and what the
    network does to a call (answered, lost before or after it ran). \<open>Locker\<close>: the Redis lock and the counters.
    \<open>RedLock\<close>: the redsync lock's extension goroutine and \<open>Unlock\<close> as a step relation with an invariant; the
    etcd lock. \<open>MessageQueue\<close>: consumption of a Redis stream, one round of the goroutine at a time. \<open>CacheClient\<close>:
    every method of the cache over a master and a replica. \<open>Ranking\<close>, \<open>RankingProofs\<close>, \<open>RankingFuzzy\<close>: the ranking
    service with its three scripts, its order, and its approximate ranks. \<open>Rmq\<close>: queues and client over a heap of Go
    channels.
  \<^item> \<open>Workflow\<close>: tasks, retries, parallel tasks, and the run of a workflow with its records. \<open>WorkflowManager\<close>: launching
    and listing. \<open>DbValues\<close>: JSON columns and database errors. \<open>Statements\<close>: the statements put into bun by the generic
    wrappers, by the workflow's update and by the log store. \<open>Logging\<close>: the log writer and its goroutine, one turn at
    a time.
  \<^item> \<open>Hub\<close>: lines, user lines and the hub in one heap; every iteration of a goroutine is one operation.
    \<open>HubProofs\<close>: the locale of a registry of members, its invariant over event sequences, its
    interpretation on the hub. \<open>Chat\<close> and \<open>ChatListen\<close>: the application's chat hub, its handlers and the goroutine that
    reads the hub's channels. \<open>SSE\<close>: the hub for server-sent events, which interprets the registry too.
  \<^item> \<open>Packet\<close>, \<open>Cryptos\<close>: packets, and the ciphers, signers and encodings of the library. \<open>Limiter\<close>: client addresses and
    rate limits. \<open>HttpClients\<close> and \<open>SitePages\<close>: calls, retries, waits between visits, and what is asked of a browser.
    \<open>BufferPool\<close>: pooled objects, and the pooled byte buffers on an explicit memory of arrays, with frame lemmas for the arrays that
    others own.
  The application:
  \<^item> \<open>Headers\<close>: requests, the gin context and what is saved in it. \<open>Auth\<close>: token store, login, refresh,
    logout, replay check, middleware; \<open>AuthProofs\<close>: their properties. \<open>Sign\<close>: the signing and encrypting
    middleware. \<open>Server\<close>: their composition around a handler. \<open>Negotiate\<close>: the keys that client and server agree on. \<open>Routes\<close>: the groups and routes of \<open>main\<close>, the chain of
    every route and how it is run. \<open>Users\<close>, \<open>UsersProofs\<close>, \<open>UsersRaces\<close>: the user store over database and cache, the
    agreement of the two, and overlapping calls. \<open>Startup\<close> and \<open>Config\<close>: initialisation, release and the ends of the
    process; the configuration's records and what components get of it.

  What the properties show. For the generators: order and uniqueness while the clock advances, decoding, and
  the runs that repeat an identifier. For the containers and the registries of the hubs: refinement of lists,
  sets and of the set of live members. For locks, queues and goroutines: what is released, bounded waiting, what is
  acknowledged, what is delivered and in which order, and the runs that lose a lock, a signal or a release. For
  packets, codes, identifiers and encodings: round trips and rejection of unsigned data. For requests: the routes of
  the application are served by the composed middleware; nobody passes the authentication and signature gates without
  the claims or the signature; a session from login to logout, and the races and windows that remain. For caches and
  rankings: reads are current after any sequence of calls, each request counts once. For memory: a pooled buffer is
  private until it is put back, and the slices that outlive it are overwritten.

  Bounds. Loops are structural, have a measure, or are partial functions whose result \<open>None\<close>
  means that the call does not return; a list of clock readings that is too short also gives \<open>None\<close>. The one fuel is
  the number of looks of a page's wait, which \<open>wait_ends\<close> shows to be enough. Go's
  \<open>int\<close> is a 64-bit word where overflow matters and an integer elsewhere; strings are lists of bytes.

  Parameters. The Redis server, redsync, etcd, AMQP, the databases, the browser, the marshalers, ciphers, hashes,
  signatures, the uuid parser, x/time/rate, the CORS library, floating point numbers and the random source are arguments; the
  theorems that need them name their laws (\<open>redis_laws\<close>, \<open>server_laws\<close>, \<open>cache_laws\<close>, \<open>auth_laws\<close>, \<open>uuid_laws\<close>,
  \<open>crypto_laws\<close>, \<open>dh_laws\<close>, \<open>aead_laws\<close>, \<open>rank_laws\<close>, \<open>float_laws\<close>, \<open>amqp_closes\<close>, \<open>codec_law\<close>, \<open>db_laws\<close>, \<open>users_laws\<close>,
  \<open>bucket_laws\<close>, \<open>page_laws\<close>, \<open>update_law\<close>, \<open>pointer_law\<close>), and each has a concrete instance.

  Not modelled: what is printed, the bytes on a connection, blocking on full channels of the hubs, data
  races on unprotected fields other than those of the buffer pools, \<open>times.Days\<close> (a floating point division of a
  duration), pool sizes and other settings handed to database and HTTP libraries, the scripts run inside a page, gin's
  redirects, the reading of the configuration file, the waiting for signals, compression, and the two programs that print a line.
\<close>

end
